(* ===== verification/Prelude.thy ===== *)
theory Prelude
  imports Main "HOL-Library.Word" "HOL-Library.Monad_Syntax"
begin

text \<open>
  Shared vocabulary: the fixed-width integer types of \<^verbatim>\<open>src/src/defs.h\<close>, the little-endian
  memory image of 16 and 32 bit integers (the packed structs of \<^verbatim>\<open>src/src/packets.h\<close> and the
  UF2 blocks are sent as raw memory on a little-endian host), partial overwriting of a buffer,
  C strings as bytes, and the list lemmas the components share.
\<close>

unbundle bit_operations_syntax

named_theorems layout \<open>sizes and lengths of memory images\<close>
named_theorems wire \<open>reading back fields of memory images\<close>

type_synonym u8 = "8 word"
type_synonym u16 = "16 word"
type_synonym u32 = "32 word"

section \<open>Little-endian memory images\<close>

definition le16 :: "u16 \<Rightarrow> u8 list" where
  "le16 x = [ucast x, ucast (drop_bit 8 x)]"

definition le32 :: "u32 \<Rightarrow> u8 list" where
  "le32 x = [ucast x, ucast (drop_bit 8 x), ucast (drop_bit 16 x), ucast (drop_bit 24 x)]"

definition get16 :: "u8 list \<Rightarrow> nat \<Rightarrow> u16" where
  "get16 b i = ucast (b ! i) OR push_bit 8 (ucast (b ! (i + 1)))"

definition get32 :: "u8 list \<Rightarrow> nat \<Rightarrow> u32" where
  "get32 b i = ucast (b ! i) OR push_bit 8 (ucast (b ! (i + 1)))
     OR push_bit 16 (ucast (b ! (i + 2))) OR push_bit 24 (ucast (b ! (i + 3)))"

lemma length_le16 [simp, layout]: "length (le16 x) = 2"
  by (simp add: le16_def)

lemma length_le32 [simp, layout]: "length (le32 x) = 4"
  by (simp add: le32_def)

lemma glue16: "ucast (ucast (x :: u16) :: u8) OR push_bit 8 (ucast (ucast (drop_bit 8 x) :: u8)) = x"
  by (rule bit_word_eqI) (auto simp: bit_simps)

lemma glue32:
  "ucast (ucast (x :: u32) :: u8) OR push_bit 8 (ucast (ucast (drop_bit 8 x) :: u8))
     OR push_bit 16 (ucast (ucast (drop_bit 16 x) :: u8))
     OR push_bit 24 (ucast (ucast (drop_bit 24 x) :: u8)) = x" (is "?l = x")
proof (rule bit_word_eqI)
  fix n
  assume "n < LENGTH(32)"
  then consider "n < 8" | "8 \<le> n" "n < 16" | "16 \<le> n" "n < 24" | "24 \<le> n" "n < 32"
    by fastforce
  then show "bit ?l n = bit x n"
    by cases (auto simp: bit_simps)
qed

lemma get16_le16 [simp, wire]: "get16 (xs @ le16 x @ ys) (length xs) = x"
  by (simp add: get16_def le16_def nth_append glue16)

lemma get32_le32 [simp, wire]: "get32 (xs @ le32 x @ ys) (length xs) = x"
  by (simp add: get32_def le32_def nth_append glue32)

lemma get16_at: "b = xs @ le16 x @ ys \<Longrightarrow> i = length xs \<Longrightarrow> get16 b i = x"
  by simp

lemma get32_at: "b = xs @ le32 x @ ys \<Longrightarrow> i = length xs \<Longrightarrow> get32 b i = x"
  by simp

section \<open>Buffers\<close>

text \<open>A store of \<open>bs\<close> at the start of a buffer, and at an offset.\<close>

definition overlay :: "'a list \<Rightarrow> 'a list \<Rightarrow> 'a list" where
  "overlay buf bs = bs @ drop (length bs) buf"

definition put_at :: "nat \<Rightarrow> 'a list \<Rightarrow> 'a list \<Rightarrow> 'a list" where
  "put_at i bs buf = take i buf @ bs @ drop (i + length bs) buf"

lemma length_overlay [simp, layout]:
  "length bs \<le> length buf \<Longrightarrow> length (overlay buf bs) = length buf"
  by (simp add: overlay_def)

lemma overlay_full [simp]: "length bs = length buf \<Longrightarrow> overlay buf bs = bs"
  by (simp add: overlay_def)

lemma overlay_Nil [simp]: "overlay buf [] = buf"
  by (simp add: overlay_def)

lemma take_overlay [simp]: "take (length bs) (overlay buf bs) = bs"
  by (simp add: overlay_def)

lemma take_overlay_eq: "n = length bs \<Longrightarrow> take n (overlay buf bs) = bs"
  by simp

lemma length_put_at [simp, layout]:
  "i + length bs \<le> length buf \<Longrightarrow> length (put_at i bs buf) = length buf"
  by (simp add: put_at_def)

section \<open>C strings\<close>

text \<open>
  A C string is kept as its characters before the terminating NUL; \<open>bytes\<close> are the characters
  as they stand in memory, \<open>cstr\<close> with the terminator.
\<close>

definition bytes :: "string \<Rightarrow> u8 list" where
  "bytes s = map of_char s"

definition cstr :: "string \<Rightarrow> u8 list" where
  "cstr s = bytes s @ [0]"

lemma length_bytes [simp, layout]: "length (bytes s) = length s"
  by (simp add: bytes_def)

lemma length_cstr [simp, layout]: "length (cstr s) = Suc (length s)"
  by (simp add: cstr_def)

lemma bytes_Nil [simp]: "bytes [] = []"
  by (simp add: bytes_def)

lemma bytes_append [simp]: "bytes (s @ t) = bytes s @ bytes t"
  by (simp add: bytes_def)

lemma unat_of_char [simp]: "unat (of_char c :: u8) = of_char c"
proof -
  have "(of_char c :: u8) = of_nat (of_char c)" by (simp only: of_nat_of_char)
  then show ?thesis by (simp add: unat_of_nat take_bit_eq_mod)
qed

lemma of_char_u8_inject [simp]: "(of_char c :: u8) = of_char d \<longleftrightarrow> c = d"
  by (metis unat_of_char of_char_eq_iff)

lemma of_char_u8_0: "(of_char c :: u8) = 0 \<longleftrightarrow> c = CHR 0x00"
proof -
  have "(of_char CHR 0x00 :: u8) = 0" by simp
  then show ?thesis by (metis of_char_u8_inject)
qed

text \<open>The characters of the bytes of a string.\<close>

definition string_of :: "u8 list \<Rightarrow> string" where
  "string_of b = map (\<lambda>x. char_of (unat x)) b"

lemma string_of_bytes [simp]: "string_of (bytes s) = s"
  by (induction s) (simp_all add: string_of_def bytes_def)

text \<open>A string without a NUL, as every C string is.\<close>

definition c_string :: "string \<Rightarrow> bool" where
  "c_string s \<longleftrightarrow> CHR 0x00 \<notin> set s"

lemma bytes_nonzero: "c_string s \<Longrightarrow> x \<in> set (bytes s) \<Longrightarrow> x \<noteq> 0"
  by (auto simp: bytes_def c_string_def of_char_u8_0)

lemma takeWhile_cstr: "c_string s \<Longrightarrow> takeWhile (\<lambda>x. x \<noteq> 0) (bytes s @ 0 # r) = bytes s"
  using bytes_nonzero by (subst takeWhile_append2) auto

text \<open>\<^verbatim>\<open>isspace\<close> and \<^verbatim>\<open>isgraph\<close> in the C locale; the program never sets another.\<close>

definition isspace :: "u8 \<Rightarrow> bool" where
  "isspace b \<longleftrightarrow> b = 32 \<or> (9 \<le> b \<and> b \<le> 13)"

definition isgraph :: "u8 \<Rightarrow> bool" where
  "isgraph b \<longleftrightarrow> 33 \<le> b \<and> b \<le> 126"

section \<open>Numbers\<close>

lemma unat_u16_small [simp]: "n < 65536 \<Longrightarrow> unat (of_nat n :: u16) = n"
  by (simp add: unat_of_nat take_bit_nat_eq_self)

lemma unat_u32_small [simp]: "n < 4294967296 \<Longrightarrow> unat (of_nat n :: u32) = n"
  by (simp add: unat_of_nat take_bit_nat_eq_self)

lemma unat_u8_bound [simp]: "unat (x :: u8) < 256"
  using unsigned_less [of x] by simp

lemma unat_u16_bound [simp]: "unat (x :: u16) < 65536"
  using unsigned_less [of x] by simp

lemma unat_u32_bound [simp]: "unat (x :: u32) < 4294967296"
  using unsigned_less [of x] by simp

section \<open>Printing numbers\<close>

definition digit :: "nat \<Rightarrow> char" where
  "digit n = ''0123456789ABCDEF'' ! n"

text \<open>\<^verbatim>\<open>%d\<close>, \<^verbatim>\<open>%3d\<close> and \<^verbatim>\<open>%08X\<close>.\<close>

fun dec :: "nat \<Rightarrow> string" where
  "dec n = (if n < 10 then [digit n] else dec (n div 10) @ [digit (n mod 10)])"

declare dec.simps [simp del]

definition pad3 :: "string \<Rightarrow> string" where
  "pad3 s = replicate (3 - length s) (CHR '' '') @ s"

definition hex8 :: "u32 \<Rightarrow> string" where
  "hex8 x = map (\<lambda>i. digit (unat x div 16 ^ i mod 16)) [7, 6, 5, 4, 3, 2, 1, 0]"

section \<open>Cutting a list into pieces\<close>

fun pieces :: "nat \<Rightarrow> 'a list \<Rightarrow> 'a list list" where
  "pieces n xs = (if xs = [] \<or> n = 0 then [] else take n xs # pieces n (drop n xs))"

declare pieces.simps [simp del]

lemma pieces_Nil [simp]: "pieces n [] = []"
  by (simp add: pieces.simps)

lemma pieces_step: "xs \<noteq> [] \<Longrightarrow> 0 < n \<Longrightarrow> pieces n xs = take n xs # pieces n (drop n xs)"
  by (subst pieces.simps) simp

lemma concat_pieces [simp]: "0 < n \<Longrightarrow> concat (pieces n xs) = xs"
  by (induction n xs rule: pieces.induct) (subst pieces.simps, auto)

lemma pieces_length: "p \<in> set (pieces n xs) \<Longrightarrow> 0 < length p \<and> length p \<le> n"
proof (induction n xs rule: pieces.induct)
  case (1 n xs)
  then show ?case
    by (cases "xs = [] \<or> n = 0") (auto simp: pieces.simps [of n xs])
qed

lemma pieces_nth:
  "0 < n \<Longrightarrow> i < length (pieces n xs) \<Longrightarrow> pieces n xs ! i = take n (drop (i * n) xs)"
proof (induction n xs arbitrary: i rule: pieces.induct)
  case (1 n xs)
  then have ne: "xs \<noteq> []" by auto
  show ?case
  proof (cases i)
    case (Suc j)
    then show ?thesis using 1 ne by (simp add: pieces_step add.commute)
  qed (use 1 ne in \<open>simp add: pieces_step\<close>)
qed

lemma length_pieces:
  "0 < n \<Longrightarrow> length (pieces n xs) = (if length xs mod n = 0 then length xs div n else length xs div n + 1)"
proof (induction n xs rule: pieces.induct)
  case (1 n xs)
  show ?case
  proof (cases "length xs < n")
    case True
    then show ?thesis using "1.prems" by (cases "xs = []") (simp_all add: pieces_step)
  next
    case False
    then have ne: "xs \<noteq> []" using "1.prems" by auto
    have "length xs = n + (length xs - n)" using False by simp
    then have "length xs div n = Suc ((length xs - n) div n)" "length xs mod n = (length xs - n) mod n"
      using "1.prems" by (simp_all add: le_div_geq le_mod_geq False)
    then show ?thesis using 1 ne by (simp add: pieces_step)
  qed
qed

end
