(* ===== verification/Crc32.thy ===== *)
theory Crc32
  imports Prelude
begin

text \<open>
  \<^verbatim>\<open>src/src/crc32.c\<close>: the table-driven CRC-32 the firmware installer compares with the
  brick's checksum. The table is the one of the source, entry by entry. The reference is the
  shift register the comment of the source describes: eight shift/xor steps per byte with the
  reflected polynomial. The lemmas show that the table is what eight such steps give, that the
  table-driven update is the bit-serial one, that the checksum can be computed in pieces, and
  that one changed byte changes the checksum.
\<close>

section \<open>The code\<close>

definition crc32_tab :: "u32 list" where
  "crc32_tab = [
    0x00000000, 0x77073096, 0xee0e612c, 0x990951ba, 0x076dc419, 0x706af48f,
    0xe963a535, 0x9e6495a3, 0x0edb8832, 0x79dcb8a4, 0xe0d5e91e, 0x97d2d988,
    0x09b64c2b, 0x7eb17cbd, 0xe7b82d07, 0x90bf1d91, 0x1db71064, 0x6ab020f2,
    0xf3b97148, 0x84be41de, 0x1adad47d, 0x6ddde4eb, 0xf4d4b551, 0x83d385c7,
    0x136c9856, 0x646ba8c0, 0xfd62f97a, 0x8a65c9ec, 0x14015c4f, 0x63066cd9,
    0xfa0f3d63, 0x8d080df5, 0x3b6e20c8, 0x4c69105e, 0xd56041e4, 0xa2677172,
    0x3c03e4d1, 0x4b04d447, 0xd20d85fd, 0xa50ab56b, 0x35b5a8fa, 0x42b2986c,
    0xdbbbc9d6, 0xacbcf940, 0x32d86ce3, 0x45df5c75, 0xdcd60dcf, 0xabd13d59,
    0x26d930ac, 0x51de003a, 0xc8d75180, 0xbfd06116, 0x21b4f4b5, 0x56b3c423,
    0xcfba9599, 0xb8bda50f, 0x2802b89e, 0x5f058808, 0xc60cd9b2, 0xb10be924,
    0x2f6f7c87, 0x58684c11, 0xc1611dab, 0xb6662d3d, 0x76dc4190, 0x01db7106,
    0x98d220bc, 0xefd5102a, 0x71b18589, 0x06b6b51f, 0x9fbfe4a5, 0xe8b8d433,
    0x7807c9a2, 0x0f00f934, 0x9609a88e, 0xe10e9818, 0x7f6a0dbb, 0x086d3d2d,
    0x91646c97, 0xe6635c01, 0x6b6b51f4, 0x1c6c6162, 0x856530d8, 0xf262004e,
    0x6c0695ed, 0x1b01a57b, 0x8208f4c1, 0xf50fc457, 0x65b0d9c6, 0x12b7e950,
    0x8bbeb8ea, 0xfcb9887c, 0x62dd1ddf, 0x15da2d49, 0x8cd37cf3, 0xfbd44c65,
    0x4db26158, 0x3ab551ce, 0xa3bc0074, 0xd4bb30e2, 0x4adfa541, 0x3dd895d7,
    0xa4d1c46d, 0xd3d6f4fb, 0x4369e96a, 0x346ed9fc, 0xad678846, 0xda60b8d0,
    0x44042d73, 0x33031de5, 0xaa0a4c5f, 0xdd0d7cc9, 0x5005713c, 0x270241aa,
    0xbe0b1010, 0xc90c2086, 0x5768b525, 0x206f85b3, 0xb966d409, 0xce61e49f,
    0x5edef90e, 0x29d9c998, 0xb0d09822, 0xc7d7a8b4, 0x59b33d17, 0x2eb40d81,
    0xb7bd5c3b, 0xc0ba6cad, 0xedb88320, 0x9abfb3b6, 0x03b6e20c, 0x74b1d29a,
    0xead54739, 0x9dd277af, 0x04db2615, 0x73dc1683, 0xe3630b12, 0x94643b84,
    0x0d6d6a3e, 0x7a6a5aa8, 0xe40ecf0b, 0x9309ff9d, 0x0a00ae27, 0x7d079eb1,
    0xf00f9344, 0x8708a3d2, 0x1e01f268, 0x6906c2fe, 0xf762575d, 0x806567cb,
    0x196c3671, 0x6e6b06e7, 0xfed41b76, 0x89d32be0, 0x10da7a5a, 0x67dd4acc,
    0xf9b9df6f, 0x8ebeeff9, 0x17b7be43, 0x60b08ed5, 0xd6d6a3e8, 0xa1d1937e,
    0x38d8c2c4, 0x4fdff252, 0xd1bb67f1, 0xa6bc5767, 0x3fb506dd, 0x48b2364b,
    0xd80d2bda, 0xaf0a1b4c, 0x36034af6, 0x41047a60, 0xdf60efc3, 0xa867df55,
    0x316e8eef, 0x4669be79, 0xcb61b38c, 0xbc66831a, 0x256fd2a0, 0x5268e236,
    0xcc0c7795, 0xbb0b4703, 0x220216b9, 0x5505262f, 0xc5ba3bbe, 0xb2bd0b28,
    0x2bb45a92, 0x5cb36a04, 0xc2d7ffa7, 0xb5d0cf31, 0x2cd99e8b, 0x5bdeae1d,
    0x9b64c2b0, 0xec63f226, 0x756aa39c, 0x026d930a, 0x9c0906a9, 0xeb0e363f,
    0x72076785, 0x05005713, 0x95bf4a82, 0xe2b87a14, 0x7bb12bae, 0x0cb61b38,
    0x92d28e9b, 0xe5d5be0d, 0x7cdcefb7, 0x0bdbdf21, 0x86d3d2d4, 0xf1d4e242,
    0x68ddb3f8, 0x1fda836e, 0x81be16cd, 0xf6b9265b, 0x6fb077e1, 0x18b74777,
    0x88085ae6, 0xff0f6a70, 0x66063bca, 0x11010b5c, 0x8f659eff, 0xf862ae69,
    0x616bffd3, 0x166ccf45, 0xa00ae278, 0xd70dd2ee, 0x4e048354, 0x3903b3c2,
    0xa7672661, 0xd06016f7, 0x4969474d, 0x3e6e77db, 0xaed16a4a, 0xd9d65adc,
    0x40df0b66, 0x37d83bf0, 0xa9bcae53, 0xdebb9ec5, 0x47b2cf7f, 0x30b5ffe9,
    0xbdbdf21c, 0xcabac28a, 0x53b39330, 0x24b4a3a6, 0xbad03605, 0xcdd70693,
    0x54de5729, 0x23d967bf, 0xb3667a2e, 0xc4614ab8, 0x5d681b02, 0x2a6f2b94,
    0xb40bbe37, 0xc30c8ea1, 0x5a05df1b, 0x2d02ef8d]"

fun crc32_loop :: "u32 \<Rightarrow> u8 list \<Rightarrow> u32" where
  "crc32_loop crc [] = crc"
| "crc32_loop crc (p # ps) =
     crc32_loop (crc32_tab ! unat ((crc XOR ucast p) AND 0xFF) XOR drop_bit 8 crc) ps"

definition crc32 :: "u32 \<Rightarrow> u8 list \<Rightarrow> u32" where
  "crc32 crc buf = crc32_loop (crc XOR NOT 0) buf XOR NOT 0"

section \<open>The shift register\<close>

definition crc_bit :: "u32 \<Rightarrow> u32" where
  "crc_bit c = (if bit c 0 then drop_bit 1 c XOR 0xEDB88320 else drop_bit 1 c)"

definition crc_shift8 :: "u32 \<Rightarrow> u32" where
  "crc_shift8 c =
     crc_bit (crc_bit (crc_bit (crc_bit (crc_bit (crc_bit (crc_bit (crc_bit c)))))))"

definition crc_byte :: "u32 \<Rightarrow> u8 \<Rightarrow> u32" where
  "crc_byte c p = crc_shift8 (c XOR ucast p)"

definition crc_serial :: "u32 \<Rightarrow> u8 list \<Rightarrow> u32" where
  "crc_serial crc buf = foldl crc_byte (crc XOR NOT 0) buf XOR NOT 0"

lemma crc_bit_num: "crc_bit c = (if odd c then drop_bit 1 c XOR 0xEDB88320 else drop_bit 1 c)"
  by (simp add: crc_bit_def bit_0)

section \<open>The table holds eight shift steps\<close>

text \<open>
  The step is linear over exclusive or, so its values on all bytes follow from those on the eight
  single-bit bytes: \<open>xor_span\<close> lists the exclusive ors of all subsets of a basis.
\<close>

lemma drop_bit_xor32: "drop_bit n (a XOR b :: u32) = drop_bit n a XOR drop_bit n b"
  by (rule bit_word_eqI) (simp add: bit_simps)

lemma crc_bit_xor: "crc_bit (a XOR b) = crc_bit a XOR crc_bit b"
  by (simp add: crc_bit_def drop_bit_xor32 bit_xor_iff xor.assoc xor.commute xor.left_commute)

lemma crc_shift8_xor: "crc_shift8 (a XOR b) = crc_shift8 a XOR crc_shift8 b"
  by (simp add: crc_shift8_def crc_bit_xor)

fun xor_span :: "u32 list \<Rightarrow> u32 list" where
  "xor_span [] = [0]"
| "xor_span (b # bs) = xor_span bs @ map (\<lambda>x. b XOR x) (xor_span bs)"

lemma of_nat_power_add_xor:
  assumes "j < 2 ^ k" and "k < 32"
  shows "(of_nat (2 ^ k + j) :: u32) = 2 ^ k XOR of_nat j"
proof -
  have low: "\<not> bit (of_nat j :: u32) n" if "k \<le> n" for n
  proof -
    have "(2::nat) ^ k \<le> 2 ^ n" using that by simp
    with assms(1) have "j < 2 ^ n" by (rule less_le_trans)
    then show ?thesis by (simp add: bit_simps) (simp add: bit_iff_odd)
  qed
  have disj: "bit (2 ^ k :: u32) n \<Longrightarrow> \<not> bit (of_nat j :: u32) n" for n
    using low by (auto simp: bit_simps)
  have "(of_nat (2 ^ k + j) :: u32) = 2 ^ k + of_nat j" by simp
  also have "\<dots> = 2 ^ k OR of_nat j"
    by (rule disjunctive_add) (use disj in blast)
  also have "\<dots> = 2 ^ k XOR of_nat j"
    by (rule bit_word_eqI) (use disj in \<open>auto simp: bit_or_iff bit_xor_iff\<close>)
  finally show ?thesis .
qed

lemma map_upt_xor_span:
  fixes f :: "u32 \<Rightarrow> u32"
  assumes "\<And>a b. f (a XOR b) = f a XOR f b" and "f 0 = 0" and "n \<le> 32"
  shows "map (\<lambda>i. f (of_nat i)) [0..<2 ^ n] = xor_span (map (\<lambda>k. f (2 ^ k)) (rev [0..<n]))"
  using assms(3)
proof (induction n)
  case 0
  then show ?case by (simp add: assms(2))
next
  case (Suc n)
  have "map (\<lambda>i. f (of_nat i)) [0..<2 ^ Suc n]
      = map (\<lambda>i. f (of_nat i)) [0..<2 ^ n] @ map (\<lambda>i. f (of_nat (2 ^ n + i))) [0..<2 ^ n]"
    by (simp add: upt_add_eq_append [of 0, simplified] mult_2 map_add_upt [symmetric] add.commute)
  also have "map (\<lambda>i. f (of_nat (2 ^ n + i))) [0..<2 ^ n]
      = map (\<lambda>x. f (2 ^ n) XOR x) (map (\<lambda>i. f (of_nat i)) [0..<2 ^ n])"
    using Suc.prems by (simp del: of_nat_add add: of_nat_power_add_xor assms(1))
  finally show ?case using Suc by simp
qed

lemma crc_shift8_basis:
  "map (\<lambda>k. crc_shift8 (2 ^ k)) (rev [0..<8])
    = [0xedb88320, 0x76dc4190, 0x3b6e20c8, 0x1db71064, 0x0edb8832, 0x076dc419, 0xee0e612c, 0x77073096]"
  by (simp add: crc_shift8_def crc_bit_num upt_rec)

lemma xor_span_tab:
  "xor_span [0xedb88320, 0x76dc4190, 0x3b6e20c8, 0x1db71064, 0x0edb8832, 0x076dc419, 0xee0e612c, 0x77073096]
    = crc32_tab"
  by (simp add: crc32_tab_def)

lemma crc32_tab_map: "crc32_tab = map (\<lambda>i. crc_shift8 (of_nat i)) [0..<256]"
proof -
  have "crc_shift8 0 = 0" by (simp add: crc_shift8_def crc_bit_def)
  then have "map (\<lambda>i. crc_shift8 (of_nat i)) [0..<2 ^ 8]
      = xor_span (map (\<lambda>k. crc_shift8 (2 ^ k)) (rev [0..<8]))"
    by (intro map_upt_xor_span) (simp_all add: crc_shift8_xor)
  also have "\<dots> = crc32_tab" by (simp only: crc_shift8_basis xor_span_tab)
  finally show ?thesis by simp
qed

lemma length_crc32_tab [simp]: "length crc32_tab = 256"
  by (simp add: crc32_tab_map)

lemma crc32_tab_nth: "i < 256 \<Longrightarrow> crc32_tab ! i = crc_shift8 (of_nat i)"
  by (simp add: crc32_tab_map)

section \<open>Table update and shift register agree\<close>

lemma crc_shift8_low_zero:
  assumes "\<And>n. n < 8 \<Longrightarrow> \<not> bit c n"
  shows "crc_shift8 c = drop_bit 8 c"
  using assms by (simp add: crc_shift8_def crc_bit_def bit_simps numeral_eq_Suc)

lemma crc_table_step:
  "crc32_tab ! unat ((c XOR ucast (p :: u8)) AND 0xFF) XOR drop_bit 8 c = crc_byte c p"
proof -
  define x :: u32 where "x = c XOR ucast p"
  have ff: "(0xFF :: u32) = mask 8" by (simp add: mask_eq_exp_minus_1)
  have lt: "unat (x AND 0xFF) < 256"
    using word_and_le1 [of x "0xFF"] by (simp add: word_le_nat_alt)
  have parts: "x = (x AND 0xFF) XOR (x AND NOT 0xFF)"
    by (rule bit_word_eqI) (auto simp: bit_simps)
  have low: "\<not> bit (x AND NOT 0xFF) n" if "n < 8" for n
    using that by (simp only: ff) (simp add: bit_simps)
  have high: "drop_bit 8 (x AND NOT 0xFF) = drop_bit 8 c"
    unfolding ff by (rule bit_word_eqI) (auto simp: x_def bit_simps dest: bit_imp_le_length)
  have "crc_shift8 x = crc_shift8 (x AND 0xFF) XOR crc_shift8 (x AND NOT 0xFF)"
    by (subst parts) (rule crc_shift8_xor)
  also have "crc_shift8 (x AND 0xFF) = crc32_tab ! unat (x AND 0xFF)"
    using lt by (simp add: crc32_tab_nth)
  also have "crc_shift8 (x AND NOT 0xFF) = drop_bit 8 c"
    using low high by (simp add: crc_shift8_low_zero)
  finally show ?thesis by (simp add: crc_byte_def x_def)
qed

lemma crc32_loop_foldl: "crc32_loop c buf = foldl crc_byte c buf"
  by (induction buf arbitrary: c) (simp_all add: crc_table_step)

lemma crc32_loop_append: "crc32_loop c (xs @ ys) = crc32_loop (crc32_loop c xs) ys"
  by (simp add: crc32_loop_foldl)

section \<open>One register step loses nothing\<close>

lemma xor_cancel_left32 [simp]: "(a XOR b = a XOR c) \<longleftrightarrow> b = (c :: u32)"
  by (metis xor.assoc xor.left_neutral xor_self_eq)

lemma xor_cancel_right32 [simp]: "(b XOR a = c XOR a) \<longleftrightarrow> b = (c :: u32)"
  by (simp add: xor.commute [of _ a])

lemma crc_bit_top: "bit (crc_bit c) 31 = bit c 0"
  using bit_imp_le_length [of c 32] by (auto simp: crc_bit_def bit_simps)

lemma crc_bit_inject [simp]: "crc_bit c = crc_bit d \<longleftrightarrow> c = d"
proof
  assume eq: "crc_bit c = crc_bit d"
  then have b0: "bit c 0 = bit d 0" by (metis crc_bit_top)
  then have shift: "drop_bit 1 c = drop_bit 1 d"
    using eq by (simp add: crc_bit_def split: if_splits)
  show "c = d"
  proof (rule bit_word_eqI)
    fix n
    show "bit c n = bit d n"
    proof (cases n)
      case (Suc m)
      have "bit (drop_bit 1 c) m = bit (drop_bit 1 d) m" by (simp only: shift)
      then show ?thesis by (simp add: Suc bit_drop_bit_eq)
    qed (simp add: b0)
  qed
qed simp

lemma crc_shift8_inject [simp]: "crc_shift8 c = crc_shift8 d \<longleftrightarrow> c = d"
  by (simp add: crc_shift8_def)

lemma crc_byte_inject_state [simp]: "crc_byte c p = crc_byte d p \<longleftrightarrow> c = d"
  by (simp add: crc_byte_def)

lemma foldl_crc_byte_inject [simp]: "foldl crc_byte c ps = foldl crc_byte d ps \<longleftrightarrow> c = d"
  by (induction ps arbitrary: c d) simp_all

text \<open>Four bytes at once: the register is exclusive-ored with the little-endian word they form.\<close>

lemma crc_byte4:
  "foldl crc_byte c [p, q, r, s] = crc_shift8 (crc_shift8 (crc_shift8 (crc_shift8 (c XOR get32 [p, q, r, s] 0))))"
proof -
  have step: "crc_shift8 (c XOR (ucast p XOR push_bit 8 w)) = crc_shift8 (c XOR ucast p) XOR w"
    if "drop_bit 24 w = 0" for c w :: u32 and p :: u8
  proof -
    have hi: "\<not> bit w n" if "24 \<le> n" for n
    proof -
      have "bit (drop_bit 24 w) (n - 24) = False" using \<open>drop_bit 24 w = 0\<close> by simp
      then show ?thesis using that by (simp add: bit_drop_bit_eq)
    qed
    have "crc_shift8 (push_bit 8 w) = drop_bit 8 (push_bit 8 w)"
      by (rule crc_shift8_low_zero) (simp add: bit_simps)
    also have "\<dots> = w"
      by (rule bit_word_eqI) (auto simp: bit_simps, meson hi not_le)
    finally show ?thesis by (simp add: crc_shift8_xor xor.assoc)
  qed
  have w: "get32 [p, q, r, s] 0
      = ucast p XOR push_bit 8 (ucast q XOR push_bit 8 (ucast r XOR push_bit 8 (ucast s)))"
    (is "?l = ?r")
  proof (rule bit_word_eqI)
    have u8: "\<not> bit b n" if "8 \<le> n" for b :: u8 and n
      using that bit_imp_le_length [of b n] by fastforce
    fix n
    assume "n < LENGTH(32)"
    then consider "n < 8" | "8 \<le> n" "n < 16" | "16 \<le> n" "n < 24" | "24 \<le> n" "n < 32"
      by fastforce
    then show "bit ?l n = bit ?r n"
      by cases (auto simp: get32_def bit_simps u8)
  qed
  have z: "drop_bit 24 (ucast q XOR push_bit 8 (ucast r XOR push_bit 8 (ucast s)) :: u32) = 0"
    "drop_bit 24 (ucast r XOR push_bit 8 (ucast s) :: u32) = 0" "drop_bit 24 (ucast s :: u32) = 0"
    by (rule bit_word_eqI; auto simp: bit_simps dest!: bit_imp_le_length)+
  show ?thesis
    by (simp only: crc_byte_def foldl.simps w step [OF z(1)] step [OF z(2)] step [OF z(3)])
qed

lemma get32_bytes:
  "ucast (get32 [p, q, r, s] 0) = p" "ucast (drop_bit 8 (get32 [p, q, r, s] 0)) = q"
  "ucast (drop_bit 16 (get32 [p, q, r, s] 0)) = r" "ucast (drop_bit 24 (get32 [p, q, r, s] 0)) = s"
proof -
  have out: "\<not> bit b n" if "8 \<le> n" for b :: u8 and n
    using that bit_imp_le_length [of b n] by fastforce
  show "ucast (get32 [p, q, r, s] 0) = p" "ucast (drop_bit 8 (get32 [p, q, r, s] 0)) = q"
    "ucast (drop_bit 16 (get32 [p, q, r, s] 0)) = r" "ucast (drop_bit 24 (get32 [p, q, r, s] 0)) = s"
    by (rule bit_word_eqI; auto simp: get32_def bit_simps out)+
qed

lemma get32_inject: "get32 [p, q, r, s] 0 = get32 [p', q', r', s'] 0 \<longleftrightarrow> [p, q, r, s] = [p', q', r', s']"
  using get32_bytes [of p q r s] get32_bytes [of p' q' r' s'] by (auto simp flip: get32_bytes)

lemma foldl_crc_byte_burst:
  assumes "foldl crc_byte c xs = foldl crc_byte c ys" and "length xs = length ys" and "length xs \<le> 4"
  shows "xs = ys"
proof -
  define z :: "u8 list" where "z = replicate (4 - length xs) 0"
  have four: "\<exists>p q r s. l = [p, q, r, s]" if "length l = 4" for l :: "u8 list"
    using that by (auto simp: numeral_eq_Suc length_Suc_conv)
  obtain p q r s where x: "xs @ z = [p, q, r, s]"
    using four [of "xs @ z"] assms(3) by (auto simp: z_def)
  obtain p' q' r' s' where y: "ys @ z = [p', q', r', s']"
    using four [of "ys @ z"] assms(2,3) by (auto simp: z_def)
  have "foldl crc_byte c (xs @ z) = foldl crc_byte c (ys @ z)"
    using assms(1) by simp
  then have "[p, q, r, s] = [p', q', r', s']"
    unfolding x y crc_byte4 by (simp only: crc_shift8_inject xor_cancel_left32 get32_inject)
  with x y have "xs @ z = ys @ z" by simp
  then show ?thesis by simp
qed

section \<open>The checksum\<close>

lemma crc32_append: "crc32 (crc32 c xs) ys = crc32 c (xs @ ys)"
  by (simp add: crc32_def crc32_loop_append xor.assoc)

text \<open>
  C9: The table-driven checksum is the bit-serial one: eight shift/xor steps of the reflected
  polynomial 0xEDB88320 per byte, inverted before and after, for every buffer and every start value.
\<close>

theorem crc32_is_serial: "crc32 c buf = crc_serial c buf"
  by (simp add: crc32_def crc_serial_def crc32_loop_foldl)

text \<open>
  The checksum may be computed block by block, feeding each result into the next call, as the
  installer does: the result is that of the whole buffer.
\<close>

theorem crc32_in_blocks: "foldl crc32 c blocks = crc32 c (concat blocks)"
  by (induction blocks arbitrary: c) (simp_all add: crc32_append, simp add: crc32_def xor.assoc)

text \<open>
  C33: A burst error of up to four bytes anywhere in the image is always detected: two images of the
  same length that differ only within such a window have different checksums.
\<close>

theorem crc32_detects_burst:
  assumes "length xs = length ys" and "length xs \<le> 4" and "xs \<noteq> ys"
  shows "crc32 c (before @ xs @ after) \<noteq> crc32 c (before @ ys @ after)"
  using foldl_crc_byte_burst [OF _ assms(1,2)] assms(3)
  by (auto simp: crc32_def crc32_loop_foldl)

theorem crc32_detects_burst_witness:
  "crc32 0 ([0x31] @ [0x32, 0x33] @ [0x34]) \<noteq> crc32 0 ([0x31] @ [0x33, 0x32] @ [0x34])"
  by (rule crc32_detects_burst) simp_all

text \<open>The check value of the standard CRC-32, of the ASCII digits 1 to 9.\<close>

lemma crc32_check_value: "crc32 0 (bytes ''123456789'') = 0xCBF43926"
  by (simp add: crc32_def crc32_loop_foldl crc_byte_def crc_shift8_def crc_bit_num bytes_def)

end
