(* ===== verification/World.thy ===== *)
theory World
  imports Prelude
begin

text \<open>
  What every command works on: the transport behind \<^verbatim>\<open>handle\<close> (\<^verbatim>\<open>src/src/ev3_io.h\<close>), the global
  variables \<^verbatim>\<open>errmsg\<close> and \<^verbatim>\<open>errno\<close>, the standard streams, and the local files
  (\<^verbatim>\<open>FILE *\<close>). The error codes are those of \<^verbatim>\<open>src/src/error.h\<close>.

  A run of a command ends in \<open>Some (Ret a, w)\<close> (it returns \<open>a\<close> in world \<open>w\<close>), in
  \<open>Some (Undef, w)\<close> (it executes an operation C leaves undefined: a store or a load outside an
  object, a null pointer dereference), or in \<open>None\<close> (it does not return).
  Operations are written in the order of the source; each takes the rest of its caller as a
  continuation, so an early \<^verbatim>\<open>return\<close> is a branch that drops the continuation.
\<close>

section \<open>Error codes (error.h)\<close>

datatype ERR = ERR_UNK | ERR_ARG | ERR_IO | ERR_FTOOBIG | ERR_NOMEM | ERR_COMM | ERR_VM | ERR_SYS
  | ERR_USBLOOP | ERR_END

fun err_code :: "ERR \<Rightarrow> int" where
  "err_code ERR_UNK = 0"
| "err_code ERR_ARG = 1"
| "err_code ERR_IO = 2"
| "err_code ERR_FTOOBIG = 3"
| "err_code ERR_NOMEM = 4"
| "err_code ERR_COMM = 5"
| "err_code ERR_VM = 6"
| "err_code ERR_SYS = 7"
| "err_code ERR_USBLOOP = 8"
| "err_code ERR_END = 9"

definition VM_SYS_RQ :: u8 where "VM_SYS_RQ = 0x01"
definition VM_DIRECT_OK :: u8 where "VM_DIRECT_OK = 0x02"
definition VM_OK :: u8 where "VM_OK = 0x03"
definition VM_DIRECT_ERROR :: u8 where "VM_DIRECT_ERROR = 0x04"
definition VM_ERROR :: u8 where "VM_ERROR = 0x05"

lemmas vm_status_defs = VM_SYS_RQ_def VM_DIRECT_OK_def VM_OK_def VM_DIRECT_ERROR_def VM_ERROR_def

definition TIMEOUT :: int where "TIMEOUT = 2000"

text \<open>The descriptions of the statuses the brick reports; the entry for \<open>ERRORS_END\<close> is null.\<close>

definition ev3_error_msgs :: "string option list" where
  "ev3_error_msgs = [
    Some ''SUCCESS'',
    Some ''UNKNOWN_HANDLE: Path doesn't exist'',
    Some ''HANDLE_NOT_READY'',
    Some ''CORRUPT_FILE'',
    Some ''NO_HANDLES_AVAILABLE: Path doesn't resolve to a valid file'',
    Some ''NO_PERMISSION:  File doesn't exist'',
    Some ''ILLEGAL_PATH'',
    Some ''FILE_EXITS'',
    Some ''END_OF_FILE'',
    Some ''SIZE_ERROR: Can't write here. Is SD Card properly inserted?'',
    Some ''UNKNOWN_ERROR: No such directory'',
    Some ''ILLEGAL_FILENAME'',
    Some ''ILLEGAL_CONNECTION'',
    None]"

section \<open>The transport (ev3_io.h)\<close>

text \<open>
  \<^verbatim>\<open>main\<close> sets the function pointers \<^verbatim>\<open>ev3_write\<close> and \<^verbatim>\<open>ev3_read_timeout\<close> to the functions of
  hidapi, of the serial port or of the TCP socket. \<open>'d\<close> is whatever lies behind the handle.
  \<open>io_write d bs\<close> gives the result of writing \<open>bs\<close>; \<open>io_read d n ms\<close> the result of
  reading with a buffer said to hold \<open>n\<close> bytes, and the bytes stored from the start of that
  buffer. Both are \<open>None\<close> when the call never returns.
\<close>

datatype transport_kind = HID | SERIAL | TCP

record 'd ev3_io =
  io_write :: "'d \<Rightarrow> u8 list \<Rightarrow> (int \<times> 'd) option"
  io_read :: "'d \<Rightarrow> nat \<Rightarrow> int \<Rightarrow> (int \<times> u8 list \<times> 'd) option"
  io_kind :: transport_kind

datatype io_event = Wr "u8 list" | Rd nat int

record 'd world =
  dev :: 'd
  errmsg :: "string option"
  errno :: int
  stdout_log :: "u8 list"
  stderr_log :: "u8 list"
  garbage :: "nat \<Rightarrow> u8"
  trace :: "io_event list"
  received :: "u8 list list"

text \<open>
  \<open>garbage\<close> is what uninitialised memory holds; \<open>trace\<close> is a history variable, the calls of
  the transport made so far, oldest first, and so is \<open>received\<close>, what each read stored; no
  operation looks at them.
\<close>

datatype 'a outcome = Ret 'a | Undef

type_synonym ('a, 'd) run = "('a outcome \<times> 'd world) option"

abbreviation ret :: "'a \<Rightarrow> 'd world \<Rightarrow> ('a, 'd) run" where
  "ret a w \<equiv> Some (Ret a, w)"

abbreviation undef :: "'d world \<Rightarrow> ('a, 'd) run" where
  "undef w \<equiv> Some (Undef, w)"

text \<open>Calling a function and going on with its result.\<close>

definition call :: "('a, 'd) run \<Rightarrow> ('a \<Rightarrow> 'd world \<Rightarrow> ('b, 'd) run) \<Rightarrow> ('b, 'd) run" where
  "call m k = Option.bind m (\<lambda>(r, w). case r of Ret a \<Rightarrow> k a w | Undef \<Rightarrow> undef w)"

text \<open>
  \<^verbatim>\<open>ev3_write(handle, buf, count)\<close> sends the first \<open>count\<close> bytes of a buffer;
  \<^verbatim>\<open>ev3_read_timeout(handle, buf, count, ms)\<close> stores into the buffer. Reaching outside the
  buffer is undefined, whatever the transport was told its size is.
\<close>

definition ev3_write ::
    "'d ev3_io \<Rightarrow> u8 list \<Rightarrow> nat \<Rightarrow> 'd world \<Rightarrow> (int \<Rightarrow> 'd world \<Rightarrow> ('a, 'd) run) \<Rightarrow> ('a, 'd) run" where
  "ev3_write io buf count w k =
    (if length buf < count then undef w
     else case io_write io (dev w) (take count buf) of
       None \<Rightarrow> None
     | Some (res, d) \<Rightarrow> k res (w\<lparr>dev := d, trace := trace w @ [Wr (take count buf)]\<rparr>))"

definition ev3_read_timeout ::
    "'d ev3_io \<Rightarrow> u8 list \<Rightarrow> nat \<Rightarrow> int \<Rightarrow> 'd world \<Rightarrow> (int \<Rightarrow> u8 list \<Rightarrow> 'd world \<Rightarrow> ('a, 'd) run)
      \<Rightarrow> ('a, 'd) run" where
  "ev3_read_timeout io buf count ms w k =
    (case io_read io (dev w) count ms of
       None \<Rightarrow> None
     | Some (res, bs, d) \<Rightarrow>
         let w' = w\<lparr>dev := d, trace := trace w @ [Rd count ms], received := received w @ [bs]\<rparr>
         in if length buf < length bs then undef w' else k res (overlay buf bs) w')"

definition uninit :: "'d world \<Rightarrow> nat \<Rightarrow> u8 list" where
  "uninit w n = map (garbage w) [0..<n]"

lemma length_uninit [simp, layout]: "length (uninit w n) = n"
  by (simp add: uninit_def)

section \<open>Standard streams and print_bytes (defs.h)\<close>

definition put_out :: "u8 list \<Rightarrow> 'd world \<Rightarrow> 'd world" where
  "put_out bs w = w\<lparr>stdout_log := stdout_log w @ bs\<rparr>"

definition put_err :: "u8 list \<Rightarrow> 'd world \<Rightarrow> 'd world" where
  "put_err bs w = w\<lparr>stderr_log := stderr_log w @ bs\<rparr>"

definition hex_digit :: "nat \<Rightarrow> char" where
  "hex_digit n = ''0123456789abcdef'' ! n"

definition hex_byte :: "u8 \<Rightarrow> string" where
  "hex_byte b = [hex_digit (unat b div 16), hex_digit (unat b mod 16), CHR '' '']"

definition print_bytes :: "u8 list \<Rightarrow> nat \<Rightarrow> 'd world \<Rightarrow> ('d world \<Rightarrow> ('a, 'd) run) \<Rightarrow> ('a, 'd) run" where
  "print_bytes buf len w k =
    (if length buf < len then undef w
     else k (put_err (bytes (concat (map hex_byte (take len buf)) @ ''\<newline>'')) w))"

section \<open>Local files\<close>

text \<open>
  A file opened for reading: its bytes, the position, and the end-of-file indicator that a read
  past the end sets. A file opened for writing is the bytes written to it.
\<close>

record FILE =
  fdata :: "u8 list"
  fpos :: nat
  feof :: bool

definition open_rb :: "u8 list \<Rightarrow> FILE" where
  "open_rb bs = \<lparr>fdata = bs, fpos = 0, feof = False\<rparr>"

definition fread :: "nat \<Rightarrow> FILE \<Rightarrow> u8 list \<times> FILE" where
  "fread n f =
    (let got = take n (drop (fpos f) (fdata f))
     in (got, f\<lparr>fpos := fpos f + length got, feof := feof f \<or> length got < n\<rparr>))"

definition fsize :: "FILE \<Rightarrow> nat" where
  "fsize f = length (fdata f)"

definition rewind :: "FILE \<Rightarrow> FILE" where
  "rewind f = f\<lparr>fpos := 0, feof := False\<rparr>"

section \<open>Runs of a module with a state of its own\<close>

text \<open>The modules of the library on the brick each have a struct of their own; \<open>'s\<close> is that state.\<close>

type_synonym ('a, 's) effect = "('a \<times> 's) outcome option"

abbreviation gives :: "'a \<Rightarrow> 's \<Rightarrow> ('a, 's) effect" where
  "gives a s \<equiv> Some (Ret (a, s))"

definition next_with :: "('a, 's) effect \<Rightarrow> ('a \<Rightarrow> 's \<Rightarrow> ('b, 's) effect) \<Rightarrow> ('b, 's) effect" where
  "next_with m k = Option.bind m (\<lambda>r. case r of Undef \<Rightarrow> Some Undef | Ret (a, s) \<Rightarrow> k a s)"

lemma next_with_gives [simp]: "next_with (gives a s) k = k a s" "next_with None k = None" "next_with (Some Undef) k = Some Undef"
  by (simp_all add: next_with_def)

lemma next_with_Ret:
  "next_with m k = gives b s' \<longleftrightarrow> (\<exists>a s1. m = gives a s1 \<and> k a s1 = gives b s')"
  by (auto simp: next_with_def split: Option.bind_splits outcome.splits)

section \<open>Reasoning\<close>

lemma ev3_write_fits:
  "count \<le> length buf \<Longrightarrow> ev3_write io buf count w k =
    (case io_write io (dev w) (take count buf) of
       None \<Rightarrow> None
     | Some (res, d) \<Rightarrow> k res (w\<lparr>dev := d, trace := trace w @ [Wr (take count buf)]\<rparr>))"
  by (simp add: ev3_write_def)

lemma ev3_write_all:
  "ev3_write io buf (length buf) w k =
    (case io_write io (dev w) buf of
       None \<Rightarrow> None
     | Some (res, d) \<Rightarrow> k res (w\<lparr>dev := d, trace := trace w @ [Wr buf]\<rparr>))"
  by (auto simp: ev3_write_def split: option.split)

lemma call_ret [simp]: "call (ret a w) k = k a w"
  by (simp add: call_def)

lemma call_undef [simp]: "call (undef w) k = undef w"
  by (simp add: call_def)

lemma call_None [simp]: "call None k = None"
  by (simp add: call_def)

lemma put_out_sel [simp]:
  "dev (put_out bs w) = dev w" "trace (put_out bs w) = trace w" "errmsg (put_out bs w) = errmsg w"
  "errno (put_out bs w) = errno w" "garbage (put_out bs w) = garbage w"
  "received (put_out bs w) = received w"
  "stdout_log (put_out bs w) = stdout_log w @ bs" "stderr_log (put_out bs w) = stderr_log w"
  by (simp_all add: put_out_def)

lemma put_err_sel [simp]:
  "dev (put_err bs w) = dev w" "trace (put_err bs w) = trace w" "errmsg (put_err bs w) = errmsg w"
  "errno (put_err bs w) = errno w" "garbage (put_err bs w) = garbage w"
  "received (put_err bs w) = received w"
  "stdout_log (put_err bs w) = stdout_log w" "stderr_log (put_err bs w) = stderr_log w @ bs"
  by (simp_all add: put_err_def)

lemma fread_sel [simp]:
  "fst (fread n f) = take n (drop (fpos f) (fdata f))"
  "fdata (snd (fread n f)) = fdata f"
  "fpos (snd (fread n f)) = fpos f + min n (length (fdata f) - fpos f)"
  by (simp_all add: fread_def Let_def min.commute)

text \<open>What a call that leads to a return did.\<close>

lemma ev3_write_RetE:
  assumes "ev3_write io buf n w k = Some (Ret a, w')"
  obtains res d where "n \<le> length buf" "io_write io (dev w) (take n buf) = Some (res, d)"
    "k res (w\<lparr>dev := d, trace := trace w @ [Wr (take n buf)]\<rparr>) = Some (Ret a, w')"
  using assms by (auto simp: ev3_write_def split: if_splits option.splits)

lemma ev3_read_RetE:
  assumes "ev3_read_timeout io buf n ms w k = Some (Ret a, w')"
  obtains res bs d where "io_read io (dev w) n ms = Some (res, bs, d)" "length bs \<le> length buf"
    "k res (overlay buf bs) (w\<lparr>dev := d, trace := trace w @ [Rd n ms], received := received w @ [bs]\<rparr>) = Some (Ret a, w')"
  using assms by (auto simp: ev3_read_timeout_def Let_def split: if_splits option.splits)

lemma print_bytes_RetE:
  assumes "print_bytes buf n w k = Some (Ret a, w')"
  obtains w1 where "n \<le> length buf" "dev w1 = dev w" "trace w1 = trace w" "errno w1 = errno w"
    "errmsg w1 = errmsg w" "garbage w1 = garbage w" "received w1 = received w" "k w1 = Some (Ret a, w')"
proof (rule that [of "put_err (bytes (concat (map hex_byte (take n buf)) @ ''\<newline>'')) w"])
  show "n \<le> length buf" "k (put_err (bytes (concat (map hex_byte (take n buf)) @ ''\<newline>'')) w) = Some (Ret a, w')"
    using assms by (simp_all add: print_bytes_def split: if_splits)
qed simp_all

lemma call_RetE:
  assumes "call m k = Some (Ret b, w')"
  obtains a w1 where "m = Some (Ret a, w1)" "k a w1 = Some (Ret b, w')"
  using assms by (auto simp: call_def split: Option.bind_splits outcome.splits)

lemma ev3_write_cong:
  "(\<And>res v. garbage v = garbage w \<Longrightarrow> k res v = k' res v) \<Longrightarrow> ev3_write io buf n w k = ev3_write io buf n w k'"
  by (simp add: ev3_write_def split: option.split)

lemma uninit_cong: "garbage v = garbage w \<Longrightarrow> uninit v n = uninit w n"
  by (simp add: uninit_def)

lemma uninit_after_write:
  "ev3_write io buf n w (\<lambda>res v. if res < 0 then f v else ev3_read_timeout io (uninit v sz) sz' ms v k)
    = ev3_write io buf n w (\<lambda>res v. if res < 0 then f v else ev3_read_timeout io (uninit w sz) sz' ms v k)"
  by (simp add: ev3_write_def uninit_def split: option.split)

text \<open>A request and its reply, as the turns of the loops exchange them.\<close>

lemma exchange_RetE:
  assumes "ev3_write io buf n w (\<lambda>res w.
      if res < 0 then ret a (f w)
      else ev3_read_timeout io m sz ms w (\<lambda>res mem w. if res \<le> 0 then ret b (g w) else k mem w))
    = Some (Ret c, w')"
  obtains (not_sent) "c = a" | (not_answered) "c = b"
  | (answered) bs w1 where "n \<le> length buf" "length bs \<le> length m"
      "trace w1 = trace w @ [Wr (take n buf), Rd sz ms]" "received w1 = received w @ [bs]"
      "garbage w1 = garbage w" "stdout_log w1 = stdout_log w"
      "k (overlay m bs) w1 = Some (Ret c, w')"
proof -
  obtain res :: int and d where 1: "n \<le> length buf"
    "(if res < 0 then ret a (f (w\<lparr>dev := d, trace := trace w @ [Wr (take n buf)]\<rparr>))
      else ev3_read_timeout io m sz ms (w\<lparr>dev := d, trace := trace w @ [Wr (take n buf)]\<rparr>)
        (\<lambda>res mem w. if res \<le> 0 then ret b (g w) else k mem w)) = Some (Ret c, w')"
    using assms by (rule ev3_write_RetE)
  show thesis
  proof (cases "res < 0")
    case True
    then show ?thesis using 1 not_sent by simp
  next
    case False
    with 1(2) have "ev3_read_timeout io m sz ms (w\<lparr>dev := d, trace := trace w @ [Wr (take n buf)]\<rparr>)
        (\<lambda>res mem w. if res \<le> 0 then ret b (g w) else k mem w) = Some (Ret c, w')" by simp
    then show ?thesis
    proof (elim ev3_read_RetE)
      fix res' :: int and bs d'
      define w1 where "w1 = w\<lparr>dev := d', trace := trace w @ [Wr (take n buf), Rd sz ms], received := received w @ [bs]\<rparr>"
      assume *: "length bs \<le> length m"
        "(if res' \<le> 0 then ret b (g (w\<lparr>dev := d, trace := trace w @ [Wr (take n buf)], dev := d',
              trace := trace (w\<lparr>dev := d, trace := trace w @ [Wr (take n buf)]\<rparr>) @ [Rd sz ms],
              received := received (w\<lparr>dev := d, trace := trace w @ [Wr (take n buf)]\<rparr>) @ [bs]\<rparr>))
          else k (overlay m bs) (w\<lparr>dev := d, trace := trace w @ [Wr (take n buf)], dev := d',
              trace := trace (w\<lparr>dev := d, trace := trace w @ [Wr (take n buf)]\<rparr>) @ [Rd sz ms],
              received := received (w\<lparr>dev := d, trace := trace w @ [Wr (take n buf)]\<rparr>) @ [bs]\<rparr>)) = Some (Ret c, w')"
      show thesis
      proof (cases "res' \<le> 0")
        case True
        then show ?thesis using * not_answered by simp
      next
        case False
        then have "k (overlay m bs) w1 = Some (Ret c, w')" using * by (simp add: w1_def)
        then show ?thesis by (intro answered [OF 1(1) *(1), of w1]) (simp_all add: w1_def)
      qed
    qed
  qed
qed

section \<open>What a run sends\<close>

text \<open>\<open>emits P w r\<close>: a run \<open>r\<close> from \<open>w\<close> that ends, well or badly, made only calls of the transport satisfying \<open>P\<close>.\<close>

definition emits :: "(io_event \<Rightarrow> bool) \<Rightarrow> 'd world \<Rightarrow> ('a, 'd) run \<Rightarrow> bool" where
  "emits P w r \<longleftrightarrow> (\<forall>a w'. r = Some (a, w') \<longrightarrow> (\<exists>t. trace w' = trace w @ t \<and> list_all P t))"

lemma emits_here: "trace w1 = trace w \<Longrightarrow> emits P w (Some (r, w1))"
  by (simp add: emits_def)

lemma emits_None [simp]: "emits P w None"
  by (simp add: emits_def)

lemma emits_same: "trace w1 = trace w \<Longrightarrow> emits P w1 r \<Longrightarrow> emits P w r"
  by (simp add: emits_def)

lemma emits_after: "trace w1 = trace w @ t \<Longrightarrow> list_all P t \<Longrightarrow> emits P w1 r \<Longrightarrow> emits P w r"
  unfolding emits_def by (metis append.assoc list_all_append)

lemma emits_mono: "emits P w r \<Longrightarrow> (\<And>e. P e \<Longrightarrow> Q e) \<Longrightarrow> emits Q w r"
  unfolding emits_def by (metis list.pred_mono_strong)

lemma emits_write:
  assumes "n \<le> length buf \<Longrightarrow> P (Wr (take n buf))"
    and "\<And>res w1. trace w1 = trace w @ [Wr (take n buf)] \<Longrightarrow> emits P w1 (k res w1)"
  shows "emits P w (ev3_write io buf n w k)"
proof (cases "length buf < n")
  case True
  then show ?thesis by (simp add: ev3_write_def emits_here)
next
  case False
  show ?thesis
  proof (cases "io_write io (dev w) (take n buf)")
    case (Some p)
    obtain res d where p: "p = (res, d)" by (cases p)
    have "emits P w (k res (w\<lparr>dev := d, trace := trace w @ [Wr (take n buf)]\<rparr>))"
      by (rule emits_after [OF _ _ assms(2), where t = "[Wr (take n buf)]"]) (use False assms(1) in simp_all)
    then show ?thesis using False Some p by (simp add: ev3_write_def)
  qed (use False in \<open>simp add: ev3_write_def\<close>)
qed

lemma emits_read:
  assumes "P (Rd n ms)"
    and "\<And>res mem w1. trace w1 = trace w @ [Rd n ms] \<Longrightarrow> length mem = length buf \<Longrightarrow> emits P w1 (k res mem w1)"
  shows "emits P w (ev3_read_timeout io buf n ms w k)"
proof (cases "io_read io (dev w) n ms")
  case (Some p)
  obtain res bs d where p: "p = (res, bs, d)" by (cases p)
  have 1: "emits P w (k res mem (w\<lparr>dev := d, trace := trace w @ [Rd n ms], received := received w @ [bs]\<rparr>))" if "length mem = length buf" for mem
    by (rule emits_after [OF _ _ assms(2), where t = "[Rd n ms]"]) (use assms(1) that in simp_all)
  show ?thesis
  proof (cases "length buf < length bs")
    case True
    then show ?thesis using Some p assms(1) by (simp add: ev3_read_timeout_def Let_def emits_def)
  next
    case False
    then show ?thesis using Some p 1 by (simp add: ev3_read_timeout_def Let_def)
  qed
qed (simp add: ev3_read_timeout_def)

lemma emits_print_bytes:
  assumes "trace v = trace w" and "\<And>w1. trace w1 = trace w \<Longrightarrow> emits P w (k w1)"
  shows "emits P w (print_bytes buf n v k)"
  using assms by (auto simp: print_bytes_def emits_here)

lemma emits_call:
  assumes "emits P w m" and "\<And>a w1. m = Some (Ret a, w1) \<Longrightarrow> emits P w1 (k a w1)"
  shows "emits P w (call m k)"
proof (cases m)
  case (Some p)
  obtain r w1 where m: "m = Some (r, w1)" using Some by (cases p) simp
  obtain t where t: "trace w1 = trace w @ t" "list_all P t"
    using assms(1) m by (auto simp: emits_def)
  show ?thesis
  proof (cases r)
    case (Ret a)
    then show ?thesis using emits_after [OF t assms(2)] m by simp
  next
    case Undef
    then show ?thesis using t m by (simp add: emits_def)
  qed
qed simp

lemma emits_if:
  "(b \<Longrightarrow> emits P w x) \<Longrightarrow> (\<not> b \<Longrightarrow> emits P w y) \<Longrightarrow> emits P w (if b then x else y)"
  by simp

lemma emits_prod:
  "(\<And>a b. p = (a, b) \<Longrightarrow> emits P w (f a b)) \<Longrightarrow> emits P w (case p of (a, b) \<Rightarrow> f a b)"
  by (cases p) simp

lemma emits_prod_fun:
  "(\<And>a b. p = (a, b) \<Longrightarrow> emits P w (f a b v)) \<Longrightarrow> emits P w ((case p of (a, b) \<Rightarrow> f a b) v)"
  by (cases p) simp

lemmas emits_rules = emits_if emits_prod emits_prod_fun emits_write emits_read emits_print_bytes emits_call emits_here

section \<open>Loops\<close>

text \<open>
  A \<^verbatim>\<open>while\<close> loop whose variables are \<open>s\<close>: one turn goes on with new values (\<open>Inl\<close>) or
  ends the loop (\<open>Inr\<close>). A loop that never ends is \<open>None\<close>.
\<close>

partial_function (option) loop ::
    "('s \<Rightarrow> 'd world \<Rightarrow> ('s + 'a, 'd) run) \<Rightarrow> 's \<Rightarrow> 'd world \<Rightarrow> ('a, 'd) run" where
  "loop body s w = Option.bind (body s w) (\<lambda>(r, w'). case r of
     Undef \<Rightarrow> undef w'
   | Ret t \<Rightarrow> (case t of Inl s' \<Rightarrow> loop body s' w' | Inr a \<Rightarrow> ret a w'))"

lemma loop_step:
  "body s w = None \<Longrightarrow> loop body s w = None"
  "body s w = undef w1 \<Longrightarrow> loop body s w = undef w1"
  "body s w = ret (Inl s1) w1 \<Longrightarrow> loop body s w = loop body s1 w1"
  "body s w = ret (Inr a) w1 \<Longrightarrow> loop body s w = ret a w1"
  by (subst loop.simps, simp)+

text \<open>Any outcome of a loop is reached by turns that go on, then one that does not.\<close>

lemma loop_induct:
  assumes run: "loop body s w = Some (r, w')"
    and stop: "\<And>s w a w'. body s w = Some (Ret (Inr a), w') \<Longrightarrow> P s w (Ret a) w'"
    and bad: "\<And>s w w'. body s w = Some (Undef, w') \<Longrightarrow> P s w Undef w'"
    and turn: "\<And>s w s1 w1 r w'. body s w = Some (Ret (Inl s1), w1) \<Longrightarrow> P s1 w1 r w' \<Longrightarrow> P s w r w'"
  shows "P s w r w'"
proof -
  have "body = body \<longrightarrow> P s w (fst (r, w')) (snd (r, w'))"
    by (rule loop.raw_induct [where P = "\<lambda>b s w p. b = body \<longrightarrow> P s w (fst p) (snd p)", OF _ run])
      (force intro: stop bad turn split: Option.bind_splits outcome.splits sum.splits)
  then show ?thesis by simp
qed

lemma loop_invariant:
  assumes run: "loop body s w = Some (Ret a, w')" and init: "I s w"
    and turn: "\<And>s w s1 w1. I s w \<Longrightarrow> body s w = Some (Ret (Inl s1), w1) \<Longrightarrow> I s1 w1"
    and stop: "\<And>s w a w'. I s w \<Longrightarrow> body s w = Some (Ret (Inr a), w') \<Longrightarrow> Q a w'"
  shows "Q a w'"
proof -
  have "I s w \<longrightarrow> (\<forall>b. Ret a = Ret b \<longrightarrow> Q b w')"
    by (rule loop_induct [where P = "\<lambda>s w r w'. I s w \<longrightarrow> (\<forall>b. r = Ret b \<longrightarrow> Q b w')", OF run])
      (blast intro: turn stop)+
  then show ?thesis using init by blast
qed

lemma loop_terminates:
  fixes m :: "'s \<Rightarrow> nat"
  assumes init: "I s w"
    and turn: "\<And>s w. I s w \<Longrightarrow> body s w \<noteq> None"
    and less: "\<And>s w s1 w1. I s w \<Longrightarrow> body s w = Some (Ret (Inl s1), w1) \<Longrightarrow> I s1 w1 \<and> m s1 < m s"
  shows "loop body s w \<noteq> None"
  using init
proof (induction "m s" arbitrary: s w rule: less_induct)
  case less': less
  obtain r w1 where r: "body s w = Some (r, w1)" using turn [OF less'.prems] by auto
  show ?case
  proof (cases r)
    case (Ret t)
    then show ?thesis using r less'.hyps less [OF less'.prems] by (cases t) (auto simp: loop_step)
  qed (use r in \<open>simp add: loop_step\<close>)
qed

lemma loop_forever:
  assumes init: "I s w"
    and turn: "\<And>s w. I s w \<Longrightarrow> \<exists>s1 w1. body s w = Some (Ret (Inl s1), w1) \<and> I s1 w1"
  shows "loop body s w = None"
proof (rule ccontr)
  assume "loop body s w \<noteq> None"
  then obtain r w' where run: "loop body s w = Some (r, w')" by auto
  have "\<not> I s w"
    by (rule loop_induct [where P = "\<lambda>s w r w'. \<not> I s w", OF run]) (use turn in \<open>fastforce+\<close>)
  then show False using init by blast
qed

lemma emits_loop:
  assumes "\<And>s w. emits P w (body s w)"
  shows "emits P w (loop body s w)"
proof -
  have "emits P w (Some (r, w'))" if "loop body s w = Some (r, w')" for r w'
    using that
  proof (rule loop_induct [where P = "\<lambda>s w r w'. emits P w (Some (r, w'))"])
    fix s w a w'
    assume "body s w = Some (Ret (Inr a), w')"
    then show "emits P w (Some (Ret a, w'))" using assms [of w s] by (simp add: emits_def)
  next
    fix s w w'
    assume "body s w = undef w'"
    then show "emits P w (undef w')" using assms [of w s] by (simp add: emits_def)
  next
    fix s w s1 w1 r w'
    assume "body s w = Some (Ret (Inl s1), w1)" and rest: "emits P w1 (Some (r, w'))"
    then obtain t where "trace w1 = trace w @ t" "list_all P t"
      using assms [of w s] by (auto simp: emits_def)
    then show "emits P w (Some (r, w'))" using rest by (rule emits_after)
  qed
  then show ?thesis by (cases "loop body s w") auto
qed

end
