(* ===== verification/Packets.thy ===== *)
theory Packets
  imports Prelude
begin

text \<open>
  \<^verbatim>\<open>src/src/packets.h\<close> and \<^verbatim>\<open>src/src/packets.c\<close>: the packed structs exchanged with the brick,
  their memory images, their initial values, and \<^verbatim>\<open>packet_alloc\<close>. A struct is a record with the
  fields in the order of the source; the macros that share fields are record extension; a
  flexible array member is a list of bytes (empty in the initial values, whose \<^verbatim>\<open>sizeof\<close> does not
  count it). \<open>mem_T\<close> is the memory image of a command, \<open>as_T\<close> reads a reply out of the buffer it
  was received in.
\<close>

section \<open>Commands\<close>

record ev3_packet =
  hidLayer :: u8
  packetLen :: u16
  msgCount :: u16
  replyType :: u8

record ev3_command = ev3_packet +
  cmd :: u8

definition PREFIX_SIZE :: nat where "PREFIX_SIZE = 3"

text \<open>The length field of a packet of \<open>n\<close> bytes.\<close>

definition body_len :: "nat \<Rightarrow> u16" where
  "body_len n = of_nat (n - PREFIX_SIZE)"

definition mem_packet :: "'a ev3_packet_scheme \<Rightarrow> u8 list" where
  "mem_packet p = [hidLayer p] @ le16 (packetLen p) @ le16 (msgCount p) @ [replyType p]"

definition mem_command :: "'a ev3_command_scheme \<Rightarrow> u8 list" where
  "mem_command p = mem_packet p @ [cmd p]"

lemma length_mem_packet [simp, layout]: "length (mem_packet p) = 6"
  by (simp add: mem_packet_def)

lemma length_mem_command [simp, layout]: "length (mem_command p) = 7"
  by (simp add: mem_command_def)

record SYSTEM_CMD = ev3_command +
  sc_bytes :: "u8 list"

record BEGIN_DOWNLOAD = ev3_command +
  bd_fileSize :: u32
  bd_fileName :: "u8 list"

record CONTINUE_DOWNLOAD = ev3_command +
  cd_fileHandle :: u8
  cd_fileChunk :: "u8 list"

record BEGIN_UPLOAD = ev3_command +
  bu_maxBytes :: u16
  bu_fileName :: "u8 list"

record CONTINUE_UPLOAD = ev3_command +
  cu_fileHandle :: u8
  cu_maxBytes :: u16

record LIST_FILES = ev3_command +
  lf_maxBytes :: u16
  lf_path :: "u8 list"

record CONTINUE_LIST_FILES = ev3_command +
  clf_handle :: u8
  clf_listSize :: u32

record CREATE_DIR = ev3_command +
  mk_path :: "u8 list"

record DELETE_FILE = ev3_command +
  rm_path :: "u8 list"

record CLOSE_HANDLE = ev3_command +
  ch_handle :: u8

record FW_GETCRC32 = ev3_command +
  gc_flashStart :: u32
  gc_flashLength :: u32

record FW_START_DOWNLOAD_WITH_ERASE = ev3_command +
  se_flashStart :: u32
  se_flashLength :: u32

record FW_START_DOWNLOAD = ev3_command +
  sd_flashStart :: u32
  sd_flashLength :: u32

record FW_DOWNLOAD_DATA = ev3_command +
  dd_payload :: "u8 list"

record VM_CMD = ev3_packet +
  vm_alloc :: u16
  vm_bytes :: "u8 list"

section \<open>Sizes and memory images\<close>

definition sizeof_SYSTEM_CMD :: nat where "sizeof_SYSTEM_CMD = 7"
definition sizeof_BEGIN_DOWNLOAD :: nat where "sizeof_BEGIN_DOWNLOAD = 11"
definition sizeof_CONTINUE_DOWNLOAD :: nat where "sizeof_CONTINUE_DOWNLOAD = 8"
definition sizeof_BEGIN_UPLOAD :: nat where "sizeof_BEGIN_UPLOAD = 9"
definition sizeof_CONTINUE_UPLOAD :: nat where "sizeof_CONTINUE_UPLOAD = 10"
definition sizeof_LIST_FILES :: nat where "sizeof_LIST_FILES = 9"
definition sizeof_CONTINUE_LIST_FILES :: nat where "sizeof_CONTINUE_LIST_FILES = 12"
definition sizeof_CREATE_DIR :: nat where "sizeof_CREATE_DIR = 7"
definition sizeof_DELETE_FILE :: nat where "sizeof_DELETE_FILE = 7"
definition sizeof_CLOSE_HANDLE :: nat where "sizeof_CLOSE_HANDLE = 8"
definition sizeof_FW_GETCRC32 :: nat where "sizeof_FW_GETCRC32 = 15"
definition sizeof_FW_START_DOWNLOAD_WITH_ERASE :: nat where "sizeof_FW_START_DOWNLOAD_WITH_ERASE = 15"
definition sizeof_FW_START_DOWNLOAD :: nat where "sizeof_FW_START_DOWNLOAD = 15"
definition sizeof_FW_DOWNLOAD_DATA :: nat where "sizeof_FW_DOWNLOAD_DATA = 7"
definition sizeof_VM_CMD :: nat where "sizeof_VM_CMD = 8"

lemmas sizeof_commands [layout] =
  sizeof_SYSTEM_CMD_def
  sizeof_BEGIN_DOWNLOAD_def
  sizeof_CONTINUE_DOWNLOAD_def
  sizeof_BEGIN_UPLOAD_def
  sizeof_CONTINUE_UPLOAD_def
  sizeof_LIST_FILES_def
  sizeof_CONTINUE_LIST_FILES_def
  sizeof_CREATE_DIR_def
  sizeof_DELETE_FILE_def
  sizeof_CLOSE_HANDLE_def
  sizeof_FW_GETCRC32_def
  sizeof_FW_START_DOWNLOAD_WITH_ERASE_def
  sizeof_FW_START_DOWNLOAD_def
  sizeof_FW_DOWNLOAD_DATA_def
  sizeof_VM_CMD_def

definition mem_SYSTEM_CMD :: "SYSTEM_CMD \<Rightarrow> u8 list" where
  "mem_SYSTEM_CMD p = mem_command p @ sc_bytes p"

definition mem_BEGIN_DOWNLOAD :: "BEGIN_DOWNLOAD \<Rightarrow> u8 list" where
  "mem_BEGIN_DOWNLOAD p = mem_command p @ le32 (bd_fileSize p) @ bd_fileName p"

definition mem_CONTINUE_DOWNLOAD :: "CONTINUE_DOWNLOAD \<Rightarrow> u8 list" where
  "mem_CONTINUE_DOWNLOAD p = mem_command p @ [cd_fileHandle p] @ cd_fileChunk p"

definition mem_BEGIN_UPLOAD :: "BEGIN_UPLOAD \<Rightarrow> u8 list" where
  "mem_BEGIN_UPLOAD p = mem_command p @ le16 (bu_maxBytes p) @ bu_fileName p"

definition mem_CONTINUE_UPLOAD :: "CONTINUE_UPLOAD \<Rightarrow> u8 list" where
  "mem_CONTINUE_UPLOAD p = mem_command p @ [cu_fileHandle p] @ le16 (cu_maxBytes p)"

definition mem_LIST_FILES :: "LIST_FILES \<Rightarrow> u8 list" where
  "mem_LIST_FILES p = mem_command p @ le16 (lf_maxBytes p) @ lf_path p"

definition mem_CONTINUE_LIST_FILES :: "CONTINUE_LIST_FILES \<Rightarrow> u8 list" where
  "mem_CONTINUE_LIST_FILES p = mem_command p @ [clf_handle p] @ le32 (clf_listSize p)"

definition mem_CREATE_DIR :: "CREATE_DIR \<Rightarrow> u8 list" where
  "mem_CREATE_DIR p = mem_command p @ mk_path p"

definition mem_DELETE_FILE :: "DELETE_FILE \<Rightarrow> u8 list" where
  "mem_DELETE_FILE p = mem_command p @ rm_path p"

definition mem_CLOSE_HANDLE :: "CLOSE_HANDLE \<Rightarrow> u8 list" where
  "mem_CLOSE_HANDLE p = mem_command p @ [ch_handle p]"

definition mem_FW_GETCRC32 :: "FW_GETCRC32 \<Rightarrow> u8 list" where
  "mem_FW_GETCRC32 p = mem_command p @ le32 (gc_flashStart p) @ le32 (gc_flashLength p)"

definition mem_FW_START_DOWNLOAD_WITH_ERASE :: "FW_START_DOWNLOAD_WITH_ERASE \<Rightarrow> u8 list" where
  "mem_FW_START_DOWNLOAD_WITH_ERASE p = mem_command p @ le32 (se_flashStart p) @ le32 (se_flashLength p)"

definition mem_FW_START_DOWNLOAD :: "FW_START_DOWNLOAD \<Rightarrow> u8 list" where
  "mem_FW_START_DOWNLOAD p = mem_command p @ le32 (sd_flashStart p) @ le32 (sd_flashLength p)"

definition mem_FW_DOWNLOAD_DATA :: "FW_DOWNLOAD_DATA \<Rightarrow> u8 list" where
  "mem_FW_DOWNLOAD_DATA p = mem_command p @ dd_payload p"

definition mem_VM_CMD :: "VM_CMD \<Rightarrow> u8 list" where
  "mem_VM_CMD p = mem_packet p @ le16 (vm_alloc p) @ vm_bytes p"

lemmas mem_defs = mem_SYSTEM_CMD_def
  mem_BEGIN_DOWNLOAD_def
  mem_CONTINUE_DOWNLOAD_def
  mem_BEGIN_UPLOAD_def
  mem_CONTINUE_UPLOAD_def
  mem_LIST_FILES_def
  mem_CONTINUE_LIST_FILES_def
  mem_CREATE_DIR_def
  mem_DELETE_FILE_def
  mem_CLOSE_HANDLE_def
  mem_FW_GETCRC32_def
  mem_FW_START_DOWNLOAD_WITH_ERASE_def
  mem_FW_START_DOWNLOAD_def
  mem_FW_DOWNLOAD_DATA_def
  mem_VM_CMD_def

lemma length_mem_commands [simp, layout]:
  "length (mem_SYSTEM_CMD system_cmd) = sizeof_SYSTEM_CMD + length (sc_bytes system_cmd)"
  "length (mem_BEGIN_DOWNLOAD begin_download) = sizeof_BEGIN_DOWNLOAD + length (bd_fileName begin_download)"
  "length (mem_CONTINUE_DOWNLOAD continue_download) = sizeof_CONTINUE_DOWNLOAD + length (cd_fileChunk continue_download)"
  "length (mem_BEGIN_UPLOAD begin_upload) = sizeof_BEGIN_UPLOAD + length (bu_fileName begin_upload)"
  "length (mem_CONTINUE_UPLOAD continue_upload) = sizeof_CONTINUE_UPLOAD"
  "length (mem_LIST_FILES list_files) = sizeof_LIST_FILES + length (lf_path list_files)"
  "length (mem_CONTINUE_LIST_FILES continue_list_files) = sizeof_CONTINUE_LIST_FILES"
  "length (mem_CREATE_DIR create_dir) = sizeof_CREATE_DIR + length (mk_path create_dir)"
  "length (mem_DELETE_FILE delete_file) = sizeof_DELETE_FILE + length (rm_path delete_file)"
  "length (mem_CLOSE_HANDLE close_handle) = sizeof_CLOSE_HANDLE"
  "length (mem_FW_GETCRC32 fw_getcrc32) = sizeof_FW_GETCRC32"
  "length (mem_FW_START_DOWNLOAD_WITH_ERASE fw_start_download_with_erase) = sizeof_FW_START_DOWNLOAD_WITH_ERASE"
  "length (mem_FW_START_DOWNLOAD fw_start_download) = sizeof_FW_START_DOWNLOAD"
  "length (mem_FW_DOWNLOAD_DATA fw_download_data) = sizeof_FW_DOWNLOAD_DATA + length (dd_payload fw_download_data)"
  "length (mem_VM_CMD vm_cmd) = sizeof_VM_CMD + length (vm_bytes vm_cmd)"
  by (simp_all add: mem_defs sizeof_commands)

section \<open>Initial values (packets.c)\<close>

definition BEGIN_DOWNLOAD_INIT :: BEGIN_DOWNLOAD where
  "BEGIN_DOWNLOAD_INIT = \<lparr>hidLayer = 0x00, packetLen = 0, msgCount = 0,
     replyType = 0x01, cmd = 0x92, bd_fileSize = 0, bd_fileName = []\<rparr>"

definition CONTINUE_DOWNLOAD_INIT :: CONTINUE_DOWNLOAD where
  "CONTINUE_DOWNLOAD_INIT = \<lparr>hidLayer = 0x00, packetLen = 0, msgCount = 0,
     replyType = 0x01, cmd = 0x93, cd_fileHandle = 0, cd_fileChunk = []\<rparr>"

definition BEGIN_UPLOAD_INIT :: BEGIN_UPLOAD where
  "BEGIN_UPLOAD_INIT = \<lparr>hidLayer = 0x00, packetLen = 0, msgCount = 0,
     replyType = 0x01, cmd = 0x94, bu_maxBytes = 0, bu_fileName = []\<rparr>"

definition CONTINUE_UPLOAD_INIT :: CONTINUE_UPLOAD where
  "CONTINUE_UPLOAD_INIT = \<lparr>hidLayer = 0x00, packetLen = body_len sizeof_CONTINUE_UPLOAD, msgCount = 0,
     replyType = 0x01, cmd = 0x95, cu_fileHandle = 0, cu_maxBytes = 0\<rparr>"

definition LIST_FILES_INIT :: LIST_FILES where
  "LIST_FILES_INIT = \<lparr>hidLayer = 0x00, packetLen = 0, msgCount = 0,
     replyType = 0x01, cmd = 0x99, lf_maxBytes = 0, lf_path = []\<rparr>"

definition CONTINUE_LIST_FILES_INIT :: CONTINUE_LIST_FILES where
  "CONTINUE_LIST_FILES_INIT = \<lparr>hidLayer = 0x00, packetLen = 7, msgCount = 0,
     replyType = 0x01, cmd = 0x9A, clf_handle = 0, clf_listSize = 0\<rparr>"

definition BEGIN_GETFILE_INIT :: LIST_FILES where
  "BEGIN_GETFILE_INIT = \<lparr>hidLayer = 0x00, packetLen = 0, msgCount = 0,
     replyType = 0x01, cmd = 0x96, lf_maxBytes = 0, lf_path = []\<rparr>"

definition CREATE_DIR_INIT :: CREATE_DIR where
  "CREATE_DIR_INIT = \<lparr>hidLayer = 0x00, packetLen = 0, msgCount = 0,
     replyType = 0x01, cmd = 0x9B, mk_path = []\<rparr>"

definition DELETE_FILE_INIT :: DELETE_FILE where
  "DELETE_FILE_INIT = \<lparr>hidLayer = 0x00, packetLen = 0, msgCount = 0,
     replyType = 0x01, cmd = 0x9C, rm_path = []\<rparr>"

definition CLOSE_HANDLE_INIT :: CLOSE_HANDLE where
  "CLOSE_HANDLE_INIT = \<lparr>hidLayer = 0x00, packetLen = 0, msgCount = 0,
     replyType = 0x01, cmd = 0x98, ch_handle = 0\<rparr>"

definition BLUETOOTHPIN_INIT :: SYSTEM_CMD where
  "BLUETOOTHPIN_INIT = \<lparr>hidLayer = 0x00, packetLen = 0, msgCount = 0,
     replyType = 0x01, cmd = 0x9F, sc_bytes = []\<rparr>"

definition ENTERFWUPDATE_INIT :: SYSTEM_CMD where
  "ENTERFWUPDATE_INIT = \<lparr>hidLayer = 0x00, packetLen = 0, msgCount = 0,
     replyType = 0x81, cmd = 0xA0, sc_bytes = []\<rparr>"

definition FW_GETVERSION_INIT :: SYSTEM_CMD where
  "FW_GETVERSION_INIT = \<lparr>hidLayer = 0x00, packetLen = 0, msgCount = 0,
     replyType = 0x01, cmd = 0xF6, sc_bytes = []\<rparr>"

definition FW_GETCRC32_INIT :: FW_GETCRC32 where
  "FW_GETCRC32_INIT = \<lparr>hidLayer = 0x00, packetLen = 0, msgCount = 0,
     replyType = 0x01, cmd = 0xF5, gc_flashStart = 0, gc_flashLength = 0\<rparr>"

definition FW_STARTAPP_INIT :: SYSTEM_CMD where
  "FW_STARTAPP_INIT = \<lparr>hidLayer = 0x00, packetLen = 0, msgCount = 0,
     replyType = 0x01, cmd = 0xF4, sc_bytes = []\<rparr>"

definition FW_ERASEFLASH_INIT :: SYSTEM_CMD where
  "FW_ERASEFLASH_INIT = \<lparr>hidLayer = 0x00, packetLen = 0, msgCount = 0,
     replyType = 0x01, cmd = 0xF3, sc_bytes = []\<rparr>"

definition FW_START_DOWNLOAD_WITH_ERASE_INIT :: FW_START_DOWNLOAD_WITH_ERASE where
  "FW_START_DOWNLOAD_WITH_ERASE_INIT = \<lparr>hidLayer = 0x00, packetLen = 0, msgCount = 0,
     replyType = 0x01, cmd = 0xF0, se_flashStart = 0, se_flashLength = 0\<rparr>"

definition FW_START_DOWNLOAD_INIT :: FW_START_DOWNLOAD where
  "FW_START_DOWNLOAD_INIT = \<lparr>hidLayer = 0x00, packetLen = 0, msgCount = 0,
     replyType = 0x01, cmd = 0xF1, sd_flashStart = 0, sd_flashLength = 0\<rparr>"

definition FW_DOWNLOAD_DATA_INIT :: FW_DOWNLOAD_DATA where
  "FW_DOWNLOAD_DATA_INIT = \<lparr>hidLayer = 0x00, packetLen = 0, msgCount = 0,
     replyType = 0x01, cmd = 0xF2, dd_payload = []\<rparr>"

definition EXECUTE_FILE_INIT :: VM_CMD where
  "EXECUTE_FILE_INIT = \<lparr>hidLayer = 0x00, packetLen = 0, msgCount = 0,
     replyType = 0x00, vm_alloc = 0x0800, vm_bytes = []\<rparr>"

lemmas init_defs = BEGIN_DOWNLOAD_INIT_def
  CONTINUE_DOWNLOAD_INIT_def
  BEGIN_UPLOAD_INIT_def
  CONTINUE_UPLOAD_INIT_def
  LIST_FILES_INIT_def
  CONTINUE_LIST_FILES_INIT_def
  BEGIN_GETFILE_INIT_def
  CREATE_DIR_INIT_def
  DELETE_FILE_INIT_def
  CLOSE_HANDLE_INIT_def
  BLUETOOTHPIN_INIT_def
  ENTERFWUPDATE_INIT_def
  FW_GETVERSION_INIT_def
  FW_GETCRC32_INIT_def
  FW_STARTAPP_INIT_def
  FW_ERASEFLASH_INIT_def
  FW_START_DOWNLOAD_WITH_ERASE_INIT_def
  FW_START_DOWNLOAD_INIT_def
  FW_DOWNLOAD_DATA_INIT_def
  EXECUTE_FILE_INIT_def

section \<open>Replies\<close>

record ev3_reply =
  r_packetLen :: u16
  r_msgCount :: u16
  r_type :: u8
  r_cmd :: u8
  r_ret :: u8

record SYSTEM_REPLY = ev3_reply +
  sr_bytes :: "u8 list"

record BEGIN_DOWNLOAD_REPLY = ev3_reply +
  bdr_fileHandle :: u8

record BEGIN_UPLOAD_REPLY = ev3_reply +
  bur_fileSize :: u32
  bur_fileHandle :: u8
  bur_bytes :: "u8 list"

record CONTINUE_UPLOAD_REPLY = ev3_reply +
  cur_fileHandle :: u8
  cur_bytes :: "u8 list"

record LIST_FILES_REPLY = ev3_reply +
  lfr_listSize :: u32
  lfr_handle :: u8
  lfr_list :: "u8 list"

record CONTINUE_LIST_FILES_REPLY = ev3_reply +
  clr_handle :: u8
  clr_list :: "u8 list"

record CLOSE_HANDLE_REPLY = ev3_reply +
  chr_handle :: u8

record FW_GETVERSION_REPLY = ev3_reply +
  gv_hardwareVersion :: u32
  gv_eepromVersion :: u32

record FW_GETCRC32_REPLY = ev3_reply +
  gcr_crc32 :: u32

record VM_REPLY =
  vr_packetLen :: u16
  vr_msgCount :: u16
  vr_replyType :: u8
  vr_bytes :: "u8 list"

definition sizeof_SYSTEM_REPLY :: nat where "sizeof_SYSTEM_REPLY = 7"
definition sizeof_BEGIN_DOWNLOAD_REPLY :: nat where "sizeof_BEGIN_DOWNLOAD_REPLY = 8"
definition sizeof_BEGIN_UPLOAD_REPLY :: nat where "sizeof_BEGIN_UPLOAD_REPLY = 12"
definition sizeof_CONTINUE_UPLOAD_REPLY :: nat where "sizeof_CONTINUE_UPLOAD_REPLY = 8"
definition sizeof_LIST_FILES_REPLY :: nat where "sizeof_LIST_FILES_REPLY = 12"
definition sizeof_CONTINUE_LIST_FILES_REPLY :: nat where "sizeof_CONTINUE_LIST_FILES_REPLY = 8"
definition sizeof_CLOSE_HANDLE_REPLY :: nat where "sizeof_CLOSE_HANDLE_REPLY = 8"
definition sizeof_FW_GETVERSION_REPLY :: nat where "sizeof_FW_GETVERSION_REPLY = 15"
definition sizeof_FW_GETCRC32_REPLY :: nat where "sizeof_FW_GETCRC32_REPLY = 11"
definition sizeof_VM_REPLY :: nat where "sizeof_VM_REPLY = 5"

lemmas sizeof_replies [layout] =
  sizeof_SYSTEM_REPLY_def sizeof_BEGIN_DOWNLOAD_REPLY_def sizeof_BEGIN_UPLOAD_REPLY_def
  sizeof_CONTINUE_UPLOAD_REPLY_def sizeof_LIST_FILES_REPLY_def sizeof_CONTINUE_LIST_FILES_REPLY_def
  sizeof_CLOSE_HANDLE_REPLY_def sizeof_FW_GETVERSION_REPLY_def sizeof_FW_GETCRC32_REPLY_def
  sizeof_VM_REPLY_def

definition as_SYSTEM_REPLY :: "u8 list \<Rightarrow> SYSTEM_REPLY" where
  "as_SYSTEM_REPLY b = \<lparr>r_packetLen = get16 b 0, r_msgCount = get16 b 2, r_type = b ! 4,
     r_cmd = b ! 5, r_ret = b ! 6, sr_bytes = drop 7 b\<rparr>"

definition as_BEGIN_DOWNLOAD_REPLY :: "u8 list \<Rightarrow> BEGIN_DOWNLOAD_REPLY" where
  "as_BEGIN_DOWNLOAD_REPLY b = \<lparr>r_packetLen = get16 b 0, r_msgCount = get16 b 2, r_type = b ! 4,
     r_cmd = b ! 5, r_ret = b ! 6, bdr_fileHandle = b ! 7\<rparr>"

definition as_BEGIN_UPLOAD_REPLY :: "u8 list \<Rightarrow> BEGIN_UPLOAD_REPLY" where
  "as_BEGIN_UPLOAD_REPLY b = \<lparr>r_packetLen = get16 b 0, r_msgCount = get16 b 2, r_type = b ! 4,
     r_cmd = b ! 5, r_ret = b ! 6, bur_fileSize = get32 b 7, bur_fileHandle = b ! 11,
     bur_bytes = drop 12 b\<rparr>"

definition as_CONTINUE_UPLOAD_REPLY :: "u8 list \<Rightarrow> CONTINUE_UPLOAD_REPLY" where
  "as_CONTINUE_UPLOAD_REPLY b = \<lparr>r_packetLen = get16 b 0, r_msgCount = get16 b 2, r_type = b ! 4,
     r_cmd = b ! 5, r_ret = b ! 6, cur_fileHandle = b ! 7, cur_bytes = drop 8 b\<rparr>"

definition as_LIST_FILES_REPLY :: "u8 list \<Rightarrow> LIST_FILES_REPLY" where
  "as_LIST_FILES_REPLY b = \<lparr>r_packetLen = get16 b 0, r_msgCount = get16 b 2, r_type = b ! 4,
     r_cmd = b ! 5, r_ret = b ! 6, lfr_listSize = get32 b 7, lfr_handle = b ! 11,
     lfr_list = drop 12 b\<rparr>"

definition as_CONTINUE_LIST_FILES_REPLY :: "u8 list \<Rightarrow> CONTINUE_LIST_FILES_REPLY" where
  "as_CONTINUE_LIST_FILES_REPLY b = \<lparr>r_packetLen = get16 b 0, r_msgCount = get16 b 2,
     r_type = b ! 4, r_cmd = b ! 5, r_ret = b ! 6, clr_handle = b ! 7, clr_list = drop 8 b\<rparr>"

definition as_CLOSE_HANDLE_REPLY :: "u8 list \<Rightarrow> CLOSE_HANDLE_REPLY" where
  "as_CLOSE_HANDLE_REPLY b = \<lparr>r_packetLen = get16 b 0, r_msgCount = get16 b 2, r_type = b ! 4,
     r_cmd = b ! 5, r_ret = b ! 6, chr_handle = b ! 7\<rparr>"

definition as_FW_GETVERSION_REPLY :: "u8 list \<Rightarrow> FW_GETVERSION_REPLY" where
  "as_FW_GETVERSION_REPLY b = \<lparr>r_packetLen = get16 b 0, r_msgCount = get16 b 2, r_type = b ! 4,
     r_cmd = b ! 5, r_ret = b ! 6, gv_hardwareVersion = get32 b 7, gv_eepromVersion = get32 b 11\<rparr>"

definition as_FW_GETCRC32_REPLY :: "u8 list \<Rightarrow> FW_GETCRC32_REPLY" where
  "as_FW_GETCRC32_REPLY b = \<lparr>r_packetLen = get16 b 0, r_msgCount = get16 b 2, r_type = b ! 4,
     r_cmd = b ! 5, r_ret = b ! 6, gcr_crc32 = get32 b 7\<rparr>"

definition as_VM_REPLY :: "u8 list \<Rightarrow> VM_REPLY" where
  "as_VM_REPLY b = \<lparr>vr_packetLen = get16 b 0, vr_msgCount = get16 b 2, vr_replyType = b ! 4,
     vr_bytes = drop 5 b\<rparr>"

lemmas as_defs = as_SYSTEM_REPLY_def as_BEGIN_DOWNLOAD_REPLY_def as_BEGIN_UPLOAD_REPLY_def
  as_CONTINUE_UPLOAD_REPLY_def as_LIST_FILES_REPLY_def as_CONTINUE_LIST_FILES_REPLY_def
  as_CLOSE_HANDLE_REPLY_def as_FW_GETVERSION_REPLY_def as_FW_GETCRC32_REPLY_def as_VM_REPLY_def

definition EXECUTE_FILE_REPLY_SUCCESS :: VM_REPLY where
  "EXECUTE_FILE_REPLY_SUCCESS = \<lparr>vr_packetLen = 3, vr_msgCount = 0, vr_replyType = 0x02,
     vr_bytes = []\<rparr>"

definition CONTINUE_DOWNLOAD_REPLY_SUCCESS :: BEGIN_DOWNLOAD_REPLY where
  "CONTINUE_DOWNLOAD_REPLY_SUCCESS = \<lparr>r_packetLen = 6, r_msgCount = 0, r_type = 0x03,
     r_cmd = 0x93, r_ret = 0x08, bdr_fileHandle = 0\<rparr>"

definition mem_VM_REPLY :: "VM_REPLY \<Rightarrow> u8 list" where
  "mem_VM_REPLY r = le16 (vr_packetLen r) @ le16 (vr_msgCount r) @ [vr_replyType r] @ vr_bytes r"

section \<open>packet_alloc\<close>

text \<open>
  \<^verbatim>\<open>packet_alloc(type, extra)\<close> gives a null pointer when the packet would not fit its 16-bit
  length field (an allocation that fits is taken to succeed). The \<open>extra\<close> bytes after the struct
  are not initialised; the caller fills them.
\<close>

definition packet_alloc :: "nat \<Rightarrow> 'a ev3_packet_scheme \<Rightarrow> nat \<Rightarrow> 'a ev3_packet_scheme option" where
  "packet_alloc size_of_type init extra =
    (if size_of_type + extra < 65535
     then Some (init\<lparr>packetLen := body_len (size_of_type + extra)\<rparr>)
     else None)"

text \<open>The number of bytes every caller sends.\<close>

definition wire_len :: "'a ev3_packet_scheme \<Rightarrow> nat" where
  "wire_len p = unat (packetLen p) + PREFIX_SIZE"

lemma packet_alloc_Some [simp]:
  "size_of_type + extra < 65535 \<Longrightarrow>
    packet_alloc size_of_type init extra
      = Some (init\<lparr>packetLen := body_len (size_of_type + extra)\<rparr>)"
  by (simp add: packet_alloc_def)

lemma packet_alloc_None [simp]:
  "65535 \<le> size_of_type + extra \<Longrightarrow> packet_alloc size_of_type init extra = None"
  by (simp add: packet_alloc_def)

lemma packet_alloc_eq_None_iff:
  "packet_alloc size_of_type init extra = None \<longleftrightarrow> 65535 \<le> size_of_type + extra"
  by (auto simp: packet_alloc_def)

lemma unat_body_len [simp]:
  "3 \<le> n \<Longrightarrow> n < 65535 \<Longrightarrow> unat (body_len n) + PREFIX_SIZE = n"
  unfolding body_len_def PREFIX_SIZE_def by (subst unat_u16_small) simp_all

section \<open>Frames\<close>

text \<open>
  What the transports need of a message: a zero HID report byte, then a 16-bit length that
  counts the bytes after it.
\<close>

definition frame :: "u8 list \<Rightarrow> bool" where
  "frame b \<longleftrightarrow> 3 \<le> length b \<and> b ! 0 = 0 \<and> unat (get16 b 1) + PREFIX_SIZE = length b"

lemma get16_packetLen [wire]: "get16 (mem_packet p @ ys) (Suc 0) = packetLen p"
  by (rule get16_at [where xs = "[hidLayer p]"]) (simp_all add: mem_packet_def)

lemma nth0_mem_packet: "(mem_packet p @ ys) ! 0 = hidLayer p"
  by (simp add: mem_packet_def)

lemma mem_command_head: "mem_command p @ ys = mem_packet p @ cmd p # ys"
  by (simp add: mem_command_def)

lemma frame_memI:
  "m = mem_packet p @ ys \<Longrightarrow> hidLayer p = 0 \<Longrightarrow> length m = wire_len p \<Longrightarrow> frame m"
  by (simp add: frame_def get16_packetLen nth0_mem_packet wire_len_def PREFIX_SIZE_def)

lemma mem_heads:
  "mem_SYSTEM_CMD system_cmd = mem_packet system_cmd @ ([cmd system_cmd] @ sc_bytes system_cmd)"
  "mem_BEGIN_DOWNLOAD begin_download = mem_packet begin_download @ ([cmd begin_download] @ le32 (bd_fileSize begin_download) @ bd_fileName begin_download)"
  "mem_CONTINUE_DOWNLOAD continue_download = mem_packet continue_download @ ([cmd continue_download] @ [cd_fileHandle continue_download] @ cd_fileChunk continue_download)"
  "mem_BEGIN_UPLOAD begin_upload = mem_packet begin_upload @ ([cmd begin_upload] @ le16 (bu_maxBytes begin_upload) @ bu_fileName begin_upload)"
  "mem_CONTINUE_UPLOAD continue_upload = mem_packet continue_upload @ ([cmd continue_upload] @ [cu_fileHandle continue_upload] @ le16 (cu_maxBytes continue_upload))"
  "mem_LIST_FILES list_files = mem_packet list_files @ ([cmd list_files] @ le16 (lf_maxBytes list_files) @ lf_path list_files)"
  "mem_CONTINUE_LIST_FILES continue_list_files = mem_packet continue_list_files @ ([cmd continue_list_files] @ [clf_handle continue_list_files] @ le32 (clf_listSize continue_list_files))"
  "mem_CREATE_DIR create_dir = mem_packet create_dir @ ([cmd create_dir] @ mk_path create_dir)"
  "mem_DELETE_FILE delete_file = mem_packet delete_file @ ([cmd delete_file] @ rm_path delete_file)"
  "mem_CLOSE_HANDLE close_handle = mem_packet close_handle @ ([cmd close_handle] @ [ch_handle close_handle])"
  "mem_FW_GETCRC32 fw_getcrc32 = mem_packet fw_getcrc32 @ ([cmd fw_getcrc32] @ le32 (gc_flashStart fw_getcrc32) @ le32 (gc_flashLength fw_getcrc32))"
  "mem_FW_START_DOWNLOAD_WITH_ERASE fw_start_download_with_erase = mem_packet fw_start_download_with_erase @ ([cmd fw_start_download_with_erase] @ le32 (se_flashStart fw_start_download_with_erase) @ le32 (se_flashLength fw_start_download_with_erase))"
  "mem_FW_START_DOWNLOAD fw_start_download = mem_packet fw_start_download @ ([cmd fw_start_download] @ le32 (sd_flashStart fw_start_download) @ le32 (sd_flashLength fw_start_download))"
  "mem_FW_DOWNLOAD_DATA fw_download_data = mem_packet fw_download_data @ ([cmd fw_download_data] @ dd_payload fw_download_data)"
  "mem_VM_CMD vm_cmd = mem_packet vm_cmd @ (le16 (vm_alloc vm_cmd) @ vm_bytes vm_cmd)"
  by (simp_all add: mem_defs mem_command_def)

lemmas frame_mems = mem_heads [THEN frame_memI]

end
