(* ===== verification/Exchange.thy ===== *)
theory Exchange
  imports World Packets
begin

text \<open>
  The contract most commands share: send one request, read one reply into a buffer, judge it.
  Each command is written out in its own theory the way its C function is; it is an
  interpretation of the locale \<open>request_reply\<close>, which proves once what such a command does to the
  transport and when it can return which code.
\<close>

section \<open>Code between the calls of the transport\<close>

definition silent :: "('d world \<Rightarrow> ('a, 'd) run) \<Rightarrow> bool" where
  "silent f \<longleftrightarrow> (\<forall>w. \<exists>r w'. f w = Some (r, w') \<and> dev w' = dev w \<and> trace w' = trace w)"

lemma silentD: "silent f \<Longrightarrow> f w = Some (r, w') \<Longrightarrow> dev w' = dev w \<and> trace w' = trace w"
  unfolding silent_def by (drule spec [where x = w]) auto

lemma silent_not_None [simp]: "silent f \<Longrightarrow> (f w = None) \<longleftrightarrow> False"
  unfolding silent_def by (drule spec [where x = w]) auto

lemma silent_ret [intro]: "(\<And>w. dev (g w) = dev w) \<Longrightarrow> (\<And>w. trace (g w) = trace w) \<Longrightarrow> silent (\<lambda>w. ret a (g w))"
  by (simp add: silent_def)

section \<open>The transport answers\<close>

text \<open>
  \<open>answers io w q sz ms b d'\<close>: in \<open>w\<close> the transport accepts the request \<open>q\<close>, and then answers
  a read of \<open>sz\<close> bytes within the buffer, which holds \<open>b\<close> afterwards; \<open>d'\<close> is the state it is
  left in.
\<close>

definition answers :: "'d ev3_io \<Rightarrow> 'd world \<Rightarrow> u8 list \<Rightarrow> nat \<Rightarrow> int \<Rightarrow> u8 list \<Rightarrow> 'd \<Rightarrow> bool" where
  "answers io w q sz ms b d' \<longleftrightarrow>
    (case io_write io (dev w) q of
       None \<Rightarrow> False
     | Some (res, d) \<Rightarrow> 0 \<le> res \<and>
         (case io_read io d sz ms of
            None \<Rightarrow> False
          | Some (res', bs, d'') \<Rightarrow>
              0 < res' \<and> length bs \<le> sz \<and> b = overlay (uninit w sz) bs \<and> d' = d''))"

lemma answersE:
  assumes "answers io w q sz ms b d'"
  obtains res d res' bs where "io_write io (dev w) q = Some (res, d)" "0 \<le> res"
    "io_read io d sz ms = Some (res', bs, d')" "0 < res'" "length bs \<le> sz"
    "b = overlay (uninit w sz) bs"
proof -
  from assms obtain res d where 1: "io_write io (dev w) q = Some (res, d)" "0 \<le> res"
    by (cases "io_write io (dev w) q") (auto simp: answers_def)
  with assms obtain res' bs d'' where 2: "io_read io d sz ms = Some (res', bs, d'')"
    by (cases "io_read io d sz ms") (auto simp: answers_def)
  from assms have "0 < res' \<and> length bs \<le> sz \<and> b = overlay (uninit w sz) bs \<and> d' = d''"
    by (simp add: answers_def 1 2)
  with 1 2 that show thesis by blast
qed

section \<open>A buffer that is reused\<close>

text \<open>
  What a reused reply buffer holds after each of a series of reads.
\<close>

fun reply_bufs :: "u8 list \<Rightarrow> u8 list list \<Rightarrow> u8 list list" where
  "reply_bufs m [] = []"
| "reply_bufs m (b # bs) = overlay m b # reply_bufs (overlay m b) bs"

lemma reply_bufs_append:
  "reply_bufs m (xs @ ys) = reply_bufs m xs @ reply_bufs (last (m # reply_bufs m xs)) ys"
  by (induction xs arbitrary: m) auto

lemma length_reply_bufs [simp]: "length (reply_bufs m bs) = length bs"
  by (induction bs arbitrary: m) auto

section \<open>One request, one reply\<close>

locale request_reply =
  fixes run_cmd :: "'d ev3_io \<Rightarrow> 'd world \<Rightarrow> ('a, 'd) run"
    and req :: "u8 list option"
    and sz :: nat
    and ms :: int
    and wfail :: "'d world \<Rightarrow> ('a, 'd) run"
    and sent :: "'d world \<Rightarrow> 'd world"
    and rfail :: "'d world \<Rightarrow> ('a, 'd) run"
    and judge :: "u8 list \<Rightarrow> 'd world \<Rightarrow> ('a, 'd) run"
  assumes shape: "run_cmd io w =
      (case req of None \<Rightarrow> undef w
       | Some r \<Rightarrow> ev3_write io r (length r) w (\<lambda>res w.
           if res < 0 then wfail w
           else ev3_read_timeout io (uninit (sent w) sz) sz ms (sent w) (\<lambda>res b w.
             if res \<le> 0 then rfail w else judge b w)))"
    and sent_dev: "dev (sent w) = dev w"
    and sent_trace: "trace (sent w) = trace w"
    and sent_garbage: "garbage (sent w) = garbage w"
    and silent_wfail: "silent wfail"
    and silent_rfail: "silent rfail"
    and silent_judge: "silent (judge b)"
begin

lemmas local_keeps = silentD [OF silent_wfail] silentD [OF silent_rfail] silentD [OF silent_judge]

lemmas local_returns = silent_not_None [OF silent_wfail] silent_not_None [OF silent_rfail]
  silent_not_None [OF silent_judge]

lemma hang_from_transport:
  assumes "run_cmd io w = None"
  obtains r where "req = Some r" "io_write io (dev w) r = None"
  | r res d where "req = Some r" "io_write io (dev w) r = Some (res, d)" "io_read io d sz ms = None"
proof -
  from assms obtain r where r: "req = Some r" by (auto simp: shape ev3_write_all split: option.splits)
  show thesis
  proof (cases "io_write io (dev w) r")
    case None
    then show ?thesis using r that(1) by blast
  next
    case (Some p)
    obtain res d where p: "io_write io (dev w) r = Some (res, d)" using Some by (cases p) auto
    have "io_read io d sz ms = None"
    proof (rule ccontr)
      assume "io_read io d sz ms \<noteq> None"
      then show False using assms r p
        by (auto simp: shape ev3_write_all ev3_read_timeout_def Let_def sent_dev local_returns split: if_splits)
    qed
    then show ?thesis using r p that(2) by blast
  qed
qed

lemma one_exchange:
  assumes "run_cmd io w = Some (r, w')"
  shows "req = None \<and> r = Undef \<and> w' = w \<or>
    (\<exists>q. req = Some q \<and> (trace w' = trace w @ [Wr q] \<or> trace w' = trace w @ [Wr q, Rd sz ms]))"
proof (cases req)
  case None
  then show ?thesis using assms by (simp add: shape ev3_write_all)
next
  case (Some q)
  then obtain res d where wr: "io_write io (dev w) q = Some (res, d)"
    using assms by (auto simp: shape ev3_write_all split: option.splits prod.splits)
  show ?thesis
  proof (cases "res < 0")
    case True
    then have "wfail (w\<lparr>dev := d, trace := trace w @ [Wr q]\<rparr>) = Some (r, w')"
      using assms Some wr by (simp add: shape ev3_write_all)
    from local_keeps(1) [OF this] show ?thesis using Some by simp
  next
    case False
    then have "ev3_read_timeout io (uninit (sent (w\<lparr>dev := d, trace := trace w @ [Wr q]\<rparr>)) sz) sz ms
        (sent (w\<lparr>dev := d, trace := trace w @ [Wr q]\<rparr>))
        (\<lambda>res b w. if res \<le> 0 then rfail w else judge b w) = Some (r, w')"
      using assms Some wr by (simp add: shape ev3_write_all)
    then show ?thesis using Some
      by (auto simp: ev3_read_timeout_def Let_def sent_dev sent_trace
          dest!: local_keeps split: option.splits if_splits)
  qed
qed

lemma emits_exchange:
  assumes "P (Rd sz ms)" and "\<And>q. req = Some q \<Longrightarrow> P (Wr q)"
  shows "emits P w (run_cmd io w)"
  unfolding emits_def
proof (intro allI impI)
  fix a w'
  assume "run_cmd io w = Some (a, w')"
  from one_exchange [OF this] show "\<exists>t. trace w' = trace w @ t \<and> list_all P t"
    using assms by (elim disjE exE conjE) simp_all
qed

text \<open>Once the transport has answered, the reply decides.\<close>

lemma reply_decides:
  assumes "req = Some q" and "answers io w q sz ms b d'"
  obtains w1 where "dev w1 = d'" "trace w1 = trace w @ [Wr q, Rd sz ms]" "run_cmd io w = judge b w1"
proof -
  obtain res d res' bs where *: "io_write io (dev w) q = Some (res, d)" "0 \<le> res"
    "io_read io d sz ms = Some (res', bs, d')" "0 < res'" "length bs \<le> sz"
    "b = overlay (uninit w sz) bs"
    using assms(2) by (rule answersE)
  have "uninit (sent (w\<lparr>dev := d, trace := trace w @ [Wr q]\<rparr>)) sz = uninit w sz"
    by (simp add: uninit_def sent_garbage)
  then show thesis
    using * assms(1) that [of "(sent (w\<lparr>dev := d, trace := trace w @ [Wr q]\<rparr>))
      \<lparr>dev := d', trace := trace w @ [Wr q, Rd sz ms],
        received := received (sent (w\<lparr>dev := d, trace := trace w @ [Wr q]\<rparr>)) @ [bs]\<rparr>"]
    by (simp add: shape ev3_write_all ev3_read_timeout_def Let_def sent_dev sent_trace)
qed

lemma returnE:
  assumes "run_cmd io w = Some (Ret a, w')"
    and "\<And>v v'. wfail v \<noteq> Some (Ret a, v')" and "\<And>v v'. rfail v \<noteq> Some (Ret a, v')"
  obtains q b w1 where "req = Some q" "answers io w q sz ms b (dev w1)"
    "trace w1 = trace w @ [Wr q, Rd sz ms]" "judge b w1 = Some (Ret a, w')"
proof -
  obtain q where q: "req = Some q" using assms(1) by (cases req) (simp_all add: shape)
  define w0 where "w0 d = w\<lparr>dev := d, trace := trace w @ [Wr q]\<rparr>" for d
  have g: "uninit (sent (w0 d)) sz = uninit w sz" for d by (simp add: uninit_def sent_garbage w0_def)
  obtain res d where 1: "io_write io (dev w) q = Some (res, d)" "0 \<le> res"
    "ev3_read_timeout io (uninit w sz) sz ms (sent (w0 d))
       (\<lambda>res b w. if res \<le> 0 then rfail w else judge b w) = Some (Ret a, w')"
    using assms(1,2) q g by (auto simp: shape w0_def elim!: ev3_write_RetE split: if_splits)
  from 1(3) obtain res' bs d' where 2: "io_read io d sz ms = Some (res', bs, d')" "length bs \<le> sz" "0 < res'"
    "judge (overlay (uninit w sz) bs) ((sent (w0 d))\<lparr>dev := d', trace := trace w @ [Wr q, Rd sz ms],
        received := received (sent (w0 d)) @ [bs]\<rparr>)
      = Some (Ret a, w')"
    using assms(3) by (elim ev3_read_RetE) (auto simp: sent_dev sent_trace w0_def split: if_splits)
  show thesis
    by (rule that [OF q _ _ 2(4)]) (simp_all add: answers_def 1 2)
qed

lemma read_anyway:
  assumes "run_cmd io w = Some (r, w')" and "req = Some q"
    and "\<And>res d. io_write io (dev w) q = Some (res, d) \<Longrightarrow> 0 \<le> res"
  shows "trace w' = trace w @ [Wr q, Rd sz ms]"
proof -
  define w0 where "w0 d = w\<lparr>dev := d, trace := trace w @ [Wr q]\<rparr>" for d
  obtain res d where 1: "io_write io (dev w) q = Some (res, d)" "0 \<le> res"
    "ev3_read_timeout io (uninit (sent (w0 d)) sz) sz ms (sent (w0 d))
       (\<lambda>res b w. if res \<le> 0 then rfail w else judge b w) = Some (r, w')"
    using assms by (auto simp: shape ev3_write_all w0_def split: option.splits if_splits)
  then show ?thesis
    by (auto simp: ev3_read_timeout_def Let_def sent_trace w0_def dest!: local_keeps split: option.splits if_splits)
qed

lemma read_overruns:
  assumes "req = Some q" and "io_write io (dev w) q = Some (res, d)" and "0 \<le> res"
    and "io_read io d sz ms = Some (res', bs, d')" and "sz < length bs"
  shows "\<exists>w'. run_cmd io w = undef w'"
  using assms by (simp add: shape ev3_write_all ev3_read_timeout_def Let_def sent_dev)

lemma write_fails:
  assumes "req = Some q" and "io_write io (dev w) q = Some (res, d)" and "res < 0"
  obtains w1 where "dev w1 = d" "trace w1 = trace w @ [Wr q]" "run_cmd io w = wfail w1"
  using assms that [of "w\<lparr>dev := d, trace := trace w @ [Wr q]\<rparr>"] by (simp add: shape ev3_write_all)

lemma read_fails:
  assumes "req = Some q" and "io_write io (dev w) q = Some (res, d)" and "0 \<le> res"
    and "io_read io d sz ms = Some (res', bs, d')" and "res' \<le> 0" and "length bs \<le> sz"
  obtains w1 where "dev w1 = d'" "trace w1 = trace w @ [Wr q, Rd sz ms]" "run_cmd io w = rfail w1"
  using assms that [of "(sent (w\<lparr>dev := d, trace := trace w @ [Wr q]\<rparr>))
      \<lparr>dev := d', trace := trace w @ [Wr q, Rd sz ms],
        received := received (sent (w\<lparr>dev := d, trace := trace w @ [Wr q]\<rparr>)) @ [bs]\<rparr>"]
  by (simp add: shape ev3_write_all ev3_read_timeout_def Let_def sent_dev sent_trace)

end

section \<open>Judging a reply\<close>

text \<open>
  Every command but the file transfers ends the same way: a reply whose type is not acceptable is
  reported with \<^verbatim>\<open>errno\<close> set to its return byte and its first \<^verbatim>\<open>packetLen + extra\<close> bytes printed.
\<close>

definition comm_fail :: "'a \<Rightarrow> string \<Rightarrow> 'd world \<Rightarrow> ('a, 'd) run" where
  "comm_fail e msg w = ret e (w\<lparr>errmsg := Some msg\<rparr>)"

definition verdict ::
    "(u8 \<Rightarrow> bool) \<Rightarrow> nat \<Rightarrow> 'a \<Rightarrow> string \<Rightarrow> (u8 list \<Rightarrow> 'd world \<Rightarrow> ('a, 'd) run)
      \<Rightarrow> u8 list \<Rightarrow> 'd world \<Rightarrow> ('a, 'd) run" where
  "verdict bad extra denied msg fin mem w =
    (let rep = as_SYSTEM_REPLY mem in
     if bad (r_type rep) then
       print_bytes mem (unat (r_packetLen rep) + extra)
         (put_err (bytes ''Operation failed.\<newline>last_reply='') (w\<lparr>errno := uint (r_ret rep)\<rparr>))
         (comm_fail denied msg)
     else fin mem w)"

lemma silent_comm_fail [simp]: "silent (comm_fail e msg)"
  by (simp add: silent_def comm_fail_def)

lemma silent_verdict: "(\<And>mem. silent (fin mem)) \<Longrightarrow> silent (verdict bad extra denied msg fin mem)"
  by (simp add: silent_def verdict_def Let_def print_bytes_def comm_fail_def)

locale judged_request =
  fixes run_cmd :: "'d ev3_io \<Rightarrow> 'd world \<Rightarrow> ('a, 'd) run"
    and req :: "u8 list option"
    and sz :: nat
    and ms :: int
    and wfail :: "'d world \<Rightarrow> ('a, 'd) run"
    and sent :: "'d world \<Rightarrow> 'd world"
    and rfail :: "'d world \<Rightarrow> ('a, 'd) run"
    and bad :: "u8 \<Rightarrow> bool"
    and extra :: nat
    and denied :: 'a
    and msg :: string
    and fin :: "u8 list \<Rightarrow> 'd world \<Rightarrow> ('a, 'd) run"
  assumes is_request: "request_reply run_cmd req sz ms wfail sent rfail (verdict bad extra denied msg fin)"

sublocale judged_request \<subseteq> request_reply run_cmd req sz ms wfail sent rfail "verdict bad extra denied msg fin"
  by (rule is_request)

context judged_request begin

lemma reply_accepted:
  assumes "req = Some q" and "answers io w q sz ms b d'" and "\<not> bad (r_type (as_SYSTEM_REPLY b))"
  shows "\<exists>w1. dev w1 = d' \<and> trace w1 = trace w @ [Wr q, Rd sz ms] \<and> run_cmd io w = fin b w1"
proof -
  obtain w1 where "dev w1 = d'" "trace w1 = trace w @ [Wr q, Rd sz ms]"
    "run_cmd io w = verdict bad extra denied msg fin b w1"
    using assms(1,2) by (rule reply_decides)
  then show ?thesis using assms(3) by (auto simp: verdict_def)
qed

lemma reply_denied:
  assumes "req = Some q" and "answers io w q sz ms b d'" and "bad (r_type (as_SYSTEM_REPLY b))"
    and "unat (r_packetLen (as_SYSTEM_REPLY b)) + extra \<le> length b"
  shows "\<exists>w1. dev w1 = d' \<and> trace w1 = trace w @ [Wr q, Rd sz ms] \<and> run_cmd io w = ret denied w1
    \<and> errno w1 = uint (r_ret (as_SYSTEM_REPLY b)) \<and> errmsg w1 = Some msg"
proof -
  obtain w1 where "dev w1 = d'" "trace w1 = trace w @ [Wr q, Rd sz ms]"
    "run_cmd io w = verdict bad extra denied msg fin b w1"
    using assms(1,2) by (rule reply_decides)
  then show ?thesis using assms(3,4)
    by (simp add: verdict_def Let_def print_bytes_def comm_fail_def)
qed

lemma reply_overlong:
  assumes "req = Some q" and "answers io w q sz ms b d'" and "bad (r_type (as_SYSTEM_REPLY b))"
    and "length b < unat (r_packetLen (as_SYSTEM_REPLY b)) + extra"
  shows "\<exists>w1. dev w1 = d' \<and> trace w1 = trace w @ [Wr q, Rd sz ms] \<and> run_cmd io w = undef w1"
proof -
  obtain w1 where "dev w1 = d'" "trace w1 = trace w @ [Wr q, Rd sz ms]"
    "run_cmd io w = verdict bad extra denied msg fin b w1"
    using assms(1,2) by (rule reply_decides)
  then show ?thesis using assms(3,4) by (simp add: verdict_def Let_def print_bytes_def)
qed

lemma answers_length:
  assumes "answers io w q sz ms b d'"
  shows "length b = sz"
  using assms by (elim answersE) simp

lemma acceptedE:
  assumes "run_cmd io w = Some (Ret a, w')" and "a \<noteq> denied"
    and "\<And>v v'. wfail v \<noteq> Some (Ret a, v')" and "\<And>v v'. rfail v \<noteq> Some (Ret a, v')"
  obtains q b w1 where "req = Some q" "answers io w q sz ms b (dev w1)"
    "trace w1 = trace w @ [Wr q, Rd sz ms]" "\<not> bad (r_type (as_SYSTEM_REPLY b))" "fin b w1 = Some (Ret a, w')"
proof -
  obtain q b w1 where *: "req = Some q" "answers io w q sz ms b (dev w1)"
    "trace w1 = trace w @ [Wr q, Rd sz ms]" "verdict bad extra denied msg fin b w1 = Some (Ret a, w')"
    using returnE [OF assms(1,3,4)] by metis
  then show thesis using assms(2)
    by (intro that [OF *(1-3)])
      (auto simp: verdict_def Let_def comm_fail_def elim!: print_bytes_RetE split: if_splits)
qed

lemma outcome:
  assumes "req = Some q" and "answers io w q sz ms b d'"
  shows "\<exists>w'. dev w' = d' \<and> trace w' = trace w @ [Wr q, Rd sz ms] \<and>
    (if \<not> bad (r_type (as_SYSTEM_REPLY b)) then run_cmd io w = fin b w'
     else if unat (r_packetLen (as_SYSTEM_REPLY b)) + extra \<le> sz
     then run_cmd io w = ret denied w' \<and> errno w' = uint (r_ret (as_SYSTEM_REPLY b)) \<and> errmsg w' = Some msg
     else run_cmd io w = undef w')"
  using reply_accepted [OF assms] reply_denied [OF assms] reply_overlong [OF assms]
    answers_length [OF assms(2)]
  by (metis not_le)

end

section \<open>Commands that only report success\<close>

locale plain_command = judged_request run_cmd req sz ms wfail sent rfail bad extra denied msg
    "\<lambda>_. comm_fail okv okmsg"
  for run_cmd :: "'d ev3_io \<Rightarrow> 'd world \<Rightarrow> ('a, 'd) run"
    and req sz ms wfail sent rfail bad extra denied msg okv okmsg
begin

lemma plain_outcome:
  assumes "req = Some q" and "answers io w q sz ms b d'"
  shows "\<exists>w'. dev w' = d' \<and> trace w' = trace w @ [Wr q, Rd sz ms] \<and>
    (if \<not> bad (r_type (as_SYSTEM_REPLY b)) then run_cmd io w = ret okv w' \<and> errmsg w' = Some okmsg
     else if unat (r_packetLen (as_SYSTEM_REPLY b)) + extra \<le> sz
     then run_cmd io w = ret denied w' \<and> errno w' = uint (r_ret (as_SYSTEM_REPLY b)) \<and> errmsg w' = Some msg
     else run_cmd io w = undef w')"
proof -
  obtain w1 where w1: "dev w1 = d'" "trace w1 = trace w @ [Wr q, Rd sz ms]"
    "if \<not> bad (r_type (as_SYSTEM_REPLY b)) then run_cmd io w = comm_fail okv okmsg w1
     else if unat (r_packetLen (as_SYSTEM_REPLY b)) + extra \<le> sz
     then run_cmd io w = ret denied w1 \<and> errno w1 = uint (r_ret (as_SYSTEM_REPLY b)) \<and> errmsg w1 = Some msg
     else run_cmd io w = undef w1"
    using outcome [OF assms] by blast
  show ?thesis
  proof (cases "bad (r_type (as_SYSTEM_REPLY b))")
    case True
    then show ?thesis using w1 by (intro exI [of _ w1]) simp
  next
    case False
    then show ?thesis using w1
      by (intro exI [of _ "w1\<lparr>errmsg := Some okmsg\<rparr>"]) (simp add: comm_fail_def)
  qed
qed

end

end
