(* ===== verification/Scripted.thy ===== *)
theory Scripted
  imports Exchange
begin

text \<open>
  Transports to run the commands against: one that answers reads with a fixed list of replies, then
  with timeouts; one that loops every request back; and the assumption that a transport answers at
  all, under which the loops of the commands end.
\<close>

definition scripted :: "u8 list list ev3_io" where
  "scripted = \<lparr>io_write = (\<lambda>d bs. Some (int (length bs), d)),
     io_read = (\<lambda>d n ms. case d of [] \<Rightarrow> Some (0, [], []) | r # rs \<Rightarrow> Some (int (length r), r, rs)),
     io_kind = HID\<rparr>"

definition world0 :: "'d \<Rightarrow> 'd world" where
  "world0 d = \<lparr>dev = d, errmsg = None, errno = 0, stdout_log = [], stderr_log = [],
     garbage = (\<lambda>_. 0), trace = [], received = []\<rparr>"

lemma world0_sel [simp]:
  "dev (world0 d) = d" "errmsg (world0 d) = None" "errno (world0 d) = 0" "stdout_log (world0 d) = []"
  "stderr_log (world0 d) = []" "garbage (world0 d) = (\<lambda>_. 0)" "trace (world0 d) = []" "received (world0 d) = []"
  by (simp_all add: world0_def)

lemma scripted_sel [simp]:
  "io_write scripted d bs = Some (int (length bs), d)"
  "io_read scripted [] n ms = Some (0, [], [])"
  "io_read scripted (r # rs) n ms = Some (int (length r), r, rs)"
  "io_kind scripted = HID"
  by (simp_all add: scripted_def)

lemma scripted_answers:
  "r \<noteq> [] \<Longrightarrow> length r \<le> n \<Longrightarrow> dev w = r # rs \<Longrightarrow>
    answers scripted w q n ms (overlay (uninit w n) r) rs"
  by (simp add: answers_def)

section \<open>Transports that answer\<close>

text \<open>Every write is accepted and every read of \<open>n\<close> bytes brings between one and \<open>n\<close> bytes.\<close>

definition responsive :: "'d ev3_io \<Rightarrow> nat \<Rightarrow> bool" where
  "responsive io n \<longleftrightarrow> (\<forall>d bs. \<exists>res d'. io_write io d bs = Some (res, d') \<and> 0 \<le> res)
     \<and> (\<forall>d ms. \<exists>res bs d'. io_read io d n ms = Some (res, bs, d') \<and> 0 < res \<and> length bs \<le> n)"

lemma responsiveE:
  assumes "responsive io n"
  obtains res d res' bs d' where "io_write io e q = Some (res, d)" "0 \<le> res"
    "io_read io d n ms = Some (res', bs, d')" "0 < res'" "length bs \<le> n"
proof -
  from assms obtain res d where 1: "io_write io e q = Some (res, d)" "0 \<le> res"
    unfolding responsive_def by meson
  from assms obtain res' bs d' where "io_read io d n ms = Some (res', bs, d')" "0 < res'" "length bs \<le> n"
    unfolding responsive_def by meson
  with 1 that show thesis by blast
qed

text \<open>
  The host's USB 3 bug: the brick executes the command, but every read returns the request's own
  header, whose type byte is VM_SYS_RQ.
\<close>

definition loops_back :: "'d ev3_io \<Rightarrow> bool" where
  "loops_back io \<longleftrightarrow> (\<forall>d bs. \<exists>d'. io_write io d bs = Some (int (length bs), d'))
     \<and> (\<forall>d n ms. 7 \<le> n \<longrightarrow>
          (\<exists>r d'. io_read io d n ms = Some (7, r, d') \<and> length r = 7 \<and> r ! 4 = VM_SYS_RQ))"

lemma loops_back_write:
  "loops_back io \<Longrightarrow> \<exists>d'. io_write io d bs = Some (int (length bs), d')"
  by (simp add: loops_back_def)

lemma loops_back_read:
  "loops_back io \<Longrightarrow> 7 \<le> n \<Longrightarrow>
    \<exists>r d'. io_read io d n ms = Some (7, r, d') \<and> length r = 7 \<and> r ! 4 = VM_SYS_RQ"
  by (simp add: loops_back_def)

definition loopback :: "unit ev3_io" where
  "loopback = \<lparr>io_write = (\<lambda>d bs. Some (int (length bs), d)),
     io_read = (\<lambda>d n ms. Some (7, [4, 0, 0, 0, 1, 0, 0], d)), io_kind = HID\<rparr>"

lemma loops_back_loopback: "loops_back loopback"
  by (simp add: loops_back_def loopback_def VM_SYS_RQ_def)

lemma responsive_loopback: "7 \<le> n \<Longrightarrow> responsive loopback n"
  by (simp add: responsive_def loopback_def)

end
