(* ===== verification/DirCmds.thy ===== *)
theory DirCmds
  imports Scripted
begin

text \<open>
  \<^verbatim>\<open>src/src/mkdir.c\<close> and \<^verbatim>\<open>src/src/rm.c\<close>: create a directory, delete a file. Both send one request
  that ends in the path and wait \<^verbatim>\<open>TIMEOUT\<close> for a reply of seven bytes.
\<close>

section \<open>The commands\<close>

definition mkdir :: "'d ev3_io \<Rightarrow> string \<Rightarrow> 'd world \<Rightarrow> (ERR, 'd) run" where
  "mkdir io path w =
    (let path_sz = length path + 1
     in case packet_alloc sizeof_CREATE_DIR CREATE_DIR_INIT path_sz of
       None \<Rightarrow> undef w
     | Some mk0 \<Rightarrow>
       let mk = mk0\<lparr>mk_path := cstr path\<rparr> in
       ev3_write io (mem_CREATE_DIR mk) (wire_len mk) w (\<lambda>res w.
       if res < 0 then ret ERR_COMM (w\<lparr>errmsg := Some ''Unable to write CREATE_DIR.''\<rparr>)
       else
         let w = put_err (bytes ''Checking reply: \<newline>'') w in
         ev3_read_timeout io (uninit w sizeof_SYSTEM_REPLY) sizeof_SYSTEM_REPLY TIMEOUT w (\<lambda>res mem w.
         let mkrep = as_SYSTEM_REPLY mem in
         if res \<le> 0 then ret ERR_COMM (w\<lparr>errmsg := Some ''Unable to read CREATE_DIR_REPLY''\<rparr>)
         else if r_type mkrep = VM_ERROR then
           (let w = w\<lparr>errno := uint (r_ret mkrep)\<rparr>;
                w = put_err (bytes ''Operation failed.\<newline>last_reply='') w
            in print_bytes mem (unat (r_packetLen mkrep)) w (\<lambda>w.
               ret ERR_VM (w\<lparr>errmsg := Some ''`CREATE_DIR` was denied.''\<rparr>)))
         else ret ERR_UNK (w\<lparr>errmsg := Some ''`CREATE_DIR` was successful.''\<rparr>))))"

definition rm :: "'d ev3_io \<Rightarrow> string \<Rightarrow> 'd world \<Rightarrow> (ERR, 'd) run" where
  "rm io path w =
    (let path_sz = length path + 1
     in case packet_alloc sizeof_DELETE_FILE DELETE_FILE_INIT path_sz of
       None \<Rightarrow> undef w
     | Some rm0 \<Rightarrow>
       let rm_cmd = rm0\<lparr>rm_path := cstr path\<rparr> in
       ev3_write io (mem_DELETE_FILE rm_cmd) (wire_len rm_cmd) w (\<lambda>res w.
       if res < 0 then ret ERR_COMM (w\<lparr>errmsg := Some ''Unable to write DELETE_FILE.''\<rparr>)
       else
         let w = put_err (bytes ''Checking reply: \<newline>'') w in
         ev3_read_timeout io (uninit w sizeof_SYSTEM_REPLY) sizeof_SYSTEM_REPLY TIMEOUT w (\<lambda>res mem w.
         let rmrep = as_SYSTEM_REPLY mem in
         if res \<le> 0 then ret ERR_COMM (w\<lparr>errmsg := Some ''Unable to read DELETE_FILE''\<rparr>)
         else if r_type rmrep = VM_ERROR then
           (let w = w\<lparr>errno := uint (r_ret rmrep)\<rparr>;
                w = put_err (bytes ''Operation failed.\<newline>last_reply='') w
            in print_bytes mem (unat (r_packetLen rmrep)) w (\<lambda>w.
               ret ERR_VM (w\<lparr>errmsg := Some ''`DELETE_FILE` was denied.''\<rparr>)))
         else ret ERR_UNK (w\<lparr>errmsg := Some ''`DELETE_FILE` was successful.''\<rparr>))))"

section \<open>Both are one request and one verdict on the reply\<close>

definition mkdir_request :: "string \<Rightarrow> u8 list option" where
  "mkdir_request path = map_option (\<lambda>mk. mem_CREATE_DIR (mk\<lparr>mk_path := cstr path\<rparr>))
     (packet_alloc sizeof_CREATE_DIR CREATE_DIR_INIT (length path + 1))"

definition rm_request :: "string \<Rightarrow> u8 list option" where
  "rm_request path = map_option (\<lambda>r. mem_DELETE_FILE (r\<lparr>rm_path := cstr path\<rparr>))
     (packet_alloc sizeof_DELETE_FILE DELETE_FILE_INIT (length path + 1))"

lemma mkdir_request_frame: "mkdir_request path = Some q \<Longrightarrow> frame q \<and> length q = length path + 8"
  by (auto simp: mkdir_request_def packet_alloc_def wire_len_def CREATE_DIR_INIT_def sizeof_commands
      intro!: frame_mems split: if_splits)

lemma rm_request_frame: "rm_request path = Some q \<Longrightarrow> frame q \<and> length q = length path + 8"
  by (auto simp: rm_request_def packet_alloc_def wire_len_def DELETE_FILE_INIT_def sizeof_commands
      intro!: frame_mems split: if_splits)

interpretation mkdir: plain_command "\<lambda>io. mkdir io path" "mkdir_request path" sizeof_SYSTEM_REPLY TIMEOUT
    "comm_fail ERR_COMM ''Unable to write CREATE_DIR.''" "put_err (bytes ''Checking reply: \<newline>'')"
    "comm_fail ERR_COMM ''Unable to read CREATE_DIR_REPLY''" "\<lambda>t. t = VM_ERROR" 0 ERR_VM
    "''`CREATE_DIR` was denied.''" ERR_UNK "''`CREATE_DIR` was successful.''"
  for path
proof (unfold_locales, goal_cases)
  case (1 io w)
  show ?case
  proof (cases "packet_alloc sizeof_CREATE_DIR CREATE_DIR_INIT (length path + 1)")
    case None
    then show ?thesis by (simp add: mkdir_def mkdir_request_def)
  next
    case (Some mk)
    then have "wire_len (mk\<lparr>mk_path := cstr path\<rparr>) = length (mem_CREATE_DIR (mk\<lparr>mk_path := cstr path\<rparr>))"
      by (auto simp: packet_alloc_def wire_len_def sizeof_commands split: if_splits)
    then show ?thesis
      by (simp only: mkdir_def mkdir_request_def Some Let_def option.case option.map verdict_def
          comm_fail_def [abs_def] add_0_right)
  qed
qed (simp_all add: silent_verdict)

interpretation rm: plain_command "\<lambda>io. rm io path" "rm_request path" sizeof_SYSTEM_REPLY TIMEOUT
    "comm_fail ERR_COMM ''Unable to write DELETE_FILE.''" "put_err (bytes ''Checking reply: \<newline>'')"
    "comm_fail ERR_COMM ''Unable to read DELETE_FILE''" "\<lambda>t. t = VM_ERROR" 0 ERR_VM
    "''`DELETE_FILE` was denied.''" ERR_UNK "''`DELETE_FILE` was successful.''"
  for path
proof (unfold_locales, goal_cases)
  case (1 io w)
  show ?case
  proof (cases "packet_alloc sizeof_DELETE_FILE DELETE_FILE_INIT (length path + 1)")
    case None
    then show ?thesis by (simp add: rm_def rm_request_def)
  next
    case (Some r)
    then have "wire_len (r\<lparr>rm_path := cstr path\<rparr>) = length (mem_DELETE_FILE (r\<lparr>rm_path := cstr path\<rparr>))"
      by (auto simp: packet_alloc_def wire_len_def sizeof_commands split: if_splits)
    then show ?thesis
      by (simp only: rm_def rm_request_def Some Let_def option.case option.map verdict_def
          comm_fail_def [abs_def] add_0_right)
  qed
qed (simp_all add: silent_verdict)

lemma mkdir_request_eq:
  "length path < 65527 \<Longrightarrow>
    mkdir_request path = Some ([0] @ le16 (of_nat (length path + 5)) @ [0, 0, 1, 0x9B] @ cstr path)"
  by (simp add: mkdir_request_def sizeof_commands mem_defs mem_command_def mem_packet_def
      CREATE_DIR_INIT_def body_len_def PREFIX_SIZE_def le16_def add.commute)

lemma rm_request_eq:
  "length path < 65527 \<Longrightarrow>
    rm_request path = Some ([0] @ le16 (of_nat (length path + 5)) @ [0, 0, 1, 0x9C] @ cstr path)"
  by (simp add: rm_request_def sizeof_commands mem_defs mem_command_def mem_packet_def
      DELETE_FILE_INIT_def body_len_def PREFIX_SIZE_def le16_def add.commute)

section \<open>What they do\<close>

text \<open>
  C11: \<^verbatim>\<open>mkdir_\<close> sends exactly one CREATE_DIR frame with the length of the rest in its second and
  third byte and the path with its terminator at the end, reads one reply, and reports it: success
  unless the reply's type is VM_ERROR, otherwise ERR_VM with the brick's return byte in errno. An
  error reply whose length field exceeds the seven bytes of the reply buffer makes it print past
  the buffer.
\<close>

theorem mkdir_outcome:
  assumes "length path < 65527"
    and "answers io w ([0] @ le16 (of_nat (length path + 5)) @ [0, 0, 1, 0x9B] @ cstr path) 7 2000 b d'"
  shows "\<exists>w'. dev w' = d'
    \<and> trace w' = trace w
        @ [Wr ([0] @ le16 (of_nat (length path + 5)) @ [0, 0, 1, 0x9B] @ cstr path), Rd 7 2000]
    \<and> (if b ! 4 \<noteq> 5 then mkdir io path w = ret ERR_UNK w'
       else if unat (get16 b 0) \<le> 7 then mkdir io path w = ret ERR_VM w' \<and> errno w' = uint (b ! 6)
       else mkdir io path w = undef w')"
proof -
  note ans = assms(2) [folded sizeof_SYSTEM_REPLY_def TIMEOUT_def]
  show ?thesis
    using mkdir.plain_outcome [OF mkdir_request_eq [OF assms(1)] ans]
    by (auto simp: as_SYSTEM_REPLY_def VM_ERROR_def sizeof_SYSTEM_REPLY_def TIMEOUT_def)
qed

theorem mkdir_outcome_witness:
  "\<exists>w'. mkdir scripted ''a'' (world0 [[5, 0, 0, 0, 5, 0x9B, 6]]) = ret ERR_VM w' \<and> errno w' = 6"
proof -
  let ?w = "world0 [[5, 0, 0, 0, 5, 0x9B, 6]] :: u8 list list world"
  have "answers scripted ?w ([0] @ le16 (of_nat (length ''a'' + 5)) @ [0, 0, 1, 0x9B] @ cstr ''a'') 7 2000
      (overlay (uninit ?w 7) [5, 0, 0, 0, 5, 0x9B, 6]) []"
    by (rule scripted_answers) simp_all
  from mkdir_outcome [OF _ this] show ?thesis by (auto simp: get16_def)
qed

end
