(* ===== verification/Bootloader.thy ===== *)
theory Bootloader
  imports Scripted Crc32
begin

text \<open>
  Firmware update mode: \<^verbatim>\<open>src/src/bl_enter.c\<close>, \<^verbatim>\<open>bl_exit.c\<close>, \<^verbatim>\<open>bl_info.c\<close> and \<^verbatim>\<open>bl_install.c\<close>.
  The installer erases the flash, announces the region, streams the file padded with zeros to
  the size of the flash, asks for the brick's checksum and compares it with its own.
\<close>

section \<open>Entering and leaving (bl_enter.c, bl_exit.c)\<close>

definition bootloader_enter :: "'d ev3_io \<Rightarrow> 'd world \<Rightarrow> (ERR, 'd) run" where
  "bootloader_enter io w =
    (case packet_alloc sizeof_SYSTEM_CMD ENTERFWUPDATE_INIT 0 of
       None \<Rightarrow> undef w
     | Some reboot \<Rightarrow>
       ev3_write io (mem_SYSTEM_CMD reboot) (wire_len reboot) w (\<lambda>res w.
       if res < 0 then ret ERR_COMM (w\<lparr>errmsg := Some ''Unable to write ENTERFWUPDATE.''\<rparr>)
       else ret ERR_UNK (w\<lparr>errmsg := Some ''`ENTERFWUPDATE` was successful.''\<rparr>)))"

definition bootloader_exit :: "'d ev3_io \<Rightarrow> 'd world \<Rightarrow> (ERR, 'd) run" where
  "bootloader_exit io w =
    (case packet_alloc sizeof_SYSTEM_CMD FW_STARTAPP_INIT 0 of
       None \<Rightarrow> undef w
     | Some reboot \<Rightarrow>
       ev3_write io (mem_SYSTEM_CMD reboot) (wire_len reboot) w (\<lambda>res w.
       if res < 0 then ret ERR_COMM (w\<lparr>errmsg := Some ''Unable to write FW_STARTAPP.''\<rparr>)
       else
         ev3_read_timeout io (uninit w sizeof_SYSTEM_REPLY) sizeof_SYSTEM_REPLY TIMEOUT w (\<lambda>res mem w.
         let reply = as_SYSTEM_REPLY mem in
         if res \<le> 0 then ret ERR_COMM (w\<lparr>errmsg := Some ''Unable to read FW_STARTAPP''\<rparr>)
         else if r_type reply \<noteq> VM_OK \<and> r_type reply \<noteq> VM_SYS_RQ then
           (let w = w\<lparr>errno := uint (r_ret reply)\<rparr>;
                w = put_err (bytes ''Operation failed.\<newline>last_reply='') w
            in print_bytes mem (unat (r_packetLen reply)) w (\<lambda>w.
               ret ERR_VM (w\<lparr>errmsg := Some ''`FW_STARTAPP` was denied.''\<rparr>)))
         else
           (let w = put_out (bytes ''\<newline>Note: if your EV3 isn't detected as a USB device now, try restarting the brick from its menu.\<newline>\<newline>'') w
            in ret ERR_UNK (w\<lparr>errmsg := Some ''Update mode was exited successfully.''\<rparr>)))))"

section \<open>Versions (bl_info.c)\<close>

definition hw_names :: "string list" where
  "hw_names = [''unknown'', ''ONE2ONE prototype'', ''FINAL prototype'', ''FINALB/EP1 prototype'',
     ''EP2 prototype'', ''EP3 prototype'', ''mass produced hardware'']"

text \<open>
  \<open>fmt\<close> is the C library's rendering of \<^verbatim>\<open>x / 10.0f\<close> with \<^verbatim>\<open>%4.2f\<close>.
\<close>

definition bootloader_info :: "(u32 \<Rightarrow> string) \<Rightarrow> 'd ev3_io \<Rightarrow> 'd world \<Rightarrow> (ERR, 'd) run" where
  "bootloader_info fmt io w =
    (case packet_alloc sizeof_SYSTEM_CMD FW_GETVERSION_INIT 0 of
       None \<Rightarrow> undef w
     | Some reboot \<Rightarrow>
       ev3_write io (mem_SYSTEM_CMD reboot) (wire_len reboot) w (\<lambda>res w.
       if res < 0 then ret ERR_COMM (w\<lparr>errmsg := Some ''Unable to write FW_GETVERSION.''\<rparr>)
       else
         ev3_read_timeout io (uninit w sizeof_FW_GETVERSION_REPLY) sizeof_FW_GETVERSION_REPLY TIMEOUT w
           (\<lambda>res mem w.
         let reply = as_FW_GETVERSION_REPLY mem in
         if res \<le> 0 then ret ERR_COMM (w\<lparr>errmsg := Some ''Unable to read FW_GETVERSION''\<rparr>)
         else if r_type reply = VM_SYS_RQ then ret ERR_USBLOOP w
         else if r_type reply \<noteq> VM_OK then
           (let w = w\<lparr>errno := uint (r_ret reply)\<rparr>;
                w = put_err (bytes ''Operation failed.\<newline>last_reply='') w
            in print_bytes mem (unat (r_packetLen reply)) w (\<lambda>w.
               ret ERR_VM (w\<lparr>errmsg := Some ''`FW_GETVERSION` was denied.''\<rparr>)))
         else
           (let hw = gv_hardwareVersion reply;
                name_idx = (if 1 \<le> hw \<and> hw \<le> 6 then unat hw else 0);
                w = put_out (bytes (''Hardware version : V'' @ fmt hw @ '' ('' @ hw_names ! name_idx @ '')\<newline>'')) w;
                w = put_out (bytes (''EEPROM version   : V'' @ fmt (gv_eepromVersion reply) @ ''\<newline>'')) w
            in ret ERR_UNK (w\<lparr>errmsg := Some ''`FW_GETVERSION` was successful.''\<rparr>)))))"

section \<open>Installing (bl_install.c)\<close>

definition FLASH_START :: nat where "FLASH_START = 0x00000000"
definition FLASH_SIZE :: nat where "FLASH_SIZE = 16 * 1000 * 1024"

definition bootloader_erase :: "'d ev3_io \<Rightarrow> 'd world \<Rightarrow> (ERR, 'd) run" where
  "bootloader_erase io w =
    (case packet_alloc sizeof_SYSTEM_CMD FW_ERASEFLASH_INIT 0 of
       None \<Rightarrow> undef w
     | Some request \<Rightarrow>
       ev3_write io (mem_SYSTEM_CMD request) (wire_len request) w (\<lambda>res w.
       if res < 0 then ret ERR_COMM (w\<lparr>errmsg := Some ''Unable to write FW_ERASEFLASH.''\<rparr>)
       else
         ev3_read_timeout io (uninit w sizeof_SYSTEM_REPLY) sizeof_SYSTEM_REPLY (- 1) w (\<lambda>res mem w.
         let reply = as_SYSTEM_REPLY mem in
         if res \<le> 0 then ret ERR_COMM (w\<lparr>errmsg := Some ''Unable to read FW_ERASEFLASH''\<rparr>)
         else if r_type reply \<noteq> VM_OK \<and> r_type reply \<noteq> VM_SYS_RQ then
           (let w = w\<lparr>errno := uint (r_ret reply)\<rparr>;
                w = put_err (bytes ''Operation failed.\<newline>last_reply='') w
            in print_bytes mem (unat (r_packetLen reply) + 2) w (\<lambda>w.
               ret ERR_VM (w\<lparr>errmsg := Some ''`FW_ERASEFLASH` was denied.''\<rparr>)))
         else ret ERR_UNK w)))"

definition bootloader_start :: "'d ev3_io \<Rightarrow> nat \<Rightarrow> nat \<Rightarrow> 'd world \<Rightarrow> (ERR, 'd) run" where
  "bootloader_start io offs len w =
    (case packet_alloc sizeof_FW_START_DOWNLOAD FW_START_DOWNLOAD_INIT 0 of
       None \<Rightarrow> undef w
     | Some request0 \<Rightarrow>
       let request = request0\<lparr>sd_flashStart := of_nat offs, sd_flashLength := of_nat len\<rparr> in
       ev3_write io (mem_FW_START_DOWNLOAD request) (wire_len request) w (\<lambda>res w.
       if res < 0 then ret ERR_COMM (w\<lparr>errmsg := Some ''Unable to write FW_START_DOWNLOAD.''\<rparr>)
       else
         ev3_read_timeout io (uninit w sizeof_SYSTEM_REPLY) sizeof_SYSTEM_REPLY (- 1) w (\<lambda>res mem w.
         let reply = as_SYSTEM_REPLY mem in
         if res \<le> 0 then ret ERR_COMM (w\<lparr>errmsg := Some ''Unable to read FW_START_DOWNLOAD''\<rparr>)
         else if r_type reply \<noteq> VM_OK \<and> r_type reply \<noteq> VM_SYS_RQ then
           (let w = w\<lparr>errno := uint (r_ret reply)\<rparr>;
                w = put_err (bytes ''Operation failed.\<newline>last_reply='') w
            in print_bytes mem (unat (r_packetLen reply) + 2) w (\<lambda>w.
               ret ERR_VM (w\<lparr>errmsg := Some ''`FW_START_DOWNLOAD` was denied.''\<rparr>)))
         else ret ERR_UNK w)))"

definition max_payload :: nat where
  "max_payload = 1024 - (sizeof_FW_DOWNLOAD_DATA - PREFIX_SIZE + 2)"

text \<open>
  The next block of \<^verbatim>\<open>n\<close> bytes in the payload buffer: what the file still has, then zeros.
\<close>

definition fill_block :: "nat \<Rightarrow> u8 list \<Rightarrow> FILE \<Rightarrow> bool \<Rightarrow> u8 list \<times> FILE \<times> bool" where
  "fill_block n payload fp file_ended =
    (if \<not> file_ended then
       let (got, fp) = fread n fp; real = length got in
       if real < n then (overlay payload (got @ replicate (n - real) 0), fp, True)
       else (overlay payload got, fp, file_ended)
     else (overlay payload (replicate n 0), fp, file_ended))"

text \<open>The progress lines: every five percent, rounded down to a multiple of five.\<close>

definition report_progress :: "nat \<Rightarrow> nat \<Rightarrow> nat \<Rightarrow> 'd world \<Rightarrow> nat \<times> 'd world" where
  "report_progress sent_so_far total_len last_percent w =
    (let new_percent = sent_so_far * 100 div total_len in
     if new_percent \<ge> last_percent + 5 then
       let last_percent = last_percent + (new_percent - last_percent) div 5 * 5
       in (last_percent, put_out (bytes (''Progress: '' @ pad3 (dec last_percent) @ '' %\<newline>'')) w)
     else (last_percent, w))"

text \<open>
  The block loop of \<^verbatim>\<open>bootloader_send\<close>; the arguments after the file are its variables
  \<^verbatim>\<open>sent_so_far\<close>, \<^verbatim>\<open>file_ended\<close>, \<^verbatim>\<open>last_percent\<close>, \<^verbatim>\<open>crc\<close>. The buffers of the request and
  the reply are allocated once and reused.
\<close>

function send_loop ::
    "'d ev3_io \<Rightarrow> nat \<Rightarrow> FW_DOWNLOAD_DATA \<Rightarrow> u8 list \<Rightarrow> FILE \<Rightarrow> nat \<Rightarrow> bool \<Rightarrow> nat \<Rightarrow> u32 \<Rightarrow> 'd world
      \<Rightarrow> (ERR \<times> u32, 'd) run" where
  "send_loop io total_len request reply_mem fp sent_so_far file_ended last_percent crc w =
    (if sent_so_far < total_len then
       let remaining = total_len - sent_so_far;
           this_block = (if remaining \<le> max_payload then remaining else max_payload);
           (payload, fp, file_ended) = fill_block this_block (dd_payload request) fp file_ended;
           crc = crc32 crc (take this_block payload);
           request = request\<lparr>dd_payload := payload,
             packetLen := body_len (sizeof_FW_DOWNLOAD_DATA + this_block)\<rparr>
       in
       ev3_write io (mem_FW_DOWNLOAD_DATA request) (wire_len request) w (\<lambda>res w.
       if res < 0 then ret (ERR_COMM, 0) (w\<lparr>errmsg := Some ''Unable to write FW_DOWNLOAD_DATA.''\<rparr>)
       else
         ev3_read_timeout io reply_mem sizeof_SYSTEM_REPLY (- 1) w (\<lambda>res mem w.
         let reply = as_SYSTEM_REPLY mem in
         if res \<le> 0 then ret (ERR_COMM, 0) (w\<lparr>errmsg := Some ''Unable to read FW_DOWNLOAD_DATA''\<rparr>)
         else if r_type reply \<noteq> VM_OK \<and> r_type reply \<noteq> VM_SYS_RQ then
           (let w = w\<lparr>errno := uint (r_ret reply)\<rparr>;
                w = put_err (bytes ''Operation failed.\<newline>last_reply='') w
            in print_bytes mem (unat (r_packetLen reply) + 2) w (\<lambda>w.
               ret (ERR_VM, 0) (w\<lparr>errmsg := Some ''`FW_DOWNLOAD_DATA` was denied.''\<rparr>)))
         else
           (let sent_so_far = sent_so_far + this_block;
                (last_percent, w) = report_progress sent_so_far total_len last_percent w
            in send_loop io total_len request mem fp sent_so_far file_ended last_percent crc w)))
     else ret (ERR_UNK, crc) w)"
  by pat_completeness auto
termination
  by (relation "measure (\<lambda>(io, total_len, request, reply_mem, fp, sent_so_far, rest). total_len - sent_so_far)")
    (auto simp: max_payload_def sizeof_commands PREFIX_SIZE_def)

declare send_loop.simps [simp del]

text \<open>The results are the return value and \<^verbatim>\<open>*pCrc32\<close>, which the function first sets to zero.\<close>

definition bootloader_send :: "'d ev3_io \<Rightarrow> FILE \<Rightarrow> nat \<Rightarrow> 'd world \<Rightarrow> (ERR \<times> u32, 'd) run" where
  "bootloader_send io fp len w =
    (case packet_alloc sizeof_FW_DOWNLOAD_DATA FW_DOWNLOAD_DATA_INIT max_payload of
       None \<Rightarrow> undef w
     | Some request0 \<Rightarrow>
       let request = request0\<lparr>dd_payload := uninit w max_payload\<rparr>;
           reply = uninit w sizeof_SYSTEM_REPLY;
           w = put_out (bytes (''Progress: '' @ pad3 (dec 0) @ '' %\<newline>'')) w
       in send_loop io len request reply fp 0 False 0 0 w)"

definition bootloader_checksum :: "'d ev3_io \<Rightarrow> nat \<Rightarrow> nat \<Rightarrow> 'd world \<Rightarrow> (ERR \<times> u32, 'd) run" where
  "bootloader_checksum io offs len w =
    (case packet_alloc sizeof_FW_GETCRC32 FW_GETCRC32_INIT 0 of
       None \<Rightarrow> undef w
     | Some request0 \<Rightarrow>
       let request = request0\<lparr>gc_flashStart := of_nat offs, gc_flashLength := of_nat len\<rparr> in
       ev3_write io (mem_FW_GETCRC32 request) (wire_len request) w (\<lambda>res w.
       if res < 0 then ret (ERR_COMM, 0) (w\<lparr>errmsg := Some ''Unable to write FW_GETCRC32.''\<rparr>)
       else
         ev3_read_timeout io (uninit w sizeof_FW_GETCRC32_REPLY) sizeof_FW_GETCRC32_REPLY (- 1) w
           (\<lambda>res mem w.
         let reply = as_FW_GETCRC32_REPLY mem in
         if res \<le> 0 then ret (ERR_COMM, 0) (w\<lparr>errmsg := Some ''Unable to read FW_GETCRC32''\<rparr>)
         else if r_type reply = VM_SYS_RQ then ret (ERR_USBLOOP, 0) w
         else if r_type reply \<noteq> VM_OK then
           (let w = w\<lparr>errno := uint (r_ret reply)\<rparr>;
                w = put_err (bytes ''Operation failed.\<newline>last_reply='') w
            in print_bytes mem (unat (r_packetLen reply) + 2) w (\<lambda>w.
               ret (ERR_VM, 0) (w\<lparr>errmsg := Some ''`FW_GETCRC32` was denied.''\<rparr>)))
         else ret (ERR_UNK, gcr_crc32 reply) w)))"

definition bootloader_install :: "'d ev3_io \<Rightarrow> FILE \<Rightarrow> 'd world \<Rightarrow> (ERR, 'd) run" where
  "bootloader_install io fp w =
    (let w = put_out (bytes ''Erasing flash... (takes 1 minute 48 seconds)\<newline>'') w in
     call (bootloader_erase io w) (\<lambda>err w.
     if err \<noteq> ERR_UNK then ret err w
     else
       let w = put_out (bytes ''Downloading...\<newline>'') w in
       call (bootloader_start io FLASH_START FLASH_SIZE w) (\<lambda>err w.
       if err \<noteq> ERR_UNK then ret err w
       else
         call (bootloader_send io fp FLASH_SIZE w) (\<lambda>(err, local_crc32) w.
         if err \<noteq> ERR_UNK then ret err w
         else
           let w = put_out (bytes ''Calculating flash checksum... (takes 17 seconds)\<newline>'') w in
           call (bootloader_checksum io FLASH_START FLASH_SIZE w) (\<lambda>(err, remote_crc32) w.
           if err = ERR_USBLOOP then
             bootloader_exit io
               (put_out (bytes ''Checksum not checked, assuming update was OK. Rebooting.\<newline>'') w)
           else if err = ERR_UNK then
             if local_crc32 \<noteq> remote_crc32 then
               ret ERR_IO (put_err (bytes (''error: checksums do not match: remote '' @ hex8 remote_crc32
                 @ '' != local '' @ hex8 local_crc32 @ ''\<newline>'')) w)
             else
               bootloader_exit io
                 (put_out (bytes ''Success! Local and remote checksums match. Rebooting.\<newline>'') w)
           else ret err w)))))"

section \<open>The block loop sends the padded image\<close>

definition flash_image :: "nat \<Rightarrow> u8 list \<Rightarrow> u8 list" where
  "flash_image n bs = take n (bs @ replicate n 0)"

definition data_frame :: "u8 list \<Rightarrow> u8 list" where
  "data_frame b = [0] @ le16 (of_nat (length b + 4)) @ [0, 0, 1, 0xF2] @ b"

definition data_events :: "u8 list list \<Rightarrow> io_event list" where
  "data_events bs = concat (map (\<lambda>b. [Wr (data_frame b), Rd 7 (- 1)]) bs)"

text \<open>What the file still holds for the loop.\<close>

definition unread :: "FILE \<Rightarrow> bool \<Rightarrow> u8 list" where
  "unread fp ended = (if ended then [] else drop (fpos fp) (fdata fp))"

lemma length_flash_image [simp]: "length (flash_image n bs) = n"
  by (simp add: flash_image_def)

lemma flash_image_0 [simp]: "flash_image 0 bs = []"
  by (simp add: flash_image_def)

lemma flash_image_enough: "n \<le> m \<Longrightarrow> take n (bs @ replicate m 0) = flash_image n bs"
proof -
  assume "n \<le> m"
  then have "n - length bs \<le> m" by simp
  then show ?thesis by (simp add: flash_image_def min_absorb1)
qed

lemma flash_image_split:
  assumes "k \<le> n"
  shows "flash_image n bs = flash_image k bs @ flash_image (n - k) (drop k bs)"
proof -
  have "flash_image n bs = take k (bs @ replicate n 0) @ take (n - k) (drop k (bs @ replicate n 0))"
    using assms unfolding flash_image_def by (metis le_add_diff_inverse take_add)
  also have "take k (bs @ replicate n 0) = flash_image k bs"
    using assms by (rule flash_image_enough)
  also have "take (n - k) (drop k (bs @ replicate n 0)) = flash_image (n - k) (drop k bs)"
    by (simp only: drop_append drop_replicate, rule flash_image_enough) simp
  finally show ?thesis .
qed

lemma fill_block:
  assumes "fill_block n payload fp ended = (payload', fp', ended')" and "n \<le> length payload"
  shows "take n payload' = flash_image n (unread fp ended)"
    and "unread fp' ended' = drop n (unread fp ended)" and "length payload' = length payload"
  using assms
  by (auto simp: fill_block_def fread_def Let_def unread_def flash_image_def overlay_def min_def
      add.commute split: if_splits)

lemma max_payload_eq: "max_payload = 1018"
  by (simp add: max_payload_def sizeof_commands PREFIX_SIZE_def)

text \<open>The request the loop reuses: the header of \<open>FW_DOWNLOAD_DATA_INIT\<close> and a full payload buffer.\<close>

definition data_request :: "FW_DOWNLOAD_DATA \<Rightarrow> bool" where
  "data_request p \<longleftrightarrow> hidLayer p = 0 \<and> msgCount p = 0 \<and> replyType p = 1 \<and> cmd p = 0xF2
     \<and> length (dd_payload p) = max_payload"

lemma data_frame_mem:
  assumes "data_request p" and "packetLen p = body_len (sizeof_FW_DOWNLOAD_DATA + n)" and "n \<le> max_payload"
  shows "wire_len p \<le> length (mem_FW_DOWNLOAD_DATA p)"
    and "take (wire_len p) (mem_FW_DOWNLOAD_DATA p) = data_frame (take n (dd_payload p))"
proof -
  have wl: "wire_len p = 7 + n"
    using assms by (simp add: wire_len_def sizeof_commands max_payload_eq)
  then show "wire_len p \<le> length (mem_FW_DOWNLOAD_DATA p)"
    using assms by (simp add: data_request_def sizeof_commands)
  define h :: "u8 list" where "h = [0] @ le16 (of_nat (n + 4)) @ [0, 0, 1, 0xF2]"
  have "mem_FW_DOWNLOAD_DATA p = h @ dd_payload p"
    using assms by (simp add: mem_defs mem_command_def mem_packet_def data_request_def sizeof_commands
        body_len_def PREFIX_SIZE_def le16_def h_def add.commute)
  moreover have "length h = 7" by (simp add: h_def)
  ultimately have "take (wire_len p) (mem_FW_DOWNLOAD_DATA p) = h @ take n (dd_payload p)"
    using wl by simp
  moreover have "length (take n (dd_payload p)) = n"
    using assms by (simp add: data_request_def)
  ultimately show "take (wire_len p) (mem_FW_DOWNLOAD_DATA p) = data_frame (take n (dd_payload p))"
    unfolding data_frame_def h_def by simp
qed

lemma report_progress_keeps:
  assumes "report_progress s t l w = (l', w')"
  shows "trace w' = trace w \<and> dev w' = dev w"
  using assms by (auto simp: report_progress_def Let_def split: if_splits)

text \<open>One turn of the loop that goes on.\<close>

lemma send_loop_turn:
  assumes run: "send_loop io n req mem fp s ended lp c w = Some (Ret (ERR_UNK, c'), w')"
    and "s < n" and req: "data_request req" and mem: "length mem = sizeof_SYSTEM_REPLY"
  obtains k blk req' mem' fp' ended' lp' w1
  where "k = min (n - s) max_payload" "blk = flash_image k (unread fp ended)"
    "data_request req'" "length mem' = sizeof_SYSTEM_REPLY" "unread fp' ended' = drop k (unread fp ended)"
    "trace w1 = trace w @ [Wr (data_frame blk), Rd 7 (- 1)]"
    "send_loop io n req' mem' fp' (s + k) ended' lp' (crc32 c blk) w1 = Some (Ret (ERR_UNK, c'), w')"
proof -
  define k where "k = (if n - s \<le> max_payload then n - s else max_payload)"
  have k: "k = min (n - s) max_payload" "k \<le> max_payload" by (auto simp: k_def)
  obtain payload fp' ended' where fb: "fill_block k (dd_payload req) fp ended = (payload, fp', ended')"
    by (metis prod_cases3)
  have len: "k \<le> length (dd_payload req)" using k req by (simp add: data_request_def)
  note fill = fill_block [OF fb len]
  define req' where "req' = req\<lparr>dd_payload := payload, packetLen := body_len (sizeof_FW_DOWNLOAD_DATA + k)\<rparr>"
  have req': "data_request req'" "packetLen req' = body_len (sizeof_FW_DOWNLOAD_DATA + k)"
    "dd_payload req' = payload"
    using req fill by (simp_all add: data_request_def req'_def)
  note wire = data_frame_mem [OF req'(1,2) k(2)]
  note run' = run [unfolded send_loop.simps [of _ _ _ _ _ s], simplified \<open>s < n\<close> if_True Let_def,
    folded k_def, unfolded fb prod.case, folded req'_def, unfolded wire]
  have "\<exists>w1 mem' lp'. length mem' = sizeof_SYSTEM_REPLY
      \<and> trace w1 = trace w @ [Wr (data_frame (take k payload)), Rd 7 (- 1)]
      \<and> send_loop io n req' mem' fp' (s + k) ended' lp' (crc32 c (take k payload)) w1 = Some (Ret (ERR_UNK, c'), w')"
    using run' wire req' mem
    by (elim ev3_write_RetE, simp split: if_splits, elim ev3_read_RetE)
      (auto simp: Let_def sizeof_SYSTEM_REPLY_def split: if_splits prod.splits
        elim!: print_bytes_RetE dest!: report_progress_keeps,
       (metis length_overlay)+)
  then show thesis
    using that [OF k(1) _ req'(1) _ fill(2)] fill(1) by metis
qed

text \<open>A run that ends well has sent the whole image, in blocks of at most \<open>max_payload\<close> bytes.\<close>

lemma send_loop_ok:
  assumes "send_loop io n req mem fp s ended lp c w = Some (Ret (ERR_UNK, c'), w')"
    and "data_request req" and "length mem = sizeof_SYSTEM_REPLY" and "s \<le> n"
  shows "c' = crc32 c (flash_image (n - s) (unread fp ended))
    \<and> trace w' = trace w @ data_events (pieces max_payload (flash_image (n - s) (unread fp ended)))"
  using assms
proof (induction "n - s" arbitrary: s req mem fp ended lp c w rule: less_induct)
  case less
  show ?case
  proof (cases "s < n")
    case False
    then have "s = n" using less.prems by simp
    then show ?thesis using less.prems(1)
      by (simp add: send_loop.simps flash_image_def crc32_def data_events_def xor.assoc)
  next
    case True
    obtain k blk req' mem' fp' ended' lp' w1
      where k: "k = min (n - s) max_payload" and blk: "blk = flash_image k (unread fp ended)"
        and req': "data_request req'" "length mem' = sizeof_SYSTEM_REPLY"
        and fp': "unread fp' ended' = drop k (unread fp ended)"
        and tr: "trace w1 = trace w @ [Wr (data_frame blk), Rd 7 (- 1)]"
        and run: "send_loop io n req' mem' fp' (s + k) ended' lp' (crc32 c blk) w1 = Some (Ret (ERR_UNK, c'), w')"
      using send_loop_turn [OF less.prems(1) True less.prems(2,3)] by metis
    have pos: "0 < k" "k \<le> n - s" using True k by (auto simp: max_payload_eq)
    have img: "flash_image (n - s) (unread fp ended) = blk @ flash_image (n - (s + k)) (drop k (unread fp ended))"
      using flash_image_split [OF pos(2)] blk by (simp add: diff_diff_left)
    have piece: "pieces max_payload (flash_image (n - s) (unread fp ended))
        = blk # pieces max_payload (flash_image (n - (s + k)) (drop k (unread fp ended)))"
    proof -
      have "blk \<noteq> []" using pos blk by (auto simp flip: length_greater_0_conv)
      moreover have "take max_payload (flash_image (n - s) (unread fp ended)) = blk
          \<and> drop max_payload (flash_image (n - s) (unread fp ended)) = flash_image (n - (s + k)) (drop k (unread fp ended))"
        using pos k blk unfolding img by (cases "n - s \<le> max_payload") (auto simp: min_def)
      ultimately show ?thesis
        using pieces_step [of "flash_image (n - s) (unread fp ended)" max_payload] img
        by (simp add: max_payload_eq)
    qed
    have "c' = crc32 (crc32 c blk) (flash_image (n - (s + k)) (unread fp' ended')) \<and>
        trace w' = trace w1 @ data_events (pieces max_payload (flash_image (n - (s + k)) (unread fp' ended')))"
      using less.hyps [OF _ run req'] pos True by simp
    then show ?thesis
      by (simp only: piece) (simp add: img crc32_append fp' tr data_events_def)
  qed
qed

lemma bootloader_send_ok:
  assumes "bootloader_send io fp len w = Some (Ret (ERR_UNK, c), w')"
  shows "c = crc32 0 (flash_image len (drop (fpos fp) (fdata fp)))
    \<and> trace w' = trace w @ data_events (pieces max_payload (flash_image len (drop (fpos fp) (fdata fp))))"
proof -
  have alloc: "packet_alloc sizeof_FW_DOWNLOAD_DATA FW_DOWNLOAD_DATA_INIT max_payload
      = Some (FW_DOWNLOAD_DATA_INIT\<lparr>packetLen := body_len (sizeof_FW_DOWNLOAD_DATA + max_payload)\<rparr>)"
    by (simp add: sizeof_commands max_payload_eq)
  show ?thesis
    using send_loop_ok [OF assms [unfolded bootloader_send_def alloc option.case Let_def]]
    by (simp add: data_request_def init_defs unread_def)
qed

section \<open>The other requests\<close>

definition system_frame :: "u8 \<Rightarrow> u8 list" where
  "system_frame c = [0, 4, 0, 0, 0, 1, c]"

definition region_frame :: "u8 \<Rightarrow> nat \<Rightarrow> nat \<Rightarrow> u8 list" where
  "region_frame c offs len = [0, 12, 0, 0, 0, 1, c] @ le32 (of_nat offs) @ le32 (of_nat len)"

lemma system_alloc: "packet_alloc sizeof_SYSTEM_CMD i 0 = Some (i\<lparr>packetLen := 4\<rparr>)"
  by (simp add: sizeof_commands body_len_def PREFIX_SIZE_def)

lemma region_alloc:
  "packet_alloc sizeof_FW_START_DOWNLOAD i 0 = Some (i\<lparr>packetLen := 12\<rparr>)"
  "packet_alloc sizeof_FW_GETCRC32 j 0 = Some (j\<lparr>packetLen := 12\<rparr>)"
  by (simp_all add: sizeof_commands body_len_def PREFIX_SIZE_def)

lemma system_mems:
  "mem_SYSTEM_CMD (ENTERFWUPDATE_INIT\<lparr>packetLen := 4\<rparr>) = [0, 4, 0, 0, 0, 0x81, 0xA0]"
  "mem_SYSTEM_CMD (FW_STARTAPP_INIT\<lparr>packetLen := 4\<rparr>) = system_frame 0xF4"
  "mem_SYSTEM_CMD (FW_GETVERSION_INIT\<lparr>packetLen := 4\<rparr>) = system_frame 0xF6"
  "mem_SYSTEM_CMD (FW_ERASEFLASH_INIT\<lparr>packetLen := 4\<rparr>) = system_frame 0xF3"
  by (simp_all add: mem_defs mem_command_def mem_packet_def init_defs le16_def system_frame_def)

lemma region_mems:
  "mem_FW_START_DOWNLOAD (FW_START_DOWNLOAD_INIT\<lparr>packetLen := 12, sd_flashStart := of_nat offs,
     sd_flashLength := of_nat len\<rparr>) = region_frame 0xF1 offs len"
  "mem_FW_GETCRC32 (FW_GETCRC32_INIT\<lparr>packetLen := 12, gc_flashStart := of_nat offs,
     gc_flashLength := of_nat len\<rparr>) = region_frame 0xF5 offs len"
  by (simp_all add: mem_defs mem_command_def mem_packet_def init_defs le16_def region_frame_def)

lemma frame_lengths [simp]:
  "length (system_frame c) = 7" "length (region_frame c offs len) = 15"
  by (simp_all add: system_frame_def region_frame_def)

lemma wire_len_numerals:
  "wire_len (p\<lparr>packetLen := 4\<rparr>) = 7"
  "wire_len (sd\<lparr>packetLen := 12, sd_flashStart := a, sd_flashLength := b\<rparr>) = 15"
  "wire_len (gc\<lparr>packetLen := 12, gc_flashStart := a, gc_flashLength := b\<rparr>) = 15"
  by (simp_all add: wire_len_def PREFIX_SIZE_def)

lemmas bootloader_wire = system_alloc region_alloc system_mems region_mems wire_len_numerals

lemmas as_commands = option.case Let_def verdict_def comm_fail_def [abs_def] frame_lengths
  add_0_right

abbreviation not_accepted :: "u8 \<Rightarrow> bool" where
  "not_accepted t \<equiv> t \<noteq> VM_OK \<and> t \<noteq> VM_SYS_RQ"

interpretation erase: judged_request bootloader_erase "Some (system_frame 0xF3)" sizeof_SYSTEM_REPLY "- 1"
    "comm_fail ERR_COMM ''Unable to write FW_ERASEFLASH.''" "\<lambda>w. w"
    "comm_fail ERR_COMM ''Unable to read FW_ERASEFLASH''" not_accepted 2 ERR_VM
    "''`FW_ERASEFLASH` was denied.''" "\<lambda>_. ret ERR_UNK"
proof (unfold_locales, goal_cases)
  case (1 io w)
  show ?case
    by (simp only: bootloader_erase_def bootloader_wire as_commands)
qed (simp_all add: silent_verdict silent_ret)

interpretation start: judged_request "\<lambda>io. bootloader_start io offs len" "Some (region_frame 0xF1 offs len)"
    sizeof_SYSTEM_REPLY "- 1"
    "comm_fail ERR_COMM ''Unable to write FW_START_DOWNLOAD.''" "\<lambda>w. w"
    "comm_fail ERR_COMM ''Unable to read FW_START_DOWNLOAD''" not_accepted 2 ERR_VM
    "''`FW_START_DOWNLOAD` was denied.''" "\<lambda>_. ret ERR_UNK"
  for offs len
proof (unfold_locales, goal_cases)
  case (1 io w)
  show ?case
    by (simp only: bootloader_start_def bootloader_wire as_commands)
qed (simp_all add: silent_verdict silent_ret)

interpretation exit: judged_request bootloader_exit "Some (system_frame 0xF4)" sizeof_SYSTEM_REPLY TIMEOUT
    "comm_fail ERR_COMM ''Unable to write FW_STARTAPP.''" "\<lambda>w. w"
    "comm_fail ERR_COMM ''Unable to read FW_STARTAPP''" not_accepted 0 ERR_VM
    "''`FW_STARTAPP` was denied.''"
    "\<lambda>_ w. comm_fail ERR_UNK ''Update mode was exited successfully.''
       (put_out (bytes ''\<newline>Note: if your EV3 isn't detected as a USB device now, try restarting the brick from its menu.\<newline>\<newline>'') w)"
proof (unfold_locales, goal_cases)
  case (1 io w)
  show ?case
    by (simp only: bootloader_exit_def bootloader_wire as_commands)
qed (auto simp: comm_fail_def intro!: silent_verdict)

text \<open>
  The version and checksum requests judge their reply twice: a looped-back request first.
\<close>

definition looped_first :: "'a \<Rightarrow> (u8 list \<Rightarrow> 'd world \<Rightarrow> ('a, 'd) run) \<Rightarrow> u8 list \<Rightarrow> 'd world \<Rightarrow> ('a, 'd) run" where
  "looped_first looped judge mem w = (if r_type (as_SYSTEM_REPLY mem) = VM_SYS_RQ then ret looped w else judge mem w)"

lemma silent_looped_first: "silent (judge mem) \<Longrightarrow> silent (looped_first looped judge mem)"
  by (simp add: silent_def looped_first_def)

lemma reply_header:
  "r_type (as_FW_GETCRC32_REPLY b) = r_type (as_SYSTEM_REPLY b)"
  "r_ret (as_FW_GETCRC32_REPLY b) = r_ret (as_SYSTEM_REPLY b)"
  "r_packetLen (as_FW_GETCRC32_REPLY b) = r_packetLen (as_SYSTEM_REPLY b)"
  "r_type (as_FW_GETVERSION_REPLY b) = r_type (as_SYSTEM_REPLY b)"
  "r_ret (as_FW_GETVERSION_REPLY b) = r_ret (as_SYSTEM_REPLY b)"
  "r_packetLen (as_FW_GETVERSION_REPLY b) = r_packetLen (as_SYSTEM_REPLY b)"
  by (simp_all add: as_defs)

interpretation checksum: request_reply "\<lambda>io. bootloader_checksum io offs len" "Some (region_frame 0xF5 offs len)"
    sizeof_FW_GETCRC32_REPLY "- 1"
    "comm_fail (ERR_COMM, 0) ''Unable to write FW_GETCRC32.''" "\<lambda>w. w"
    "comm_fail (ERR_COMM, 0) ''Unable to read FW_GETCRC32''"
    "looped_first (ERR_USBLOOP, 0) (verdict (\<lambda>t. t \<noteq> VM_OK) 2 (ERR_VM, 0) ''`FW_GETCRC32` was denied.''
       (\<lambda>mem. ret (ERR_UNK, gcr_crc32 (as_FW_GETCRC32_REPLY mem))))"
  for offs len
proof (unfold_locales, goal_cases)
  case (1 io w)
  show ?case
    by (simp only: bootloader_checksum_def bootloader_wire as_commands looped_first_def reply_header)
qed (auto intro!: silent_verdict silent_looped_first)

definition print_versions :: "(u32 \<Rightarrow> string) \<Rightarrow> u8 list \<Rightarrow> 'd world \<Rightarrow> (ERR, 'd) run" where
  "print_versions fmt mem w =
    (let reply = as_FW_GETVERSION_REPLY mem;
         hw = gv_hardwareVersion reply;
         name_idx = (if 1 \<le> hw \<and> hw \<le> 6 then unat hw else 0);
         w = put_out (bytes (''Hardware version : V'' @ fmt hw @ '' ('' @ hw_names ! name_idx @ '')\<newline>'')) w;
         w = put_out (bytes (''EEPROM version   : V'' @ fmt (gv_eepromVersion reply) @ ''\<newline>'')) w
     in ret ERR_UNK (w\<lparr>errmsg := Some ''`FW_GETVERSION` was successful.''\<rparr>))"

lemma silent_print_versions: "silent (print_versions fmt mem)"
  by (simp add: silent_def print_versions_def Let_def)

interpretation info: request_reply "bootloader_info fmt" "Some (system_frame 0xF6)"
    sizeof_FW_GETVERSION_REPLY TIMEOUT
    "comm_fail ERR_COMM ''Unable to write FW_GETVERSION.''" "\<lambda>w. w"
    "comm_fail ERR_COMM ''Unable to read FW_GETVERSION''"
    "looped_first ERR_USBLOOP (verdict (\<lambda>t. t \<noteq> VM_OK) 0 ERR_VM ''`FW_GETVERSION` was denied.''
       (print_versions fmt))"
  for fmt
proof (unfold_locales, goal_cases)
  case (1 io w)
  show ?case
    by (simp only: bootloader_info_def bootloader_wire as_commands looped_first_def reply_header print_versions_def)
qed (auto intro!: silent_verdict silent_looped_first simp: silent_print_versions)

text \<open>The name printed for the hardware version is always an entry of the table.\<close>

lemma hw_name_in_table: "(if 1 \<le> hw \<and> hw \<le> (6 :: u32) then unat hw else 0) < length hw_names"
  by (auto simp: hw_names_def word_le_nat_alt)

section \<open>The whole installation\<close>

lemma erase_ok:
  assumes "bootloader_erase io w = Some (Ret ERR_UNK, w')"
  shows "trace w' = trace w @ [Wr (system_frame 0xF3), Rd 7 (- 1)]"
  by (rule erase.acceptedE [OF assms]) (auto simp: comm_fail_def sizeof_replies)

lemma start_ok:
  assumes "bootloader_start io offs len w = Some (Ret ERR_UNK, w')"
  shows "trace w' = trace w @ [Wr (region_frame 0xF1 offs len), Rd 7 (- 1)]"
  by (rule start.acceptedE [OF assms]) (auto simp: comm_fail_def sizeof_replies)

lemma exit_ok:
  assumes "bootloader_exit io w = Some (Ret ERR_UNK, w')"
  shows "trace w' = trace w @ [Wr (system_frame 0xF4), Rd 7 2000]"
  by (rule exit.acceptedE [OF assms]) (auto simp: comm_fail_def sizeof_replies TIMEOUT_def)

text \<open>A checksum request that returns at all with one of the two codes the installer goes on with.\<close>

lemma checksum_ok:
  assumes "bootloader_checksum io offs len w = Some (Ret (e, c), w')" and "e = ERR_UNK \<or> e = ERR_USBLOOP"
  obtains b where "trace w' = trace w @ [Wr (region_frame 0xF5 offs len), Rd 11 (- 1)]"
    "answers io w (region_frame 0xF5 offs len) 11 (- 1) b (dev w')"
    "if e = ERR_USBLOOP then b ! 4 = VM_SYS_RQ else b ! 4 = VM_OK \<and> c = get32 b 7"
proof -
  obtain b w1 where *: "answers io w (region_frame 0xF5 offs len) 11 (- 1) b (dev w1)"
    "trace w1 = trace w @ [Wr (region_frame 0xF5 offs len), Rd 11 (- 1)]"
    "looped_first (ERR_USBLOOP, 0) (verdict (\<lambda>t. t \<noteq> VM_OK) 2 (ERR_VM, 0) ''`FW_GETCRC32` was denied.''
       (\<lambda>mem. ret (ERR_UNK, gcr_crc32 (as_FW_GETCRC32_REPLY mem)))) b w1 = Some (Ret (e, c), w')"
    by (rule checksum.returnE [OF assms(1)]) (use assms(2) in \<open>auto simp: comm_fail_def sizeof_replies\<close>)
  show thesis
    using that [of b] * assms(2)
    by (auto simp: looped_first_def verdict_def Let_def comm_fail_def as_defs split: if_splits
        elim!: print_bytes_RetE)
qed


definition install_events :: "u8 list \<Rightarrow> io_event list" where
  "install_events img = [Wr (system_frame 0xF3), Rd 7 (- 1), Wr (region_frame 0xF1 0 FLASH_SIZE), Rd 7 (- 1)]
     @ data_events (pieces max_payload img)"

text \<open>Everything before the restart: the error to return, or permission to restart.\<close>

definition install_checked :: "'d ev3_io \<Rightarrow> FILE \<Rightarrow> 'd world \<Rightarrow> (ERR + unit, 'd) run" where
  "install_checked io fp w =
    (call (bootloader_erase io (put_out (bytes ''Erasing flash... (takes 1 minute 48 seconds)\<newline>'') w)) (\<lambda>err w.
     if err \<noteq> ERR_UNK then ret (Inl err) w
     else
       call (bootloader_start io FLASH_START FLASH_SIZE (put_out (bytes ''Downloading...\<newline>'') w)) (\<lambda>err w.
       if err \<noteq> ERR_UNK then ret (Inl err) w
       else
         call (bootloader_send io fp FLASH_SIZE w) (\<lambda>(err, local_crc32) w.
         if err \<noteq> ERR_UNK then ret (Inl err) w
         else
           call (bootloader_checksum io FLASH_START FLASH_SIZE
                  (put_out (bytes ''Calculating flash checksum... (takes 17 seconds)\<newline>'') w)) (\<lambda>(err, remote_crc32) w.
           if err = ERR_USBLOOP then
             ret (Inr ()) (put_out (bytes ''Checksum not checked, assuming update was OK. Rebooting.\<newline>'') w)
           else if err = ERR_UNK then
             if local_crc32 \<noteq> remote_crc32 then
               ret (Inl ERR_IO) (put_err (bytes (''error: checksums do not match: remote '' @ hex8 remote_crc32
                 @ '' != local '' @ hex8 local_crc32 @ ''\<newline>'')) w)
             else
               ret (Inr ()) (put_out (bytes ''Success! Local and remote checksums match. Rebooting.\<newline>'') w)
           else ret (Inl err) w)))))"

lemma install_split:
  "bootloader_install io fp w = call (install_checked io fp w)
     (\<lambda>ok w. case ok of Inl err \<Rightarrow> ret err w | Inr _ \<Rightarrow> bootloader_exit io w)"
  unfolding bootloader_install_def install_checked_def Let_def call_def
  by (auto split: Option.bind_splits outcome.splits)

lemma install_checked_Inl: "install_checked io fp w \<noteq> Some (Ret (Inl ERR_UNK), w')"
  unfolding install_checked_def by (auto elim!: call_RetE split: if_splits)

lemma install_checked_ok:
  assumes "install_checked io fp w = Some (Ret (Inr u), w')"
    and "img = flash_image FLASH_SIZE (drop (fpos fp) (fdata fp))"
  shows "trace w' = trace w @ install_events img @ [Wr (region_frame 0xF5 0 FLASH_SIZE), Rd 11 (- 1)]
    \<and> (\<exists>v b d. trace v = trace w @ install_events img
         \<and> answers io v (region_frame 0xF5 0 FLASH_SIZE) 11 (- 1) b d
         \<and> (b ! 4 = VM_SYS_RQ \<or> b ! 4 = VM_OK \<and> get32 b 7 = crc32 0 img))"
proof -
  obtain x1 x2 x4 w1 w2 w3 w4 c e rc where
    e: "bootloader_erase io (put_out x1 w) = Some (Ret ERR_UNK, w1)" and
    s: "bootloader_start io 0 FLASH_SIZE (put_out x2 w1) = Some (Ret ERR_UNK, w2)" and
    d: "bootloader_send io fp FLASH_SIZE w2 = Some (Ret (ERR_UNK, c), w3)" and
    k: "bootloader_checksum io 0 FLASH_SIZE (put_out x4 w3) = Some (Ret (e, rc), w4)" and
    e_cases: "e = ERR_USBLOOP \<or> e = ERR_UNK \<and> c = rc" and
    x: "trace w' = trace w4"
    using assms(1) unfolding install_checked_def FLASH_START_def
    by (elim call_RetE) (auto elim!: call_RetE split: if_splits)
  have t: "trace (put_out x4 w3) = trace w @ install_events img" and c: "c = crc32 0 img"
    using erase_ok [OF e] start_ok [OF s] bootloader_send_ok [OF d] assms(2)
    by (simp_all add: install_events_def)
  obtain b where b: "answers io (put_out x4 w3) (region_frame 0xF5 0 FLASH_SIZE) 11 (- 1) b (dev w4)"
    "trace w4 = trace w @ install_events img @ [Wr (region_frame 0xF5 0 FLASH_SIZE), Rd 11 (- 1)]"
    "if e = ERR_USBLOOP then b ! 4 = VM_SYS_RQ else b ! 4 = VM_OK \<and> rc = get32 b 7"
    using checksum_ok [OF k] e_cases t by (metis append_assoc)
  have "b ! 4 = VM_SYS_RQ \<or> b ! 4 = VM_OK \<and> get32 b 7 = crc32 0 img"
    using b(3) e_cases c by (auto split: if_splits)
  with t b(1) have "\<exists>v b d. trace v = trace w @ install_events img
      \<and> answers io v (region_frame 0xF5 0 FLASH_SIZE) 11 (- 1) b d
      \<and> (b ! 4 = VM_SYS_RQ \<or> b ! 4 = VM_OK \<and> get32 b 7 = crc32 0 img)"
    by (intro exI [of _ "put_out x4 w3"] exI [of _ b] exI [of _ "dev w4"]) simp
  then show ?thesis using b(2) x by simp
qed

text \<open>Nothing before the restart restarts the brick.\<close>

abbreviation no_restart :: "io_event \<Rightarrow> bool" where
  "no_restart e \<equiv> e \<noteq> Wr (system_frame 0xF4)"

lemma data_frame_no_restart: "data_frame b \<noteq> system_frame 0xF4"
  by (auto simp: data_frame_def system_frame_def le16_def)

lemma send_loop_no_restart:
  assumes "data_request req"
  shows "emits no_restart w (send_loop io n req mem fp s ended lp c w)"
  using assms
proof (induction "n - s" arbitrary: s req mem fp ended lp c w rule: less_induct)
  case less
  show ?case
  proof (cases "s < n")
    case False
    then show ?thesis by (simp add: send_loop.simps emits_here)
  next
    case True
    define k where "k = (if n - s \<le> max_payload then n - s else max_payload)"
    have k: "0 < k" "k \<le> n - s" "k \<le> max_payload" using True by (auto simp: k_def max_payload_eq)
    obtain payload fp' ended' where fb: "fill_block k (dd_payload req) fp ended = (payload, fp', ended')"
      by (metis prod_cases3)
    define req' where "req' = req\<lparr>dd_payload := payload, packetLen := body_len (sizeof_FW_DOWNLOAD_DATA + k)\<rparr>"
    have req': "data_request req'" "packetLen req' = body_len (sizeof_FW_DOWNLOAD_DATA + k)"
      using less.prems fill_block [OF fb] k by (simp_all add: data_request_def req'_def)
    note wire = data_frame_mem [OF req' k(3)]
    have go_on: "emits no_restart w1 (send_loop io n req' mem' fp' (s + k) ended' lp' c' w1)" for mem' lp' c' w1
      using less.hyps [OF _ req'(1)] k True by simp
    have go_on': "emits no_restart w1 (case report_progress (s + k) n lp w1 of (lp', w2) \<Rightarrow>
        send_loop io n req' mem' fp' (s + k) ended' lp' c' w2)" for mem' c' w1
      by (cases "report_progress (s + k) n lp w1")
        (auto dest: report_progress_keeps intro: emits_same [OF _ go_on])
    show ?thesis
      by (subst send_loop.simps, simp only: True if_True Let_def k_def [symmetric] fb prod.case req'_def [symmetric])
        (auto intro!: emits_write emits_read emits_print_bytes go_on' emits_here
          simp: wire data_frame_no_restart)
  qed
qed

lemma install_checked_no_restart: "emits no_restart w (install_checked io fp w)"
proof -
  have sys: "no_restart (Wr (system_frame 0xF3))" "no_restart (Wr (region_frame c a b))" "no_restart (Rd n ms)"
    for c a b n ms
    by (simp_all add: system_frame_def region_frame_def)
  have e: "emits no_restart w (bootloader_erase io w1)" if "trace w1 = trace w" for w1
    by (rule emits_same [OF that erase.emits_exchange]) (use sys in auto)
  have s: "emits no_restart w (bootloader_start io a b w1)" if "trace w1 = trace w" for w w1 a b
    by (rule emits_same [OF that start.emits_exchange]) (use sys in auto)
  have c: "emits no_restart w (bootloader_checksum io a b w1)" if "trace w1 = trace w" for w w1 a b
    by (rule emits_same [OF that checksum.emits_exchange]) (use sys in auto)
  have d: "emits no_restart w (bootloader_send io fp n w)" for w n
    by (auto simp: bootloader_send_def Let_def packet_alloc_def data_request_def init_defs
        intro!: emits_here intro: emits_same [OF _ send_loop_no_restart] split: if_splits)
  show ?thesis
    unfolding install_checked_def
    by (rule emits_rules e s c d | simp)+
qed

text \<open>
  C1: An installation that reports success has erased the flash, announced the region from 0 to
  16384000, sent the file from its position, padded with zeros to the size of the flash and cut
  into blocks of 1018 bytes, in order and without gaps, asked for the checksum, and restarted the
  brick; and the checksum it was given is the CRC-32 of exactly these bytes, or the reply was the
  request itself looped back by the host (the USB 3 bug), in which case nothing was compared.
\<close>

theorem install_ok:
  assumes "bootloader_install io fp w = Some (Ret ERR_UNK, w')"
    and "img = flash_image FLASH_SIZE (drop (fpos fp) (fdata fp))"
  shows "trace w' = trace w @ install_events img
        @ [Wr (region_frame 0xF5 0 FLASH_SIZE), Rd 11 (- 1), Wr (system_frame 0xF4), Rd 7 2000]
    \<and> (\<exists>v b d. trace v = trace w @ install_events img
         \<and> answers io v (region_frame 0xF5 0 FLASH_SIZE) 11 (- 1) b d
         \<and> (b ! 4 = VM_SYS_RQ \<or> b ! 4 = VM_OK \<and> get32 b 7 = crc32 0 img))"
proof -
  obtain ok w1 where c: "install_checked io fp w = Some (Ret ok, w1)"
    "(case ok of Inl err \<Rightarrow> ret err w1 | Inr _ \<Rightarrow> bootloader_exit io w1) = Some (Ret ERR_UNK, w')"
    using assms(1) unfolding install_split by (elim call_RetE)
  have "ok \<noteq> Inl ERR_UNK" using c(1) install_checked_Inl by metis
  then obtain u where "ok = Inr u" using c(2) by (cases ok) auto
  with c show ?thesis
    using install_checked_ok [OF _ assms(2)] exit_ok [of io w1 w'] by fastforce
qed

text \<open>
  C2: The brick is told to restart only at the end of a complete, checked installation: whatever
  the outcome, if the restart command was sent at all then the whole image and the checksum
  request went out before it, and the checksum reply was either looped back or equal to the
  CRC-32 of the image.
\<close>

theorem install_restart_guarded:
  assumes "bootloader_install io fp w = Some (r, w')"
    and "trace w' = trace w @ t" and "Wr (system_frame 0xF4) \<in> set t"
    and "img = flash_image FLASH_SIZE (drop (fpos fp) (fdata fp))"
  shows "(\<exists>t'. t = install_events img
        @ [Wr (region_frame 0xF5 0 FLASH_SIZE), Rd 11 (- 1), Wr (system_frame 0xF4)] @ t')
    \<and> (\<exists>v b d. trace v = trace w @ install_events img
         \<and> answers io v (region_frame 0xF5 0 FLASH_SIZE) 11 (- 1) b d
         \<and> (b ! 4 = VM_SYS_RQ \<or> b ! 4 = VM_OK \<and> get32 b 7 = crc32 0 img))"
proof -
  obtain o' w1 where c: "install_checked io fp w = Some (o', w1)"
    using assms(1) by (cases "install_checked io fp w") (auto simp: install_split)
  then obtain t1 where t1: "trace w1 = trace w @ t1" "Wr (system_frame 0xF4) \<notin> set t1"
    using install_checked_no_restart [of w io fp] by (fastforce simp: emits_def list_all_iff)
  have "trace w' \<noteq> trace w1" using t1 assms(2,3) by auto
  then obtain u where u: "o' = Ret (Inr u)" and x: "bootloader_exit io w1 = Some (r, w')"
    using assms(1) c by (auto simp: install_split call_def split: outcome.splits sum.splits)
  from install_checked_ok [OF c [unfolded u] assms(4)] exit.one_exchange [OF x] assms(2)
  show ?thesis by auto
qed

section \<open>A transport that loops every request back\<close>

lemma loops_back_answers:
  assumes "loops_back io" and "7 \<le> sz"
  shows "\<exists>b d. answers io w q sz ms b d \<and> b ! 4 = VM_SYS_RQ"
proof -
  obtain d where 1: "io_write io (dev w) q = Some (int (length q), d)"
    using loops_back_write [OF assms(1)] by blast
  obtain r d' where 2: "io_read io d sz ms = Some (7, r, d')" "length r = 7" "r ! 4 = VM_SYS_RQ"
    using loops_back_read [OF assms] by blast
  have "overlay (uninit w sz) r ! 4 = VM_SYS_RQ"
    using 2(2,3) by (simp add: overlay_def nth_append)
  then show ?thesis using 1 2 assms(2)
    by (intro exI [of _ "overlay (uninit w sz) r"] exI [of _ d']) (simp add: answers_def)
qed

lemma send_loop_looped:
  assumes "loops_back io" and "data_request req" and "length mem = sizeof_SYSTEM_REPLY"
  shows "\<exists>c' w'. send_loop io n req mem fp s ended lp c w = Some (Ret (ERR_UNK, c'), w')"
  using assms(2,3)
proof (induction "n - s" arbitrary: s req mem fp ended lp c w rule: less_induct)
  case less
  show ?case
  proof (cases "s < n")
    case False
    then show ?thesis by (simp add: send_loop.simps)
  next
    case True
    define k where "k = (if n - s \<le> max_payload then n - s else max_payload)"
    have k: "0 < k" "k \<le> n - s" "k \<le> max_payload" using True by (auto simp: k_def max_payload_eq)
    obtain payload fp' ended' where fb: "fill_block k (dd_payload req) fp ended = (payload, fp', ended')"
      by (metis prod_cases3)
    define req' where "req' = req\<lparr>dd_payload := payload, packetLen := body_len (sizeof_FW_DOWNLOAD_DATA + k)\<rparr>"
    have req': "data_request req'" "packetLen req' = body_len (sizeof_FW_DOWNLOAD_DATA + k)"
      using less.prems fill_block [OF fb] k by (simp_all add: data_request_def req'_def)
    note wire = data_frame_mem [OF req' k(3)]
    obtain d where 1: "io_write io (dev w) (data_frame (take k (dd_payload req')))
        = Some (int (length (data_frame (take k (dd_payload req')))), d)"
      using loops_back_write [OF assms(1)] by blast
    obtain r d' where 2: "io_read io d 7 (- 1) = Some (7, r, d')" "length r = 7" "r ! 4 = VM_SYS_RQ"
      using loops_back_read [OF assms(1)] by blast
    obtain lp' w1 where "report_progress (s + k) n lp (w\<lparr>dev := d', trace := trace w
        @ [Wr (data_frame (take k (dd_payload req'))), Rd 7 (- 1)], received := received w @ [r]\<rparr>) = (lp', w1)"
      by (metis surj_pair)
    then have "send_loop io n req mem fp s ended lp c w
        = send_loop io n req' r fp' (s + k) ended' lp' (crc32 c (take k payload)) w1"
      using wire 1 2 True less.prems(2)
      by (simp add: send_loop.simps [of _ _ _ _ _ s] Let_def k_def [symmetric] fb req'_def [symmetric]
          ev3_write_fits ev3_read_timeout_def sizeof_SYSTEM_REPLY_def as_SYSTEM_REPLY_def)
    moreover have "\<exists>c' w'. send_loop io n req' r fp' (s + k) ended' lp' (crc32 c (take k payload)) w1
        = Some (Ret (ERR_UNK, c'), w')"
      using less.hyps [of "s + k" req' r] k True req' 2(2) by (simp add: sizeof_SYSTEM_REPLY_def)
    ultimately show ?thesis by simp
  qed
qed

lemma bootloader_send_looped:
  assumes "loops_back io"
  shows "\<exists>c w'. bootloader_send io fp len w = Some (Ret (ERR_UNK, c), w')"
proof -
  have alloc: "packet_alloc sizeof_FW_DOWNLOAD_DATA FW_DOWNLOAD_DATA_INIT max_payload
      = Some (FW_DOWNLOAD_DATA_INIT\<lparr>packetLen := body_len (sizeof_FW_DOWNLOAD_DATA + max_payload)\<rparr>)"
    by (simp add: sizeof_commands max_payload_eq)
  show ?thesis
    unfolding bootloader_send_def alloc option.case Let_def
    by (rule send_loop_looped [OF assms]) (simp_all add: data_request_def init_defs)
qed

lemma looped_commands:
  assumes "loops_back io"
  shows "\<exists>w'. bootloader_erase io w = Some (Ret ERR_UNK, w')"
    and "\<exists>w'. bootloader_start io offs len w = Some (Ret ERR_UNK, w')"
    and "\<exists>w'. bootloader_checksum io offs len w = Some (Ret (ERR_USBLOOP, 0), w')"
    and "\<exists>w'. bootloader_exit io w = Some (Ret ERR_UNK, w')"
proof -
  have *: "\<exists>b d. answers io w q sz ms b d \<and> r_type (as_SYSTEM_REPLY b) = VM_SYS_RQ"
    if "7 \<le> sz" for q sz ms
    using loops_back_answers [OF assms that] by (simp add: as_SYSTEM_REPLY_def)
  have 7: "7 \<le> sizeof_SYSTEM_REPLY" "7 \<le> sizeof_FW_GETCRC32_REPLY" by (simp_all add: sizeof_replies)
  show "\<exists>w'. bootloader_erase io w = Some (Ret ERR_UNK, w')"
    using * [OF 7(1)] by (force dest: erase.reply_accepted [OF refl])
  show "\<exists>w'. bootloader_start io offs len w = Some (Ret ERR_UNK, w')"
    using * [OF 7(1)] by (force dest: start.reply_accepted [OF refl])
  show "\<exists>w'. bootloader_exit io w = Some (Ret ERR_UNK, w')"
    using * [OF 7(1)] by (force simp: comm_fail_def dest: exit.reply_accepted [OF refl])
  show "\<exists>w'. bootloader_checksum io offs len w = Some (Ret (ERR_USBLOOP, 0), w')"
  proof -
    obtain b d where b: "answers io w (region_frame 0xF5 offs len) sizeof_FW_GETCRC32_REPLY (- 1) b d"
      "r_type (as_SYSTEM_REPLY b) = VM_SYS_RQ"
      using * [OF 7(2)] by blast
    show ?thesis
      by (rule checksum.reply_decides [OF refl b(1)]) (simp add: looped_first_def b(2))
  qed
qed

lemma looped_install:
  assumes "loops_back io"
  shows "\<exists>w'. bootloader_install io fp w = Some (Ret ERR_UNK, w')"
proof -
  obtain w1 where 1: "bootloader_erase io (put_out (bytes ''Erasing flash... (takes 1 minute 48 seconds)\<newline>'') w)
      = Some (Ret ERR_UNK, w1)"
    using looped_commands(1) [OF assms] by blast
  obtain w2 where 2: "bootloader_start io FLASH_START FLASH_SIZE (put_out (bytes ''Downloading...\<newline>'') w1)
      = Some (Ret ERR_UNK, w2)"
    using looped_commands(2) [OF assms] by blast
  obtain c w3 where 3: "bootloader_send io fp FLASH_SIZE w2 = Some (Ret (ERR_UNK, c), w3)"
    using bootloader_send_looped [OF assms] by blast
  obtain w4 where 4: "bootloader_checksum io FLASH_START FLASH_SIZE
      (put_out (bytes ''Calculating flash checksum... (takes 17 seconds)\<newline>'') w3) = Some (Ret (ERR_USBLOOP, 0), w4)"
    using looped_commands(3) [OF assms] by blast
  show ?thesis
    unfolding bootloader_install_def Let_def using looped_commands(4) [OF assms]
    by (simp add: 1 2 3 4)
qed

text \<open>
  On a transport that loops every request back, an installation always finishes and reports
  success, for every file: no step but the checksum comparison needs the brick's reply.
\<close>

theorem install_looped:
  assumes "loops_back io"
  shows "\<exists>w'. bootloader_install io fp w = Some (Ret ERR_UNK, w')"
  using assms by (rule looped_install)

theorem install_looped_witness:
  "\<exists>w'. bootloader_install loopback (open_rb [1, 2, 3]) (world0 ()) = Some (Ret ERR_UNK, w')"
  by (rule install_looped [OF loops_back_loopback])

theorem install_ok_witness:
  "\<exists>w'. bootloader_install loopback (open_rb [1, 2, 3]) (world0 ()) = Some (Ret ERR_UNK, w')
    \<and> trace w' = install_events (flash_image FLASH_SIZE [1, 2, 3])
        @ [Wr (region_frame 0xF5 0 FLASH_SIZE), Rd 11 (- 1), Wr (system_frame 0xF4), Rd 7 2000]"
proof -
  obtain w' where w': "bootloader_install loopback (open_rb [1, 2, 3]) (world0 ()) = Some (Ret ERR_UNK, w')"
    using looped_install [OF loops_back_loopback] by blast
  from install_ok [OF w' refl] w' show ?thesis by (auto simp: open_rb_def)
qed

theorem install_restart_guarded_witness:
  "\<exists>w' t t'. bootloader_install loopback (open_rb [1, 2, 3]) (world0 ()) = Some (Ret ERR_UNK, w')
    \<and> trace w' = t \<and> t = install_events (flash_image FLASH_SIZE [1, 2, 3])
        @ [Wr (region_frame 0xF5 0 FLASH_SIZE), Rd 11 (- 1), Wr (system_frame 0xF4)] @ t'"
proof -
  obtain w' where w': "bootloader_install loopback (open_rb [1, 2, 3]) (world0 ()) = Some (Ret ERR_UNK, w')"
    using looped_install [OF loops_back_loopback] by blast
  have restart: "Wr (system_frame 0xF4) \<in> set (trace w')"
    using w' unfolding install_split by (elim call_RetE) (auto split: sum.splits dest: exit_ok install_checked_Inl [THEN notE])
  have "trace w' = trace (world0 ()) @ trace w'" by simp
  from install_restart_guarded [OF w' this restart refl] w' show ?thesis
    by (auto simp: open_rb_def)
qed

end
