(* ===== verification/Handles.thy ===== *)
theory Handles
  imports Scripted
begin

text \<open>
  \<^verbatim>\<open>src/src/closehnd.c\<close>: close every file handle of the brick in a range and print a map of
  which were open.
\<close>

section \<open>The command\<close>

text \<open>
  One turn of the \<^verbatim>\<open>for\<close> loop; its variables are \<^verbatim>\<open>hnd\<close>, \<^verbatim>\<open>count\<close>, and the reply buffer, which
  keeps what earlier replies left in it.
\<close>

definition closehnd_turn ::
    "'d ev3_io \<Rightarrow> CLOSE_HANDLE \<Rightarrow> int \<Rightarrow> int \<times> nat \<times> u8 list \<Rightarrow> 'd world
      \<Rightarrow> ((int \<times> nat \<times> u8 list) + ERR, 'd) run" where
  "closehnd_turn io request end_hnd = (\<lambda>(hnd, count, reply_mem) w.
    (if hnd < end_hnd then
       let request = request\<lparr>ch_handle := of_int hnd\<rparr> in
       ev3_write io (mem_CLOSE_HANDLE request) (wire_len request) w (\<lambda>res w.
       if res < 0 then ret (Inr ERR_COMM) (w\<lparr>errmsg := Some ''Unable to write CLOSE_HANDLE.''\<rparr>)
       else
         ev3_read_timeout io reply_mem sizeof_CLOSE_HANDLE_REPLY TIMEOUT w (\<lambda>res mem w.
         let reply = as_CLOSE_HANDLE_REPLY mem in
         if res \<le> 0 then ret (Inr ERR_COMM) (w\<lparr>errmsg := Some ''Unable to read CLOSE_HANDLE''\<rparr>)
         else
           let count = count + 1;
               w = (if r_type reply = VM_OK then put_out (bytes ''*'') w else put_out (bytes ''_'') w);
               w = (if count mod 16 = 0 then put_out (bytes ''\<newline>'') w else w)
           in ret (Inl (hnd + 1, count, mem)) w))
     else ret (Inr ERR_UNK) (w\<lparr>errmsg := Some ''`closehnd` was successful.''\<rparr>)))"

definition closehnd :: "'d ev3_io \<Rightarrow> int \<Rightarrow> int \<Rightarrow> 'd world \<Rightarrow> (ERR, 'd) run" where
  "closehnd io start end_hnd w =
    (case packet_alloc sizeof_CLOSE_HANDLE CLOSE_HANDLE_INIT 0 of
       None \<Rightarrow> undef w
     | Some request \<Rightarrow>
       let reply = uninit w sizeof_CLOSE_HANDLE_REPLY;
           start = (if start < 0 then 0 else start);
           end_hnd = (if end_hnd > 256 then 256 else end_hnd);
           w = put_out (bytes ''Handle map:\<newline>'') w
       in loop (closehnd_turn io request end_hnd) (start, 0, reply) w)"

section \<open>One request per handle\<close>

definition close_frame :: "int \<Rightarrow> u8 list" where
  "close_frame hnd = [0, 5, 0, 0, 0, 1, 0x98, of_int hnd]"

definition close_events :: "int \<Rightarrow> int \<Rightarrow> io_event list" where
  "close_events a b = concat (map (\<lambda>h. [Wr (close_frame h), Rd 8 2000]) [a..b - 1])"

lemma close_events_Nil [simp]: "b \<le> a \<Longrightarrow> close_events a b = []"
  by (simp add: close_events_def)

lemma close_events_snoc: "a \<le> b \<Longrightarrow> close_events a (b + 1) = close_events a b @ [Wr (close_frame b), Rd 8 2000]"
  by (simp add: close_events_def upto_rec2)

abbreviation close_request :: CLOSE_HANDLE where
  "close_request \<equiv> CLOSE_HANDLE_INIT\<lparr>packetLen := 5\<rparr>"

lemma close_request:
  "packet_alloc sizeof_CLOSE_HANDLE CLOSE_HANDLE_INIT 0 = Some close_request"
  "mem_CLOSE_HANDLE (close_request\<lparr>ch_handle := of_int h\<rparr>) = close_frame h"
  "wire_len (close_request\<lparr>ch_handle := of_int h\<rparr>) = 8" "length (close_frame h) = 8"
  by (simp_all add: sizeof_commands body_len_def PREFIX_SIZE_def wire_len_def mem_defs mem_command_def
      mem_packet_def CLOSE_HANDLE_INIT_def le16_def close_frame_def)

text \<open>A turn either goes on to the next handle after one exchange, or ends the loop.\<close>

lemma closehnd_turn_next:
  assumes "closehnd_turn io close_request e (h, n, mem) w = Some (Ret (Inl (h', n', mem')), w')"
  shows "h < e \<and> h' = h + 1 \<and> n' = Suc n \<and> trace w' = trace w @ [Wr (close_frame h), Rd 8 2000]
    \<and> length mem' = length mem"
proof (cases "h < e")
  case True
  then show ?thesis
    using assms
    by (simp only: closehnd_turn_def prod.case if_True Let_def close_request)
      (elim ev3_write_RetE, simp split: if_splits, elim ev3_read_RetE,
        auto simp: sizeof_CLOSE_HANDLE_REPLY_def TIMEOUT_def Let_def close_request(4) split: if_splits)
qed (use assms in \<open>simp add: closehnd_turn_def\<close>)

lemma closehnd_turn_done:
  assumes "closehnd_turn io close_request e (h, n, mem) w = Some (Ret (Inr ERR_UNK), w')"
  shows "e \<le> h \<and> trace w' = trace w"
proof (cases "h < e")
  case True
  then show ?thesis
    using assms
    by (simp only: closehnd_turn_def prod.case if_True Let_def close_request)
      (elim ev3_write_RetE, simp split: if_splits, elim ev3_read_RetE, simp add: Let_def split: if_splits)
qed (use assms in \<open>auto simp: closehnd_turn_def\<close>)

text \<open>
  C12: \<^verbatim>\<open>closehnd\<close> reports success only after it has asked the brick to close each handle of the
  range, cut to 0 to 255, once and in ascending order, and nothing else.
\<close>

theorem closehnd_ok:
  fixes w :: "'d world"
  assumes "closehnd io start end_hnd w = Some (Ret ERR_UNK, w')"
  shows "trace w' = trace w @ close_events (max 0 start) (min 256 end_hnd)"
proof -
  define a e where "a = max 0 start" and "e = min 256 end_hnd"
  define I where "I = (\<lambda>(h, n :: nat, mem :: u8 list) (v :: 'd world). a \<le> h \<and> (h \<le> e \<or> h = a)
      \<and> trace v = trace w @ close_events a h)"
  have lim: "(if start < 0 then 0 else start) = a" "(if 256 < end_hnd then 256 else end_hnd) = e"
    by (auto simp: a_def e_def)
  have "ERR_UNK = ERR_UNK \<longrightarrow> trace w' = trace w @ close_events a e"
  proof (rule loop_invariant [where I = I and Q = "\<lambda>r v. r = ERR_UNK \<longrightarrow> trace v = trace w @ close_events a e",
        OF assms [unfolded closehnd_def close_request option.case Let_def lim]])
    show "I (a, 0, uninit w sizeof_CLOSE_HANDLE_REPLY) (put_out (bytes ''Handle map:\<newline>'') w)"
      by (simp add: I_def)
  next
    fix s v s1 v1
    assume I: "I s v" and t: "closehnd_turn io close_request e s v = Some (Ret (Inl s1), v1)"
    obtain h n mem h' n' mem' where s: "s = (h, n, mem)" "s1 = (h', n', mem')" by (metis prod_cases3)
    show "I s1 v1"
      using closehnd_turn_next [OF t [unfolded s]] I
      by (simp add: s I_def close_events_snoc)
  next
    fix s v r v1
    assume I: "I s v" and t: "closehnd_turn io close_request e s v = Some (Ret (Inr r), v1)"
    obtain h n mem where s: "s = (h, n, mem)" by (metis prod_cases3)
    show "r = ERR_UNK \<longrightarrow> trace v1 = trace w @ close_events a e"
    proof
      assume "r = ERR_UNK"
      from closehnd_turn_done [OF t [unfolded s this]] I
      show "trace v1 = trace w @ close_events a e" by (cases "h = e") (auto simp: s I_def)
    qed
  qed
  then show ?thesis by (simp add: a_def e_def)
qed

section \<open>It ends\<close>

lemma closehnd_turn_step:
  assumes "h < e" and "io_write io (dev w) (close_frame h) = Some (res, d)" and "0 \<le> res"
    and "io_read io d 8 2000 = Some (res', bs, d')" and "0 < res'" and "length bs \<le> length mem"
  shows "\<exists>w1. closehnd_turn io close_request e (h, n, mem) w = ret (Inl (h + 1, Suc n, overlay mem bs)) w1"
  using assms
  by (simp only: closehnd_turn_def prod.case if_True Let_def close_request)
    (simp add: ev3_write_fits close_request(4) ev3_read_timeout_def sizeof_CLOSE_HANDLE_REPLY_def
      TIMEOUT_def Let_def not_less not_le)

lemma closehnd_responsive:
  assumes "responsive io 8"
  shows "\<exists>w'. closehnd io start end_hnd w = Some (Ret ERR_UNK, w')"
proof -
  have "\<exists>w'. loop (closehnd_turn io close_request e) (h, n, mem) w = Some (Ret ERR_UNK, w')"
    if "length mem = 8" for e h n mem w
    using that
  proof (induction "nat (e - h)" arbitrary: h n mem w rule: less_induct)
    case less
    show ?case
    proof (cases "h < e")
      case True
      obtain res d res' bs d' where a: "io_write io (dev w) (close_frame h) = Some (res, d)" "0 \<le> res"
        "io_read io d 8 2000 = Some (res', bs, d')" "0 < res'" "length bs \<le> 8"
        using assms by (rule responsiveE)
      obtain w1 where "closehnd_turn io close_request e (h, n, mem) w
          = ret (Inl (h + 1, Suc n, overlay mem bs)) w1"
        using closehnd_turn_step [OF True a(1-4)] a(5) less.prems by metis
      then show ?thesis
        using less.hyps [of "h + 1" "overlay mem bs"] True a(5) less.prems by (simp add: loop_step(3))
    qed (simp add: loop_step(4) closehnd_turn_def)
  qed
  then show ?thesis by (simp add: closehnd_def close_request Let_def sizeof_CLOSE_HANDLE_REPLY_def)
qed

text \<open>
  On a transport that answers, \<^verbatim>\<open>closehnd\<close> always ends, and with success, whatever range it is
  given and whatever the replies say: a handle the brick refuses to close only changes the map.
\<close>

theorem closehnd_finishes:
  assumes "responsive io 8"
  shows "\<exists>w'. closehnd io start end_hnd w = Some (Ret ERR_UNK, w')"
  using assms by (rule closehnd_responsive)

theorem closehnd_finishes_witness:
  "\<exists>w'. closehnd loopback (- 5) 1000 (world0 ()) = Some (Ret ERR_UNK, w')"
  by (rule closehnd_finishes [OF responsive_loopback]) simp

theorem closehnd_ok_witness:
  "\<exists>w'. closehnd loopback (- 3) 2 (world0 ()) = Some (Ret ERR_UNK, w')
    \<and> trace w' = [Wr (close_frame 0), Rd 8 2000, Wr (close_frame 1), Rd 8 2000]"
proof -
  obtain w' where w': "closehnd loopback (- 3) 2 (world0 ()) = Some (Ret ERR_UNK, w')"
    using closehnd_responsive [OF responsive_loopback] by fastforce
  have "close_events 0 2 = [Wr (close_frame 0), Rd 8 2000, Wr (close_frame 1), Rd 8 2000]"
    by (simp add: close_events_def upto.simps)
  with closehnd_ok [OF w'] w' show ?thesis by auto
qed

end
