(* ===== verification/Upload.thy ===== *)
theory Upload
  imports Scripted
begin

text \<open>
  \<^verbatim>\<open>src/src/up.c\<close>: send a local file to the brick. A BEGIN_DOWNLOAD request announces the size
  and the name, CONTINUE_DOWNLOAD requests carry the contents in chunks of at most 1000 bytes, each
  under the file handle of the reply before it.
\<close>

section \<open>The command\<close>

definition CHUNK_SIZE :: nat where "CHUNK_SIZE = 1000"

text \<open>
  One turn of the chunk loop. Its variables are the index, the request that is reused for every
  chunk, the reply buffer \<^verbatim>\<open>bdrep\<close>, and the file. It ends with an early return (\<open>Inl\<close>) or, after
  the last chunk, with the buffer (\<open>Inr\<close>).
\<close>

definition up_turn ::
    "'d ev3_io \<Rightarrow> nat \<Rightarrow> nat \<Rightarrow> nat \<times> CONTINUE_DOWNLOAD \<times> u8 list \<times> FILE \<Rightarrow> 'd world
      \<Rightarrow> ((nat \<times> CONTINUE_DOWNLOAD \<times> u8 list \<times> FILE) + (ERR + u8 list), 'd) run" where
  "up_turn io chunks final_chunk_sz = (\<lambda>(i, cd, bdrep, fp) w.
    (if i < chunks then
       let cd = cd\<lparr>cd_fileHandle := bdr_fileHandle (as_BEGIN_DOWNLOAD_REPLY bdrep)\<rparr>;
           cd = (if i = chunks - 1
                 then cd\<lparr>packetLen := body_len (sizeof_CONTINUE_DOWNLOAD + final_chunk_sz)\<rparr> else cd);
           (got, fp) = fread (if i = chunks - 1 then final_chunk_sz else CHUNK_SIZE) fp;
           cd = cd\<lparr>cd_fileChunk := overlay (cd_fileChunk cd) got\<rparr>
       in
       ev3_write io (mem_CONTINUE_DOWNLOAD cd) (wire_len cd) w (\<lambda>res w.
       if res < 0 then
         ret (Inr (Inl ERR_COMM)) (w\<lparr>errmsg := Some ''Unable to write CONTINUE_DOWNLOAD.''\<rparr>)
       else
         ev3_read_timeout io bdrep sizeof_BEGIN_DOWNLOAD_REPLY TIMEOUT w (\<lambda>res bdrep w.
         if res \<le> 0 then
           ret (Inr (Inl ERR_COMM)) (w\<lparr>errmsg := Some ''Unable to read CONTINUE_DOWNLOAD''\<rparr>)
         else ret (Inl (i + 1, cd, bdrep, fp)) w))
     else ret (Inr (Inr bdrep)) w))"

definition up :: "'d ev3_io \<Rightarrow> FILE \<Rightarrow> string \<Rightarrow> 'd world \<Rightarrow> (ERR, 'd) run" where
  "up io fp dst w =
    (let fsz = fsize fp;
         fp = rewind fp
     in
     if fsz > 4294967295 then ret ERR_FTOOBIG w
     else
       let final_chunk_sz = fsz mod CHUNK_SIZE;
           chunks = fsz div CHUNK_SIZE;
           (final_chunk_sz, chunks) =
             (if final_chunk_sz = 0 then (CHUNK_SIZE, chunks) else (final_chunk_sz, chunks + 1));
           dst_len = length dst + 1
       in case packet_alloc sizeof_BEGIN_DOWNLOAD BEGIN_DOWNLOAD_INIT dst_len of
         None \<Rightarrow> undef w
       | Some bd0 \<Rightarrow>
         let bd = bd0\<lparr>bd_fileSize := of_nat fsz, bd_fileName := cstr dst\<rparr> in
         ev3_write io (mem_BEGIN_DOWNLOAD bd) (wire_len bd) w (\<lambda>res w.
         if res < 0 then ret ERR_COMM (w\<lparr>errmsg := Some ''Unable to write BEGIN_DOWNLOAD.''\<rparr>)
         else
           ev3_read_timeout io (uninit w sizeof_BEGIN_DOWNLOAD_REPLY) sizeof_BEGIN_DOWNLOAD_REPLY TIMEOUT w
             (\<lambda>res bdrep w.
           if res \<le> 0 then ret ERR_COMM (w\<lparr>errmsg := Some ''Unable to read BEGIN_DOWNLOAD''\<rparr>)
           else if r_type (as_BEGIN_DOWNLOAD_REPLY bdrep) = VM_ERROR then
             ret ERR_VM (w\<lparr>errno := uint (r_ret (as_BEGIN_DOWNLOAD_REPLY bdrep)),
               errmsg := Some ''BEGIN_DOWNLOAD was denied.''\<rparr>)
           else
             case packet_alloc sizeof_CONTINUE_DOWNLOAD CONTINUE_DOWNLOAD_INIT CHUNK_SIZE of
               None \<Rightarrow> undef w
             | Some cd0 \<Rightarrow>
               let cd = cd0\<lparr>cd_fileChunk := uninit w CHUNK_SIZE\<rparr> in
               call (loop (up_turn io chunks final_chunk_sz) (0, cd, bdrep, fp) w) (\<lambda>r w.
               case r of
                 Inl err \<Rightarrow> ret err w
               | Inr bdrep \<Rightarrow>
                 if r_type (as_BEGIN_DOWNLOAD_REPLY bdrep) = VM_ERROR then
                   (let w = w\<lparr>errno := uint (r_ret (as_BEGIN_DOWNLOAD_REPLY bdrep))\<rparr>;
                        w = put_err (bytes ''Transfer failed.\<newline>last_reply='') w
                    in print_bytes bdrep (unat (r_packetLen (as_BEGIN_DOWNLOAD_REPLY bdrep))) w (\<lambda>w.
                       ret ERR_VM (w\<lparr>errmsg := Some ''CONTINUE_DOWNLOAD was denied.''\<rparr>)))
                 else ret ERR_UNK (w\<lparr>errmsg := Some ''`upload` was successful.''\<rparr>)))))"

section \<open>What goes over the wire\<close>

definition begin_frame :: "nat \<Rightarrow> string \<Rightarrow> u8 list" where
  "begin_frame n dst = [0] @ le16 (of_nat (length dst + 9)) @ [0, 0, 1, 0x92] @ le32 (of_nat n) @ cstr dst"

definition chunk_frame :: "u8 \<Rightarrow> u8 list \<Rightarrow> u8 list" where
  "chunk_frame h b = [0] @ le16 (of_nat (length b + 5)) @ [0, 0, 1, 0x93, h] @ b"

definition chunk_events :: "u8 list \<Rightarrow> u8 list list \<Rightarrow> io_event list" where
  "chunk_events hs ps = concat (map2 (\<lambda>h p. [Wr (chunk_frame h p), Rd 8 2000]) hs ps)"

text \<open>The chunks of a file: \<open>i\<close> of them are sent, the rest starts at \<open>1000 * i\<close>.\<close>

definition chunk_request :: "CONTINUE_DOWNLOAD \<Rightarrow> bool" where
  "chunk_request cd \<longleftrightarrow> hidLayer cd = 0 \<and> msgCount cd = 0 \<and> replyType cd = 1 \<and> cmd cd = 0x93
     \<and> length (cd_fileChunk cd) = CHUNK_SIZE"

lemma chunk_wire:
  assumes "chunk_request cd" and "packetLen cd = body_len (sizeof_CONTINUE_DOWNLOAD + length got)"
    and "length got \<le> CHUNK_SIZE" and "cd_fileChunk cd = overlay buf got" and "cd_fileHandle cd = h"
  shows "wire_len cd \<le> length (mem_CONTINUE_DOWNLOAD cd)"
    and "take (wire_len cd) (mem_CONTINUE_DOWNLOAD cd) = chunk_frame h got"
proof -
  have wl: "wire_len cd = 8 + length got"
    using assms by (simp add: wire_len_def sizeof_commands CHUNK_SIZE_def)
  then show "wire_len cd \<le> length (mem_CONTINUE_DOWNLOAD cd)"
    using assms by (simp add: chunk_request_def sizeof_commands)
  define hd :: "u8 list" where "hd = [0] @ le16 (of_nat (length got + 5)) @ [0, 0, 1, 0x93, h]"
  have "mem_CONTINUE_DOWNLOAD cd = hd @ overlay buf got"
    using assms by (simp add: mem_defs mem_command_def mem_packet_def chunk_request_def sizeof_commands
        body_len_def PREFIX_SIZE_def le16_def hd_def add.commute)
  moreover have "length hd = 8" by (simp add: hd_def)
  ultimately have "take (wire_len cd) (mem_CONTINUE_DOWNLOAD cd) = hd @ got"
    using wl by (simp add: overlay_def)
  then show "take (wire_len cd) (mem_CONTINUE_DOWNLOAD cd) = chunk_frame h got"
    by (simp add: chunk_frame_def hd_def)
qed

text \<open>The state of the loop before chunk \<open>i\<close> of \<open>data\<close>.\<close>

definition up_state :: "u8 list \<Rightarrow> nat \<times> CONTINUE_DOWNLOAD \<times> u8 list \<times> FILE \<Rightarrow> bool" where
  "up_state data = (\<lambda>(i, cd, bdrep, fp). i \<le> length (pieces CHUNK_SIZE data) \<and> chunk_request cd
     \<and> (i < length (pieces CHUNK_SIZE data) \<longrightarrow> packetLen cd = body_len (sizeof_CONTINUE_DOWNLOAD + CHUNK_SIZE))
     \<and> length bdrep = sizeof_BEGIN_DOWNLOAD_REPLY \<and> fdata fp = data
     \<and> (i < length (pieces CHUNK_SIZE data) \<longrightarrow> fpos fp = i * CHUNK_SIZE))"

definition up_chunks :: "nat \<Rightarrow> nat" where
  "up_chunks fsz = (if fsz mod CHUNK_SIZE = 0 then fsz div CHUNK_SIZE else fsz div CHUNK_SIZE + 1)"

definition up_final :: "nat \<Rightarrow> nat" where
  "up_final fsz = (if fsz mod CHUNK_SIZE = 0 then CHUNK_SIZE else fsz mod CHUNK_SIZE)"

lemma up_chunks_pieces: "up_chunks (length data) = length (pieces CHUNK_SIZE data)"
  by (simp add: up_chunks_def length_pieces CHUNK_SIZE_def)

text \<open>The chunk the code reads, and the length it announces for it.\<close>

lemma up_piece:
  assumes "i < up_chunks (length data)"
  defines "n \<equiv> (if i = up_chunks (length data) - 1 then up_final (length data) else CHUNK_SIZE)"
  shows "take n (drop (i * CHUNK_SIZE) data) = pieces CHUNK_SIZE data ! i"
    and "length (pieces CHUNK_SIZE data ! i) = n" and "n \<le> CHUNK_SIZE"
proof -
  have i: "pieces CHUNK_SIZE data ! i = take CHUNK_SIZE (drop (i * CHUNK_SIZE) data)"
    using assms(1) by (intro pieces_nth) (simp_all add: up_chunks_pieces CHUNK_SIZE_def)
  define k r where "k = length data div 1000" and "r = length data mod 1000"
  have kr: "length data = 1000 * k + r" "r < 1000" by (simp_all add: k_def r_def)
  have c: "up_chunks (length data) = (if r = 0 then k else k + 1)" "up_final (length data) = (if r = 0 then 1000 else r)"
    by (simp_all add: up_chunks_def up_final_def CHUNK_SIZE_def k_def r_def)
  have n: "min CHUNK_SIZE (length data - i * CHUNK_SIZE) = n"
    using assms(1) kr unfolding n_def c CHUNK_SIZE_def by (cases "r = 0"; cases "i < k - 1") auto
  then show "length (pieces CHUNK_SIZE data ! i) = n" by (simp add: i min.commute)
  show "take n (drop (i * CHUNK_SIZE) data) = pieces CHUNK_SIZE data ! i"
    unfolding i n [symmetric] by (simp add: min_def)
  show "n \<le> CHUNK_SIZE" using n by simp
qed

definition send_chunk ::
    "'d ev3_io \<Rightarrow> nat \<Rightarrow> CONTINUE_DOWNLOAD \<Rightarrow> u8 list \<Rightarrow> FILE \<Rightarrow> 'd world
      \<Rightarrow> ((nat \<times> CONTINUE_DOWNLOAD \<times> u8 list \<times> FILE) + (ERR + u8 list), 'd) run" where
  "send_chunk io i cd m fp w =
    ev3_write io (mem_CONTINUE_DOWNLOAD cd) (wire_len cd) w (\<lambda>res w.
      if res < 0 then ret (Inr (Inl ERR_COMM)) (w\<lparr>errmsg := Some ''Unable to write CONTINUE_DOWNLOAD.''\<rparr>)
      else ev3_read_timeout io m sizeof_BEGIN_DOWNLOAD_REPLY TIMEOUT w (\<lambda>res bdrep w.
        if res \<le> 0 then ret (Inr (Inl ERR_COMM)) (w\<lparr>errmsg := Some ''Unable to read CONTINUE_DOWNLOAD''\<rparr>)
        else ret (Inl (Suc i, cd, bdrep, fp)) w))"

text \<open>One turn, run from a state of the loop: the request it sends, and the state it leaves.\<close>

lemma up_turn_unfold:
  assumes st: "up_state data (i, cd, m, fp)" and i: "i < up_chunks (length data)"
  obtains cd' fp' where
    "\<And>bs. length bs \<le> 8 \<Longrightarrow> up_state data (Suc i, cd', overlay m bs, fp')"
    "length (chunk_frame (m ! 7) (pieces CHUNK_SIZE data ! i)) = wire_len cd'"
    "wire_len cd' \<le> length (mem_CONTINUE_DOWNLOAD cd')"
    "take (wire_len cd') (mem_CONTINUE_DOWNLOAD cd') = chunk_frame (m ! 7) (pieces CHUNK_SIZE data ! i)"
    "\<And>io w. up_turn io (up_chunks (length data)) (up_final (length data)) (i, cd, m, fp) w =
       send_chunk io i cd' m fp' w"
proof -
  let ?last = "i = up_chunks (length data) - 1"
  define n where "n = (if ?last then up_final (length data) else CHUNK_SIZE)"
  define p where "p = pieces CHUNK_SIZE data ! i"
  note piece = up_piece [OF i, folded n_def p_def]
  obtain fp' where fr: "fread n fp = (p, fp')" and fp': "fdata fp' = data" "fpos fp' = i * CHUNK_SIZE + n"
  proof (rule that)
    have fp: "fdata fp = data" "fpos fp = i * CHUNK_SIZE"
      using st i by (simp_all add: up_state_def up_chunks_pieces)
    show "fread n fp = (p, snd (fread n fp))"
      using piece(1) fp by (simp add: fread_def Let_def)
    have "length (take n (drop (i * CHUNK_SIZE) data)) = n" using piece by simp
    then show "fpos (snd (fread n fp)) = i * CHUNK_SIZE + n" by (simp add: fp)
    show "fdata (snd (fread n fp)) = data" by (simp add: fp)
  qed
  define cd1 where "cd1 = cd\<lparr>cd_fileHandle := bdr_fileHandle (as_BEGIN_DOWNLOAD_REPLY m)\<rparr>"
  define cd2 where "cd2 = (if ?last then cd1\<lparr>packetLen := body_len (sizeof_CONTINUE_DOWNLOAD + up_final (length data))\<rparr> else cd1)"
  define cd' where "cd' = cd2\<lparr>cd_fileChunk := overlay (cd_fileChunk cd2) p\<rparr>"
  have len: "length p \<le> CHUNK_SIZE" using piece by simp
  have buf: "length (cd_fileChunk cd2) = CHUNK_SIZE"
    using st by (simp add: up_state_def chunk_request_def cd2_def cd1_def)
  have cd': "chunk_request cd'" "packetLen cd' = body_len (sizeof_CONTINUE_DOWNLOAD + length p)"
    "cd_fileChunk cd' = overlay (cd_fileChunk cd2) p" "cd_fileHandle cd' = m ! 7"
  proof -
    show "chunk_request cd'"
      using st len buf by (simp add: up_state_def chunk_request_def cd'_def) (simp add: cd2_def cd1_def)
    show "packetLen cd' = body_len (sizeof_CONTINUE_DOWNLOAD + length p)"
      using st i piece(2) by (simp add: up_state_def up_chunks_pieces cd'_def cd2_def cd1_def n_def)
  qed (simp_all add: cd'_def cd2_def cd1_def as_BEGIN_DOWNLOAD_REPLY_def)
  note wire = chunk_wire [OF cd'(1,2) len cd'(3,4)]
  show thesis
  proof (rule that)
    show "wire_len cd' \<le> length (mem_CONTINUE_DOWNLOAD cd')"
      and "take (wire_len cd') (mem_CONTINUE_DOWNLOAD cd') = chunk_frame (m ! 7) (pieces CHUNK_SIZE data ! i)"
      using wire by (simp_all add: p_def)
    then show "length (chunk_frame (m ! 7) (pieces CHUNK_SIZE data ! i)) = wire_len cd'"
      by (metis length_take min.absorb2)
    show "up_state data (Suc i, cd', overlay m bs, fp')" if "length bs \<le> 8" for bs
      using st i cd'(1,2) fp' piece(2) that
      by (auto simp: up_state_def up_chunks_pieces n_def sizeof_BEGIN_DOWNLOAD_REPLY_def split: if_splits)
    show "up_turn io (up_chunks (length data)) (up_final (length data)) (i, cd, m, fp) w =
       send_chunk io i cd' m fp' w" for io w
      using i
      by (simp only: up_turn_def prod.case if_True Let_def cd1_def [symmetric] cd2_def [symmetric]
          n_def [symmetric] fr cd'_def [symmetric] Suc_eq_plus1 send_chunk_def)
  qed
qed

lemma up_turn_next:
  assumes "up_state data (i, cd, m, fp)" and "i < up_chunks (length data)"
    and "up_turn io (up_chunks (length data)) (up_final (length data)) (i, cd, m, fp) w
      = Some (Ret (Inl (i', cd', m', fp')), w')"
  shows "i' = Suc i \<and> up_state data (i', cd', m', fp') \<and> (\<exists>bs. m' = overlay m bs \<and> received w' = received w @ [bs])
    \<and> trace w' = trace w @ [Wr (chunk_frame (m ! 7) (pieces CHUNK_SIZE data ! i)), Rd 8 2000]"
proof -
  obtain cd2 fp2 where 1: "\<And>bs. length bs \<le> 8 \<Longrightarrow> up_state data (Suc i, cd2, overlay m bs, fp2)"
    and 2: "wire_len cd2 \<le> length (mem_CONTINUE_DOWNLOAD cd2)"
      "take (wire_len cd2) (mem_CONTINUE_DOWNLOAD cd2) = chunk_frame (m ! 7) (pieces CHUNK_SIZE data ! i)"
    and 3: "up_turn io (up_chunks (length data)) (up_final (length data)) (i, cd, m, fp) w = send_chunk io i cd2 m fp2 w"
    by (rule up_turn_unfold [OF assms(1,2)]) blast
  have m: "length m = 8" using assms(1) by (simp add: up_state_def sizeof_BEGIN_DOWNLOAD_REPLY_def)
  show ?thesis
    using assms(3) unfolding 3 send_chunk_def
  proof (cases rule: exchange_RetE)
    case (answered bs w1)
    then show ?thesis using 1 [of bs] by (auto simp: 2 m sizeof_BEGIN_DOWNLOAD_REPLY_def TIMEOUT_def)
  qed simp_all
qed

definition handles_used :: "u8 list \<Rightarrow> u8 list list \<Rightarrow> u8 list" where
  "handles_used m bs = map (\<lambda>m. m ! 7) (butlast (m # reply_bufs m bs))"

lemma length_handles_used [simp]: "length (handles_used m bs) = length bs"
  by (simp add: handles_used_def del: butlast.simps)

lemma handles_used_snoc: "handles_used m (bs @ [b]) = handles_used m bs @ [last (m # reply_bufs m bs) ! 7]"
proof -
  define l where "l = m # reply_bufs m bs"
  have "butlast (m # reply_bufs m (bs @ [b])) = l"
    by (simp add: l_def reply_bufs_append butlast_append)
  moreover obtain xs x where "l = xs @ [x]"
    by (cases l rule: rev_cases) (simp_all add: l_def)
  ultimately show ?thesis
    unfolding handles_used_def l_def [symmetric] by simp
qed

lemma chunk_events_snoc:
  "length hs = length ps \<Longrightarrow> chunk_events (hs @ [h]) (ps @ [p]) = chunk_events hs ps @ [Wr (chunk_frame h p), Rd 8 2000]"
  by (simp add: chunk_events_def)

lemma up_loop_ok:
  fixes w :: "'d world"
  assumes "loop (up_turn io (up_chunks (length data)) (up_final (length data))) (0, cd, m, fp) w = Some (Ret r, w')"
    and "up_state data (0, cd, m, fp)"
  shows "case r of Inl e \<Rightarrow> e = ERR_COMM
    | Inr m' \<Rightarrow> length m' = 8 \<and> (\<exists>bs. length bs = length (pieces CHUNK_SIZE data) \<and> received w' = received w @ bs
        \<and> m' = last (m # reply_bufs m bs)
        \<and> trace w' = trace w @ chunk_events (handles_used m bs) (pieces CHUNK_SIZE data))"
proof -
  let ?ps = "pieces CHUNK_SIZE data"
  define I where "I = (\<lambda>(i, cd, m', fp) (v :: 'd world). up_state data (i, cd, m', fp)
    \<and> (\<exists>bs. length bs = i \<and> received v = received w @ bs \<and> m' = last (m # reply_bufs m bs)
        \<and> trace v = trace w @ chunk_events (handles_used m bs) (take i ?ps)))"
  show ?thesis
  proof (rule loop_invariant [where I = I, OF assms(1)])
    show "I (0, cd, m, fp) w" using assms(2) by (simp add: I_def chunk_events_def)
  next
    fix s v s1 v1
    assume I: "I s v" and t: "up_turn io (up_chunks (length data)) (up_final (length data)) s v = Some (Ret (Inl s1), v1)"
    obtain i cd m' fp i1 cd1 m1 fp1 where s: "s = (i, cd, m', fp)" "s1 = (i1, cd1, m1, fp1)" by (metis prod_cases4)
    obtain bs where bs: "up_state data (i, cd, m', fp)" "length bs = i" "received v = received w @ bs"
      "m' = last (m # reply_bufs m bs)" "trace v = trace w @ chunk_events (handles_used m bs) (take i ?ps)"
      using I by (auto simp: I_def s)
    have i: "i < up_chunks (length data)"
      using t by (rule_tac ccontr) (simp add: s up_turn_def)
    obtain b where b: "i1 = Suc i" "up_state data (i1, cd1, m1, fp1)" "m1 = overlay m' b"
      "received v1 = received v @ [b]" "trace v1 = trace v @ [Wr (chunk_frame (m' ! 7) (?ps ! i)), Rd 8 2000]"
      using up_turn_next [OF bs(1) i t [unfolded s]] by blast
    have "take (Suc i) ?ps = take i ?ps @ [?ps ! i]"
      using i by (simp add: take_Suc_conv_app_nth up_chunks_pieces)
    moreover have "length (handles_used m bs) = length (take i ?ps)"
      using i bs(2) by (simp add: up_chunks_pieces)
    ultimately have "trace v1 = trace w @ chunk_events (handles_used m (bs @ [b])) (take (Suc i) ?ps)"
      using bs b by (simp only: handles_used_snoc chunk_events_snoc) simp
    moreover have "m1 = last (m # reply_bufs m (bs @ [b]))"
      using bs(4) b(3) by (simp add: reply_bufs_append)
    ultimately show "I s1 v1"
      using b bs by (auto simp: I_def s intro!: exI [of _ "bs @ [b]"])
  next
    fix s v r v1
    assume I: "I s v" and t: "up_turn io (up_chunks (length data)) (up_final (length data)) s v = Some (Ret (Inr r), v1)"
    obtain i cd m' fp where s: "s = (i, cd, m', fp)" by (metis prod_cases4)
    show "case r of Inl e \<Rightarrow> e = ERR_COMM
      | Inr m' \<Rightarrow> length m' = 8 \<and> (\<exists>bs. length bs = length ?ps \<and> received v1 = received w @ bs
          \<and> m' = last (m # reply_bufs m bs) \<and> trace v1 = trace w @ chunk_events (handles_used m bs) ?ps)"
    proof (cases "i < up_chunks (length data)")
      case True
      from I have st: "up_state data (i, cd, m', fp)" by (simp add: I_def s)
      obtain cd2 fp2 where "up_turn io (up_chunks (length data)) (up_final (length data)) (i, cd, m', fp) v
          = send_chunk io i cd2 m' fp2 v"
        by (rule up_turn_unfold [OF st True]) blast
      with t [unfolded s] have "r = Inl ERR_COMM" by (auto simp: send_chunk_def elim: exchange_RetE)
      then show ?thesis by simp
    next
      case False
      then have "i = length ?ps" using I by (simp add: I_def s up_state_def up_chunks_pieces)
      then show ?thesis using I t False
        by (auto simp: I_def s up_turn_def up_state_def sizeof_BEGIN_DOWNLOAD_REPLY_def)
    qed
  qed
qed

section \<open>A reported success\<close>

abbreviation begin_request :: "nat \<Rightarrow> string \<Rightarrow> BEGIN_DOWNLOAD" where
  "begin_request n dst \<equiv> BEGIN_DOWNLOAD_INIT\<lparr>packetLen := body_len (sizeof_BEGIN_DOWNLOAD + (length dst + 1)),
    bd_fileSize := of_nat n, bd_fileName := cstr dst\<rparr>"

lemma begin_wire:
  assumes "length dst < 65523"
  shows "mem_BEGIN_DOWNLOAD (begin_request n dst) = begin_frame n dst"
    and "wire_len (begin_request n dst) = length (begin_frame n dst)"
proof -
  have "wire_len (begin_request n dst) = sizeof_BEGIN_DOWNLOAD + (length dst + 1)"
    using assms by (simp add: wire_len_def sizeof_commands)
  then show "wire_len (begin_request n dst) = length (begin_frame n dst)"
    by (simp add: sizeof_commands begin_frame_def)
  show "mem_BEGIN_DOWNLOAD (begin_request n dst) = begin_frame n dst"
    by (simp add: mem_defs mem_command_def mem_packet_def init_defs body_len_def PREFIX_SIZE_def
      sizeof_commands begin_frame_def le16_def add.commute)
qed

text \<open>The command from the reply to BEGIN_DOWNLOAD on, and from the last chunk on.\<close>

definition up_finish :: "ERR + u8 list \<Rightarrow> 'd world \<Rightarrow> (ERR, 'd) run" where
  "up_finish r w = (case r of
     Inl err \<Rightarrow> ret err w
   | Inr bdrep \<Rightarrow>
     if r_type (as_BEGIN_DOWNLOAD_REPLY bdrep) = VM_ERROR then
       print_bytes bdrep (unat (r_packetLen (as_BEGIN_DOWNLOAD_REPLY bdrep)))
         (put_err (bytes ''Transfer failed.\<newline>last_reply='') (w\<lparr>errno := uint (r_ret (as_BEGIN_DOWNLOAD_REPLY bdrep))\<rparr>))
         (\<lambda>w. ret ERR_VM (w\<lparr>errmsg := Some ''CONTINUE_DOWNLOAD was denied.''\<rparr>))
     else ret ERR_UNK (w\<lparr>errmsg := Some ''`upload` was successful.''\<rparr>))"

definition up_body :: "'d ev3_io \<Rightarrow> FILE \<Rightarrow> u8 list \<Rightarrow> 'd world \<Rightarrow> (ERR, 'd) run" where
  "up_body io fp bdrep w =
    (if r_type (as_BEGIN_DOWNLOAD_REPLY bdrep) = VM_ERROR then
       ret ERR_VM (w\<lparr>errno := uint (r_ret (as_BEGIN_DOWNLOAD_REPLY bdrep)),
         errmsg := Some ''BEGIN_DOWNLOAD was denied.''\<rparr>)
     else call (loop (up_turn io (up_chunks (fsize fp)) (up_final (fsize fp)))
       (0, CONTINUE_DOWNLOAD_INIT\<lparr>packetLen := body_len (sizeof_CONTINUE_DOWNLOAD + CHUNK_SIZE),
          cd_fileChunk := uninit w CHUNK_SIZE\<rparr>, bdrep, rewind fp) w) up_finish)"

lemma up_unfold:
  assumes "fsize fp \<le> 4294967295" and "length dst < 65523" and "m = uninit w 8"
  shows "up io fp dst w =
    ev3_write io (begin_frame (fsize fp) dst) (length (begin_frame (fsize fp) dst)) w (\<lambda>res w.
      if res < 0 then ret ERR_COMM (w\<lparr>errmsg := Some ''Unable to write BEGIN_DOWNLOAD.''\<rparr>)
      else ev3_read_timeout io m 8 2000 w (\<lambda>res bdrep w.
        if res \<le> 0 then ret ERR_COMM (w\<lparr>errmsg := Some ''Unable to read BEGIN_DOWNLOAD''\<rparr>)
        else up_body io fp bdrep w))"
proof -
  have big: "\<not> fsize fp > 4294967295" using assms by simp
  have sizes: "(if fsize fp mod CHUNK_SIZE = 0 then (CHUNK_SIZE, fsize fp div CHUNK_SIZE)
      else (fsize fp mod CHUNK_SIZE, fsize fp div CHUNK_SIZE + 1)) = (up_final (fsize fp), up_chunks (fsize fp))"
    by (simp add: up_final_def up_chunks_def)
  have a1: "packet_alloc sizeof_BEGIN_DOWNLOAD BEGIN_DOWNLOAD_INIT (length dst + 1)
      = Some (BEGIN_DOWNLOAD_INIT\<lparr>packetLen := body_len (sizeof_BEGIN_DOWNLOAD + (length dst + 1))\<rparr>)"
    using assms(2) by (simp add: sizeof_commands)
  have a2: "packet_alloc sizeof_CONTINUE_DOWNLOAD CONTINUE_DOWNLOAD_INIT CHUNK_SIZE
      = Some (CONTINUE_DOWNLOAD_INIT\<lparr>packetLen := body_len (sizeof_CONTINUE_DOWNLOAD + CHUNK_SIZE)\<rparr>)"
    by (simp add: sizeof_commands CHUNK_SIZE_def)
  show ?thesis
    unfolding up_def Let_def sizes
    by (simp only: big if_False prod.case a1 option.case begin_wire [OF assms(2)] a2 up_body_def up_finish_def [abs_def]
        sizeof_BEGIN_DOWNLOAD_REPLY_def TIMEOUT_def assms(3) uninit_after_write)
qed

lemma up_initial:
  "length bdrep = 8 \<Longrightarrow> up_state (fdata fp) (0, CONTINUE_DOWNLOAD_INIT\<lparr>packetLen := body_len (sizeof_CONTINUE_DOWNLOAD + CHUNK_SIZE),
     cd_fileChunk := uninit w CHUNK_SIZE\<rparr>, bdrep, rewind fp)"
  by (simp add: up_state_def chunk_request_def init_defs sizeof_BEGIN_DOWNLOAD_REPLY_def rewind_def)

text \<open>
  C3: An upload that reports success has announced the file's size and name and then sent all of
  its bytes: the data of the chunk requests, in order, is the file cut into pieces of 1000 bytes,
  each under the file handle in the reply before it; one reply was read after each request. The
  file has at most 4294967295 bytes.
\<close>

theorem up_ok:
  assumes "up io fp dst w = Some (Ret ERR_UNK, w')" and "length dst < 65523"
  shows "fsize fp \<le> 4294967295
    \<and> (\<exists>b bs. received w' = received w @ b # bs \<and> length bs = length (pieces 1000 (fdata fp))
        \<and> trace w' = trace w @ [Wr (begin_frame (fsize fp) dst), Rd 8 2000]
            @ chunk_events (handles_used (overlay (uninit w 8) b) bs) (pieces 1000 (fdata fp)))"
proof -
  have sz: "fsize fp \<le> 4294967295"
    using assms(1) by (rule_tac ccontr) (simp add: up_def Let_def)
  have "\<exists>b bs. received w' = received w @ b # bs \<and> length bs = length (pieces 1000 (fdata fp))
        \<and> trace w' = trace w @ [Wr (begin_frame (fsize fp) dst), Rd 8 2000]
            @ chunk_events (handles_used (overlay (uninit w 8) b) bs) (pieces 1000 (fdata fp))"
    using assms(1) unfolding up_unfold [OF sz assms(2) refl]
  proof (cases rule: exchange_RetE)
    case (answered b w1)
    define m where "m = overlay (uninit w 8) b"
    have m: "length m = 8" using answered by (simp add: m_def)
    have body: "call (loop (up_turn io (up_chunks (fsize fp)) (up_final (fsize fp)))
        (0, CONTINUE_DOWNLOAD_INIT\<lparr>packetLen := body_len (sizeof_CONTINUE_DOWNLOAD + CHUNK_SIZE),
          cd_fileChunk := uninit w1 CHUNK_SIZE\<rparr>, m, rewind fp) w1) up_finish = Some (Ret ERR_UNK, w')"
      using answered by (simp add: up_body_def m_def split: if_splits)
    obtain r w2 where r: "loop (up_turn io (up_chunks (length (fdata fp))) (up_final (length (fdata fp))))
        (0, CONTINUE_DOWNLOAD_INIT\<lparr>packetLen := body_len (sizeof_CONTINUE_DOWNLOAD + CHUNK_SIZE),
          cd_fileChunk := uninit w1 CHUNK_SIZE\<rparr>, m, rewind fp) w1 = Some (Ret r, w2)"
      and fin: "up_finish r w2 = Some (Ret ERR_UNK, w')"
      using body unfolding fsize_def by (rule call_RetE)
    note loop = up_loop_ok [OF r up_initial [OF m]]
    obtain m' where r': "r = Inr m'" using loop fin by (cases r) (auto simp: up_finish_def)
    obtain bs where bs: "length bs = length (pieces 1000 (fdata fp))" "received w2 = received w1 @ bs"
      "trace w2 = trace w1 @ chunk_events (handles_used m bs) (pieces 1000 (fdata fp))"
      using loop by (auto simp: r' CHUNK_SIZE_def)
    have "trace w' = trace w2 \<and> received w' = received w2"
      using fin by (auto simp: up_finish_def r' elim!: print_bytes_RetE split: if_splits)
    then show ?thesis using bs answered by (intro exI [of _ b] exI [of _ bs]) (simp add: m_def)
  qed simp_all
  with sz show ?thesis by blast
qed

section \<open>Which replies decide\<close>

text \<open>A scripted run of the loop: whatever the replies, as long as there are enough of them, it reaches its end.\<close>

lemma up_loop_scripted:
  assumes "up_state data (i, cd, m, fp)" and "dev w = rs" and "length rs = up_chunks (length data) - i"
    and "\<And>r. r \<in> set rs \<Longrightarrow> length r = 8"
  shows "\<exists>w'. loop (up_turn scripted (up_chunks (length data)) (up_final (length data))) (i, cd, m, fp) w
    = Some (Ret (Inr (last (m # rs))), w')"
  using assms
proof (induction rs arbitrary: i cd m fp w)
  case Nil
  then show ?case by (simp add: up_turn_def loop_step(4))
next
  case (Cons r rs)
  then have i: "i < up_chunks (length data)" and r: "length r = 8" by simp_all
  have m: "length m = 8" using Cons.prems(1) by (simp add: up_state_def sizeof_BEGIN_DOWNLOAD_REPLY_def)
  obtain cd2 fp2 where st: "\<And>bs. length bs \<le> 8 \<Longrightarrow> up_state data (Suc i, cd2, overlay m bs, fp2)"
    and fit: "wire_len cd2 \<le> length (mem_CONTINUE_DOWNLOAD cd2)"
    and turn: "up_turn scripted (up_chunks (length data)) (up_final (length data)) (i, cd, m, fp) w
      = send_chunk scripted i cd2 m fp2 w"
    by (rule up_turn_unfold [OF Cons.prems(1) i]) blast
  have "r \<noteq> []" using r by auto
  then obtain w1 where "send_chunk scripted i cd2 m fp2 w = ret (Inl (Suc i, cd2, r, fp2)) w1" "dev w1 = rs"
    using Cons.prems(2) fit r m by (simp add: send_chunk_def ev3_write_fits ev3_read_timeout_def)
  then show ?case
    using Cons.IH [of "Suc i" cd2 r fp2 w1] st [of r] r m Cons.prems(3,4) turn
    by (simp add: loop_step(3))
qed

lemma up_scripted:
  assumes "fsize fp \<le> 4294967295" and "length dst < 65523"
    and "\<And>r. r \<in> set (b # rs) \<Longrightarrow> length r = 8" and "length rs = length (pieces 1000 (fdata fp))"
    and "b ! 4 \<noteq> VM_ERROR" and "last (b # rs) ! 4 \<noteq> VM_ERROR"
  shows "\<exists>w'. up scripted fp dst (world0 (b # rs)) = Some (Ret ERR_UNK, w')"
proof -
  define w1 where "w1 = (world0 (b # rs))\<lparr>dev := rs, trace := [Wr (begin_frame (fsize fp) dst), Rd 8 2000], received := [b]\<rparr>"
  have b: "length b = 8" "b \<noteq> []" using assms(3) [of b] by auto
  have 1: "up scripted fp dst (world0 (b # rs)) = up_body scripted fp b w1"
    unfolding up_unfold [OF assms(1,2) refl] using b
    by (simp add: ev3_write_fits ev3_read_timeout_def w1_def)
  have "\<exists>w2. loop (up_turn scripted (up_chunks (fsize fp)) (up_final (fsize fp)))
      (0, CONTINUE_DOWNLOAD_INIT\<lparr>packetLen := body_len (sizeof_CONTINUE_DOWNLOAD + CHUNK_SIZE),
        cd_fileChunk := uninit w1 CHUNK_SIZE\<rparr>, b, rewind fp) w1 = Some (Ret (Inr (last (b # rs))), w2)"
    unfolding fsize_def
    by (rule up_loop_scripted [OF up_initial [OF b(1)]])
      (use assms(3,4) in \<open>auto simp: w1_def up_chunks_pieces CHUNK_SIZE_def\<close>)
  then show ?thesis
    using assms(5,6) by (auto simp: 1 up_body_def up_finish_def as_BEGIN_DOWNLOAD_REPLY_def)
qed

text \<open>
  Only the first and the last reply decide: whatever the brick answers to the chunks in
  between, even VM_ERROR, the upload goes on and reports success.
\<close>

theorem up_ignores_middle_replies:
  assumes "fsize fp \<le> 4294967295" and "length dst < 65523"
    and "\<And>r. r \<in> set (b # rs) \<Longrightarrow> length r = 8" and "length rs = length (pieces 1000 (fdata fp))"
    and "b ! 4 \<noteq> VM_ERROR" and "last (b # rs) ! 4 \<noteq> VM_ERROR"
  shows "\<exists>w'. up scripted fp dst (world0 (b # rs)) = Some (Ret ERR_UNK, w')"
  using assms by (rule up_scripted)

text \<open>A refused first chunk, with its status byte 5, of a file of two chunks.\<close>

theorem up_ignores_middle_replies_witness:
  "\<exists>w'. up scripted (open_rb (replicate 1500 7)) ''f''
     (world0 [[6, 0, 0, 0, 3, 0x92, 0, 0], [6, 0, 0, 0, 5, 0x93, 9, 0], [6, 0, 0, 0, 3, 0x93, 8, 0]])
     = Some (Ret ERR_UNK, w')"
  by (rule up_ignores_middle_replies) (auto simp: open_rb_def fsize_def length_pieces VM_ERROR_def)

theorem up_ok_witness:
  "\<exists>w'. up scripted (open_rb [1, 2, 3]) ''f''
     (world0 [[6, 0, 0, 0, 3, 0x92, 0, 4], [6, 0, 0, 0, 3, 0x93, 8, 4]]) = Some (Ret ERR_UNK, w')
    \<and> (\<exists>h. trace w' = [Wr (begin_frame 3 ''f''), Rd 8 2000, Wr (chunk_frame h [1, 2, 3]), Rd 8 2000])"
proof -
  let ?w = "world0 [[6, 0, 0, 0, 3, 0x92, 0, 4], [6, 0, 0, 0, 3, 0x93, 8, 4]] :: u8 list list world"
  have one: "pieces 1000 [1, 2, 3 :: u8] = [[1, 2, 3]]" by (simp add: pieces_step)
  have "\<exists>w'. up scripted (open_rb [1, 2, 3]) ''f'' ?w = Some (Ret ERR_UNK, w')"
    by (rule up_scripted) (auto simp: open_rb_def fsize_def one VM_ERROR_def)
  then obtain w' where w': "up scripted (open_rb [1, 2, 3]) ''f'' ?w = Some (Ret ERR_UNK, w')" by blast
  from up_ok [OF w'] obtain b bs where bs: "length bs = 1"
    "trace w' = [Wr (begin_frame 3 ''f''), Rd 8 2000] @ chunk_events (handles_used (overlay (uninit ?w 8) b) bs) [[1, 2, 3]]"
    by (auto simp: open_rb_def fsize_def one numeral_3_eq_3)
  obtain h where "handles_used (overlay (uninit ?w 8) b) bs = [h]"
    using length_handles_used [of "overlay (uninit ?w 8) b" bs] bs(1)
    by (cases "handles_used (overlay (uninit ?w 8) b) bs") auto
  with bs(2) have "trace w' = [Wr (begin_frame 3 ''f''), Rd 8 2000, Wr (chunk_frame h [1, 2, 3]), Rd 8 2000]"
    by (simp add: chunk_events_def)
  with w' show ?thesis by blast
qed

end
