(* ===== verification/Download.thy ===== *)
theory Download
  imports Scripted
begin

text \<open>
  \<^verbatim>\<open>src/src/dl.c\<close> and \<^verbatim>\<open>src/src/ls.c\<close>: fetch a file, list a directory. Both send one request that
  names the path, write out the data that follows the header of the reply, and then ask for more
  until as many bytes have arrived as the first reply announced. The counters keep their C types:
  \<^verbatim>\<open>read_so_far\<close> is a 32-bit \<^verbatim>\<open>unsigned\<close>, \<^verbatim>\<open>read_this_time\<close> a 64-bit \<^verbatim>\<open>size_t\<close>.
\<close>

section \<open>Writing out part of a buffer\<close>

definition fwrite_from :: "u8 list \<Rightarrow> nat \<Rightarrow> 'd world \<Rightarrow> (u8 list \<Rightarrow> ('a, 'd) run) \<Rightarrow> ('a, 'd) run" where
  "fwrite_from buf n w k = (if length buf < n then undef w else k (take n buf))"

section \<open>dl\<close>

definition dl_CHUNK_SIZE :: nat where "dl_CHUNK_SIZE = 1000"

text \<open>
  One turn of the loop; its variables are the request, the buffer both kinds of reply share, the
  number of bytes so far, and the output file.
\<close>

definition dl_turn ::
    "'d ev3_io \<Rightarrow> u32 \<Rightarrow> nat \<Rightarrow> CONTINUE_UPLOAD \<times> u8 list \<times> u32 \<times> u8 list \<Rightarrow> 'd world
      \<Rightarrow> ((CONTINUE_UPLOAD \<times> u8 list \<times> u32 \<times> u8 list) + (ERR \<times> u8 list), 'd) run" where
  "dl_turn io total_sz file_chunksz = (\<lambda>(cu, file_chunk, read_so_far, fp) w.
    (if read_so_far < total_sz then
       ev3_write io (mem_CONTINUE_UPLOAD cu) sizeof_CONTINUE_UPLOAD w (\<lambda>res w.
       if res < 0 then ret (Inr (ERR_COMM, fp)) (w\<lparr>errmsg := Some ''Unable to write CONTINUE_UPLOAD''\<rparr>)
       else
         ev3_read_timeout io file_chunk file_chunksz TIMEOUT w (\<lambda>res file_chunk w.
         if res \<le> 0 then
           ret (Inr (ERR_COMM, fp)) (w\<lparr>errmsg := Some ''Unable to read CONTINUE_UPLOAD_REPLY''\<rparr>)
         else
           let curep = as_CONTINUE_UPLOAD_REPLY file_chunk in
           if r_type curep = VM_ERROR then
             (let w = w\<lparr>errno := uint (r_ret curep)\<rparr>;
                  w = put_err (bytes ''Operation failed.\<newline>last_reply='') w
              in print_bytes file_chunk (unat (r_packetLen curep)) w (\<lambda>w.
                 ret (Inr (ERR_VM, fp)) (w\<lparr>errmsg := Some ''`CONTINUE_UPLOAD` was denied.''\<rparr>)))
           else
             let read_this_time = ucast (r_packetLen curep) + 2 - 8 :: 64 word in
             fwrite_from (cur_bytes curep) (unat read_this_time) w (\<lambda>bs.
             ret (Inl (cu\<lparr>cu_fileHandle := cur_fileHandle curep\<rparr>, file_chunk,
               read_so_far + ucast read_this_time, fp @ bs)) w)))
     else ret (Inr (ERR_UNK, fp)) (w\<lparr>errmsg := Some ''`BEGIN_UPLOAD` was successful.''\<rparr>)))"

text \<open>The result is the return value and the contents of the output file, which holds \<open>fp\<close> before.\<close>

definition dl :: "'d ev3_io \<Rightarrow> string \<Rightarrow> u8 list \<Rightarrow> 'd world \<Rightarrow> (ERR \<times> u8 list, 'd) run" where
  "dl io path fp w =
    (let path_sz = length path + 1
     in case packet_alloc sizeof_BEGIN_UPLOAD BEGIN_UPLOAD_INIT path_sz of
       None \<Rightarrow> undef w
     | Some bu0 \<Rightarrow>
       let bu = bu0\<lparr>bu_fileName := cstr path, bu_maxBytes := of_nat dl_CHUNK_SIZE\<rparr> in
       ev3_write io (mem_BEGIN_UPLOAD bu) (wire_len bu) w (\<lambda>res w.
       if res < 0 then ret (ERR_COMM, fp) (w\<lparr>errmsg := Some ''Unable to write BEGIN_UPLOAD.''\<rparr>)
       else
         let file_chunksz = sizeof_BEGIN_UPLOAD_REPLY + unat (bu_maxBytes bu) in
         ev3_read_timeout io (uninit w file_chunksz) file_chunksz TIMEOUT w (\<lambda>res file_chunk w.
         if res \<le> 0 then ret (ERR_COMM, fp) (w\<lparr>errmsg := Some ''Unable to read BEGIN_UPLOAD''\<rparr>)
         else
           let burep = as_BEGIN_UPLOAD_REPLY file_chunk in
           if r_type burep = VM_ERROR then
             (let w = w\<lparr>errno := uint (r_ret burep)\<rparr>;
                  w = put_err (bytes ''Operation failed.\<newline>last_reply='') w
              in print_bytes file_chunk (unat (r_packetLen burep)) w (\<lambda>w.
                 ret (ERR_VM, fp) (w\<lparr>errmsg := Some ''`BEGIN_UPLOAD` was denied.''\<rparr>)))
           else
             let read_so_far = ucast (r_packetLen burep) + 2 - 12 :: u32 in
             fwrite_from (bur_bytes burep) (unat read_so_far) w (\<lambda>bs.
             let total_sz = bur_fileSize burep;
                 cu = CONTINUE_UPLOAD_INIT\<lparr>cu_fileHandle := bur_fileHandle burep,
                   cu_maxBytes := of_nat (dl_CHUNK_SIZE + sizeof_BEGIN_UPLOAD_REPLY - sizeof_CONTINUE_UPLOAD_REPLY)\<rparr>
             in loop (dl_turn io total_sz file_chunksz) (cu, file_chunk, read_so_far, fp @ bs) w))))"

section \<open>ls\<close>

definition ls_turn ::
    "'d ev3_io \<Rightarrow> u32 \<Rightarrow> nat \<Rightarrow> CONTINUE_LIST_FILES \<times> u8 list \<times> u32 \<Rightarrow> 'd world
      \<Rightarrow> ((CONTINUE_LIST_FILES \<times> u8 list \<times> u32) + ERR, 'd) run" where
  "ls_turn io total_sz file_chunksz = (\<lambda>(listcon, file_chunk, read_so_far) w.
    (if read_so_far < total_sz then
       ev3_write io (mem_CONTINUE_LIST_FILES listcon) sizeof_CONTINUE_LIST_FILES w (\<lambda>res w.
       if res < 0 then ret (Inr ERR_COMM) (w\<lparr>errmsg := Some ''Unable to write CONTINUE_LIST_FILES''\<rparr>)
       else
         ev3_read_timeout io file_chunk file_chunksz TIMEOUT w (\<lambda>res file_chunk w.
         if res \<le> 0 then
           ret (Inr ERR_COMM) (w\<lparr>errmsg := Some ''Unable to read CONTINUE_LIST_FILES_REPLY''\<rparr>)
         else
           let listconrep = as_CONTINUE_LIST_FILES_REPLY file_chunk in
           if r_type listconrep = VM_ERROR then
             (let w = w\<lparr>errno := uint (r_ret listconrep)\<rparr>;
                  w = put_err (bytes ''Operation failed.\<newline>last_reply='') w
              in print_bytes file_chunk (unat (r_packetLen listconrep)) w (\<lambda>w.
                 ret (Inr ERR_VM) (w\<lparr>errmsg := Some ''`CONTINUE_LIST_FILES` was denied.''\<rparr>)))
           else
             let read_this_time = ucast (r_packetLen listconrep) + 2 - 8 :: 64 word in
             fwrite_from (clr_list listconrep) (unat read_this_time) w (\<lambda>bs.
             ret (Inl (listcon\<lparr>clf_handle := clr_handle listconrep\<rparr>, file_chunk,
               read_so_far + ucast read_this_time)) (put_out bs w))))
     else ret (Inr ERR_UNK) (w\<lparr>errmsg := Some ''`LIST_FILES` was successful.''\<rparr>)))"

definition ls :: "'d ev3_io \<Rightarrow> string \<Rightarrow> 'd world \<Rightarrow> (ERR, 'd) run" where
  "ls io path w =
    (let path_sz = length path + 1
     in case packet_alloc sizeof_LIST_FILES LIST_FILES_INIT path_sz of
       None \<Rightarrow> undef w
     | Some list0 \<Rightarrow>
       let list = list0\<lparr>lf_path := cstr path, lf_maxBytes := of_nat (1024 - sizeof_LIST_FILES_REPLY)\<rparr> in
       ev3_write io (mem_LIST_FILES list) (wire_len list) w (\<lambda>res w.
       if res < 0 then ret ERR_COMM (w\<lparr>errmsg := Some ''Unable to write LIST_FILES.''\<rparr>)
       else
         let file_chunksz = 1024 in
         ev3_read_timeout io (uninit w file_chunksz) file_chunksz TIMEOUT w (\<lambda>res file_chunk w.
         if res \<le> 0 then ret ERR_COMM (w\<lparr>errmsg := Some ''Unable to read LIST_FILES''\<rparr>)
         else
           let listrep = as_LIST_FILES_REPLY file_chunk in
           if r_type listrep = VM_ERROR then
             (let w = w\<lparr>errno := uint (r_ret listrep)\<rparr>;
                  w = put_err (bytes ''Operation failed.\<newline>last_reply='') w
              in print_bytes file_chunk (unat (r_packetLen listrep)) w (\<lambda>w.
                 ret ERR_VM (w\<lparr>errmsg := Some ''`LIST_FILES` was denied.''\<rparr>)))
           else
             let read_so_far = ucast (r_packetLen listrep) + 2 - 12 :: u32 in
             fwrite_from (lfr_list listrep) (unat read_so_far) w (\<lambda>bs.
             let w = put_out bs w;
                 total_sz = lfr_listSize listrep;
                 listcon = CONTINUE_LIST_FILES_INIT\<lparr>clf_handle := lfr_handle listrep,
                   clf_listSize := of_nat (file_chunksz - sizeof_CONTINUE_LIST_FILES_REPLY)\<rparr>
             in loop (ls_turn io total_sz file_chunksz) (listcon, file_chunk, read_so_far) w))))"

section \<open>The loop both share\<close>

text \<open>The data of a packet after \<open>k\<close> bytes of header, by its length field, which does not count itself.\<close>

definition payload :: "nat \<Rightarrow> u8 list \<Rightarrow> u8 list" where
  "payload k m = take (unat (get16 m 0) + 2 - k) (drop k m)"

text \<open>The wrapped lengths of the code that pass the bounds of the buffer are the lengths of the payload.\<close>

lemma unat_len64:
  fixes p :: u16
  assumes "unat (ucast p + 2 - 8 :: 64 word) \<le> 70000"
  shows "unat (ucast p + 2 - 8 :: 64 word) = unat p + 2 - 8" and "6 \<le> unat p"
proof -
  have p: "unat p < 65536" by simp
  have u: "unat (ucast p :: 64 word) = unat p" by (simp add: unsigned_ucast_eq) (rule take_bit_nat_eq_self, rule less_trans [OF p], simp)
  show six: "6 \<le> unat p"
  proof (rule ccontr)
    assume "\<not> 6 \<le> unat p"
    then have "unat p \<in> {0,1,2,3,4,5}" by auto
    then have "ucast p \<in> {0, 1, 2, 3, 4, 5 :: 64 word}"
      using u by (auto simp: word_unat_eq_iff)
    with assms show False by (auto simp: unsigned_minus_1_eq_mask mask_eq_exp_minus_1)
  qed
  have "(6 :: 64 word) \<le> ucast p" using six u by (simp add: word_le_nat_alt)
  then have "unat (ucast p - 6 :: 64 word) = unat p - 6" using u by (simp add: unat_sub)
  then show "unat (ucast p + 2 - 8 :: 64 word) = unat p + 2 - 8" by simp
qed

lemma unat_len32:
  fixes p :: u16
  assumes "unat (ucast p + 2 - 12 :: u32) \<le> 70000"
  shows "unat (ucast p + 2 - 12 :: u32) = unat p + 2 - 12" and "10 \<le> unat p"
proof -
  have p: "unat p < 65536" by simp
  have u: "unat (ucast p :: u32) = unat p" by (simp add: unsigned_ucast_eq) (rule take_bit_nat_eq_self, rule less_trans [OF p], simp)
  show ten: "10 \<le> unat p"
  proof (rule ccontr)
    assume "\<not> 10 \<le> unat p"
    then have "unat p \<in> {0,1,2,3,4,5,6,7,8,9}" by auto
    then have "ucast p \<in> {0, 1, 2, 3, 4, 5, 6, 7, 8, 9 :: u32}"
      using u by (auto simp: word_unat_eq_iff)
    with assms show False by (auto simp: unsigned_minus_1_eq_mask mask_eq_exp_minus_1)
  qed
  have "(10 :: u32) \<le> ucast p" using ten u by (simp add: word_le_nat_alt)
  then have "unat (ucast p - 10 :: u32) = unat p - 10" using u by (simp add: unat_sub)
  then show "unat (ucast p + 2 - 12 :: u32) = unat p + 2 - 12" by simp
qed

lemma payload8:
  assumes "unat (ucast (get16 m 0) + 2 - 8 :: 64 word) \<le> length m - 8" and "length m \<le> 70000"
  shows "take (unat (ucast (get16 m 0) + 2 - 8 :: 64 word)) (drop 8 m) = payload 8 m"
    and "ucast (ucast (get16 m 0) + 2 - 8 :: 64 word) = (of_nat (length (payload 8 m)) :: u32)"
proof -
  have small: "unat (ucast (get16 m 0) + 2 - 8 :: 64 word) \<le> 70000" using assms by linarith
  note eq = unat_len64(1) [OF small]
  show "take (unat (ucast (get16 m 0) + 2 - 8 :: 64 word)) (drop 8 m) = payload 8 m"
    unfolding eq payload_def ..
  have "length (payload 8 m) = unat (ucast (get16 m 0) + 2 - 8 :: 64 word)"
    using assms(1) unfolding eq payload_def by simp
  then show "ucast (ucast (get16 m 0) + 2 - 8 :: 64 word) = (of_nat (length (payload 8 m)) :: u32)"
    by simp
qed

lemma payload12:
  assumes "unat (ucast (get16 m 0) + 2 - 12 :: u32) \<le> length m - 12" and "length m \<le> 70000"
  shows "take (unat (ucast (get16 m 0) + 2 - 12 :: u32)) (drop 12 m) = payload 12 m"
    and "ucast (get16 m 0) + 2 - 12 = (of_nat (length (payload 12 m)) :: u32)"
proof -
  have small: "unat (ucast (get16 m 0) + 2 - 12 :: u32) \<le> 70000" using assms by linarith
  note eq = unat_len32(1) [OF small]
  show "take (unat (ucast (get16 m 0) + 2 - 12 :: u32)) (drop 12 m) = payload 12 m"
    unfolding eq payload_def ..
  have "length (payload 12 m) = unat (ucast (get16 m 0) + 2 - 12 :: u32)"
    using assms(1) unfolding eq payload_def by simp
  then show "ucast (get16 m 0) + 2 - 12 = (of_nat (length (payload 12 m)) :: u32)"
    by simp
qed

definition fetch_events :: "(u8 \<Rightarrow> u8 list) \<Rightarrow> nat \<Rightarrow> u8 list \<Rightarrow> io_event list" where
  "fetch_events req cap hs = concat (map (\<lambda>h. [Wr (req h), Rd cap 2000]) hs)"

text \<open>
  The contract: \<open>cnt\<close>, \<open>buf\<close>, \<open>hnd\<close> read the counter, the reply buffer and the handle of the next
  request off the loop's variables, \<open>sink\<close> what has been written out so far. A turn that goes on
  made one exchange and appended the chunk; a turn that ends well found the counter at the total.
\<close>

locale fetch =
  fixes turn :: "'s \<Rightarrow> 'd world \<Rightarrow> ('s + 'a, 'd) run"
    and ok :: "'s \<Rightarrow> bool"
    and cnt :: "'s \<Rightarrow> u32"
    and buf :: "'s \<Rightarrow> u8 list"
    and hnd :: "'s \<Rightarrow> u8"
    and sink :: "'s \<Rightarrow> 'd world \<Rightarrow> u8 list"
    and good :: "'a \<Rightarrow> bool"
    and result :: "'a \<Rightarrow> 'd world \<Rightarrow> u8 list"
    and req :: "u8 \<Rightarrow> u8 list"
    and cap :: nat
    and total_sz :: u32
  assumes goes_on: "ok s \<Longrightarrow> turn s w = Some (Ret (Inl s1), w1) \<Longrightarrow>
      cnt s < total_sz \<and> ok s1 \<and> (\<exists>bs. buf s1 = overlay (buf s) bs \<and> received w1 = received w @ [bs])
      \<and> hnd s1 = buf s1 ! 7 \<and> cnt s1 = cnt s + of_nat (length (payload 8 (buf s1))) \<and> sink s1 w1 = sink s w @ payload 8 (buf s1)
      \<and> trace w1 = trace w @ [Wr (req (hnd s)), Rd cap 2000]"
    and stops: "ok s \<Longrightarrow> turn s w = Some (Ret (Inr a), w1) \<Longrightarrow> good a \<Longrightarrow>
      \<not> cnt s < total_sz \<and> result a w1 = sink s w \<and> trace w1 = trace w \<and> received w1 = received w"
begin

lemma fetched:
  assumes "loop turn s w = Some (Ret a, w')" and "ok s" and "good a"
  shows "\<exists>bss. received w' = received w @ bss
    \<and> result a w' = sink s w @ concat (map (payload 8) (reply_bufs (buf s) bss))
    \<and> trace w' = trace w @ fetch_events req cap (take (length bss) (hnd s # map (\<lambda>m. m ! 7) (reply_bufs (buf s) bss)))
    \<and> total_sz \<le> cnt s + of_nat (length (concat (map (payload 8) (reply_bufs (buf s) bss))))"
    (is "?fetched s w a w'")
proof -
  have "ok s \<longrightarrow> (\<forall>b. Ret a = Ret b \<longrightarrow> good b \<longrightarrow> ?fetched s w b w')"
  proof (rule loop_induct [where P = "\<lambda>s w r w'. ok s \<longrightarrow> (\<forall>b. r = Ret b \<longrightarrow> good b \<longrightarrow> ?fetched s w b w')", OF assms(1)])
    fix s w a w'
    assume t: "turn s w = Some (Ret (Inr a), w')"
    show "ok s \<longrightarrow> (\<forall>b. Ret a = Ret b \<longrightarrow> good b \<longrightarrow> ?fetched s w b w')"
      using stops [OF _ t] by (auto simp: fetch_events_def intro!: exI [of _ "[]"])
  next
    fix s w s1 w1 r w'
    assume t: "turn s w = Some (Ret (Inl s1), w1)"
      and IH: "ok s1 \<longrightarrow> (\<forall>b. r = Ret b \<longrightarrow> good b \<longrightarrow> ?fetched s1 w1 b w')"
    show "ok s \<longrightarrow> (\<forall>b. r = Ret b \<longrightarrow> good b \<longrightarrow> ?fetched s w b w')"
    proof (intro impI allI)
      fix b
      assume "ok s" "r = Ret b" "good b"
      note n = goes_on [OF \<open>ok s\<close> t]
      obtain bs where bs: "buf s1 = overlay (buf s) bs" "received w1 = received w @ [bs]" using n by blast
      obtain bss where *: "received w' = received w1 @ bss"
        "result b w' = sink s1 w1 @ concat (map (payload 8) (reply_bufs (buf s1) bss))"
        "trace w' = trace w1 @ fetch_events req cap (take (length bss) (hnd s1 # map (\<lambda>m. m ! 7) (reply_bufs (buf s1) bss)))"
        "total_sz \<le> cnt s1 + of_nat (length (concat (map (payload 8) (reply_bufs (buf s1) bss))))"
        using IH n \<open>r = Ret b\<close> \<open>good b\<close> by blast
      show "?fetched s w b w'"
        by (rule exI [of _ "bs # bss"]) (use n bs * in \<open>simp add: fetch_events_def ac_simps\<close>)
    qed
  qed simp
  then show ?thesis using assms(2,3) by blast
qed

end

section \<open>Both loops are such a loop\<close>

lemma fwrite_from_RetE:
  assumes "fwrite_from b n w k = Some (Ret a, w')"
  obtains "n \<le> length b" "k (take n b) = Some (Ret a, w')"
  using assms by (auto simp: fwrite_from_def split: if_splits)

definition cu_frame :: "u8 \<Rightarrow> u8 list" where
  "cu_frame h = [0, 7, 0, 0, 0, 1, 0x95, h, 0xEC, 3]"

definition cu_request :: "CONTINUE_UPLOAD \<Rightarrow> bool" where
  "cu_request cu \<longleftrightarrow> hidLayer cu = 0 \<and> packetLen cu = 7 \<and> msgCount cu = 0 \<and> replyType cu = 1
     \<and> cmd cu = 0x95 \<and> cu_maxBytes cu = 1004"

definition clf_frame :: "u8 \<Rightarrow> u8 list" where
  "clf_frame h = [0, 7, 0, 0, 0, 1, 0x9A, h, 0xF8, 3, 0, 0]"

definition clf_request :: "CONTINUE_LIST_FILES \<Rightarrow> bool" where
  "clf_request lc \<longleftrightarrow> hidLayer lc = 0 \<and> packetLen lc = 7 \<and> msgCount lc = 0 \<and> replyType lc = 1
     \<and> cmd lc = 0x9A \<and> clf_listSize lc = 1016"

lemma cu_request_mem: "cu_request cu \<Longrightarrow> mem_CONTINUE_UPLOAD cu = cu_frame (cu_fileHandle cu)"
  by (simp add: cu_request_def cu_frame_def mem_defs mem_command_def mem_packet_def le16_def)

lemma clf_request_mem: "clf_request lc \<Longrightarrow> mem_CONTINUE_LIST_FILES lc = clf_frame (clf_handle lc)"
  by (simp add: clf_request_def clf_frame_def mem_defs mem_command_def mem_packet_def le16_def le32_def)

lemma dl_turn_runs:
  assumes t: "dl_turn io n 1012 (cu, m, r, fp) w = Some (Ret x, w')" and "cu_request cu" and "r < n" and "length m = 1012"
  shows "(\<exists>e fp'. x = Inr (e, fp') \<and> e \<noteq> ERR_UNK) \<or>
    (\<exists>bs. x = Inl (cu\<lparr>cu_fileHandle := overlay m bs ! 7\<rparr>, overlay m bs,
        r + of_nat (length (payload 8 (overlay m bs))), fp @ payload 8 (overlay m bs))
      \<and> length bs \<le> length m \<and> received w' = received w @ [bs] \<and> trace w' = trace w @ [Wr (cu_frame (cu_fileHandle cu)), Rd 1012 2000])"
  using t unfolding dl_turn_def prod.case if_P [OF \<open>r < n\<close>]
proof (cases rule: exchange_RetE)
  case (answered bs w1)
  have frame: "take sizeof_CONTINUE_UPLOAD (mem_CONTINUE_UPLOAD cu) = cu_frame (cu_fileHandle cu)"
    using cu_request_mem [OF assms(2)] by (simp add: cu_frame_def sizeof_commands)
  show ?thesis
  proof (cases "overlay m bs ! 4 = VM_ERROR")
    case True
    then show ?thesis
      using answered(7) by (auto simp: Let_def as_CONTINUE_UPLOAD_REPLY_def elim!: print_bytes_RetE)
  next
    case False
    define p where "p = (ucast (get16 (overlay m bs) 0) + 2 - 8 :: 64 word)"
    have len: "length (overlay m bs) = 1012" using assms(4) answered(2) by simp
    have fits: "unat p \<le> length (overlay m bs) - 8"
      using answered(7) False
      by (auto simp: Let_def as_CONTINUE_UPLOAD_REPLY_def p_def [symmetric] elim: fwrite_from_RetE)
    note data = payload8 [of "overlay m bs", folded p_def, OF fits, unfolded len, simplified]
    then show ?thesis
      using answered(2-7) False frame data fits
      by (intro disjI2 exI [of _ bs])
        (simp add: Let_def as_CONTINUE_UPLOAD_REPLY_def p_def [symmetric] TIMEOUT_def fwrite_from_def)
  qed
qed simp_all

interpretation dl: fetch "dl_turn io total_sz 1012"
    "\<lambda>(cu, m, r, fp). cu_request cu \<and> length m = 1012" "\<lambda>(cu, m, r, fp). r" "\<lambda>(cu, m, r, fp). m" "\<lambda>(cu, m, r, fp). cu_fileHandle cu"
    "\<lambda>(cu, m, r, fp) w. fp" "\<lambda>(e, fp). e = ERR_UNK" "\<lambda>(e, fp) w. fp" cu_frame 1012 total_sz
  for io total_sz
proof (unfold_locales, goal_cases)
  case (1 s w s1 w1)
  obtain cu m r fp where s: "s = (cu, m, r, fp)" by (metis prod_cases4)
  have less: "r < total_sz" using 1(2) by (rule_tac ccontr) (simp add: s dl_turn_def)
  show ?case
    using dl_turn_runs [OF 1(2) [unfolded s] _ less] 1(1) less
    by (auto simp: s cu_request_def)
next
  case (2 s w a w1)
  obtain cu m r fp where s: "s = (cu, m, r, fp)" by (metis prod_cases4)
  show ?case
  proof (cases "r < total_sz")
    case True
    then show ?thesis using dl_turn_runs [OF 2(2) [unfolded s] _ True] 2(1,3) by (auto simp: s)
  next
    case False
    then show ?thesis using 2 by (auto simp: s dl_turn_def)
  qed
qed

lemma ls_turn_runs:
  assumes t: "ls_turn io n 1024 (lc, m, r) w = Some (Ret x, w')" and "clf_request lc" and "r < n" and "length m = 1024"
  shows "(\<exists>e. x = Inr e \<and> e \<noteq> ERR_UNK) \<or>
    (\<exists>bs. x = Inl (lc\<lparr>clf_handle := overlay m bs ! 7\<rparr>, overlay m bs, r + of_nat (length (payload 8 (overlay m bs))))
      \<and> length bs \<le> length m \<and> received w' = received w @ [bs] \<and> trace w' = trace w @ [Wr (clf_frame (clf_handle lc)), Rd 1024 2000]
      \<and> stdout_log w' = stdout_log w @ payload 8 (overlay m bs))"
  using t unfolding ls_turn_def prod.case if_P [OF \<open>r < n\<close>]
proof (cases rule: exchange_RetE)
  case (answered bs w1)
  have frame: "take sizeof_CONTINUE_LIST_FILES (mem_CONTINUE_LIST_FILES lc) = clf_frame (clf_handle lc)"
    using clf_request_mem [OF assms(2)] by (simp add: clf_frame_def sizeof_commands)
  show ?thesis
  proof (cases "overlay m bs ! 4 = VM_ERROR")
    case True
    then show ?thesis
      using answered(7) by (auto simp: Let_def as_CONTINUE_LIST_FILES_REPLY_def elim!: print_bytes_RetE)
  next
    case False
    define p where "p = (ucast (get16 (overlay m bs) 0) + 2 - 8 :: 64 word)"
    have len: "length (overlay m bs) = 1024" using assms(4) answered(2) by simp
    have fits: "unat p \<le> length (overlay m bs) - 8"
      using answered(7) False
      by (auto simp: Let_def as_CONTINUE_LIST_FILES_REPLY_def p_def [symmetric] elim: fwrite_from_RetE)
    note data = payload8 [of "overlay m bs", folded p_def, OF fits, unfolded len, simplified]
    then show ?thesis
      using answered(2-7) False frame data fits
      by (intro disjI2 exI [of _ bs])
        (auto simp: Let_def as_CONTINUE_LIST_FILES_REPLY_def p_def [symmetric] TIMEOUT_def fwrite_from_def)
  qed
qed simp_all

interpretation ls: fetch "ls_turn io total_sz 1024"
    "\<lambda>(lc, m, r). clf_request lc \<and> length m = 1024" "\<lambda>(lc, m, r). r" "\<lambda>(lc, m, r). m" "\<lambda>(lc, m, r). clf_handle lc"
    "\<lambda>_. stdout_log" "\<lambda>e. e = ERR_UNK" "\<lambda>_. stdout_log" clf_frame 1024 total_sz
  for io total_sz
proof (unfold_locales, goal_cases)
  case (1 s w s1 w1)
  obtain lc m r where s: "s = (lc, m, r)" by (metis prod_cases3)
  have less: "r < total_sz" using 1(2) by (rule_tac ccontr) (simp add: s ls_turn_def)
  show ?case
    using ls_turn_runs [OF 1(2) [unfolded s] _ less] 1(1) less
    by (auto simp: s clf_request_def)
next
  case (2 s w a w1)
  obtain lc m r where s: "s = (lc, m, r)" by (metis prod_cases3)
  show ?case
  proof (cases "r < total_sz")
    case True
    then show ?thesis using ls_turn_runs [OF 2(2) [unfolded s] _ True] 2(1,3) by (auto simp: s)
  next
    case False
    then show ?thesis using 2 by (auto simp: s ls_turn_def)
  qed
qed

section \<open>Fetching a file\<close>

definition bu_frame :: "string \<Rightarrow> u8 list" where
  "bu_frame path = [0] @ le16 (of_nat (length path + 7)) @ [0, 0, 1, 0x94, 0xE8, 3] @ cstr path"

abbreviation bu_request :: "string \<Rightarrow> BEGIN_UPLOAD" where
  "bu_request path \<equiv> BEGIN_UPLOAD_INIT\<lparr>packetLen := body_len (sizeof_BEGIN_UPLOAD + (length path + 1)),
     bu_fileName := cstr path, bu_maxBytes := 1000\<rparr>"

lemma bu_wire:
  assumes "length path < 65525"
  shows "mem_BEGIN_UPLOAD (bu_request path) = bu_frame path"
    and "wire_len (bu_request path) = length (bu_frame path)"
proof -
  have "wire_len (bu_request path) = sizeof_BEGIN_UPLOAD + (length path + 1)"
    using assms by (simp add: wire_len_def sizeof_commands)
  then show "wire_len (bu_request path) = length (bu_frame path)"
    by (simp add: sizeof_commands bu_frame_def)
  have "body_len (sizeof_BEGIN_UPLOAD + (length path + 1)) = of_nat (length path + 7)"
    by (simp add: body_len_def PREFIX_SIZE_def sizeof_commands)
  moreover have "le16 0 = [0, 0]" "le16 1000 = [0xE8, 3]" by (simp_all add: le16_def)
  ultimately show "mem_BEGIN_UPLOAD (bu_request path) = bu_frame path"
    by (simp add: mem_defs mem_command_def mem_packet_def BEGIN_UPLOAD_INIT_def bu_frame_def del: of_nat_add)
qed

lemma burep_sel:
  "r_type (as_BEGIN_UPLOAD_REPLY m) = m ! 4" "r_ret (as_BEGIN_UPLOAD_REPLY m) = m ! 6"
  "r_packetLen (as_BEGIN_UPLOAD_REPLY m) = get16 m 0" "bur_bytes (as_BEGIN_UPLOAD_REPLY m) = drop 12 m"
  "bur_fileSize (as_BEGIN_UPLOAD_REPLY m) = get32 m 7" "bur_fileHandle (as_BEGIN_UPLOAD_REPLY m) = m ! 11"
  by (simp_all add: as_BEGIN_UPLOAD_REPLY_def)

text \<open>The command from the first reply on.\<close>

definition dl_body :: "'d ev3_io \<Rightarrow> u8 list \<Rightarrow> u8 list \<Rightarrow> 'd world \<Rightarrow> (ERR \<times> u8 list, 'd) run" where
  "dl_body io fp m w =
    (if m ! 4 = VM_ERROR then
       print_bytes m (unat (get16 m 0))
         (put_err (bytes ''Operation failed.\<newline>last_reply='') (w\<lparr>errno := uint (m ! 6)\<rparr>))
         (\<lambda>w. ret (ERR_VM, fp) (w\<lparr>errmsg := Some ''`BEGIN_UPLOAD` was denied.''\<rparr>))
     else
       fwrite_from (drop 12 m) (unat (ucast (get16 m 0) + 2 - 12 :: u32)) w (\<lambda>bs.
       loop (dl_turn io (get32 m 7) 1012)
         (CONTINUE_UPLOAD_INIT\<lparr>cu_fileHandle := m ! 11, cu_maxBytes := 1004\<rparr>, m,
          ucast (get16 m 0) + 2 - 12, fp @ bs) w))"

lemma dl_unfold:
  assumes "length path < 65525" and "m = uninit w 1012"
  shows "dl io path fp w =
    ev3_write io (bu_frame path) (length (bu_frame path)) w (\<lambda>res w.
      if res < 0 then ret (ERR_COMM, fp) (w\<lparr>errmsg := Some ''Unable to write BEGIN_UPLOAD.''\<rparr>)
      else ev3_read_timeout io m 1012 2000 w (\<lambda>res m w.
        if res \<le> 0 then ret (ERR_COMM, fp) (w\<lparr>errmsg := Some ''Unable to read BEGIN_UPLOAD''\<rparr>)
        else dl_body io fp m w))"
proof -
  have a: "packet_alloc sizeof_BEGIN_UPLOAD BEGIN_UPLOAD_INIT (length path + 1)
      = Some (BEGIN_UPLOAD_INIT\<lparr>packetLen := body_len (sizeof_BEGIN_UPLOAD + (length path + 1))\<rparr>)"
    using assms(1) by (simp add: sizeof_commands)
  have n: "of_nat dl_CHUNK_SIZE = (1000 :: u16)"
    "of_nat (dl_CHUNK_SIZE + sizeof_BEGIN_UPLOAD_REPLY - sizeof_CONTINUE_UPLOAD_REPLY) = (1004 :: u16)"
    "sizeof_BEGIN_UPLOAD_REPLY + unat (bu_maxBytes (bu_request path)) = 1012"
    by (simp_all add: dl_CHUNK_SIZE_def sizeof_replies)
  show ?thesis
    by (simp only: dl_def Let_def a option.case n bu_wire [OF assms(1)] TIMEOUT_def uninit_after_write assms(2)
        dl_body_def burep_sel)
qed

text \<open>
  C4: A fetch that reports success has written exactly the data the brick sent: the payload of the
  reply to BEGIN_UPLOAD and then that of each CONTINUE_UPLOAD reply, in order, and, counted modulo
  2 to the 32, at least as many bytes as the first reply announced. Each continuation carries the
  file handle of the reply before it.
\<close>

theorem dl_ok:
  assumes "dl io path fp w = Some (Ret (ERR_UNK, fp'), w')" and "length path < 65525"
  shows "\<exists>b bs ms. received w' = received w @ b # bs
    \<and> ms = reply_bufs (overlay (uninit w 1012) b) bs
    \<and> fp' = fp @ payload 12 (overlay (uninit w 1012) b) @ concat (map (payload 8) ms)
    \<and> trace w' = trace w @ [Wr (bu_frame path), Rd 1012 2000]
        @ fetch_events cu_frame 1012 (take (length bs) (overlay (uninit w 1012) b ! 11 # map (\<lambda>m. m ! 7) ms))
    \<and> get32 (overlay (uninit w 1012) b) 7 \<le> of_nat (length fp' - length fp)"
  using assms(1) unfolding dl_unfold [OF assms(2) refl]
proof (cases rule: exchange_RetE)
  case (answered b w1)
  define m where "m = overlay (uninit w 1012) b"
  have m: "length m = 1012" using answered by (simp add: m_def)
  define q where "q = (ucast (get16 m 0) + 2 - 12 :: u32)"
  have body: "fwrite_from (drop 12 m) (unat q) w1 (\<lambda>bs. loop (dl_turn io (get32 m 7) 1012)
      (CONTINUE_UPLOAD_INIT\<lparr>cu_fileHandle := m ! 11, cu_maxBytes := 1004\<rparr>, m, q, fp @ bs) w1)
      = Some (Ret (ERR_UNK, fp'), w')"
    using answered(7) unfolding dl_body_def m_def [symmetric] q_def
    by (simp split: if_splits) (auto elim!: print_bytes_RetE)
  then have fits: "unat q \<le> length m - 12"
    and run: "loop (dl_turn io (get32 m 7) 1012)
      (CONTINUE_UPLOAD_INIT\<lparr>cu_fileHandle := m ! 11, cu_maxBytes := 1004\<rparr>, m, q, fp @ take (unat q) (drop 12 m)) w1
      = Some (Ret (ERR_UNK, fp'), w')"
    by (auto elim: fwrite_from_RetE)
  have data: "take (unat q) (drop 12 m) = payload 12 m" "q = of_nat (length (payload 12 m))"
    using payload12 [of m, folded q_def, OF fits] m by simp_all
  from dl.fetched [OF run] m
  obtain bss where "received w' = received w1 @ bss"
    "fp' = fp @ payload 12 m @ concat (map (payload 8) (reply_bufs m bss))"
    "trace w' = trace w1 @ fetch_events cu_frame 1012 (take (length bss) (m ! 11 # map (\<lambda>m. m ! 7) (reply_bufs m bss)))"
    "get32 m 7 \<le> q + of_nat (length (concat (map (payload 8) (reply_bufs m bss))))"
    by (auto simp: data(1) cu_request_def CONTINUE_UPLOAD_INIT_def body_len_def PREFIX_SIZE_def sizeof_commands)
  with data(2) answered show ?thesis
    by (rule_tac exI [of _ b], rule_tac exI [of _ bss], rule_tac exI [of _ "reply_bufs m bss"])
      (simp add: m_def [symmetric])
qed simp_all

section \<open>Listing a directory\<close>

definition lf_frame :: "string \<Rightarrow> u8 list" where
  "lf_frame path = [0] @ le16 (of_nat (length path + 7)) @ [0, 0, 1, 0x99, 0xF4, 3] @ cstr path"

abbreviation lf_request :: "string \<Rightarrow> LIST_FILES" where
  "lf_request path \<equiv> LIST_FILES_INIT\<lparr>packetLen := body_len (sizeof_LIST_FILES + (length path + 1)),
     lf_path := cstr path, lf_maxBytes := 1012\<rparr>"

lemma lf_wire:
  assumes "length path < 65525"
  shows "mem_LIST_FILES (lf_request path) = lf_frame path"
    and "wire_len (lf_request path) = length (lf_frame path)"
proof -
  have "wire_len (lf_request path) = sizeof_LIST_FILES + (length path + 1)"
    using assms by (simp add: wire_len_def sizeof_commands)
  then show "wire_len (lf_request path) = length (lf_frame path)"
    by (simp add: sizeof_commands lf_frame_def)
  have "body_len (sizeof_LIST_FILES + (length path + 1)) = of_nat (length path + 7)"
    by (simp add: body_len_def PREFIX_SIZE_def sizeof_commands)
  moreover have "le16 0 = [0, 0]" "le16 1012 = [0xF4, 3]" by (simp_all add: le16_def)
  ultimately show "mem_LIST_FILES (lf_request path) = lf_frame path"
    by (simp add: mem_defs mem_command_def mem_packet_def LIST_FILES_INIT_def lf_frame_def del: of_nat_add)
qed

lemma listrep_sel:
  "r_type (as_LIST_FILES_REPLY m) = m ! 4" "r_ret (as_LIST_FILES_REPLY m) = m ! 6"
  "r_packetLen (as_LIST_FILES_REPLY m) = get16 m 0" "lfr_list (as_LIST_FILES_REPLY m) = drop 12 m"
  "lfr_listSize (as_LIST_FILES_REPLY m) = get32 m 7" "lfr_handle (as_LIST_FILES_REPLY m) = m ! 11"
  by (simp_all add: as_LIST_FILES_REPLY_def)

definition ls_body :: "'d ev3_io \<Rightarrow> u8 list \<Rightarrow> 'd world \<Rightarrow> (ERR, 'd) run" where
  "ls_body io m w =
    (if m ! 4 = VM_ERROR then
       print_bytes m (unat (get16 m 0))
         (put_err (bytes ''Operation failed.\<newline>last_reply='') (w\<lparr>errno := uint (m ! 6)\<rparr>))
         (\<lambda>w. ret ERR_VM (w\<lparr>errmsg := Some ''`LIST_FILES` was denied.''\<rparr>))
     else
       fwrite_from (drop 12 m) (unat (ucast (get16 m 0) + 2 - 12 :: u32)) w (\<lambda>bs.
       loop (ls_turn io (get32 m 7) 1024)
         (CONTINUE_LIST_FILES_INIT\<lparr>clf_handle := m ! 11, clf_listSize := 1016\<rparr>, m,
          ucast (get16 m 0) + 2 - 12) (put_out bs w)))"

lemma ls_unfold:
  assumes "length path < 65525" and "m = uninit w 1024"
  shows "ls io path w =
    ev3_write io (lf_frame path) (length (lf_frame path)) w (\<lambda>res w.
      if res < 0 then ret ERR_COMM (w\<lparr>errmsg := Some ''Unable to write LIST_FILES.''\<rparr>)
      else ev3_read_timeout io m 1024 2000 w (\<lambda>res m w.
        if res \<le> 0 then ret ERR_COMM (w\<lparr>errmsg := Some ''Unable to read LIST_FILES''\<rparr>)
        else ls_body io m w))"
proof -
  have a: "packet_alloc sizeof_LIST_FILES LIST_FILES_INIT (length path + 1)
      = Some (LIST_FILES_INIT\<lparr>packetLen := body_len (sizeof_LIST_FILES + (length path + 1))\<rparr>)"
    using assms(1) by (simp add: sizeof_commands)
  have n: "of_nat (1024 - sizeof_LIST_FILES_REPLY) = (1012 :: u16)"
    "of_nat (1024 - sizeof_CONTINUE_LIST_FILES_REPLY) = (1016 :: u32)"
    by (simp_all add: sizeof_replies)
  show ?thesis
    by (simp only: ls_def Let_def a option.case n lf_wire [OF assms(1)] TIMEOUT_def uninit_after_write assms(2)
        ls_body_def listrep_sel)
qed

text \<open>
  A listing that reports success has printed exactly the list data of the replies, in order,
  and, counted modulo 2 to the 32, at least as many bytes as the first reply announced.
\<close>

theorem ls_ok:
  assumes "ls io path w = Some (Ret ERR_UNK, w')" and "length path < 65525"
  shows "\<exists>b bs ms data. received w' = received w @ b # bs
    \<and> ms = reply_bufs (overlay (uninit w 1024) b) bs
    \<and> data = payload 12 (overlay (uninit w 1024) b) @ concat (map (payload 8) ms)
    \<and> stdout_log w' = stdout_log w @ data
    \<and> trace w' = trace w @ [Wr (lf_frame path), Rd 1024 2000]
        @ fetch_events clf_frame 1024 (take (length bs) (overlay (uninit w 1024) b ! 11 # map (\<lambda>m. m ! 7) ms))
    \<and> get32 (overlay (uninit w 1024) b) 7 \<le> of_nat (length data)"
  using assms(1) unfolding ls_unfold [OF assms(2) refl]
proof (cases rule: exchange_RetE)
  case (answered b w1)
  define m where "m = overlay (uninit w 1024) b"
  have m: "length m = 1024" using answered by (simp add: m_def)
  define q where "q = (ucast (get16 m 0) + 2 - 12 :: u32)"
  have body: "fwrite_from (drop 12 m) (unat q) w1 (\<lambda>bs. loop (ls_turn io (get32 m 7) 1024)
      (CONTINUE_LIST_FILES_INIT\<lparr>clf_handle := m ! 11, clf_listSize := 1016\<rparr>, m, q) (put_out bs w1))
      = Some (Ret ERR_UNK, w')"
    using answered(7) unfolding ls_body_def m_def [symmetric] q_def
    by (simp split: if_splits) (auto elim!: print_bytes_RetE)
  then have fits: "unat q \<le> length m - 12"
    and run: "loop (ls_turn io (get32 m 7) 1024)
      (CONTINUE_LIST_FILES_INIT\<lparr>clf_handle := m ! 11, clf_listSize := 1016\<rparr>, m, q)
      (put_out (take (unat q) (drop 12 m)) w1) = Some (Ret ERR_UNK, w')"
    by (auto elim: fwrite_from_RetE)
  have data: "take (unat q) (drop 12 m) = payload 12 m" "q = of_nat (length (payload 12 m))"
    using payload12 [of m, folded q_def, OF fits] m by simp_all
  from ls.fetched [OF run] m
  obtain bss where "received w' = received w1 @ bss"
    "stdout_log w' = stdout_log w1 @ payload 12 m @ concat (map (payload 8) (reply_bufs m bss))"
    "trace w' = trace w1 @ fetch_events clf_frame 1024 (take (length bss) (m ! 11 # map (\<lambda>m. m ! 7) (reply_bufs m bss)))"
    "get32 m 7 \<le> q + of_nat (length (concat (map (payload 8) (reply_bufs m bss))))"
    by (auto simp: data(1) clf_request_def CONTINUE_LIST_FILES_INIT_def)
  with data(2) answered show ?thesis
    by (rule_tac exI [of _ b], rule_tac exI [of _ bss], rule_tac exI [of _ "reply_bufs m bss"],
        rule_tac exI [of _ "payload 12 m @ concat (map (payload 8) (reply_bufs m bss))"])
      (simp add: m_def [symmetric])
qed simp_all

section \<open>Replies the loop does not expect\<close>

text \<open>
  A brick that announces \<open>n\<close> bytes and then answers every continuation with an empty chunk.
\<close>

definition stall :: "u32 \<Rightarrow> bool ev3_io" where
  "stall n = \<lparr>io_write = (\<lambda>d bs. Some (int (length bs), d)),
     io_read = (\<lambda>d cap ms. if d then Some (12, [10, 0, 0, 0, 3, 0x94, 0] @ le32 n @ [1], False)
       else Some (8, [6, 0, 0, 0, 3, 0x95, 0, 1], False)),
     io_kind = HID\<rparr>"

lemma dl_turn_stall:
  assumes "r < n" and "length m = 1012" and "dev w = False"
  shows "\<exists>cu' m' w'. dl_turn (stall k) n 1012 (cu, m, r, fp) w = Some (Ret (Inl (cu', m', r, fp)), w')
    \<and> length m' = 1012 \<and> dev w' = False"
  using assms
  by (simp add: dl_turn_def ev3_write_fits ev3_read_timeout_def stall_def Let_def fwrite_from_def
      as_CONTINUE_UPLOAD_REPLY_def overlay_def get16_def VM_ERROR_def)

text \<open>
  Empty chunks keep the fetch waiting for ever: against a brick that announces a nonempty file
  and then sends continuation replies without data, dl never returns.
\<close>

theorem dl_stalls:
  assumes "n \<noteq> 0" and "length path < 65525"
  shows "dl (stall n) path fp (world0 True) = None"
proof -
  define r where "r = [10, 0, 0, 0, 3, 0x94, 0] @ le32 n @ [1]"
  define m where "m = overlay (uninit (world0 True) 1012) r"
  define w1 where "w1 = (world0 True)\<lparr>dev := False, trace := [Wr (bu_frame path), Rd 1012 2000], received := [r]\<rparr>"
  define I :: "CONTINUE_UPLOAD \<times> u8 list \<times> u32 \<times> u8 list \<Rightarrow> bool world \<Rightarrow> bool"
    where "I = (\<lambda>(cu, m', c, f) v. c = 0 \<and> length m' = 1012 \<and> dev v = False)"
  have r: "length r = 12" by (simp add: r_def)
  have m: "length m = 1012" "get16 m 0 = 10" "m ! 4 \<noteq> VM_ERROR" "get32 m 7 = n"
  proof -
    show "length m = 1012" using r by (simp add: m_def)
    show "get16 m 0 = 10" "m ! 4 \<noteq> VM_ERROR"
      by (simp_all add: m_def overlay_def r_def get16_def VM_ERROR_def)
    have "m = [10, 0, 0, 0, 3, 0x94, 0] @ le32 n @ ([1] @ drop 12 (uninit (world0 True) 1012))"
      using r by (simp add: m_def overlay_def r_def)
    then show "get32 m 7 = n" by (rule get32_at) simp
  qed
  have "dl (stall n) path fp (world0 True) = dl_body (stall n) fp m w1"
    unfolding dl_unfold [OF assms(2) refl] using r
    by (simp add: ev3_write_fits ev3_read_timeout_def stall_def r_def [symmetric, simplified] m_def w1_def)
  also have "\<dots> = loop (dl_turn (stall n) n 1012)
      (CONTINUE_UPLOAD_INIT\<lparr>cu_fileHandle := m ! 11, cu_maxBytes := 1004\<rparr>, m, 0, fp) w1"
    using m by (simp add: dl_body_def fwrite_from_def)
  also have "\<dots> = None"
  proof (rule loop_forever [where I = I])
    fix s w
    assume I: "I s w"
    obtain cu m' c f where s: "s = (cu, m', c, f)" by (metis prod_cases4)
    have "0 < n" using assms(1) by (simp add: word_gt_0)
    with I dl_turn_stall [of c n m' w n cu f]
    show "\<exists>s1 w1. dl_turn (stall n) n 1012 s w = Some (Ret (Inl s1), w1) \<and> I s1 w1"
      by (auto simp: s I_def)
  qed (use m in \<open>simp add: w1_def I_def\<close>)
  finally show ?thesis .
qed

theorem dl_stalls_witness: "dl (stall 5) ''a'' [] (world0 True) = None"
  by (rule dl_stalls) simp_all

text \<open>
  The length field of the first reply is not checked: a reply to BEGIN_UPLOAD that is not an
  error and whose length field is below 10 or above 1010 makes dl write out memory beyond the
  buffer.
\<close>

theorem dl_trusts_length:
  assumes "12 \<le> length b" and "length b \<le> 1012" and "b ! 4 \<noteq> VM_ERROR"
    and "unat (get16 b 0) < 10 \<or> 1010 < unat (get16 b 0)" and "length path < 65525"
  shows "\<exists>w'. dl scripted path fp (world0 (b # rs)) = Some (Undef, w')"
proof -
  define m where "m = overlay (uninit (world0 (b # rs)) 1012) b"
  have b: "b \<noteq> []" using assms(1) by auto
  have m: "length m = 1012" "get16 m 0 = get16 b 0" "m ! 4 \<noteq> VM_ERROR"
    using assms(1-3) b by (simp_all add: m_def overlay_def nth_append get16_def)
  obtain w1 where 1: "dl scripted path fp (world0 (b # rs)) = dl_body scripted fp m w1"
    unfolding dl_unfold [OF assms(5) refl] using assms(2) b
    by (simp add: ev3_write_fits ev3_read_timeout_def m_def)
  have "\<not> unat (ucast (get16 b 0) + 2 - 12 :: u32) \<le> 1000"
  proof
    assume le: "unat (ucast (get16 b 0) + 2 - 12 :: u32) \<le> 1000"
    then have "unat (ucast (get16 b 0) + 2 - 12 :: u32) \<le> 70000" by linarith
    from unat_len32 [OF this] le assms(4) show False by simp
  qed
  then show ?thesis using m by (simp add: 1 dl_body_def fwrite_from_def)
qed

theorem dl_trusts_length_witness:
  "\<exists>w'. dl scripted ''a'' [] (world0 [[0xF3, 3, 0, 0, 3, 0x94, 0, 9, 0, 0, 0, 1]]) = Some (Undef, w')"
  by (rule dl_trusts_length) (simp_all add: VM_ERROR_def get16_def)

section \<open>Concrete runs\<close>

text \<open>Three bytes, one with the first reply and two with the next.\<close>

lemma scripted_dl:
  "\<exists>w'. dl scripted ''a'' [] (world0 [[11, 0, 0, 0, 3, 0x94, 0, 3, 0, 0, 0, 1, 65], [8, 0, 0, 0, 3, 0x95, 8, 1, 66, 67]])
    = Some (Ret (ERR_UNK, [65, 66, 67]), w')"
  by (simp add: dl_unfold [OF _ refl] ev3_write_fits ev3_read_timeout_def dl_body_def fwrite_from_def
      overlay_def get16_def get32_def VM_ERROR_def)
    (subst loop.simps, simp add: dl_turn_def ev3_write_fits ev3_read_timeout_def Let_def fwrite_from_def
      as_CONTINUE_UPLOAD_REPLY_def overlay_def get16_def VM_ERROR_def,
     subst loop.simps, simp add: dl_turn_def)

theorem dl_ok_witness:
  "\<exists>w' b bs. dl scripted ''a'' [] (world0 [[11, 0, 0, 0, 3, 0x94, 0, 3, 0, 0, 0, 1, 65], [8, 0, 0, 0, 3, 0x95, 8, 1, 66, 67]])
      = Some (Ret (ERR_UNK, [65, 66, 67]), w')
    \<and> received w' = b # bs \<and> hd (trace w') = Wr (bu_frame ''a'')"
proof -
  let ?w = "world0 [[11, 0, 0, 0, 3, 0x94, 0, 3, 0, 0, 0, 1, 65], [8, 0, 0, 0, 3, 0x95, 8, 1, 66, 67]] :: u8 list list world"
  obtain w' where w': "dl scripted ''a'' [] ?w = Some (Ret (ERR_UNK, [65, 66, 67]), w')"
    using scripted_dl by blast
  from dl_ok [OF w'] have "\<exists>b bs. received w' = b # bs \<and> hd (trace w') = Wr (bu_frame ''a'')" by fastforce
  with w' show ?thesis by blast
qed

lemma scripted_ls:
  "\<exists>w'. ls scripted ''a'' (world0 [[13, 0, 0, 0, 3, 0x99, 0, 3, 0, 0, 0, 1, 97, 47, 10]]) = Some (Ret ERR_UNK, w')
    \<and> stdout_log w' = [97, 47, 10]"
  by (simp add: ls_unfold [OF _ refl] ev3_write_fits ev3_read_timeout_def ls_body_def fwrite_from_def
      overlay_def get16_def get32_def VM_ERROR_def)
    (subst loop.simps, simp add: ls_turn_def)

theorem ls_ok_witness:
  "\<exists>w' data. ls scripted ''a'' (world0 [[13, 0, 0, 0, 3, 0x99, 0, 3, 0, 0, 0, 1, 97, 47, 10]]) = Some (Ret ERR_UNK, w')
    \<and> stdout_log w' = data \<and> data = [97, 47, 10] \<and> hd (trace w') = Wr (lf_frame ''a'')"
proof -
  let ?w = "world0 [[13, 0, 0, 0, 3, 0x99, 0, 3, 0, 0, 0, 1, 97, 47, 10]] :: u8 list list world"
  obtain w' where w': "ls scripted ''a'' ?w = Some (Ret ERR_UNK, w')" "stdout_log w' = [97, 47, 10]"
    using scripted_ls by blast
  from ls_ok [OF w'(1)] have "hd (trace w') = Wr (lf_frame ''a'')" by fastforce
  with w' show ?thesis by blast
qed

text \<open>The header of CONTINUE_LIST_FILES announces two bytes fewer than it has.\<close>

lemma continue_list_files_not_frame:
  "\<not> frame (mem_CONTINUE_LIST_FILES CONTINUE_LIST_FILES_INIT)"
  by (simp add: frame_def CONTINUE_LIST_FILES_INIT_def mem_defs mem_command_def mem_packet_def le16_def
      le32_def get16_def PREFIX_SIZE_def)

end
