(* ===== verification/VmExec.thy ===== *)
theory VmExec
  imports Scripted
begin

text \<open>
  Bytecode for the brick's virtual machine: \<^verbatim>\<open>src/src/vmexec.c\<close> runs a file of bytecode as one
  direct command, \<^verbatim>\<open>src/src/mkrbf.c\<close> wraps a shell command into an executable bytecode file, and
  \<^verbatim>\<open>src/src/run.c\<close> starts such a file on the brick.
\<close>

section \<open>vmexec\<close>

text \<open>Where the values of the globals go: nowhere (a null pointer), the standard output, or a file.\<close>

datatype vm_out = OutNull | OutStdout | OutFile

definition max_bytecodes :: nat where
  "max_bytecodes = 1024 - (sizeof_VM_CMD - PREFIX_SIZE + 2)"

text \<open>The result is the return value and what was written to an output file.\<close>

definition vmexec ::
    "'d ev3_io \<Rightarrow> FILE \<Rightarrow> vm_out \<Rightarrow> int \<Rightarrow> int \<Rightarrow> bool \<Rightarrow> 'd world \<Rightarrow> (ERR \<times> u8 list, 'd) run" where
  "vmexec io inp out local_vars global_vars use_reply w =
    (let max_locals = 2 ^ 6 - 1;
         max_globals = (if use_reply then 1024 - int sizeof_VM_REPLY else 2 ^ 10 - 1);
         local_vars = (if local_vars < 0 then 0 else local_vars);
         global_vars = (if global_vars < 0 then 0 else global_vars)
     in
     if local_vars > max_locals then
       ret (ERR_ARG, []) (put_err (bytes (''<'' @ dec (nat local_vars) @ ''> is too many local variables\<newline>'')) w)
     else if global_vars > max_globals then
       ret (ERR_ARG, []) (put_err (bytes (''<'' @ dec (nat global_vars) @ ''> is too many global variables\<newline>'')) w)
     else
       case packet_alloc sizeof_VM_CMD EXECUTE_FILE_INIT max_bytecodes of
         None \<Rightarrow> undef w
       | Some request0 \<Rightarrow>
         let (code, inp) = fread max_bytecodes inp;
             real = length code
         in
         if \<not> feof inp then ret (ERR_IO, []) (put_err (bytes ''input bytecode is too long\<newline>'') w)
         else if real = 0 then ret (ERR_IO, []) (put_err (bytes ''input bytecode is too short\<newline>'') w)
         else
           let request = request0\<lparr>vm_bytes := overlay (uninit w max_bytecodes) code,
                 replyType := (if use_reply then 0x00 else 0x80),
                 vm_alloc := push_bit 10 (of_int local_vars) OR of_int global_vars,
                 packetLen := of_nat (real + sizeof_VM_CMD - PREFIX_SIZE)\<rparr>
           in
           ev3_write io (mem_VM_CMD request) (wire_len request) w (\<lambda>res w.
           if res < 0 then ret (ERR_COMM, []) (w\<lparr>errmsg := Some ''Unable to write VM_CMD.''\<rparr>)
           else if \<not> use_reply then ret (ERR_UNK, []) (w\<lparr>errmsg := Some ''`vmexec` was successful.''\<rparr>)
           else
             let reply_size = sizeof_VM_REPLY + nat global_vars in
             ev3_read_timeout io (uninit w reply_size) reply_size TIMEOUT w (\<lambda>res mem w.
             if res \<le> 0 then ret (ERR_COMM, []) (w\<lparr>errmsg := Some ''Unable to read VM_REPLY''\<rparr>)
             else
               let reply = as_VM_REPLY mem in
               if vr_replyType reply \<noteq> VM_DIRECT_OK then
                 (let w = put_err (bytes ''Operation failed.\<newline>last_reply='') w
                  in print_bytes mem (unat (vr_packetLen reply) + 2) w (\<lambda>w.
                     ret (ERR_VM, []) (w\<lparr>errno := uint (vr_replyType reply), errmsg := Some ''`vmexec` failed.''\<rparr>)))
               else
                 let w = (if out = OutStdout then put_out (take (nat global_vars) (vr_bytes reply)) w else w);
                     written = (if out = OutFile then take (nat global_vars) (vr_bytes reply) else []);
                     w = (if out \<noteq> OutStdout then w\<lparr>errmsg := Some ''`vmexec` was successful.''\<rparr> else w)
                 in ret (ERR_UNK, written) w)))"

section \<open>mkrbf\<close>

definition magic :: "u8 list" where
  "magic = bytes ''LEGO''"

definition before :: "u8 list" where
  "before = [0x68, 0x00, 0x01, 0x00, 0x00, 0x00, 0x00, 0x00, 0x1C, 0x00, 0x00, 0x00, 0x00, 0x00, 0x00,
     0x00, 0x08, 0x00, 0x00, 0x00, 0x60, 0x80]"

definition after :: "u8 list" where
  "after = [0x44, 0x85, 0x82, 0xE8, 0x03, 0x40, 0x86, 0x40, 0x0A]"

text \<open>
  The buffer, and the returned size. The size is a 32-bit number, the copies go by the real
  lengths, so a command of four gigabytes overruns the buffer (\<open>None\<close>).
\<close>

definition mkrbf :: "string \<Rightarrow> (u8 list \<times> nat) option" where
  "mkrbf cmd_str =
    (let cmd_sz = length cmd_str;
         static_sz = of_nat (length magic + 4 + length before + cmd_sz + 1 + length after) :: u32;
         buf = magic @ le32 static_sz @ before @ cstr cmd_str @ after
     in if unat static_sz < length buf then None else Some (buf, unat static_sz))"

section \<open>run\<close>

definition run1 :: "u8 list" where "run1 = [0xC0, 0x08, 0x82, 0x01, 0x00, 0x84]"
definition run2 :: "u8 list" where "run2 = [0x60, 0x64, 0x03, 0x01, 0x60, 0x64, 0x00]"

text \<open>
  \<^verbatim>\<open>sscanf(s, "\t%08x\n", &len)\<close>: the white space, an optional sign and \<^verbatim>\<open>0x\<close>, at most eight
  characters in all. Without input it gives the end-of-file value, which \<^verbatim>\<open>if\<close> takes for true.
\<close>

datatype scan_result = ScanEOF | ScanNone | ScanOk u32

definition hex_value :: "u8 \<Rightarrow> nat option" where
  "hex_value b = (if 48 \<le> b \<and> b \<le> 57 then Some (unat b - 48)
     else if 97 \<le> b \<and> b \<le> 102 then Some (unat b - 87)
     else if 65 \<le> b \<and> b \<le> 70 then Some (unat b - 55) else None)"

fun hex_run :: "nat \<Rightarrow> u8 list \<Rightarrow> nat list" where
  "hex_run (Suc n) (b # bs) = (case hex_value b of Some v \<Rightarrow> v # hex_run n bs | None \<Rightarrow> [])"
| "hex_run _ _ = []"

definition scan_hex8 :: "u8 list \<Rightarrow> scan_result" where
  "scan_hex8 s =
    (let s = dropWhile isspace s in
     if s = [] then ScanEOF
     else
       let sgn = (hd s = 45 \<or> hd s = 43);
           t = (if sgn then tl s else s);
           width = (if sgn then 7 else 8 :: nat);
           prefixed = (case t of c # x # _ \<Rightarrow> c = 48 \<and> (x = 120 \<or> x = 88) | _ \<Rightarrow> False);
           digits = (if prefixed then hex_run (width - 2) (drop 2 t) else hex_run width t)
       in if digits = [] then ScanNone
          else let v = of_nat (foldl (\<lambda>a d. 16 * a + d) 0 digits)
               in ScanOk (if hd s = 45 then - v else v))"

text \<open>\<^verbatim>\<open>printf("%.*s", n, s)\<close>.\<close>

definition print_prefix :: "nat \<Rightarrow> u8 list \<Rightarrow> 'd world \<Rightarrow> 'd world" where
  "print_prefix n s w = put_out (takeWhile (\<lambda>b. b \<noteq> 0) (take n s)) w"

definition run_turn ::
    "'d ev3_io \<Rightarrow> u8 list \<times> u32 \<Rightarrow> 'd world \<Rightarrow> ((u8 list \<times> u32) + int, 'd) run" where
  "run_turn io = (\<lambda>(reply, len) w.
    ev3_read_timeout io reply (1024 + 2) 100 w (\<lambda>res reply w.
    if res > 0 then
      ret (Inl (reply, len - 1000)) (print_prefix (if len > 1000 then 1000 else unat len) reply w)
    else ret (Inr res) w))"

definition run :: "'d ev3_io \<Rightarrow> string \<Rightarrow> nat \<Rightarrow> 'd world \<Rightarrow> (ERR, 'd) run" where
  "run io exec timeout w =
    (let timeout = (if timeout \<noteq> 0 then int timeout else TIMEOUT);
         exec_sz = length exec + 1
     in case packet_alloc sizeof_VM_CMD EXECUTE_FILE_INIT (length run1 + exec_sz + length run2) of
       None \<Rightarrow> undef w
     | Some run0 \<Rightarrow>
       let run_cmd = run0\<lparr>vm_bytes := run1 @ cstr exec @ run2\<rparr> in
       ev3_write io (mem_VM_CMD run_cmd) (wire_len run_cmd) w (\<lambda>res w.
       if res < 0 then ret ERR_COMM w
       else
         ev3_read_timeout io (uninit w 1024) (1024 + 2) timeout w (\<lambda>res reply w.
         if res < 0 then ret ERR_COMM w
         else if res = 0 \<or> take sizeof_VM_REPLY reply = mem_VM_REPLY EXECUTE_FILE_REPLY_SUCCESS then
           ret ERR_UNK (w\<lparr>errmsg := Some ''`exec` has been successful.''\<rparr>)
         else if io_kind io = HID then
           (if 0 \<notin> set reply then undef w
            else case scan_hex8 (takeWhile (\<lambda>b. b \<noteq> 0) reply) of
              ScanNone \<Rightarrow> ret ERR_UNK (w\<lparr>errmsg := Some ''`exec` status unknown.''\<rparr>)
            | ScanEOF \<Rightarrow> undef w
            | ScanOk len \<Rightarrow>
              let len = len + 10;
                  w = print_prefix (if len > 1000 then 1000 else unat len) (drop 10 reply) w;
                  len = len - 1000
              in call (loop (run_turn io) (reply, len) w) (\<lambda>res w.
                 if res \<noteq> 0 then ret ERR_COMM w
                 else ret ERR_UNK (w\<lparr>errmsg := Some ''`exec` status unknown.''\<rparr>)))
         else ret ERR_UNK (w\<lparr>errmsg := Some ''`exec` status unknown.''\<rparr>))))"

section \<open>What vmexec sends\<close>

definition vm_frame :: "bool \<Rightarrow> u16 \<Rightarrow> u8 list \<Rightarrow> u8 list" where
  "vm_frame use_reply vars code =
    [0] @ le16 (of_nat (length code + 5)) @ [0, 0, if use_reply then 0 else 0x80] @ le16 vars @ code"

text \<open>The counts of locals and globals share one 16-bit word.\<close>

definition pack_vars :: "nat \<Rightarrow> nat \<Rightarrow> u16" where
  "pack_vars l g = push_bit 10 (of_nat l) OR of_nat g"

lemma pack_vars_fields:
  assumes "l < 64" and "g < 1024"
  shows "unat (pack_vars l g) div 1024 = l" and "unat (pack_vars l g) mod 1024 = g"
proof -
  have ll: "(of_nat l :: u16) = of_nat l" and lu: "unat (of_nat l :: u16) = l" and gu: "unat (of_nat g :: u16) = g"
    using assms by (simp_all add: unat_u16_small)
  have disj: "push_bit 10 (of_nat l :: u16) AND of_nat g = 0"
  proof (rule bit_word_eqI)
    fix n
    assume "n < LENGTH(16)"
    show "bit (push_bit 10 (of_nat l :: u16) AND of_nat g) n = bit 0 n"
    proof (cases "n < 10")
      case False
      have "\<not> bit g n"
      proof
        assume "bit g n"
        then have "(2::nat) ^ n \<le> g" by (simp add: bit_iff_odd) (metis div_eq_0_iff even_zero not_le)
        moreover have "(2::nat) ^ 10 \<le> 2 ^ n" using False power_increasing [of 10 n "2 :: nat"] by simp
        ultimately show False using assms(2) by simp
      qed
      then show ?thesis by (simp add: bit_simps)
    qed (simp add: bit_simps)
  qed
  have "pack_vars l g = push_bit 10 (of_nat l) + of_nat g"
    unfolding pack_vars_def using disj by (simp add: disjunctive_add_eq_or)
  also have "\<dots> = (of_nat (l * 1024 + g) :: u16)"
    by (simp add: push_bit_eq_mult)
  finally have "unat (pack_vars l g) = l * 1024 + g"
    using assms by (simp del: of_nat_add of_nat_mult)
  with assms(2) show "unat (pack_vars l g) div 1024 = l" "unat (pack_vars l g) mod 1024 = g" by simp_all
qed

definition vm_request :: "'d world \<Rightarrow> u8 list \<Rightarrow> nat \<Rightarrow> nat \<Rightarrow> bool \<Rightarrow> VM_CMD" where
  "vm_request w code l g use_reply = EXECUTE_FILE_INIT\<lparr>packetLen := of_nat (length code + sizeof_VM_CMD - PREFIX_SIZE),
     vm_bytes := overlay (uninit w max_bytecodes) code, replyType := (if use_reply then 0x00 else 0x80),
     vm_alloc := pack_vars l g\<rparr>"

lemma max_bytecodes_eq: "max_bytecodes = 1017"
  by (simp add: max_bytecodes_def sizeof_commands PREFIX_SIZE_def)

lemma vm_wire:
  assumes "length code \<le> max_bytecodes"
  shows "wire_len (vm_request w code l g r) \<le> length (mem_VM_CMD (vm_request w code l g r))"
    and "take (wire_len (vm_request w code l g r)) (mem_VM_CMD (vm_request w code l g r)) = vm_frame r (pack_vars l g) code"
proof -
  have wl: "wire_len (vm_request w code l g r) = 8 + length code"
    using assms by (simp add: vm_request_def wire_len_def sizeof_commands PREFIX_SIZE_def max_bytecodes_eq del: of_nat_add)
  then show "wire_len (vm_request w code l g r) \<le> length (mem_VM_CMD (vm_request w code l g r))"
    using assms by (simp add: sizeof_commands vm_request_def)
  define h :: "u8 list" where "h = [0] @ le16 (of_nat (length code + 5)) @ [0, 0, if r then 0 else 0x80] @ le16 (pack_vars l g)"
  have "mem_VM_CMD (vm_request w code l g r) = h @ overlay (uninit w max_bytecodes) code"
    by (simp add: vm_request_def mem_defs mem_packet_def EXECUTE_FILE_INIT_def h_def sizeof_commands PREFIX_SIZE_def le16_def [of 0]
        add.commute del: of_nat_add)
  moreover have "length h = 8" by (simp add: h_def)
  ultimately have "take (wire_len (vm_request w code l g r)) (mem_VM_CMD (vm_request w code l g r)) = h @ code"
    unfolding wl by (simp add: overlay_def)
  then show "take (wire_len (vm_request w code l g r)) (mem_VM_CMD (vm_request w code l g r)) = vm_frame r (pack_vars l g) code"
    by (simp add: h_def vm_frame_def)
qed

text \<open>The command once the input has passed the checks.\<close>

definition vm_finish :: "vm_out \<Rightarrow> nat \<Rightarrow> u8 list \<Rightarrow> 'd world \<Rightarrow> (ERR \<times> u8 list, 'd) run" where
  "vm_finish out g mem w =
    (if mem ! 4 \<noteq> VM_DIRECT_OK then
       print_bytes mem (unat (get16 mem 0) + 2) (put_err (bytes ''Operation failed.\<newline>last_reply='') w) (\<lambda>w.
         ret (ERR_VM, []) (w\<lparr>errno := uint (mem ! 4), errmsg := Some ''`vmexec` failed.''\<rparr>))
     else
       let w = (if out = OutStdout then put_out (take g (drop 5 mem)) w else w);
           written = (if out = OutFile then take g (drop 5 mem) else []);
           w = (if out \<noteq> OutStdout then w\<lparr>errmsg := Some ''`vmexec` was successful.''\<rparr> else w)
       in ret (ERR_UNK, written) w)"

definition vm_globals_max :: "bool \<Rightarrow> nat" where
  "vm_globals_max use_reply = (if use_reply then 1019 else 1023)"

lemma vmexec_unfold:
  assumes "code = drop (fpos inp) (fdata inp)" and "\<not> feof inp"
    and "l = nat local_vars" and "g = nat global_vars" and "l \<le> 63" and "g \<le> vm_globals_max r"
    and "code \<noteq> []" and "length code \<le> 1016" and "m = uninit w (5 + g)"
  shows "vmexec io inp out local_vars global_vars r w =
    ev3_write io (mem_VM_CMD (vm_request w code l g r)) (wire_len (vm_request w code l g r)) w (\<lambda>res w.
      if res < 0 then ret (ERR_COMM, []) (w\<lparr>errmsg := Some ''Unable to write VM_CMD.''\<rparr>)
      else if \<not> r then ret (ERR_UNK, []) (w\<lparr>errmsg := Some ''`vmexec` was successful.''\<rparr>)
      else ev3_read_timeout io m (5 + g) 2000 w (\<lambda>res mem w.
        if res \<le> 0 then ret (ERR_COMM, []) (w\<lparr>errmsg := Some ''Unable to read VM_REPLY''\<rparr>)
        else vm_finish out g mem w))"
proof -
  have lv: "(if local_vars < 0 then 0 else local_vars) = int l"
    and gv: "(if global_vars < 0 then 0 else global_vars) = int g"
    using assms(3,4) by auto
  have ok: "\<not> int l > 2 ^ 6 - 1" "\<not> int g > (if r then 1024 - int 5 else 2 ^ 10 - 1)"
    using assms(5,6) by (auto simp: vm_globals_max_def)
  have a: "packet_alloc sizeof_VM_CMD EXECUTE_FILE_INIT max_bytecodes
      = Some (EXECUTE_FILE_INIT\<lparr>packetLen := body_len (sizeof_VM_CMD + max_bytecodes)\<rparr>)"
    by (simp add: sizeof_commands max_bytecodes_eq)
  obtain inp' where fr: "fread max_bytecodes inp = (code, inp')" and eof: "feof inp'"
    using assms(1,2,8) by (simp add: fread_def Let_def max_bytecodes_eq)
  have nz: "\<not> length code = 0" using assms(7) by simp
  have pk: "push_bit 10 (of_int (int l)) OR of_int (int g) = pack_vars l g" by (simp add: pack_vars_def)
  have upd: "EXECUTE_FILE_INIT\<lparr>packetLen := body_len (sizeof_VM_CMD + max_bytecodes),
      vm_bytes := x, replyType := y, vm_alloc := z, packetLen := p\<rparr>
    = EXECUTE_FILE_INIT\<lparr>packetLen := p, vm_bytes := x, replyType := y, vm_alloc := z\<rparr>" for x y z p
    by simp
  note req = vm_request_def [symmetric]
  have sel: "vr_replyType (as_VM_REPLY b) = b ! 4" "vr_packetLen (as_VM_REPLY b) = get16 b 0"
    "vr_bytes (as_VM_REPLY b) = drop 5 b" for b
    by (simp_all add: as_VM_REPLY_def)
  show ?thesis
    by (simp only: vmexec_def Let_def lv gv ok if_False a option.case fr prod.case eof not_True_eq_False nz pk upd req
        nat_int sel vm_finish_def assms(9) TIMEOUT_def sizeof_VM_REPLY_def)
      (rule ev3_write_cong, drule uninit_cong [of _ _ "5 + g"], simp)
qed

text \<open>The checks, taken one by one.\<close>

lemma vmexec_checks:
  assumes "vmexec io inp out local_vars global_vars r w = Some (Ret (ERR_UNK, ob), w')" and "\<not> feof inp"
  defines "code \<equiv> drop (fpos inp) (fdata inp)"
  shows "nat local_vars \<le> 63" and "nat global_vars \<le> vm_globals_max r" and "code \<noteq> []" and "length code \<le> 1016"
proof -
  have a: "packet_alloc sizeof_VM_CMD EXECUTE_FILE_INIT max_bytecodes
      = Some (EXECUTE_FILE_INIT\<lparr>packetLen := body_len (sizeof_VM_CMD + max_bytecodes)\<rparr>)"
    by (simp add: sizeof_commands max_bytecodes_eq)
  obtain got inp' where fr: "fread max_bytecodes inp = (got, inp')" by (cases "fread max_bytecodes inp")
  have got: "got = take 1017 code" "feof inp' \<longleftrightarrow> length code < 1017"
    using fr assms(2) by (auto simp: fread_def Let_def max_bytecodes_eq code_def)
  show l: "nat local_vars \<le> 63"
    using assms(1) by (rule_tac ccontr) (simp add: vmexec_def Let_def split: if_splits)
  show "nat global_vars \<le> vm_globals_max r"
    using assms(1) by (rule_tac ccontr)
      (auto simp: vmexec_def Let_def vm_globals_max_def sizeof_replies split: if_splits)
  show "length code \<le> 1016"
    using assms(1) got by (rule_tac ccontr) (auto simp: vmexec_def Let_def a fr split: if_splits)
  show "code \<noteq> []"
    using assms(1) got by (rule_tac ccontr) (auto simp: vmexec_def Let_def a fr split: if_splits)
qed

text \<open>
  C10: A direct command that reports success was sent as one frame whose variable word holds the two
  counts in six and ten bits, after the reply type, before exactly the bytes of the input; the input
  has 1 to 1016 bytes, and the counts are within their limits. When a reply is wanted one reply is
  read, and a file receives as many bytes of it as there are globals.
\<close>

theorem vmexec_ok:
  assumes "vmexec io inp out local_vars global_vars r w = Some (Ret (ERR_UNK, ob), w')" and "\<not> feof inp"
    and "l = nat local_vars" and "g = nat global_vars" and "code = drop (fpos inp) (fdata inp)"
  shows "1 \<le> length code \<and> length code \<le> 1016 \<and> l \<le> 63 \<and> g \<le> (if r then 1019 else 1023)
    \<and> (\<exists>vars. unat vars div 1024 = l \<and> unat vars mod 1024 = g
        \<and> trace w' = trace w @ Wr (vm_frame r vars code) # (if r then [Rd (5 + g) 2000] else []))
    \<and> (r \<longrightarrow> (\<exists>b. received w' = received w @ [b] \<and>
        ob = (if out = OutFile then take g (drop 5 (overlay (uninit w (5 + g)) b)) else [])))"
proof -
  note checks = vmexec_checks [OF assms(1,2), folded assms(3-5)]
  note run = assms(1) [unfolded vmexec_unfold [OF assms(5,2,3,4) checks refl]]
  note wire = vm_wire [of code, unfolded max_bytecodes_eq]
  have code: "length code \<le> 1017" using checks(4) by simp
  have g: "g < 1024" using checks(2) by (simp add: vm_globals_max_def split: if_splits)
  have vars: "unat (pack_vars l g) div 1024 = l" "unat (pack_vars l g) mod 1024 = g"
    by (rule pack_vars_fields; use checks(1) g in simp)+
  have "trace w' = trace w @ Wr (vm_frame r (pack_vars l g) code) # (if r then [Rd (5 + g) 2000] else [])
    \<and> (r \<longrightarrow> (\<exists>b. received w' = received w @ [b] \<and>
        ob = (if out = OutFile then take g (drop 5 (overlay (uninit w (5 + g)) b)) else [])))"
  proof (cases r)
    case False
    with run show ?thesis
      by (elim ev3_write_RetE) (auto simp: wire(2) [OF code] split: if_splits)
  next
    case True
    note run' = run [simplified True not_True_eq_False if_False]
    show ?thesis
      using run'
    proof (cases rule: exchange_RetE)
      case (answered b w1)
      have "trace w' = trace w1 \<and> received w' = received w1 \<and>
          ob = (if out = OutFile then take g (drop 5 (overlay (uninit w (5 + g)) b)) else [])"
        using answered(7) by (auto simp: vm_finish_def Let_def elim!: print_bytes_RetE split: if_splits)
      with answered True show ?thesis by (simp add: wire(2) [OF code])
    qed simp_all
  qed
  with checks vars show ?thesis by (auto simp: vm_globals_max_def Suc_le_eq)
qed

theorem vmexec_ok_witness:
  "\<exists>w' vars. vmexec scripted (open_rb [0x01]) OutFile 0 2 True (world0 [[5, 0, 0, 0, 2, 7, 8]])
      = Some (Ret (ERR_UNK, [7, 8]), w')
    \<and> unat vars mod 1024 = 2 \<and> trace w' = [Wr (vm_frame True vars [0x01]), Rd 7 2000]"
proof -
  let ?w = "world0 [[5, 0, 0, 0, 2, 7, 8]] :: u8 list list world"
  have code: "length [0x01 :: u8] \<le> max_bytecodes" by (simp add: max_bytecodes_eq)
  have "\<exists>w'. vmexec scripted (open_rb [0x01]) OutFile 0 2 True ?w = Some (Ret (ERR_UNK, [7, 8]), w')"
    by (simp add: vmexec_unfold [of "[0x01]" _ 0 _ 2] open_rb_def vm_globals_max_def
        ev3_write_fits [OF vm_wire(1) [OF code]] ev3_read_timeout_def vm_finish_def VM_DIRECT_OK_def)
  then obtain w' where w': "vmexec scripted (open_rb [0x01]) OutFile 0 2 True ?w = Some (Ret (ERR_UNK, [7, 8]), w')"
    by blast
  have more: "\<not> feof (open_rb [0x01])" by (simp add: open_rb_def)
  from vmexec_ok [OF w' more refl refl refl] w' show ?thesis by (auto simp: open_rb_def)
qed

section \<open>The executable file\<close>

text \<open>The command in such a file: from byte 30 to the next zero.\<close>

definition rbf_command :: "u8 list \<Rightarrow> u8 list" where
  "rbf_command b = takeWhile (\<lambda>x. x \<noteq> 0) (drop 30 b)"

text \<open>
  C13: The file \<^verbatim>\<open>mkrbf\<close> makes for a command has its own length in bytes 4 to 7, the returned size
  is that length, and the command, with its terminator, can be read back from byte 30.
\<close>

theorem mkrbf_roundtrip:
  assumes "c_string cmd_str" and "length cmd_str < 4294967256"
  shows "\<exists>buf. mkrbf cmd_str = Some (buf, length buf) \<and> length buf = length cmd_str + 40
    \<and> take 4 buf = bytes ''LEGO'' \<and> unat (get32 buf 4) = length buf \<and> rbf_command buf = bytes cmd_str"
proof -
  define sz where "sz = (of_nat (length magic + 4 + length before + length cmd_str + 1 + length after) :: u32)"
  define buf where "buf = magic @ le32 sz @ before @ cstr cmd_str @ after"
  have rbf_parts: "length magic = 4" "length before = 22" "length after = 9" "magic = bytes ''LEGO''"
    by (simp_all add: magic_def before_def after_def)
  have len: "length buf = length cmd_str + 40" by (simp add: buf_def rbf_parts)
  have sz: "unat sz = length buf"
    using assms(2) unfolding sz_def len rbf_parts by (subst unat_u32_small) simp_all
  have field: "get32 buf 4 = sz" by (rule get32_at [of _ magic _ "before @ cstr cmd_str @ after"]) (simp_all add: buf_def rbf_parts)
  have "drop 30 buf = cstr cmd_str @ after" by (simp add: buf_def rbf_parts)
  then have cmd: "rbf_command buf = bytes cmd_str"
    using takeWhile_cstr [OF assms(1)] by (simp add: rbf_command_def cstr_def)
  have "mkrbf cmd_str = Some (buf, unat sz)"
    by (simp only: mkrbf_def Let_def sz_def [symmetric] buf_def [symmetric] sz)  simp
  moreover have "take 4 buf = bytes ''LEGO''" by (simp add: buf_def rbf_parts(4))
  ultimately show ?thesis using sz field cmd len by auto
qed

theorem mkrbf_roundtrip_witness:
  "\<exists>buf. mkrbf ''ls'' = Some (buf, 42) \<and> rbf_command buf = bytes ''ls''"
  using mkrbf_roundtrip [of "''ls''"] by (auto simp: c_string_def)

section \<open>Starting a file\<close>

text \<open>
  \<^verbatim>\<open>run\<close> lends the transport 1026 bytes of a buffer of 1024: any reply of 1025 or 1026 bytes to
  the start request overruns it, whatever the file and the timeout.
\<close>

theorem run_overruns:
  assumes "length exec < 65513" and "1024 < length b" and "length b \<le> 1026"
  shows "\<exists>w'. run scripted exec timeout (world0 (b # bs)) = Some (Undef, w')"
proof -
  have a: "packet_alloc sizeof_VM_CMD EXECUTE_FILE_INIT (length run1 + (length exec + 1) + length run2)
      = Some (EXECUTE_FILE_INIT\<lparr>packetLen := body_len (sizeof_VM_CMD + (length run1 + (length exec + 1) + length run2))\<rparr>)"
    using assms(1) by (simp add: sizeof_commands run1_def run2_def)
  have wl: "wire_len (EXECUTE_FILE_INIT\<lparr>packetLen := body_len (sizeof_VM_CMD + (length run1 + (length exec + 1) + length run2)),
      vm_bytes := run1 @ cstr exec @ run2\<rparr>) = 8 + (length run1 + (length exec + 1) + length run2)"
    using assms(1) by (simp add: wire_len_def sizeof_commands run1_def run2_def)
  show ?thesis
    unfolding run_def Let_def a option.case wl using assms(2)
    by (simp add: ev3_write_fits ev3_read_timeout_def sizeof_commands)
qed

theorem run_overruns_witness:
  "\<exists>w'. run scripted ''a.rbf'' 0 (world0 [replicate 1025 0]) = Some (Undef, w')"
  by (rule run_overruns) simp_all

end
