(* ===== verification/Tunnel.thy ===== *)
theory Tunnel
  imports Scripted
begin

text \<open>
  The commands that connect the standard streams to the brick: \<^verbatim>\<open>src/src/tunnel.c\<close> (packets typed in
  hexadecimal), \<^verbatim>\<open>src/src/send.c\<close> (lines sent as they are) and \<^verbatim>\<open>src/src/listen.c\<close> (raw reads).
  The standard input is a file that is read from its position.
\<close>

section \<open>Reading a line\<close>

text \<open>
  What \<^verbatim>\<open>fgets\<close> takes of the remaining input with room for \<open>m\<close> bytes before the terminator: up to
  and including the first newline.
\<close>

definition first_line :: "nat \<Rightarrow> u8 list \<Rightarrow> u8 list" where
  "first_line m inp =
    (let room = take m inp; line = takeWhile (\<lambda>c. c \<noteq> 10) room
     in if length line < length room then line @ [10] else line)"

definition fgets :: "nat \<Rightarrow> FILE \<Rightarrow> (u8 list \<times> FILE) option" where
  "fgets n f =
    (let line = first_line (n - 1) (drop (fpos f) (fdata f))
     in if line = [] then None else Some (line, f\<lparr>fpos := fpos f + length line\<rparr>))"

text \<open>The string in the buffer: the line up to a NUL in it.\<close>

definition line_string :: "u8 list \<Rightarrow> u8 list" where
  "line_string line = takeWhile (\<lambda>c. c \<noteq> 0) line"

section \<open>tunnel\<close>

definition hex2nib :: "u8 \<Rightarrow> int" where
  "hex2nib hex =
    (if 97 \<le> hex \<and> hex \<le> 102 then uint hex - 97 + 0x0A
     else if 65 \<le> hex \<and> hex \<le> 70 then uint hex - 65 + 0x0A
     else if 48 \<le> hex \<and> hex \<le> 57 then uint hex - 48
     else if isspace hex \<or> \<not> isgraph hex then - 1
     else 0)"

text \<open>The first pass over the line: how many placeholders it starts with, at most four.\<close>

fun scan_prefix :: "u8 list \<Rightarrow> nat \<Rightarrow> nat" where
  "scan_prefix [] prefix_len = prefix_len"
| "scan_prefix (c # cs) prefix_len =
    (let tmp = hex2nib c in
     if tmp = - 1 then scan_prefix cs prefix_len
     else if tmp = 0 \<and> c \<noteq> 48 then
       (let prefix_len = prefix_len + 1 in
        if prefix_len = 4 then prefix_len else scan_prefix cs prefix_len)
     else prefix_len)"

text \<open>
  The second pass: pairs of digits become bytes, stored at \<^verbatim>\<open>bp\<close> (kept as its offset). \<open>None\<close> when
  it stores outside \<^verbatim>\<open>binbuf\<close>.
\<close>

fun fill_bytes :: "u8 list \<Rightarrow> u8 \<Rightarrow> bool \<Rightarrow> nat \<Rightarrow> u8 list \<Rightarrow> (nat \<times> u8 list) option" where
  "fill_bytes [] byte nibble bp binbuf = Some (bp, binbuf)"
| "fill_bytes (c # cs) byte nibble bp binbuf =
    (let tmp = hex2nib c in
     if tmp = - 1 then fill_bytes cs byte nibble bp binbuf
     else if nibble then
       (if bp < length binbuf then fill_bytes cs byte False (bp + 1) (binbuf[bp := byte + of_int tmp])
        else None)
     else fill_bytes cs (push_bit 4 (of_int tmp)) True bp binbuf)"

text \<open>
  One turn of the loop over the lines; its variables are the input and \<^verbatim>\<open>binbuf\<close>, which is reused.
  The result of the write is ignored.
\<close>

definition tunnel_turn ::
    "'d ev3_io \<Rightarrow> FILE \<times> u8 list \<Rightarrow> 'd world \<Rightarrow> ((FILE \<times> u8 list) + ERR, 'd) run" where
  "tunnel_turn io = (\<lambda>(inp, binbuf) w.
    (case fgets 2560 inp of
       None \<Rightarrow> ret (Inr ERR_UNK) w
     | Some (line, inp) \<Rightarrow>
       let hexbuf = line_string line;
           prefix_len = scan_prefix hexbuf 0
       in case fill_bytes hexbuf 0 False 1 binbuf of
         None \<Rightarrow> undef w
       | Some (bp, binbuf) \<Rightarrow>
         let len = bp + 1;
             binbuf = (if prefix_len = 4 then put_at 1 (le16 (of_nat (len - 2))) binbuf else binbuf);
             w = put_out (bytes (''prefix_len='' @ dec prefix_len @ '', len='' @ dec len @ ''\<newline>'')) w
         in print_bytes binbuf (len - 1) w (\<lambda>w.
            ev3_write io binbuf (len - 1) w (\<lambda>_ w. ret (Inl (inp, binbuf)) w))))"

text \<open>The branch for a pipe is dead code: its condition is \<^verbatim>\<open>isatty(STDIN_FILENO) || 1\<close>.\<close>

definition tunnel_mode :: "'d ev3_io \<Rightarrow> FILE \<Rightarrow> 'd world \<Rightarrow> (ERR, 'd) run" where
  "tunnel_mode io inp w =
    (let binbuf = (uninit w 1280)[0 := 0] in loop (tunnel_turn io) (inp, binbuf) w)"

section \<open>send\<close>

definition dec_int :: "int \<Rightarrow> string" where
  "dec_int i = (if i < 0 then CHR ''-'' # dec (nat (- i)) else dec (nat i))"

definition sendout_turn ::
    "'d ev3_io \<Rightarrow> FILE \<times> u8 list \<Rightarrow> 'd world \<Rightarrow> ((FILE \<times> u8 list) + ERR, 'd) run" where
  "sendout_turn io = (\<lambda>(inp, buffer) w.
    (case fgets 1022 inp of
       None \<Rightarrow> ret (Inr ERR_UNK) w
     | Some (line, inp) \<Rightarrow>
       let buffer = put_at 1 (line @ [0]) buffer;
           len = length (line_string line) + 1
       in ev3_write io buffer len w (\<lambda>written w.
          let w = put_out (bytes (dec_int written @ '' bytes read.\<newline>'')) w
          in ret (Inl (inp, buffer)) w)))"

definition sendout :: "'d ev3_io \<Rightarrow> FILE \<Rightarrow> 'd world \<Rightarrow> (ERR, 'd) run" where
  "sendout io inp w = (let buffer = (uninit w 1023)[0 := 0] in loop (sendout_turn io) (inp, buffer) w)"

section \<open>listen\<close>

text \<open>
  \<^verbatim>\<open>listen\<close> reads with \<^verbatim>\<open>hid_read\<close> of the library, a read without a timeout, whatever the transport
  is. Printing the buffer as a string needs a NUL in it.
\<close>

definition listen_turn :: "'d ev3_io \<Rightarrow> u8 list \<Rightarrow> 'd world \<Rightarrow> (u8 list + ERR, 'd) run" where
  "listen_turn hid buffer w =
    ev3_read_timeout hid buffer 1280 (- 1) w (\<lambda>res buffer w.
    if res > 0 then
      let w = put_out (bytes (dec_int res @ '' bytes read.\<newline>'')) w in
      if 0 \<notin> set buffer then undef w
      else
        let w = put_out (bytes ''['' @ takeWhile (\<lambda>c. c \<noteq> 0) buffer @ bytes '']\<newline>'') w
        in ret (Inl (replicate 1280 0)) w
    else ret (Inr ERR_UNK) w)"

definition listen_mode :: "'d ev3_io \<Rightarrow> 'd world \<Rightarrow> (ERR, 'd) run" where
  "listen_mode hid w = loop (listen_turn hid) (replicate 1280 0) w"

section \<open>The lines of an input\<close>

lemma first_line_length: "length (first_line m inp) \<le> m"
proof -
  have "length (takeWhile (\<lambda>c. c \<noteq> 10) (take m inp)) \<le> length (take m inp)" by (rule length_takeWhile_le)
  then show ?thesis by (auto simp: first_line_def Let_def)
qed

lemma first_line_fits: "length (first_line m inp) \<le> length inp"
proof -
  have "length (takeWhile (\<lambda>c. c \<noteq> 10) (take m inp)) \<le> length (take m inp)" by (rule length_takeWhile_le)
  then show ?thesis by (auto simp: first_line_def Let_def)
qed

function lines :: "nat \<Rightarrow> u8 list \<Rightarrow> u8 list list" where
  "lines m inp = (if first_line m inp = [] then []
     else first_line m inp # lines m (drop (length (first_line m inp)) inp))"
  by pat_completeness auto
termination
proof (relation "measure (\<lambda>(m, inp). length inp)")
  fix m and inp :: "u8 list"
  assume "first_line m inp \<noteq> []"
  then show "((m, drop (length (first_line m inp)) inp), m, inp) \<in> measure (\<lambda>(m, inp). length inp)"
    using first_line_fits [of m inp] by (auto simp: length_greater_0_conv [symmetric] simp del: length_greater_0_conv)
qed simp

declare lines.simps [simp del]

lemma lines_Nil [simp]: "lines m [] = []"
  by (subst lines.simps) (simp add: first_line_def)

lemma first_line_newline: "10 \<notin> set xs \<Longrightarrow> length xs < m \<Longrightarrow> first_line m (xs @ 10 # r) = xs @ [10]"
  by (auto simp: first_line_def Let_def takeWhile_append take_Cons' split: if_splits)

lemma lines_newline: "10 \<notin> set xs \<Longrightarrow> length xs < m \<Longrightarrow> lines m (xs @ 10 # r) = (xs @ [10]) # lines m r"
  by (subst lines.simps) (simp add: first_line_newline)

text \<open>
  The contract of the loops that send one frame per line: a turn ends the loop at the end of the
  input, and otherwise sends one frame and keeps what it needs of its buffer. Writes must return.
\<close>

definition accepts :: "'d ev3_io \<Rightarrow> bool" where
  "accepts io \<longleftrightarrow> (\<forall>d bs. io_write io d bs \<noteq> None)"

locale line_sender =
  fixes turn :: "'d ev3_io \<Rightarrow> FILE \<times> 's \<Rightarrow> 'd world \<Rightarrow> ((FILE \<times> 's) + ERR, 'd) run"
    and n :: nat and frame_of :: "u8 list \<Rightarrow> u8 list" and ok :: "'s \<Rightarrow> bool"
  assumes stop: "fgets n inp = None \<Longrightarrow> turn io (inp, s) w = ret (Inr ERR_UNK) w"
    and send: "fgets n inp = Some (line, inp') \<Longrightarrow> ok s \<Longrightarrow> accepts io \<Longrightarrow> length line < n \<Longrightarrow>
      \<exists>s' w'. turn io (inp, s) w = ret (Inl (inp', s')) w' \<and> ok s' \<and> trace w' = trace w @ [Wr (frame_of line)]"
begin

lemma sends_lines:
  assumes "accepts io" and "ok s" and "0 < n"
  shows "\<exists>w'. loop (turn io) (inp, s) w = ret ERR_UNK w'
    \<and> trace w' = trace w @ map (Wr \<circ> frame_of) (lines (n - 1) (drop (fpos inp) (fdata inp)))"
  using assms(2)
proof (induction "length (fdata inp) - fpos inp" arbitrary: inp s w rule: less_induct)
  case less
  define line where "line = first_line (n - 1) (drop (fpos inp) (fdata inp))"
  show ?case
  proof (cases "line = []")
    case True
    then have "fgets n inp = None" by (simp add: fgets_def line_def)
    with stop [of inp io s w] True show ?thesis by (subst lines.simps) (simp add: loop_step line_def)
  next
    case False
    define inp' where "inp' = inp\<lparr>fpos := fpos inp + length line\<rparr>"
    have "fgets n inp = Some (line, inp')" using False by (simp add: fgets_def Let_def line_def inp'_def)
    moreover have "length line < n" using first_line_length [of "n - 1" "drop (fpos inp) (fdata inp)"] assms(3) unfolding line_def by linarith
    ultimately obtain s' w1 where t: "turn io (inp, s) w = ret (Inl (inp', s')) w1" "ok s'"
      "trace w1 = trace w @ [Wr (frame_of line)]"
      using send less.prems assms(1) by blast
    have "0 < length line" "length line \<le> length (fdata inp) - fpos inp"
      using False first_line_fits [of "n - 1" "drop (fpos inp) (fdata inp)"] by (simp_all add: line_def)
    then have "length (fdata inp') - fpos inp' < length (fdata inp) - fpos inp"
      unfolding inp'_def by (simp del: length_greater_0_conv)
    from less.hyps [OF this t(2), of w1] t obtain w' where
      "loop (turn io) (inp, s) w = ret ERR_UNK w'"
      "trace w' = trace w @ Wr (frame_of line) # map (Wr \<circ> frame_of) (lines (n - 1) (drop (fpos inp') (fdata inp')))"
      by (auto simp: loop_step)
    moreover have "lines (n - 1) (drop (fpos inp) (fdata inp)) = line # lines (n - 1) (drop (fpos inp') (fdata inp'))"
      using False by (subst lines.simps) (simp add: line_def inp'_def add.commute)
    ultimately show ?thesis by simp
  qed
qed

end

section \<open>What tunnel sends for a line\<close>

text \<open>The digits of a line, their pairs, and the frame: the reference the two passes are checked against.\<close>

definition nibbles :: "u8 list \<Rightarrow> u8 list" where
  "nibbles s = map (\<lambda>c. of_int (hex2nib c)) (filter (\<lambda>c. hex2nib c \<noteq> - 1) s)"

fun pairs :: "u8 list \<Rightarrow> u8 list" where
  "pairs (a # b # r) = (push_bit 4 a + b) # pairs r"
| "pairs _ = []"

definition placeholders :: "nat \<Rightarrow> u8 list \<Rightarrow> bool" where
  "placeholders k s \<longleftrightarrow> (let f = take k (filter (\<lambda>c. hex2nib c \<noteq> - 1) s)
     in length f = k \<and> list_all (\<lambda>c. hex2nib c = 0 \<and> c \<noteq> 48) f)"

definition tunnel_frame :: "u8 list \<Rightarrow> u8 list" where
  "tunnel_frame line =
    (let s = line_string line; bs = pairs (nibbles s)
     in 0 # (if placeholders 4 s then le16 (of_nat (length bs)) @ drop 2 bs else bs))"

lemma scan_prefix_4: "k < 4 \<Longrightarrow> scan_prefix s k = 4 \<longleftrightarrow> placeholders (4 - k) s"
proof (induction s arbitrary: k)
  case Nil
  then show ?case by (simp add: placeholders_def)
next
  case (Cons c s)
  consider (skip) "hex2nib c = - 1" | (holder) "hex2nib c = 0" "c \<noteq> 48" | (digit) "hex2nib c \<noteq> - 1" "hex2nib c \<noteq> 0 \<or> c = 48"
    by auto
  then show ?case
  proof cases
    case skip
    then show ?thesis using Cons by (simp add: placeholders_def)
  next
    case holder
    show ?thesis
    proof (cases "k = 3")
      case False
      then have "4 - k = Suc (4 - Suc k)" "scan_prefix s (Suc k) = 4 \<longleftrightarrow> placeholders (4 - Suc k) s"
        using Cons by simp_all
      then show ?thesis using holder False by (simp add: placeholders_def Let_def)
    qed (use holder in \<open>simp add: placeholders_def\<close>)
  next
    case digit
    obtain m where "4 - k = Suc m" using Cons.prems by (metis Suc_diff_Suc)
    then show ?thesis using digit Cons.prems by (auto simp: placeholders_def Let_def)
  qed
qed

lemma nibbles_simps [simp]:
  "nibbles [] = []"
  "nibbles (c # s) = (if hex2nib c = - 1 then nibbles s else of_int (hex2nib c) # nibbles s)"
  by (simp_all add: nibbles_def)

lemma nibbles_append: "nibbles (s @ t) = nibbles s @ nibbles t"
  by (simp add: nibbles_def)

lemma length_pairs: "2 * length (pairs ns) \<le> length ns"
  by (induction ns rule: pairs.induct) auto

lemma length_nibbles: "length (nibbles s) \<le> length s"
  by (simp add: nibbles_def)

text \<open>The second pass, also from the middle of a pair.\<close>

definition pend :: "bool \<Rightarrow> u8 \<Rightarrow> u8 list \<Rightarrow> u8 list" where
  "pend nibble byte ns = (if nibble then (case ns of [] \<Rightarrow> [] | b # r \<Rightarrow> (byte + b) # pairs r) else pairs ns)"

lemma put_at_Cons: "bp < length buf \<Longrightarrow> put_at (Suc bp) bs (buf[bp := b]) = put_at bp (b # bs) buf"
  by (simp add: put_at_def take_Suc_conv_app_nth drop_update_cancel)

lemma put_at_Nil [simp]: "put_at i [] buf = buf"
  by (simp add: put_at_def)

lemma pend_simps [simp]:
  "pend False byte ns = pairs ns" "pend True byte [] = []" "pend True byte (b # r) = (byte + b) # pairs r"
  by (simp_all add: pend_def)

lemma pairs_Cons: "pairs (a # ns) = pend True (push_bit 4 a) ns"
  by (cases ns) simp_all

lemma fill_bytes_pairs:
  "bp + length (pend nibble byte (nibbles cs)) \<le> length buf \<Longrightarrow>
    fill_bytes cs byte nibble bp buf
      = Some (bp + length (pend nibble byte (nibbles cs)), put_at bp (pend nibble byte (nibbles cs)) buf)"
proof (induction cs arbitrary: byte nibble bp buf)
  case (Cons c cs)
  show ?case
  proof (cases "hex2nib c = - 1")
    case True
    then show ?thesis using Cons by simp
  next
    case False
    show ?thesis
    proof (cases nibble)
      case True
      then show ?thesis using False Cons.prems
        by (simp add: Let_def Cons.IH [where nibble = False] put_at_Cons)
    next
      case nibble: False
      then show ?thesis using False Cons.prems
        by (simp add: Let_def Cons.IH [where nibble = True] pairs_Cons)
    qed
  qed
qed (auto simp: pend_def)

section \<open>Every line becomes one frame\<close>

definition tunnel_ok :: "u8 list \<Rightarrow> bool" where
  "tunnel_ok binbuf \<longleftrightarrow> length binbuf = 1280 \<and> binbuf ! 0 = 0"

lemma placeholders_pairs:
  assumes "placeholders 4 s"
  shows "2 \<le> length (pairs (nibbles s))"
proof -
  have "4 \<le> length (filter (\<lambda>c. hex2nib c \<noteq> - 1) s)"
    using assms by (auto simp: placeholders_def Let_def min_def split: if_splits)
  then have "4 \<le> length (nibbles s)" by (simp add: nibbles_def)
  then obtain a b c d r where "nibbles s = a # b # c # d # r"
    by (auto simp: numeral_eq_Suc Suc_le_length_iff)
  then show ?thesis by simp
qed

lemma put_at_put_at:
  assumes "length xs \<le> length ys" and "i + length ys \<le> length buf"
  shows "put_at i xs (put_at i ys buf) = put_at i (xs @ drop (length xs) ys) buf"
proof -
  have "min (length buf) i = i" using assms by linarith
  then show ?thesis using assms by (simp add: put_at_def)
qed

lemma take_put_at: "i + length bs \<le> length buf \<Longrightarrow> take (i + length bs) (put_at i bs buf) = take i buf @ bs"
  by (cases bs) (auto simp: put_at_def min_def)

lemma take_one: "buf \<noteq> [] \<Longrightarrow> take (Suc 0) buf = [buf ! 0]"
  by (cases buf) simp_all

lemma tunnel_turn_sends:
  assumes f: "fgets 2560 inp = Some (line, inp')" and ok: "tunnel_ok buf" and io: "accepts io"
    and len: "length line < 2560"
  shows "\<exists>buf' w'. tunnel_turn io (inp, buf) w = ret (Inl (inp', buf')) w' \<and> tunnel_ok buf'
    \<and> trace w' = trace w @ [Wr (tunnel_frame line)]"
proof -
  define s where "s = line_string line"
  define bs where "bs = pairs (nibbles s)"
  define bs' where "bs' = (if placeholders 4 s then le16 (of_nat (length bs)) @ drop 2 bs else bs)"
  define buf' where "buf' = put_at 1 bs' buf"
  have "2 * length bs \<le> length s"
    using length_pairs [of "nibbles s"] length_nibbles [of s] by (simp add: bs_def)
  also have "length s \<le> length line" by (simp add: s_def line_string_def length_takeWhile_le)
  finally have fits: "1 + length bs \<le> length buf" using len ok by (simp add: tunnel_ok_def)
  have two: "placeholders 4 s \<Longrightarrow> 2 \<le> length bs" using placeholders_pairs by (simp add: bs_def)
  then have l: "length bs' = length bs" by (auto simp: bs'_def)
  have filled: "fill_bytes s 0 False 1 buf = Some (1 + length bs, put_at 1 bs buf)"
    using fill_bytes_pairs [of 1 False 0 s buf] fits by (simp add: bs_def)
  have final: "(if scan_prefix s 0 = 4 then put_at 1 (le16 (of_nat (1 + length bs + 1 - 2))) (put_at 1 bs buf)
      else put_at 1 bs buf) = buf'"
    using scan_prefix_4 [of 0 s] two fits by (simp add: buf'_def bs'_def put_at_put_at)
  have ok': "tunnel_ok buf'"
    using ok fits l by (cases buf) (simp_all add: tunnel_ok_def buf'_def put_at_def)
  have sent: "take (1 + length bs) buf' = tunnel_frame line"
  proof -
    have "buf \<noteq> []" "buf ! 0 = 0" using ok by (auto simp: tunnel_ok_def)
    then have "take 1 buf = [0]" using take_one [of buf] by simp
    moreover have "take (1 + length bs') (put_at 1 bs' buf) = take 1 buf @ bs'"
      using take_put_at [of 1 bs' buf] fits l by simp
    ultimately have "take (1 + length bs) buf' = 0 # bs'" using l by (simp add: buf'_def)
    then show ?thesis by (simp add: tunnel_frame_def Let_def bs'_def bs_def s_def)
  qed
  have "length buf' = length buf" using fits l by (simp add: buf'_def)
  then have room: "\<not> length buf' < 1 + length bs" using fits by simp
  have last: "1 + length bs + 1 - 1 = 1 + length bs" by simp
  obtain w1 where w1: "trace w1 = trace w" and run: "tunnel_turn io (inp, buf) w
      = ev3_write io buf' (1 + length bs) w1 (\<lambda>_ w. ret (Inl (inp', buf')) w)"
    using room by (simp only: tunnel_turn_def prod.case f option.case Let_def s_def [symmetric] filled final last
      print_bytes_def if_False) (metis put_err_sel(2) put_out_sel(2))
  obtain res d where "io_write io (dev w1) (take (1 + length bs) buf') = Some (res, d)"
    using io unfolding accepts_def by (metis surj_pair option.exhaust)
  then show ?thesis using run room ok' w1 sent by (simp add: ev3_write_def)
qed

interpretation tunnel: line_sender tunnel_turn 2560 tunnel_frame tunnel_ok
proof
  fix io :: "'d ev3_io" and inp s and w :: "'d world"
  assume "fgets 2560 inp = None"
  then show "tunnel_turn io (inp, s) w = ret (Inr ERR_UNK) w" by (simp add: tunnel_turn_def)
qed (rule tunnel_turn_sends)

lemma line_string_plain: "0 \<notin> set line \<Longrightarrow> line_string (line @ [10]) = line @ [10]"
  unfolding line_string_def takeWhile_eq_all_conv by auto

lemma filter_take_None: "\<forall>c \<in> set s. hex2nib c = 0 \<longrightarrow> c = 48 \<Longrightarrow> \<not> placeholders 4 s"
proof (rule notI)
  assume plain: "\<forall>c \<in> set s. hex2nib c = 0 \<longrightarrow> c = 48" and "placeholders 4 s"
  then obtain c where "c \<in> set (filter (\<lambda>c. hex2nib c \<noteq> - 1) s)" "hex2nib c = 0" "c \<noteq> 48"
    by (cases "filter (\<lambda>c. hex2nib c \<noteq> - 1) s") (auto simp: placeholders_def)
  then show False using plain by auto
qed

lemma tunnel_sends_frames:
  assumes "accepts io"
  shows "\<exists>w'. tunnel_mode io (open_rb inp) w = Some (Ret ERR_UNK, w')
    \<and> trace w' = trace w @ map (Wr \<circ> tunnel_frame) (lines 2559 inp)"
proof -
  have "tunnel_ok ((uninit w 1280)[0 := 0])" by (simp add: tunnel_ok_def)
  from tunnel.sends_lines [OF assms this, of "open_rb inp" w] show ?thesis
    by (simp add: tunnel_mode_def open_rb_def)
qed

text \<open>What can be typed: a hexadecimal digit with its value, and characters that are ignored.\<close>

definition hex_value :: "u8 \<Rightarrow> nat option" where
  "hex_value c =
    (if unat c \<in> {48..57} then Some (unat c - 48) else if unat c \<in> {65..70} then Some (unat c - 55)
     else if unat c \<in> {97..102} then Some (unat c - 87) else None)"

fun hex_bytes :: "nat list \<Rightarrow> u8 list" where
  "hex_bytes (a # b # r) = of_nat (16 * a + b) # hex_bytes r"
| "hex_bytes _ = []"

text \<open>
  A line of whole bytes in hexadecimal, without its newline: an even number of digits, which may be set apart by
  blanks and characters that are not graphical.
\<close>

definition hex_line :: "u8 list \<Rightarrow> bool" where
  "hex_line l \<longleftrightarrow> length l \<le> 2558 \<and> even (length (List.map_filter hex_value l))
    \<and> (\<forall>c \<in> set l. c \<noteq> 0 \<and> c \<noteq> 10 \<and> (hex_value c \<noteq> None \<or> isspace c \<or> \<not> isgraph c))"

lemma hex_value_nib:
  "case hex_value c of Some v \<Rightarrow> v < 16 \<and> hex2nib c = int v \<and> (v = 0 \<longrightarrow> c = 48)
     | None \<Rightarrow> isspace c \<or> \<not> isgraph c \<longrightarrow> hex2nib c = - 1"
proof -
  have u: "uint c = int (unat c)" by simp
  have le: "a \<le> c \<longleftrightarrow> unat a \<le> unat c" "c \<le> a \<longleftrightarrow> unat c \<le> unat a" for a by (simp_all add: word_le_nat_alt)
  have "c = 48" if "unat c = 48"
  proof -
    have "unat c = unat (48 :: u8)" using that by simp
    then show ?thesis by (simp only: word_unat_eq_iff)
  qed
  then show ?thesis unfolding hex_value_def hex2nib_def le u by auto
qed

lemma hex_line_nibbles:
  assumes "\<forall>c \<in> set l. hex_value c \<noteq> None \<or> isspace c \<or> \<not> isgraph c"
  shows "nibbles l = map of_nat (List.map_filter hex_value l)" and "\<forall>v \<in> set (List.map_filter hex_value l). v < 16"
  using assms
proof (induction l)
  case (Cons c l)
  {
    case 1
    then show ?case using Cons.IH(1) hex_value_nib [of c] by (cases "hex_value c") (auto simp: List.map_filter_simps)
  next
    case 2
    then show ?case using Cons.IH(2) hex_value_nib [of c] by (cases "hex_value c") (auto simp: List.map_filter_simps)
  }
qed (simp_all add: List.map_filter_simps)

lemma pairs_hex_bytes: "pairs (map of_nat ns) = hex_bytes ns"
  by (induction ns rule: hex_bytes.induct) (simp_all add: push_bit_eq_mult)

lemma tunnel_frame_hex:
  assumes "hex_line l"
  shows "tunnel_frame (l @ [10]) = 0 # hex_bytes (List.map_filter hex_value l)"
proof -
  have l: "\<forall>c \<in> set l. hex_value c \<noteq> None \<or> isspace c \<or> \<not> isgraph c" and z: "0 \<notin> set l"
    using assms by (auto simp: hex_line_def)
  have nl: "hex2nib 10 = - 1" by (simp add: hex2nib_def isspace_def)
  have "hex2nib c = 0 \<longrightarrow> c = 48" if "c \<in> set (l @ [10])" for c
    using that l hex_value_nib [of c] nl by (cases "hex_value c") auto
  then have "\<not> placeholders 4 (l @ [10])" by (intro filter_take_None) blast
  then show ?thesis
    using hex_line_nibbles(1) [OF l] z nl
    by (simp add: tunnel_frame_def Let_def line_string_plain nibbles_append pairs_hex_bytes)
qed

lemma lines_typed:
  "\<forall>l \<in> set ls. 10 \<notin> set l \<and> length l < m \<Longrightarrow> lines m (concat (map (\<lambda>l. l @ [10]) ls)) = map (\<lambda>l. l @ [10]) ls"
  by (induction ls) (simp_all add: lines_newline)

text \<open>
  C37: Typing lines of bytes in hexadecimal into the tunnel sends one frame for each line, in order, that is
  exactly the report byte and the bytes typed, and ends with the input, on any transport whose writes return.
  A line has an even number of digits, of which any may be set apart by blanks and characters that are not
  graphical, and at most 2558 characters. What other characters do (placeholders for the length, and
  characters the description promises to round), and input from a pipe, are not part of this.
\<close>

theorem tunnel_sends:
  assumes "accepts io" and "\<forall>l \<in> set ls. hex_line l"
  shows "\<exists>w'. tunnel_mode io (open_rb (concat (map (\<lambda>l. l @ [10]) ls))) w = Some (Ret ERR_UNK, w')
    \<and> trace w' = trace w @ map (\<lambda>l. Wr (0 # hex_bytes (List.map_filter hex_value l))) ls"
proof -
  have "lines 2559 (concat (map (\<lambda>l. l @ [10]) ls)) = map (\<lambda>l. l @ [10]) ls"
    by (rule lines_typed) (use assms(2) in \<open>auto simp: hex_line_def\<close>)
  then show ?thesis
    using tunnel_sends_frames [OF assms(1), of "concat (map (\<lambda>l. l @ [10]) ls)" w] tunnel_frame_hex assms(2) by auto
qed

theorem tunnel_sends_witness:
  "\<exists>w'. tunnel_mode loopback (open_rb (bytes ''0600 0000 01 9b\<newline>41\<newline>'')) (world0 ()) = Some (Ret ERR_UNK, w')
    \<and> trace w' = [Wr [0, 6, 0, 0, 0, 1, 0x9B], Wr [0, 0x41]]"
proof -
  let ?ls = "[bytes ''0600 0000 01 9b'', bytes ''41'']"
  have io: "accepts loopback" by (simp add: accepts_def loopback_def)
  have "concat (map (\<lambda>l. l @ [10]) ?ls) = bytes ''0600 0000 01 9b\<newline>41\<newline>''" by code_simp
  moreover have "\<forall>l \<in> set ?ls. hex_line l" unfolding hex_line_def by code_simp
  moreover have "map (\<lambda>l. Wr (0 # hex_bytes (List.map_filter hex_value l))) ?ls = [Wr [0, 6, 0, 0, 0, 1, 0x9B], Wr [0, 0x41]]"
    by code_simp
  ultimately show ?thesis using tunnel_sends [OF io, of ?ls "world0 ()"] by simp
qed

section \<open>Dumps can be typed back\<close>

lemma hex2nib_digit: "n < 16 \<Longrightarrow> hex2nib (of_char (hex_digit n)) = int n"
proof -
  have "list_all (\<lambda>n. hex2nib (of_char (hex_digit n)) = int n) [0..<16]" by code_simp
  then show "n < 16 \<Longrightarrow> ?thesis" by (simp add: list_all_iff)
qed

lemma nibbles_hex_byte: "nibbles (bytes (hex_byte b)) = [of_nat (unat b div 16), of_nat (unat b mod 16)]"
proof -
  have "unat b div 16 < 16" "unat b mod 16 < 16"
    using unat_u8_bound [of b] by (simp_all add: less_mult_imp_div_less)
  moreover have "hex2nib 32 = - 1" by (simp add: hex2nib_def isspace_def)
  ultimately show ?thesis by (simp add: hex_byte_def bytes_def hex2nib_digit)
qed

lemma pair_byte: "push_bit 4 (of_nat (unat b div 16)) + of_nat (unat b mod 16) = (b :: u8)"
proof -
  have "push_bit 4 (of_nat (unat b div 16) :: u8) = of_nat (unat b div 16 * 16)"
    by (simp add: push_bit_eq_mult)
  then have "push_bit 4 (of_nat (unat b div 16)) + of_nat (unat b mod 16) = (of_nat (unat b div 16 * 16 + unat b mod 16) :: u8)"
    by (simp only: of_nat_add)
  then show ?thesis by simp
qed

lemma pairs_dump: "pairs (nibbles (bytes (concat (map hex_byte bs)) @ r)) = bs @ pairs (nibbles r)"
  by (induction bs) (simp_all add: nibbles_append nibbles_hex_byte pair_byte)

lemma dump_chars:
  assumes "c \<in> set (bytes (concat (map hex_byte bs)))"
  shows "c \<noteq> 0 \<and> c \<noteq> 10 \<and> (hex2nib c = 0 \<longrightarrow> c = 48)"
proof -
  have "list_all (\<lambda>n. of_char (hex_digit n) \<noteq> (0 :: u8) \<and> of_char (hex_digit n) \<noteq> (10 :: u8)
      \<and> (hex2nib (of_char (hex_digit n)) = 0 \<longrightarrow> of_char (hex_digit n) = (48 :: u8))) [0..<16]"
    by code_simp
  then have digit: "of_char (hex_digit n) \<noteq> (0 :: u8) \<and> of_char (hex_digit n) \<noteq> (10 :: u8)
      \<and> (hex2nib (of_char (hex_digit n)) = 0 \<longrightarrow> of_char (hex_digit n) = (48 :: u8))" if "n < 16" for n
    using that by (simp add: list_all_iff)
  obtain b :: u8 where "c \<in> set (bytes (hex_byte b))" using assms by (auto simp: bytes_def)
  moreover have "unat b div 16 < 16" "unat b mod 16 < 16"
    using unat_u8_bound [of b] by (simp_all add: less_mult_imp_div_less)
  moreover have "hex2nib 32 \<noteq> 0" by (simp add: hex2nib_def isspace_def)
  ultimately show ?thesis using digit by (auto simp: hex_byte_def bytes_def)
qed

lemma length_dump: "length (concat (map hex_byte bs)) = 3 * length bs"
  by (induction bs) (simp_all add: hex_byte_def)

lemma hex2nib_newline: "hex2nib 10 = - 1"
  by (simp add: hex2nib_def isspace_def)

text \<open>
  C38: A packet dump in the format of \<^verbatim>\<open>print_bytes\<close>, two hexadecimal digits and a blank per byte, typed
  into the tunnel, sends exactly the dumped bytes after the report byte; up to 852 bytes fit a line.
\<close>

theorem tunnel_roundtrip:
  assumes "accepts io" and "length bs \<le> 852"
  shows "\<exists>w'. tunnel_mode io (open_rb (bytes (concat (map hex_byte bs) @ ''\<newline>''))) w = Some (Ret ERR_UNK, w')
    \<and> trace w' = trace w @ [Wr (0 # bs)]"
proof -
  define line where "line = bytes (concat (map hex_byte bs))"
  have c: "0 \<notin> set line" "10 \<notin> set line" "\<forall>c \<in> set (line @ [10]). hex2nib c = 0 \<longrightarrow> c = 48"
    using dump_chars [of _ bs] by (auto simp: line_def hex2nib_newline)
  have "tunnel_frame (line @ [10]) = 0 # bs"
    using pairs_dump [of bs "[10]", folded line_def] filter_take_None [OF c(3)]
    by (simp add: tunnel_frame_def Let_def line_string_plain [OF c(1)] hex2nib_newline)
  moreover have "lines 2559 (line @ [10]) = [line @ [10]]"
    using lines_newline [of line 2559 "[]"] c assms(2) length_dump [of bs] by (simp add: line_def)
  moreover have "bytes (concat (map hex_byte bs) @ ''\<newline>'') = line @ [10]"
    by (simp add: line_def bytes_def)
  ultimately show ?thesis using tunnel_sends_frames [OF assms(1), of "line @ [10]" w] by simp
qed

text \<open>
  The length the tunnel fills in counts its own two bytes: a line that begins with four
  placeholders is sent with the number of bytes after the report byte in the length field, so it is
  never a frame the brick accepts, whose length field counts only the bytes after itself.
\<close>

theorem tunnel_prefix_not_frame:
  assumes "accepts io" and "0 \<notin> set line" and "10 \<notin> set line" and "length line < 2559"
    and "placeholders 4 line"
  shows "\<exists>w' f. tunnel_mode io (open_rb (line @ [10])) w = Some (Ret ERR_UNK, w')
    \<and> trace w' = trace w @ [Wr f] \<and> unat (get16 f 1) = length f - 1 \<and> \<not> frame f"
proof -
  define bs where "bs = pairs (nibbles line)"
  define f where "f = [0] @ le16 (of_nat (length bs)) @ drop 2 bs"
  have p: "placeholders 4 (line @ [10])" "nibbles (line @ [10]) = nibbles line"
    using assms(5) by (simp_all add: placeholders_def nibbles_append hex2nib_newline)
  then have "tunnel_frame (line @ [10]) = f"
    by (simp add: tunnel_frame_def Let_def line_string_plain assms(2) f_def bs_def)
  moreover have "lines 2559 (line @ [10]) = [line @ [10]]"
    using lines_newline [of line 2559 "[]"] assms(3,4) by simp
  moreover have "2 \<le> length bs" using placeholders_pairs [OF assms(5)] by (simp add: bs_def)
  moreover have "length bs < 65536"
    using length_pairs [of "nibbles line"] length_nibbles [of line] assms(4) by (simp add: bs_def)
  moreover have "get16 f (length [0 :: u8]) = of_nat (length bs)" unfolding f_def by (rule get16_le16)
  ultimately show ?thesis using tunnel_sends_frames [OF assms(1), of "line @ [10]" w]
    by (auto simp: frame_def PREFIX_SIZE_def f_def)
qed

theorem tunnel_roundtrip_witness:
  "\<exists>w'. tunnel_mode loopback (open_rb (bytes (concat (map hex_byte [7, 0, 0x9B]) @ ''\<newline>''))) (world0 ())
      = Some (Ret ERR_UNK, w') \<and> trace w' = [Wr [0, 7, 0, 0x9B]]"
  using tunnel_roundtrip [of loopback "[7, 0, 0x9B]" "world0 ()"] by (simp add: accepts_def loopback_def)

theorem tunnel_prefix_not_frame_witness:
  "\<exists>w' f. tunnel_mode loopback (open_rb (bytes ''xxxx 0000 01 9B'' @ [10])) (world0 ()) = Some (Ret ERR_UNK, w')
    \<and> trace w' = [Wr f] \<and> \<not> frame f"
proof -
  have "0 \<notin> set (bytes ''xxxx 0000 01 9B'')" "10 \<notin> set (bytes ''xxxx 0000 01 9B'')"
    "length (bytes ''xxxx 0000 01 9B'') < 2559" "placeholders 4 (bytes ''xxxx 0000 01 9B'')"
    by code_simp+
  then show ?thesis
    using tunnel_prefix_not_frame [of loopback "bytes ''xxxx 0000 01 9B''" "world0 ()"]
    by (auto simp: accepts_def loopback_def)
qed

section \<open>send and listen\<close>

definition send_frame :: "u8 list \<Rightarrow> u8 list" where
  "send_frame line = 0 # line_string line"

lemma sendout_turn_sends:
  assumes f: "fgets 1022 inp = Some (line, inp')" and ok: "length buf = 1023 \<and> buf ! 0 = 0"
    and io: "accepts io" and len: "length line < 1022"
  shows "\<exists>buf' w'. sendout_turn io (inp, buf) w = ret (Inl (inp', buf')) w' \<and> (length buf' = 1023 \<and> buf' ! 0 = 0)
    \<and> trace w' = trace w @ [Wr (send_frame line)]"
proof -
  define buf' where "buf' = put_at 1 (line @ [0]) buf"
  have b: "buf' = 0 # (line @ [0]) @ drop (2 + length line) buf"
    using ok take_one [of buf] by (cases buf) (auto simp: buf'_def put_at_def)
  then have l: "length buf' = 1023 \<and> buf' ! 0 = 0" using ok len by simp
  have s: "length (line_string line) \<le> length line" by (simp add: line_string_def length_takeWhile_le)
  have "take (length (line_string line)) line = line_string line"
    unfolding line_string_def by (metis takeWhile_eq_take)
  then have sent: "take (length (line_string line) + 1) buf' = send_frame line"
    using s by (simp add: b send_frame_def)
  obtain res d where "io_write io (dev w) (take (length (line_string line) + 1) buf') = Some (res, d)"
    using io unfolding accepts_def by (metis surj_pair option.exhaust)
  then show ?thesis using l s len sent
    unfolding sendout_turn_def prod.case f option.case Let_def buf'_def [symmetric]
    by (simp add: ev3_write_def)
qed

interpretation sendout: line_sender sendout_turn 1022 send_frame "\<lambda>buf. length buf = 1023 \<and> buf ! 0 = 0"
proof
  fix io :: "'d ev3_io" and inp s and w :: "'d world"
  assume "fgets 1022 inp = None"
  then show "sendout_turn io (inp, s) w = ret (Inr ERR_UNK) w" by (simp add: sendout_turn_def)
qed (rule sendout_turn_sends)

lemma sendout_sends:
  assumes "accepts io"
  shows "\<exists>w'. sendout io (open_rb inp) w = Some (Ret ERR_UNK, w')
    \<and> trace w' = trace w @ map (Wr \<circ> send_frame) (lines 1021 inp)"
proof -
  have "length ((uninit w 1023)[0 := 0]) = 1023 \<and> (uninit w 1023)[0 := 0] ! 0 = 0" by simp
  from sendout.sends_lines [OF assms this, of "open_rb inp" w] show ?thesis
    by (simp add: sendout_def open_rb_def)
qed

text \<open>
  \<^verbatim>\<open>listen\<close> prints its buffer as a string although a read may fill all of it: the first packet of
  1280 nonzero bytes makes it read past the buffer.
\<close>

theorem listen_overreads:
  assumes "length b = 1280" and "0 \<notin> set b"
  shows "\<exists>w'. listen_mode scripted (world0 (b # bs)) = Some (Undef, w')"
proof -
  have "b \<noteq> []" using assms(1) by auto
  then have "\<exists>w'. listen_turn scripted (replicate 1280 0) (world0 (b # bs)) = undef w'"
    using assms by (simp add: listen_turn_def ev3_read_timeout_def)
  then show ?thesis by (auto simp: listen_mode_def loop_step)
qed

theorem listen_overreads_witness:
  "\<exists>w'. listen_mode scripted (world0 [replicate 1280 65]) = Some (Undef, w')"
  by (rule listen_overreads) simp_all

end
