(* ===== verification/Files.thy ===== *)
theory Files
  imports Prelude
begin

text \<open>
  The part of a POSIX file system the program uses: directories and regular files in a tree of
  names, path resolution, and the calls \<^verbatim>\<open>mkdir\<close>, \<^verbatim>\<open>open\<close> (with \<^verbatim>\<open>O_WRONLY | O_CREAT\<close>), \<^verbatim>\<open>ftruncate\<close>,
  \<^verbatim>\<open>lseek\<close> followed by \<^verbatim>\<open>write\<close>, and \<^verbatim>\<open>fopen\<close>. There are no links; what the user may not write to is
  a predicate, and all may be read; a disk is never full, and a write takes all of its bytes.
\<close>

type_synonym path = "string list"

datatype node = Dir | Regular "u8 list"

record fsys =
  tree :: "path \<Rightarrow> node option"
  cwd :: path
  locked :: "path \<Rightarrow> bool"

definition ENOENT :: int where "ENOENT = 2"
definition EACCES :: int where "EACCES = 13"
definition EEXIST :: int where "EEXIST = 17"
definition ENOTDIR :: int where "ENOTDIR = 20"
definition EISDIR :: int where "EISDIR = 21"

lemmas errno_defs = ENOENT_def EACCES_def EEXIST_def ENOTDIR_def EISDIR_def

section \<open>Paths\<close>

text \<open>The names between the slashes of a path.\<close>

fun names :: "string \<Rightarrow> string list" where
  "names [] = [[]]"
| "names (c # cs) =
    (if c = CHR ''/'' then [] # names cs
     else case names cs of [] \<Rightarrow> [[c]] | n # ns \<Rightarrow> (c # n) # ns)"

lemma names_not_Nil [simp]: "names s \<noteq> []"
  by (induction s) (auto split: list.split)

lemma names_plain: "CHR ''/'' \<notin> set s \<Longrightarrow> names s = [s]"
  by (induction s) auto

lemma names_slash: "CHR ''/'' \<notin> set s \<Longrightarrow> names (s @ CHR ''/'' # t) = s # names t"
  by (induction s) auto

lemma names_append_slash: "names (s @ CHR ''/'' # t) = names s @ names t"
proof (induction s)
  case (Cons c s)
  then show ?case by (cases "names s") auto
qed simp

text \<open>From a directory along names to a directory.\<close>

fun walk :: "fsys \<Rightarrow> path \<Rightarrow> string list \<Rightarrow> int + path" where
  "walk fs d [] = Inr d"
| "walk fs d (n # ns) =
    (if n = '''' \<or> n = ''.'' then walk fs d ns
     else if n = ''..'' then walk fs (butlast d) ns
     else case tree fs (d @ [n]) of
       None \<Rightarrow> Inl ENOENT
     | Some (Regular _) \<Rightarrow> Inl ENOTDIR
     | Some Dir \<Rightarrow> walk fs (d @ [n]) ns)"

definition origin :: "fsys \<Rightarrow> string \<Rightarrow> path" where
  "origin fs p = (if take 1 p = ''/'' then [] else cwd fs)"

text \<open>The directory a path leads to and the name in it.\<close>

definition locate :: "fsys \<Rightarrow> string \<Rightarrow> int + path \<times> string" where
  "locate fs p =
    (if p = '''' then Inl ENOENT
     else case walk fs (origin fs p) (butlast (names p)) of
       Inl e \<Rightarrow> Inl e
     | Inr d \<Rightarrow> Inr (d, last (names p)))"

definition dot_name :: "string \<Rightarrow> bool" where
  "dot_name n \<longleftrightarrow> n = '''' \<or> n = ''.'' \<or> n = ''..''"

section \<open>Calls\<close>

text \<open>The result is the error, if any, and the file system.\<close>

definition os_mkdir :: "fsys \<Rightarrow> string \<Rightarrow> int option \<times> fsys" where
  "os_mkdir fs p =
    (case locate fs p of
       Inl e \<Rightarrow> (Some e, fs)
     | Inr (d, n) \<Rightarrow>
       if dot_name n \<or> tree fs (d @ [n]) \<noteq> None then (Some EEXIST, fs)
       else if locked fs d then (Some EACCES, fs)
       else (None, fs\<lparr>tree := (tree fs)(d @ [n] \<mapsto> Dir)\<rparr>))"

text \<open>An open file is known by the place of its node.\<close>

definition os_open_creat :: "fsys \<Rightarrow> string \<Rightarrow> (int + path) \<times> fsys" where
  "os_open_creat fs p =
    (case locate fs p of
       Inl e \<Rightarrow> (Inl e, fs)
     | Inr (d, n) \<Rightarrow>
       if dot_name n then (Inl EISDIR, fs)
       else case tree fs (d @ [n]) of
         Some Dir \<Rightarrow> (Inl EISDIR, fs)
       | Some (Regular _) \<Rightarrow> if locked fs (d @ [n]) then (Inl EACCES, fs) else (Inr (d @ [n]), fs)
       | None \<Rightarrow> if locked fs d then (Inl EACCES, fs)
                 else (Inr (d @ [n]), fs\<lparr>tree := (tree fs)(d @ [n] \<mapsto> Regular [])\<rparr>))"

definition contents :: "fsys \<Rightarrow> path \<Rightarrow> u8 list" where
  "contents fs q = (case tree fs q of Some (Regular bs) \<Rightarrow> bs | _ \<Rightarrow> [])"

definition set_contents :: "path \<Rightarrow> u8 list \<Rightarrow> fsys \<Rightarrow> fsys" where
  "set_contents q bs fs = fs\<lparr>tree := (tree fs)(q \<mapsto> Regular bs)\<rparr>"

definition resize :: "nat \<Rightarrow> u8 list \<Rightarrow> u8 list" where
  "resize n bs = take n bs @ replicate (n - length bs) 0"

text \<open>A write at an offset; a gap before it reads as zeros.\<close>

definition pwrite :: "nat \<Rightarrow> u8 list \<Rightarrow> u8 list \<Rightarrow> u8 list" where
  "pwrite off data bs = resize off bs @ data @ drop (off + length data) bs"

definition os_ftruncate :: "fsys \<Rightarrow> path \<Rightarrow> nat \<Rightarrow> fsys" where
  "os_ftruncate fs q n = set_contents q (resize n (contents fs q)) fs"

definition os_write_at :: "fsys \<Rightarrow> path \<Rightarrow> nat \<Rightarrow> u8 list \<Rightarrow> fsys" where
  "os_write_at fs q off data = set_contents q (pwrite off data (contents fs q)) fs"

text \<open>
  \<^verbatim>\<open>fopen(p, "rb")\<close> of a regular file, which the user may read. Of a directory Linux opens a stream as well, from
  which every read then fails; here it counts as not opened.
\<close>

definition os_fopen_rb :: "fsys \<Rightarrow> string \<Rightarrow> u8 list option" where
  "os_fopen_rb fs p =
    (case locate fs p of
       Inl _ \<Rightarrow> None
     | Inr (d, n) \<Rightarrow> if dot_name n then None
       else case tree fs (d @ [n]) of Some (Regular bs) \<Rightarrow> Some bs | _ \<Rightarrow> None)"

section \<open>Walking\<close>

lemma walk_append:
  "walk fs d (ns @ ms) = (case walk fs d ns of Inl e \<Rightarrow> Inl e | Inr d' \<Rightarrow> walk fs d' ms)"
  by (induction fs d ns rule: walk.induct) (auto split: option.split node.split)

lemma locate_names:
  assumes "names p = ns @ [n]" and "p \<noteq> ''''"
  shows "locate fs p = (case walk fs (origin fs p) ns of Inl e \<Rightarrow> Inl e | Inr d \<Rightarrow> Inr (d, n))"
proof -
  have "butlast (names p) = ns" "last (names p) = n" using assms(1) by simp_all
  then show ?thesis using assms(2) by (simp only: locate_def if_False)
qed

section \<open>What calls change\<close>

text \<open>
  \<open>wrote D P fs fs'\<close>: directories have been added at places that satisfy \<open>D\<close>, and regular files written at
  places that satisfy \<open>P\<close>; nothing else has changed, and nothing is gone.
\<close>

definition wrote :: "(path \<Rightarrow> bool) \<Rightarrow> (path \<Rightarrow> bool) \<Rightarrow> fsys \<Rightarrow> fsys \<Rightarrow> bool" where
  "wrote D P fs fs' \<longleftrightarrow> cwd fs' = cwd fs \<and> (\<forall>q. tree fs' q = tree fs q
     \<or> (D q \<and> tree fs q = None \<and> tree fs' q = Some Dir)
     \<or> (P q \<and> tree fs q \<noteq> Some Dir \<and> (\<exists>bs. tree fs' q = Some (Regular bs))))"

lemma wrote_refl [simp]: "wrote D P fs fs"
  by (simp add: wrote_def)

lemma wrote_trans: "wrote D P fs fs' \<Longrightarrow> wrote D P fs' fs'' \<Longrightarrow> wrote D P fs fs''"
  unfolding wrote_def by (metis node.distinct(1) option.distinct(1) option.inject)

lemma wrote_mono: "wrote D P fs fs' \<Longrightarrow> (\<And>q. D q \<Longrightarrow> D' q) \<Longrightarrow> (\<And>q. P q \<Longrightarrow> Q q) \<Longrightarrow> wrote D' Q fs fs'"
  unfolding wrote_def by metis

lemma wrote_Dir: "wrote D P fs fs' \<Longrightarrow> tree fs q = Some Dir \<Longrightarrow> tree fs' q = Some Dir"
  unfolding wrote_def by (metis option.distinct(1))

lemma walk_wrote: "wrote D P fs fs' \<Longrightarrow> walk fs d ns = Inr e \<Longrightarrow> walk fs' d ns = Inr e"
proof (induction fs d ns rule: walk.induct)
  case (2 fs d n ns)
  then show ?case by (auto simp: wrote_Dir split: if_splits option.splits node.splits)
qed simp

lemma origin_wrote: "wrote D P fs fs' \<Longrightarrow> origin fs' p = origin fs p"
  by (simp add: wrote_def origin_def)

lemma locate_wrote: "wrote D P fs fs' \<Longrightarrow> locate fs p = Inr x \<Longrightarrow> locate fs' p = Inr x"
  by (auto simp: locate_def origin_wrote walk_wrote split: if_splits sum.splits)

lemma os_mkdir_wrote:
  assumes "os_mkdir fs p = (e, fs')" and "\<And>d n. locate fs p = Inr (d, n) \<Longrightarrow> \<not> dot_name n \<Longrightarrow> D (d @ [n])"
  shows "wrote D P fs fs'"
  using assms by (auto simp: os_mkdir_def wrote_def split: sum.splits if_splits)

lemma os_open_creat_wrote:
  assumes "os_open_creat fs p = (r, fs')" and "\<And>d n. locate fs p = Inr (d, n) \<Longrightarrow> \<not> dot_name n \<Longrightarrow> P (d @ [n])"
  shows "wrote D P fs fs'"
  using assms by (auto simp: os_open_creat_def wrote_def split: sum.splits if_splits option.splits node.splits)

lemma os_open_creat_fd:
  assumes "os_open_creat fs p = (Inr q, fs')"
  obtains d n bs where "locate fs p = Inr (d, n)" "\<not> dot_name n" "q = d @ [n]" "tree fs' q = Some (Regular bs)"
  using assms by (auto simp: os_open_creat_def split: sum.splits if_splits option.splits node.splits)

lemma set_contents_wrote: "tree fs q = Some (Regular bs) \<Longrightarrow> P q \<Longrightarrow> wrote D P fs (set_contents q bs' fs)"
  by (auto simp: set_contents_def wrote_def)

lemma set_contents_tree [simp]:
  "tree (set_contents q bs fs) = (tree fs)(q \<mapsto> Regular bs)" "cwd (set_contents q bs fs) = cwd fs"
  "locked (set_contents q bs fs) = locked fs"
  by (simp_all add: set_contents_def)

lemma set_contents_again [simp]: "set_contents q bs (set_contents q bs' fs) = set_contents q bs fs"
  by (simp add: set_contents_def)

lemma contents_set [simp]: "contents (set_contents q bs fs) q = bs"
  by (simp add: contents_def)

lemma os_mkdir_exists:
  assumes "walk fs (origin fs p) (names p) = Inr d" and "p \<noteq> ''''"
  shows "os_mkdir fs p = (Some EEXIST, fs)"
proof -
  define n where "n = last (names p)"
  have np: "names p = butlast (names p) @ [n]" by (simp add: n_def)
  obtain d' where d': "walk fs (origin fs p) (butlast (names p)) = Inr d'" "walk fs d' [n] = Inr d"
    using assms(1) by (subst (asm) np) (auto simp: walk_append split: sum.splits)
  then have "locate fs p = Inr (d', n)" using assms(2) by (simp add: locate_def n_def)
  moreover have "dot_name n \<or> tree fs (d' @ [n]) \<noteq> None"
    using d'(2) by (auto simp: dot_name_def split: if_splits option.splits)
  ultimately show ?thesis by (simp add: os_mkdir_def)
qed

section \<open>Sizes\<close>

lemma length_resize [simp, layout]: "length (resize n bs) = n"
  by (simp add: resize_def)

lemma resize_id: "length bs = n \<Longrightarrow> resize n bs = bs"
  by (simp add: resize_def)

lemma pwrite_inside:
  assumes "i + length x \<le> length m"
  shows "pwrite (length a + i) x (a @ m @ r) = a @ pwrite i x m @ r"
  using assms by (simp add: pwrite_def resize_def)

lemma length_pwrite: "i + length x \<le> length m \<Longrightarrow> length (pwrite i x m) = length m"
  by (simp add: pwrite_def resize_def)

end
