(* ===== verification/Uf2.thy ===== *)
theory Uf2
  imports World Files
begin

text \<open>
  The UF2 container: \<^verbatim>\<open>src/src/uf2.h\<close>, \<^verbatim>\<open>uf2_helper.c\<close>, \<^verbatim>\<open>uf2_pack.c\<close>, \<^verbatim>\<open>uf2_unpack.c\<close>, on a POSIX system.
  The brick's own file system is offered as a stream of 512-byte blocks, each with a piece of one
  file, its place in the file and the file's name.
\<close>

section \<open>Blocks (uf2.h)\<close>

definition UF2_MAGIC_1 :: u32 where "UF2_MAGIC_1 = 0x0A324655"
definition UF2_MAGIC_2 :: u32 where "UF2_MAGIC_2 = 0x9E5D5157"
definition UF2_MAGIC_3 :: u32 where "UF2_MAGIC_3 = 0x0AB16F30"
definition UF2_FLAG_IGNORE :: u32 where "UF2_FLAG_IGNORE = 0x00000001"
definition UF2_FLAG_FILE :: u32 where "UF2_FLAG_FILE = 0x00001000"
definition UF2_FILENAME_MAX :: nat where "UF2_FILENAME_MAX = 150"
definition UF2_PAYLOAD_MAX :: nat where "UF2_PAYLOAD_MAX = 466"
definition UF2_FILE_MAX :: nat where "UF2_FILE_MAX = 64 * 1024 * 1024"

lemmas uf2_consts = UF2_MAGIC_1_def UF2_MAGIC_2_def UF2_MAGIC_3_def UF2_FLAG_IGNORE_def UF2_FLAG_FILE_def
  UF2_FILENAME_MAX_def UF2_PAYLOAD_MAX_def UF2_FILE_MAX_def

record uf2_block_t =
  magic1 :: u32
  magic2 :: u32
  flags :: u32
  file_offset :: u32
  data_bytes :: u32
  block_number :: u32
  block_count :: u32
  file_size :: u32
  data :: "u8 list"
  magic3 :: u32

text \<open>The block in memory, as it is written, and the block that 512 bytes in memory are.\<close>

definition mem_uf2 :: "uf2_block_t \<Rightarrow> u8 list" where
  "mem_uf2 b = le32 (magic1 b) @ le32 (magic2 b) @ le32 (flags b) @ le32 (file_offset b)
     @ le32 (data_bytes b) @ le32 (block_number b) @ le32 (block_count b) @ le32 (file_size b)
     @ data b @ le32 (magic3 b)"

definition as_uf2 :: "u8 list \<Rightarrow> uf2_block_t" where
  "as_uf2 m = \<lparr>magic1 = get32 m 0, magic2 = get32 m 4, flags = get32 m 8, file_offset = get32 m 12,
     data_bytes = get32 m 16, block_number = get32 m 20, block_count = get32 m 24,
     file_size = get32 m 28, data = take 476 (drop 32 m), magic3 = get32 m 508\<rparr>"

section \<open>uf2_helper.c\<close>

text \<open>
  The scan runs backwards from the terminator; the argument is \<^verbatim>\<open>pos + 1\<close>. At \<^verbatim>\<open>pos == -1\<close> the code
  reads the byte before the string ahead of testing \<^verbatim>\<open>pos >= 0\<close>; whatever it is, the scan stops.
\<close>

fun basename_scan :: "string \<Rightarrow> bool \<Rightarrow> nat \<Rightarrow> nat" where
  "basename_scan s backslash_trigger 0 = 0"
| "basename_scan s backslash_trigger (Suc pos) =
    (if s ! pos \<noteq> CHR ''/'' \<and> (\<not> backslash_trigger \<or> s ! pos \<noteq> CHR 0x5C)
     then basename_scan s backslash_trigger pos else Suc pos)"

definition uf2_basename :: "string \<Rightarrow> bool \<Rightarrow> string" where
  "uf2_basename fullname backslash_trigger =
    drop (basename_scan (fullname @ [CHR 0x00]) backslash_trigger (length fullname + 1)) fullname"

lemma mkdir_rest_shorter:
  assumes "x \<in> set (dropWhile Q rest)"
  shows "length (dropWhile P (dropWhile Q rest)) - Suc 0 < length rest"
proof -
  have "length (dropWhile P (dropWhile Q rest)) \<le> length rest"
    by (rule order_trans [OF length_dropWhile_le length_dropWhile_le])
  moreover have "rest \<noteq> []" using assms by auto
  ultimately show ?thesis by (cases rest) auto
qed

text \<open>
  \<^verbatim>\<open>uf2_mkdir_impl\<close>: \<open>done\<close> is the path before \<^verbatim>\<open>start\<close>, \<open>rest\<close> from there on. The result is
  the error of the failing \<^verbatim>\<open>mkdir\<close> (\<^verbatim>\<open>-1\<close> and \<^verbatim>\<open>errno\<close> in the code).
\<close>

function uf2_mkdir_impl :: "fsys \<Rightarrow> string \<Rightarrow> string \<Rightarrow> int option \<times> fsys" where
  "uf2_mkdir_impl fs done rest =
    (let slashes = takeWhile (\<lambda>c. c = CHR ''/'') rest;
         rest1 = dropWhile (\<lambda>c. c = CHR ''/'') rest;
         name = takeWhile (\<lambda>c. c \<noteq> CHR ''/'') rest1;
         rest2 = dropWhile (\<lambda>c. c \<noteq> CHR ''/'') rest1
     in
     if rest2 = [] then (None, fs)
     else
       let path = done @ slashes @ name in
       case os_mkdir fs path of
         (Some e, fs) \<Rightarrow> if e \<noteq> EEXIST then (Some e, fs) else uf2_mkdir_impl fs (path @ ''/'') (tl rest2)
       | (None, fs) \<Rightarrow> uf2_mkdir_impl fs (path @ ''/'') (tl rest2))"
  by pat_completeness auto

termination
  by (relation "measure (\<lambda>(fs, done, rest). length rest)") (auto intro: mkdir_rest_shorter)

declare uf2_mkdir_impl.simps [simp del]

definition uf2_mkdir_for :: "fsys \<Rightarrow> string \<Rightarrow> int option \<times> fsys" where
  "uf2_mkdir_for fs filename = uf2_mkdir_impl fs '''' filename"

definition uf2_write_into :: "fsys \<Rightarrow> string \<Rightarrow> u8 list \<Rightarrow> nat \<Rightarrow> nat \<Rightarrow> nat \<Rightarrow> int option \<times> fsys" where
  "uf2_write_into fs realname buf count offs fsz =
    (case os_open_creat fs realname of
       (Inl e, fs) \<Rightarrow> (Some e, fs)
     | (Inr fd, fs) \<Rightarrow>
       let fs = os_ftruncate fs fd fsz;
           fs = os_write_at fs fd offs (take count buf)
       in (None, fs))"

section \<open>uf2_unpack.c\<close>

text \<open>The path in the 256-byte buffer \<^verbatim>\<open>realname\<close>, of which the last byte is the terminator.\<close>

definition uf2_map :: "nat \<Rightarrow> string \<Rightarrow> string \<Rightarrow> bool \<Rightarrow> string" where
  "uf2_map dstlen dstdir filename use_paths =
    (let base = uf2_basename filename False;
         foldername =
           (if use_paths then
              let folder = takeWhile (\<lambda>c. c \<noteq> CHR ''/'') filename
              in if folder = ''..'' then ''.'' else folder
            else ''.'')
     in take (dstlen - 1) (dstdir @ ''/'' @ foldername @ ''/'' @ base))"

text \<open>The name in a block: from the end of its data to a zero, which byte 475 always is.\<close>

definition block_name :: "uf2_block_t \<Rightarrow> string" where
  "block_name block = string_of (takeWhile (\<lambda>x. x \<noteq> 0) (drop (unat (data_bytes block)) ((data block)[475 := 0])))"

definition block_skipped :: "uf2_block_t \<Rightarrow> bool" where
  "block_skipped block \<longleftrightarrow>
    (magic1 block \<noteq> UF2_MAGIC_1 \<or> magic2 block \<noteq> UF2_MAGIC_2 \<or> magic3 block \<noteq> UF2_MAGIC_3)
    \<or> (flags block AND UF2_FLAG_IGNORE \<noteq> 0 \<or> flags block AND UF2_FLAG_FILE = 0)
    \<or> (unat (data_bytes block) > UF2_PAYLOAD_MAX \<or> unat (file_size block) > UF2_FILE_MAX
       \<or> file_offset block \<ge> file_size block)
    \<or> length (block_name block) > UF2_FILENAME_MAX"

text \<open>
  One turn of the loop on a block read: to the next block (\<open>None\<close>), or out of the loop with the
  failed call (what \<^verbatim>\<open>perror\<close> prints) and its error.
\<close>

definition uf2_unpack_block :: "string \<Rightarrow> bool \<Rightarrow> uf2_block_t \<Rightarrow> fsys \<Rightarrow> (string \<times> int) option \<times> fsys" where
  "uf2_unpack_block dstdir use_paths block fs =
    (if block_skipped block then (None, fs)
     else
       let realname = uf2_map 256 dstdir (block_name block) use_paths in
       case uf2_mkdir_for fs realname of
         (Some e, fs) \<Rightarrow> (Some (''cannot make directory for destination uf2 file'', e), fs)
       | (None, fs) \<Rightarrow>
         case uf2_write_into fs realname ((data block)[475 := 0]) (unat (data_bytes block))
                (unat (file_offset block)) (unat (file_size block)) of
           (Some e, fs) \<Rightarrow> (Some (''cannot write uf2 file contents'', e), fs)
         | (None, fs) \<Rightarrow> (None, fs))"

function uf2_unpack_loop :: "string \<Rightarrow> bool \<Rightarrow> FILE \<Rightarrow> fsys \<Rightarrow> (string \<times> int) option \<times> fsys" where
  "uf2_unpack_loop dstdir use_paths fp fs =
    (let (got, fp') = fread 512 fp in
     if length got = 512 then
       (case uf2_unpack_block dstdir use_paths (as_uf2 got) fs of
          (Some err, fs) \<Rightarrow> (Some err, fs)
        | (None, fs) \<Rightarrow> uf2_unpack_loop dstdir use_paths fp' fs)
     else (None, fs))"
  by pat_completeness auto
termination
  by (relation "measure (\<lambda>(dstdir, use_paths, fp, fs). length (fdata fp) - fpos fp)")
    (auto simp: fread_def Let_def)

declare uf2_unpack_loop.simps [simp del]

text \<open>\<open>strerror\<close> is the library's description of an error number.\<close>

definition uf2_unpack ::
    "(int \<Rightarrow> string) \<Rightarrow> FILE \<Rightarrow> string \<Rightarrow> bool \<Rightarrow> fsys \<Rightarrow> 'd world \<Rightarrow> (ERR \<times> fsys, 'd) run" where
  "uf2_unpack strerror fp dstdir use_paths fs w =
    (case uf2_unpack_loop dstdir use_paths fp fs of
       (None, fs) \<Rightarrow> ret (ERR_UNK, fs) (w\<lparr>errmsg := Some ''`uf2 unpack` was successful.''\<rparr>)
     | (Some (msg, e), fs) \<Rightarrow>
       let w = w\<lparr>errno := e\<rparr>;
           w = put_err (bytes (msg @ '': '' @ strerror e @ ''\<newline>'')) w
       in ret (ERR_IO, fs) (w\<lparr>errmsg := Some ''`uf2 unpack` has failed.''\<rparr>))"

section \<open>uf2_pack.c\<close>

text \<open>The conversion of a 64-bit \<^verbatim>\<open>long\<close> to \<^verbatim>\<open>int\<close>, and of a signed \<^verbatim>\<open>int\<close> to \<^verbatim>\<open>size_t\<close>.\<close>

definition to_int :: "int \<Rightarrow> int" where
  "to_int x = sint (word_of_int x :: 32 word)"

definition to_size_t :: "int \<Rightarrow> nat" where
  "to_size_t x = unat (word_of_int x :: 64 word)"

text \<open>
  One turn of the block loop of \<^verbatim>\<open>uf2_write_file\<close>. Its variables are the output, the input file,
  \<^verbatim>\<open>blks\<close> and \<^verbatim>\<open>done\<close>; \<open>block\<close> has the fields that do not change. It ends with the result.
\<close>

definition uf2_file_turn ::
    "uf2_block_t \<Rightarrow> string \<Rightarrow> int \<Rightarrow> int \<Rightarrow> int \<Rightarrow> nat \<Rightarrow> u8 list \<times> FILE \<times> int \<times> int \<Rightarrow> 'd world
      \<Rightarrow> ((u8 list \<times> FILE \<times> int \<times> int) + (int \<times> u8 list), 'd) run" where
  "uf2_file_turn block filename start_block file_bytes max_payload name_chars = (\<lambda>(dst, src, blks, done) w.
    (if done < file_bytes then
       let remain = to_int (file_bytes - done);
           req = (if remain \<le> max_payload then remain else max_payload);
           (got, src) = fread (to_size_t req) src;
           data_len = length got
       in
       if 476 < data_len then undef w
       else if to_int (int data_len) \<noteq> req then ret (Inr (- err_code ERR_IO, dst)) w
       else if 476 < data_len + name_chars then undef w
       else
         let block = block\<lparr>
               data := got @ take name_chars (bytes filename) @ replicate (476 - data_len - name_chars) 0,
               file_offset := word_of_int done,
               data_bytes := word_of_int req,
               block_number := word_of_int (start_block + blks)\<rparr>
         in ret (Inl (dst @ mem_uf2 block, src, blks + 1, done + req)) w
     else ret (Inr (blks, dst)) w))"

definition uf2_write_file ::
    "u8 list \<Rightarrow> FILE \<Rightarrow> string \<Rightarrow> int \<Rightarrow> int \<Rightarrow> 'd world \<Rightarrow> (int \<times> u8 list, 'd) run" where
  "uf2_write_file dst src filename start_block file_bytes w =
    (let block = \<lparr>magic1 = UF2_MAGIC_1, magic2 = UF2_MAGIC_2, flags = UF2_FLAG_FILE,
           file_offset = 0, data_bytes = 0, block_number = 0, block_count = 0,
           file_size = word_of_int file_bytes, data = replicate 476 0, magic3 = UF2_MAGIC_3\<rparr>;
         name_chars = length filename;
         name_chars = (if name_chars > UF2_FILENAME_MAX then UF2_FILENAME_MAX else name_chars);
         max_payload = int 476 - int name_chars - 1;
         max_payload = (if max_payload > int UF2_PAYLOAD_MAX then int UF2_PAYLOAD_MAX else max_payload);
         w = put_err (bytes (''file '' @ [CHR 0x27] @ filename @ [CHR 0x27] @ '' length '' @ dec (nat file_bytes) @ ''\<newline>'')) w
     in loop (uf2_file_turn block filename start_block file_bytes max_payload name_chars) (dst, src, 0, 0) w)"

lemma unat_next: "blk < blks \<Longrightarrow> unat (blk + 1) = unat (blk :: u32) + 1"
proof -
  assume "blk < blks"
  then have "unat blk + 1 < 4294967296" using unat_u32_bound [of blks] unfolding word_less_nat_alt by linarith
  then show "unat (blk + 1) = unat blk + 1" by (simp add: unat_word_ariths)
qed

text \<open>
  The second pass, from block \<open>blk\<close> on: the offset is computed with 32-bit wrap-around. A seek beyond
  the end and a write there extend the file.
\<close>

function uf2_fixup_from :: "nat \<Rightarrow> u32 \<Rightarrow> u32 \<Rightarrow> u8 list \<Rightarrow> u8 list" where
  "uf2_fixup_from start blks blk dst =
    (if blk < blks then
       uf2_fixup_from start blks (blk + 1) (pwrite (start + unat (512 * blk) + 24) (le32 blks) dst)
     else dst)"
  by pat_completeness auto
termination
proof (relation "measure (\<lambda>(start, blks, blk, dst). unat blks - unat blk)")
  fix start and blks blk :: u32 and dst :: "u8 list"
  assume lt: "blk < blks"
  then have "unat (blk + 1) = unat blk + 1" by (rule unat_next)
  then show "((start, blks, blk + 1, pwrite (start + unat (512 * blk) + 24) (le32 blks) dst), start, blks, blk, dst)
      \<in> measure (\<lambda>(start, blks, blk, dst). unat blks - unat blk)"
    using lt by (simp add: word_less_nat_alt)
qed simp

declare uf2_fixup_from.simps [simp del]

definition uf2_fixup_block_count :: "u8 list \<Rightarrow> nat \<Rightarrow> int \<Rightarrow> int \<times> u8 list" where
  "uf2_fixup_block_count dst start blocks = (blocks, uf2_fixup_from start (word_of_int blocks) 0 dst)"

text \<open>
  The loop over the file names, from the one with the blocks \<open>blks\<close> before it. Where \<^verbatim>\<open>fopen\<close> of a
  directory succeeds, its read fails, with the same result.
\<close>

fun uf2_write_from ::
    "fsys \<Rightarrow> string \<Rightarrow> nat \<Rightarrow> string list \<Rightarrow> int \<Rightarrow> u8 list \<Rightarrow> 'd world \<Rightarrow> (int \<times> u8 list, 'd) run" where
  "uf2_write_from fs destdir start [] blks dst w = (let (r, dst) = uf2_fixup_block_count dst start blks in ret (r, dst) w)"
| "uf2_write_from fs destdir start (file # files) blks dst w =
    (let uf2_name = take UF2_FILENAME_MAX (destdir @ ''/'' @ uf2_basename file False) in
     case os_fopen_rb fs file of
       None \<Rightarrow> ret (- err_code ERR_IO, dst) w
     | Some bs \<Rightarrow>
       let src_fp = open_rb bs in
       call (uf2_write_file dst src_fp uf2_name blks (int (fsize src_fp)) w) (\<lambda>(r, dst) w.
       if r < 0 then ret (r, dst) w
       else uf2_write_from fs destdir start files (blks + r) dst w))"

definition uf2_write_all ::
    "fsys \<Rightarrow> u8 list \<Rightarrow> string \<Rightarrow> string list \<Rightarrow> 'd world \<Rightarrow> (int \<times> u8 list, 'd) run" where
  "uf2_write_all fs dst destdir file_array w =
    (let start = length dst in uf2_write_from fs destdir start file_array 0 dst w)"

text \<open>
  \<open>dst\<close> is what the output file holds. A negative number of blocks is the negated error, of which
  there is one, \<open>ERR_IO\<close>; the error number that \<^verbatim>\<open>perror\<close> describes is left to the library.
\<close>

definition uf2_pack ::
    "(int \<Rightarrow> string) \<Rightarrow> fsys \<Rightarrow> u8 list \<Rightarrow> string \<Rightarrow> string list \<Rightarrow> 'd world \<Rightarrow> (int \<times> u8 list, 'd) run" where
  "uf2_pack strerror fs dst brickdir file_array w =
    (let brickdir = (if length brickdir = 0 then ''Projects'' else brickdir) in
     call (uf2_write_all fs dst brickdir file_array w) (\<lambda>(blocks, dst) w.
     if blocks < 0 then
       (let w = put_err (bytes (''unexpected error when writing UF2 file: '' @ strerror (errno w) @ ''\<newline>'')) w
        in ret (- blocks, dst) (w\<lparr>errmsg := Some ''`uf2 pack` has failed.''\<rparr>))
     else ret (err_code ERR_UNK, dst) (w\<lparr>errmsg := Some ''`uf2 pack` was successful.''\<rparr>)))"

section \<open>Base names\<close>

lemma basename_scan_le: "basename_scan s bt n \<le> n"
  by (induction s bt n rule: basename_scan.induct) auto

lemma basename_scan_skip:
  "(\<And>i. m \<le> i \<Longrightarrow> i < n \<Longrightarrow> s ! i \<noteq> CHR ''/'') \<Longrightarrow> m \<le> n \<Longrightarrow> basename_scan s False n = basename_scan s False m"
proof (induction n)
  case (Suc n)
  then show ?case by (cases "m = Suc n") auto
qed simp

lemma basename_scan_clean: "basename_scan s False n \<le> i \<Longrightarrow> i < n \<Longrightarrow> s ! i \<noteq> CHR ''/''"
proof (induction n)
  case (Suc n)
  then show ?case by (cases "i = n") (auto split: if_splits)
qed simp

lemma basename_no_slash: "CHR ''/'' \<notin> set (uf2_basename s False)"
proof
  define k where "k = basename_scan (s @ [CHR 0x00]) False (length s + 1)"
  assume "CHR ''/'' \<in> set (uf2_basename s False)"
  then obtain i where i: "i < length (drop k s)" "drop k s ! i = CHR ''/''"
    unfolding uf2_basename_def k_def by (metis in_set_conv_nth)
  then have "(s @ [CHR 0x00]) ! (k + i) = CHR ''/''" by (simp add: nth_append)
  moreover have "k + i < length s + 1" using i by simp
  ultimately show False using basename_scan_clean [of "s @ [CHR 0x00]" "length s + 1" "k + i"] by (simp add: k_def)
qed

lemma basename_plain:
  assumes "CHR ''/'' \<notin> set b"
  shows "uf2_basename b False = b" "uf2_basename (x @ CHR ''/'' # b) False = b"
proof -
  have "basename_scan (b @ [CHR 0x00]) False (length b + 1) = basename_scan (b @ [CHR 0x00]) False 0"
    by (rule basename_scan_skip) (use assms in \<open>auto simp: nth_append less_Suc_eq in_set_conv_nth\<close>)
  then show "uf2_basename b False = b" by (simp add: uf2_basename_def)
  have "basename_scan ((x @ CHR ''/'' # b) @ [CHR 0x00]) False (length (x @ CHR ''/'' # b) + 1)
      = basename_scan ((x @ CHR ''/'' # b) @ [CHR 0x00]) False (Suc (length x))"
    by (rule basename_scan_skip)
      (use assms in \<open>auto simp: nth_append nth_Cons' less_Suc_eq in_set_conv_nth\<close>)
  then show "uf2_basename (x @ CHR ''/'' # b) False = b" by (simp add: uf2_basename_def nth_append)
qed

section \<open>What unpacking can change\<close>

text \<open>The places right in the target directory, or in one directory there.\<close>

definition inside :: "string \<Rightarrow> fsys \<Rightarrow> path \<Rightarrow> bool" where
  "inside dstdir fs q \<longleftrightarrow> (\<exists>d n. walk fs (origin fs (dstdir @ ''/'')) (names dstdir) = Inr d
     \<and> (q = d @ [n] \<or> (\<exists>m. q = d @ [m, n])))"

lemma origin_append: "s \<noteq> '''' \<Longrightarrow> origin fs (s @ t) = origin fs s"
  by (cases s) (simp_all add: origin_def)

lemma uf2_map_shape:
  assumes "length dstdir \<le> 253"
  obtains t where "uf2_map 256 dstdir filename use_paths = dstdir @ CHR ''/'' # t"
    "(\<exists>x. names t = [x]) \<or> (\<exists>x y. names t = [x, y] \<and> x \<noteq> ''..'')"
proof -
  define folder where "folder = (if use_paths then
      let f = takeWhile (\<lambda>c. c \<noteq> CHR ''/'') filename in if f = ''..'' then ''.'' else f else ''.'')"
  define base where "base = uf2_basename filename False"
  define k where "k = 255 - (length dstdir + 1)"
  have "CHR ''/'' \<notin> set folder"
    using set_takeWhileD [of "CHR ''/''" "\<lambda>c. c \<noteq> CHR ''/''" filename] by (auto simp: folder_def Let_def)
  moreover have dd: "folder \<noteq> ''..''" by (simp add: folder_def Let_def)
  moreover have "CHR ''/'' \<notin> set base" by (simp add: base_def basename_no_slash)
  ultimately have parts: "CHR ''/'' \<notin> set (take n folder)" "CHR ''/'' \<notin> set (take n base)" "CHR ''/'' \<notin> set folder" for n
    using set_take_subset by fastforce+
  have m: "uf2_map 256 dstdir filename use_paths = take 255 (dstdir @ ''/'' @ folder @ ''/'' @ base)"
    by (simp add: uf2_map_def Let_def folder_def base_def)
  also have "\<dots> = dstdir @ CHR ''/'' # take k (folder @ CHR ''/'' # base)"
    using assms by (simp add: take_Cons' k_def)
  finally have eq: "uf2_map 256 dstdir filename use_paths = dstdir @ CHR ''/'' # take k (folder @ CHR ''/'' # base)" .
  show thesis
  proof (cases "k \<le> length folder")
    case True
    then have "names (take k (folder @ CHR ''/'' # base)) = [take k folder]"
      using parts by (simp add: names_plain)
    then show ?thesis using that [OF eq] by simp
  next
    case False
    then have "take k (folder @ CHR ''/'' # base) = folder @ CHR ''/'' # take (k - length folder - 1) base"
      by (simp add: take_Cons')
    then have "names (take k (folder @ CHR ''/'' # base)) = [folder, take (k - length folder - 1) base]"
      using parts by (simp add: names_slash names_plain)
    then show ?thesis using that [OF eq] dd by simp
  qed
qed

lemma locate_inside:
  assumes "locate fs (uf2_map 256 dstdir filename use_paths) = Inr (d, n)" and "length dstdir \<le> 253"
  shows "inside dstdir fs (d @ [n])"
proof -
  obtain t where t: "uf2_map 256 dstdir filename use_paths = dstdir @ CHR ''/'' # t"
    "(\<exists>x. names t = [x]) \<or> (\<exists>x y. names t = [x, y] \<and> x \<noteq> ''..'')"
    using uf2_map_shape [OF assms(2)] by blast
  let ?p = "dstdir @ CHR ''/'' # t"
  have o: "origin fs ?p = origin fs (dstdir @ ''/'')"
    using origin_append [of "dstdir @ ''/''" fs t] by simp
  from t(2) show ?thesis
  proof (elim disjE exE conjE)
    fix x assume x: "names t = [x]"
    have "names ?p = names dstdir @ [x]" by (simp add: names_append_slash x)
    from locate_names [OF this] assms(1) show ?thesis
      by (auto simp: t(1) inside_def o split: sum.splits)
  next
    fix x y assume xy: "names t = [x, y]" "x \<noteq> ''..''"
    have "names ?p = (names dstdir @ [x]) @ [y]" by (simp add: names_append_slash xy)
    from locate_names [OF this] assms(1) show ?thesis
      using xy(2) by (auto simp: t(1) inside_def o walk_append split: sum.splits if_splits option.splits node.splits)
  qed
qed

lemma mkdir_impl_step:
  assumes "rest = sl @ name @ rest2" and "takeWhile (\<lambda>c. c = CHR ''/'') rest = sl"
    and "takeWhile (\<lambda>c. c \<noteq> CHR ''/'') (name @ rest2) = name"
  shows "uf2_mkdir_impl fs done rest =
    (if rest2 = [] then (None, fs)
     else case os_mkdir fs (done @ sl @ name) of
         (Some e, fs) \<Rightarrow> if e \<noteq> EEXIST then (Some e, fs) else uf2_mkdir_impl fs ((done @ sl @ name) @ ''/'') (tl rest2)
       | (None, fs) \<Rightarrow> uf2_mkdir_impl fs ((done @ sl @ name) @ ''/'') (tl rest2))"
proof -
  have 1: "dropWhile (\<lambda>c. c = CHR ''/'') rest = name @ rest2"
    using assms(1,2) by (metis append_same_eq same_append_eq takeWhile_dropWhile_id)
  have 2: "dropWhile (\<lambda>c. c \<noteq> CHR ''/'') (name @ rest2) = rest2"
    using assms(3) by (metis same_append_eq takeWhile_dropWhile_id)
  show ?thesis
    by (subst uf2_mkdir_impl.simps) (simp only: Let_def 1 2 assms(2,3))
qed

lemma mkdir_split:
  obtains sl name rest2 where "rest = sl @ name @ rest2" "takeWhile (\<lambda>c. c = CHR ''/'') rest = sl"
    "takeWhile (\<lambda>c. c \<noteq> CHR ''/'') (name @ rest2) = name" "CHR ''/'' \<notin> set name"
    "rest2 = [] \<or> hd rest2 = CHR ''/'' \<and> name \<noteq> []"
proof -
  define r1 where "r1 = dropWhile (\<lambda>c. c = CHR ''/'') rest"
  define name where "name = takeWhile (\<lambda>c. c \<noteq> CHR ''/'') r1"
  define r2 where "r2 = dropWhile (\<lambda>c. c \<noteq> CHR ''/'') r1"
  have r1: "r1 = name @ r2" by (simp add: name_def r2_def)
  have "rest = takeWhile (\<lambda>c. c = CHR ''/'') rest @ name @ r2" by (simp add: r1 [symmetric] r1_def)
  moreover have "takeWhile (\<lambda>c. c \<noteq> CHR ''/'') (name @ r2) = name"
    by (subst r1 [symmetric]) (simp only: name_def)
  moreover have "CHR ''/'' \<notin> set name" by (auto simp: name_def dest: set_takeWhileD)
  moreover have "r2 = [] \<or> hd r2 = CHR ''/''" using hd_dropWhile [of "\<lambda>c. c \<noteq> CHR ''/''" r1] by (auto simp: r2_def)
  moreover have "r1 = [] \<or> hd r1 \<noteq> CHR ''/''" using hd_dropWhile [of "\<lambda>c. c = CHR ''/''" rest] by (auto simp: r1_def)
  ultimately show thesis using that [of "takeWhile (\<lambda>c. c = CHR ''/'') rest" name r2] r1 by (cases name) auto
qed

text \<open>The places of the directories on the way to a file: where the parts of its path before a slash lead.\<close>

definition on_path :: "string \<Rightarrow> fsys \<Rightarrow> path \<Rightarrow> bool" where
  "on_path full fs q \<longleftrightarrow> (\<exists>p s d n. full = p @ CHR ''/'' # s \<and> p \<noteq> '''' \<and> locate fs p = Inr (d, n) \<and> \<not> dot_name n \<and> q = d @ [n])"

lemma on_path_wrote: "wrote D P fs fs' \<Longrightarrow> on_path full fs q \<Longrightarrow> on_path full fs' q"
  unfolding on_path_def using locate_wrote by blast

lemma mkdir_impl_wrote: "uf2_mkdir_impl fs d r = (e, fs') \<Longrightarrow> wrote (on_path (d @ r) fs') P fs fs'"
proof (induction "length r" arbitrary: fs d r rule: less_induct)
  case less
  obtain sl name rest2 where r: "r = sl @ name @ rest2" "takeWhile (\<lambda>c. c = CHR ''/'') r = sl"
    "takeWhile (\<lambda>c. c \<noteq> CHR ''/'') (name @ rest2) = name" "rest2 = [] \<or> hd rest2 = CHR ''/'' \<and> name \<noteq> []"
    by (rule mkdir_split)
  obtain e1 fs1 where m: "os_mkdir fs (d @ sl @ name) = (e1, fs1)" by fastforce
  show ?case
  proof (cases "rest2 = []")
    case True
    then show ?thesis using less.prems unfolding mkdir_impl_step [OF r(1-3)] by simp
  next
    case False
    then obtain rest3 where r3: "rest2 = CHR ''/'' # rest3" "name \<noteq> []" using r(4) by (cases rest2) auto
    then have full: "d @ r = (d @ sl @ name) @ CHR ''/'' # rest3" using r(1) by simp
    have "d @ sl @ name \<noteq> []" using r3(2) by simp
    then have w1: "wrote (on_path (d @ r) fs) P fs fs1"
      using full unfolding on_path_def by (intro os_mkdir_wrote [OF m]) blast
    have first: ?thesis if "fs' = fs1"
      unfolding that by (rule wrote_mono [OF w1]) (auto intro: on_path_wrote [OF w1])
    have rest: ?thesis if "uf2_mkdir_impl fs1 ((d @ sl @ name) @ ''/'') rest3 = (e, fs')"
    proof -
      from that have w2: "wrote (on_path (d @ r) fs') P fs1 fs'"
        using less.hyps [of rest3 fs1 "(d @ sl @ name) @ ''/''"] r(1) r3(1) by simp
      have "wrote (on_path (d @ r) fs') P fs fs1"
        by (rule wrote_mono [OF w1]) (auto intro: on_path_wrote [OF w1] on_path_wrote [OF w2])
      then show ?thesis using w2 by (rule wrote_trans)
    qed
    show ?thesis
      using less.prems first rest unfolding mkdir_impl_step [OF r(1-3)] m r3(1) by (auto split: if_splits option.splits)
  qed
qed

text \<open>
  The places of the directories that unpacking may make: on the way to the target directory, this directory
  itself, and right in it.
\<close>

definition leading :: "string \<Rightarrow> fsys \<Rightarrow> path \<Rightarrow> bool" where
  "leading dstdir fs q \<longleftrightarrow> (\<exists>ns n ms d. names dstdir = ns @ n # ms \<and> walk fs (origin fs (dstdir @ ''/'')) ns = Inr d \<and> q = d @ [n])
    \<or> (\<exists>d n. walk fs (origin fs (dstdir @ ''/'')) (names dstdir) = Inr d \<and> q = d @ [n])"

lemma on_path_leading:
  assumes "on_path (uf2_map 256 dstdir filename use_paths) fs q" and "length dstdir \<le> 253"
  shows "leading dstdir fs q"
proof -
  obtain t where t: "uf2_map 256 dstdir filename use_paths = dstdir @ CHR ''/'' # t" "length (names t) \<le> 2"
  proof (rule uf2_map_shape [OF assms(2), of filename use_paths])
    fix t
    assume "(\<exists>x. names t = [x]) \<or> (\<exists>x y. names t = [x, y] \<and> x \<noteq> ''..'')"
    then have "length (names t) \<le> 2" by auto
    moreover assume "uf2_map 256 dstdir filename use_paths = dstdir @ CHR ''/'' # t"
    ultimately show thesis using that by blast
  qed
  from assms(1) obtain p s d n where p: "dstdir @ CHR ''/'' # t = p @ CHR ''/'' # s" "p \<noteq> ''''"
      "locate fs p = Inr (d, n)" "q = d @ [n]"
    unfolding on_path_def t(1) by blast
  have np: "names p = butlast (names p) @ [n]" and walk: "walk fs (origin fs p) (butlast (names p)) = Inr d"
    using p(2,3) by (auto simp: locate_def split: sum.splits)
  have o: "origin fs p = origin fs (dstdir @ ''/'')"
    using p(1) origin_append [OF p(2), of fs "CHR ''/'' # s"] origin_append [of "dstdir @ ''/''" fs t] by simp
  have "names p @ names s = names dstdir @ names t" using arg_cong [OF p(1), of names] by (simp add: names_append_slash)
  then have all: "names dstdir @ names t = butlast (names p) @ n # names s" by (subst (asm) np) simp
  show ?thesis
  proof (cases "length (butlast (names p)) < length (names dstdir)")
    case True
    have "names dstdir = take (length (names dstdir)) (butlast (names p) @ n # names s)" using all by (metis append_eq_conv_conj)
    then have "names dstdir = butlast (names p) @ n # take (length (names dstdir) - Suc (length (butlast (names p)))) (names s)"
      using True by (simp add: take_Cons' del: length_butlast)
    then show ?thesis using walk o p(4) unfolding leading_def by metis
  next
    case False
    have "0 < length (names s)" by simp
    moreover have "length (names dstdir) + length (names t) = length (butlast (names p)) + Suc (length (names s))"
      using arg_cong [OF all, of length] by (simp del: length_butlast)
    ultimately have "length (butlast (names p)) = length (names dstdir)"
      using False t(2) by linarith
    then have "butlast (names p) = names dstdir" using all by (metis append_eq_append_conv)
    then show ?thesis using walk o p(4) unfolding leading_def by auto
  qed
qed

lemma leading_wrote: "wrote D P fs fs' \<Longrightarrow> leading dstdir fs q \<Longrightarrow> leading dstdir fs' q"
  unfolding leading_def by (simp only: origin_wrote) (blast dest: walk_wrote)

lemma write_into_wrote:
  assumes "uf2_write_into fs p buf n offs fsz = (e, fs')"
    and "\<And>d n. locate fs p = Inr (d, n) \<Longrightarrow> P (d @ [n])"
  shows "wrote D P fs fs'"
proof -
  obtain r fs1 where o: "os_open_creat fs p = (r, fs1)" by fastforce
  then have w: "wrote D P fs fs1" by (rule os_open_creat_wrote) (rule assms(2))
  show ?thesis
  proof (cases r)
    case (Inl x)
    then show ?thesis using assms(1) o w by (auto simp: uf2_write_into_def)
  next
    case (Inr q)
    from o [unfolded Inr] obtain d n bs where q: "locate fs p = Inr (d, n)" "q = d @ [n]" "tree fs1 q = Some (Regular bs)"
      by (rule os_open_creat_fd)
    then have "wrote D P fs1 fs'"
      using assms(1) assms(2) [OF q(1)] o Inr set_contents_wrote
      by (auto simp: uf2_write_into_def os_ftruncate_def os_write_at_def)
    with w show ?thesis by (rule wrote_trans)
  qed
qed

lemma inside_wrote: "wrote D P fs fs' \<Longrightarrow> inside dstdir fs q \<Longrightarrow> inside dstdir fs' q"
  unfolding inside_def origin_def using walk_wrote by (force simp: wrote_def)

abbreviation unpacked :: "string \<Rightarrow> fsys \<Rightarrow> fsys \<Rightarrow> bool" where
  "unpacked dstdir fs fs' \<equiv> wrote (leading dstdir fs') (inside dstdir fs') fs fs'"

lemma unpacked_trans: "unpacked dstdir fs fs1 \<Longrightarrow> unpacked dstdir fs1 fs' \<Longrightarrow> unpacked dstdir fs fs'"
  by (rule wrote_trans [where fs' = fs1], erule wrote_mono) (blast intro: leading_wrote inside_wrote)+

lemma unpack_block_wrote:
  assumes "uf2_unpack_block dstdir use_paths block fs = (r, fs')" and "length dstdir \<le> 253"
  shows "unpacked dstdir fs fs'"
proof -
  let ?p = "uf2_map 256 dstdir (block_name block) use_paths"
  have m: "unpacked dstdir fs fs1" if "uf2_mkdir_for fs ?p = (e, fs1)" for e fs1
    using mkdir_impl_wrote [OF that [unfolded uf2_mkdir_for_def], of "inside dstdir fs1"]
    by (rule wrote_mono) (auto intro: on_path_leading [OF _ assms(2)])
  have w: "unpacked dstdir fs1 fs2" if "uf2_write_into fs1 ?p buf n offs fsz = (e, fs2)" for e fs1 fs2 buf n offs fsz
  proof -
    from that have w1: "wrote (leading dstdir fs1) (inside dstdir fs1) fs1 fs2"
      by (rule write_into_wrote) (rule locate_inside [OF _ assms(2)])
    show ?thesis by (rule wrote_mono [OF w1]) (blast intro: leading_wrote [OF w1] inside_wrote [OF w1])+
  qed
  show ?thesis
    using assms(1)
    by (auto simp: uf2_unpack_block_def Let_def split: if_splits prod.splits option.splits dest: m w intro: unpacked_trans)
qed

lemma unpack_loop_wrote:
  "uf2_unpack_loop dstdir use_paths fp fs = (r, fs') \<Longrightarrow> length dstdir \<le> 253 \<Longrightarrow> unpacked dstdir fs fs'"
proof (induction dstdir use_paths fp fs arbitrary: r fs' rule: uf2_unpack_loop.induct)
  case (1 dstdir use_paths fp fs)
  obtain got fp' where f: "fread 512 fp = (got, fp')" by fastforce
  obtain e fs1 where b: "uf2_unpack_block dstdir use_paths (as_uf2 got) fs = (e, fs1)" by fastforce
  then have w: "unpacked dstdir fs fs1" by (rule unpack_block_wrote) (rule "1.prems"(2))
  show ?case
  proof (cases "length got = 512 \<and> e = None")
    case True
    then have l: "uf2_unpack_loop dstdir use_paths fp' fs1 = (r, fs')"
      using "1.prems"(1) by (subst (asm) uf2_unpack_loop.simps) (simp add: f b)
    have "unpacked dstdir fs1 fs'"
      using "1.IH" [OF refl f [symmetric] _ b [symmetric] _ l "1.prems"(2)] True by simp
    with w show ?thesis by (rule unpacked_trans)
  next
    case False
    then have "fs' = fs \<or> fs' = fs1"
      using "1.prems"(1) by (subst (asm) uf2_unpack_loop.simps) (auto simp: f b split: if_splits option.splits)
    then show ?thesis using w by auto
  qed
qed

text \<open>
  C35: Whatever is in a UF2 file, and whichever way it ends, unpacking writes regular files only right
  in the directory it was given or in one directory below that, also when the names in the blocks
  hold slashes or \<^verbatim>\<open>..\<close>; it adds directories only right in that directory, itself, and on the way to it; and no
  existing directory or other file changes. The name of the directory has at most 253 characters: a longer
  one does not fit into the path buffer of 256 bytes with a slash after it, and is cut off.
\<close>

theorem unpack_confined:
  assumes "uf2_unpack strerror fp dstdir use_paths fs w = Some (Ret (r, fs'), w')"
    and "length dstdir \<le> 253" and "tree fs' q \<noteq> tree fs q"
  shows "leading dstdir fs' q \<and> tree fs q = None \<and> tree fs' q = Some Dir
    \<or> inside dstdir fs' q \<and> tree fs q \<noteq> Some Dir \<and> (\<exists>bs. tree fs' q = Some (Regular bs))"
proof -
  obtain e where "uf2_unpack_loop dstdir use_paths fp fs = (e, fs')"
    using assms(1) by (auto simp: uf2_unpack_def split: prod.splits option.splits)
  then have "unpacked dstdir fs fs'" using assms(2) by (rule unpack_loop_wrote)
  then show ?thesis using assms(3) unfolding wrote_def by blast
qed

end
