(* ===== verification/Uf2Trip.thy ===== *)
theory Uf2Trip
  imports Uf2 Scripted
begin

text \<open>
  Packing files into a UF2 container and unpacking it: the blocks a file becomes, what unpacking a
  sequence of blocks does, and the round trip through both.
\<close>

section \<open>Blocks in memory\<close>

lemma length_mem_uf2 [simp, layout]: "length (mem_uf2 b) = length (data b) + 36"
  by (simp add: mem_uf2_def)

lemma as_mem_uf2:
  assumes d: "length (data b) = 476"
  shows "as_uf2 (mem_uf2 b) = b"
proof -
  have "get32 (mem_uf2 b) 0 = magic1 b"
    by (rule get32_at [of _ "[]"]) (simp_all add: mem_uf2_def)
  moreover have "get32 (mem_uf2 b) 4 = magic2 b"
    by (rule get32_at [of _ "le32 (magic1 b)"]) (simp_all add: mem_uf2_def)
  moreover have "get32 (mem_uf2 b) 8 = flags b"
    by (rule get32_at [of _ "le32 (magic1 b) @ le32 (magic2 b)"]) (simp_all add: mem_uf2_def)
  moreover have "get32 (mem_uf2 b) 12 = file_offset b"
    by (rule get32_at [of _ "le32 (magic1 b) @ le32 (magic2 b) @ le32 (flags b)"]) (simp_all add: mem_uf2_def)
  moreover have "get32 (mem_uf2 b) 16 = data_bytes b"
    by (rule get32_at [of _ "le32 (magic1 b) @ le32 (magic2 b) @ le32 (flags b) @ le32 (file_offset b)"])
      (simp_all add: mem_uf2_def)
  moreover have "get32 (mem_uf2 b) 20 = block_number b"
    by (rule get32_at [of _ "le32 (magic1 b) @ le32 (magic2 b) @ le32 (flags b) @ le32 (file_offset b)
        @ le32 (data_bytes b)"]) (simp_all add: mem_uf2_def)
  moreover have "get32 (mem_uf2 b) 24 = block_count b"
    by (rule get32_at [of _ "le32 (magic1 b) @ le32 (magic2 b) @ le32 (flags b) @ le32 (file_offset b)
        @ le32 (data_bytes b) @ le32 (block_number b)"]) (simp_all add: mem_uf2_def)
  moreover have "get32 (mem_uf2 b) 28 = file_size b"
    by (rule get32_at [of _ "le32 (magic1 b) @ le32 (magic2 b) @ le32 (flags b) @ le32 (file_offset b)
        @ le32 (data_bytes b) @ le32 (block_number b) @ le32 (block_count b)"]) (simp_all add: mem_uf2_def)
  moreover have "get32 (mem_uf2 b) 508 = magic3 b"
    by (rule get32_at [of _ "le32 (magic1 b) @ le32 (magic2 b) @ le32 (flags b) @ le32 (file_offset b)
        @ le32 (data_bytes b) @ le32 (block_number b) @ le32 (block_count b) @ le32 (file_size b) @ data b" _ "[]"])
      (simp_all add: mem_uf2_def d)
  moreover have "take 476 (drop 32 (mem_uf2 b)) = data b" by (simp add: mem_uf2_def d)
  ultimately show ?thesis by (simp add: as_uf2_def)
qed

lemma mem_uf2_count: "pwrite 24 (le32 c) (mem_uf2 b) = mem_uf2 (b\<lparr>block_count := c\<rparr>)"
proof -
  have "mem_uf2 b = (le32 (magic1 b) @ le32 (magic2 b) @ le32 (flags b) @ le32 (file_offset b)
     @ le32 (data_bytes b) @ le32 (block_number b)) @ le32 (block_count b) @ le32 (file_size b)
     @ data b @ le32 (magic3 b)" (is "_ = ?a @ ?m @ ?r")
    by (simp add: mem_uf2_def)
  then have "pwrite 24 (le32 c) (mem_uf2 b) = ?a @ pwrite 0 (le32 c) ?m @ ?r"
    using pwrite_inside [of 0 "le32 c" ?m ?a ?r] by simp
  also have "\<dots> = mem_uf2 (b\<lparr>block_count := c\<rparr>)" by (simp add: mem_uf2_def pwrite_def resize_def)
  finally show ?thesis .
qed

section \<open>Unpacking a sequence of blocks\<close>

fun unpack_blocks :: "string \<Rightarrow> bool \<Rightarrow> uf2_block_t list \<Rightarrow> fsys \<Rightarrow> (string \<times> int) option \<times> fsys" where
  "unpack_blocks dstdir use_paths [] fs = (None, fs)"
| "unpack_blocks dstdir use_paths (b # bs) fs =
    (case uf2_unpack_block dstdir use_paths b fs of
       (Some e, fs) \<Rightarrow> (Some e, fs)
     | (None, fs) \<Rightarrow> unpack_blocks dstdir use_paths bs fs)"

lemma unpack_blocks_append:
  "unpack_blocks dstdir use_paths xs fs = (None, fs1) \<Longrightarrow>
    unpack_blocks dstdir use_paths (xs @ ys) fs = unpack_blocks dstdir use_paths ys fs1"
  by (induction xs arbitrary: fs) (auto split: prod.splits option.splits)

lemma unpack_loop_blocks:
  assumes "\<forall>b \<in> set bks. length (data b) = 476"
  shows "uf2_unpack_loop dstdir use_paths \<lparr>fdata = pre @ concat (map mem_uf2 bks), fpos = length pre, feof = e\<rparr> fs
    = unpack_blocks dstdir use_paths bks fs"
  using assms
proof (induction bks arbitrary: pre e fs)
  case Nil
  then show ?case by (subst uf2_unpack_loop.simps) (simp add: fread_def)
next
  case (Cons b bks)
  have len: "length (mem_uf2 b) = 512" using Cons.prems by simp
  have "fread 512 \<lparr>fdata = pre @ concat (map mem_uf2 (b # bks)), fpos = length pre, feof = e\<rparr>
      = (mem_uf2 b, \<lparr>fdata = (pre @ mem_uf2 b) @ concat (map mem_uf2 bks), fpos = length (pre @ mem_uf2 b), feof = e\<rparr>)"
    using len by (simp add: fread_def Let_def del: length_mem_uf2)
  then show ?case
    using len Cons.IH [of "pre @ mem_uf2 b"] Cons.prems
    by (subst uf2_unpack_loop.simps)
      (simp add: as_mem_uf2 del: length_mem_uf2 length_append append_assoc split: prod.split option.split)
qed

lemma unpack_container:
  assumes "\<forall>b \<in> set bks. length (data b) = 476" and "unpack_blocks dstdir use_paths bks fs = (None, fs')"
  shows "\<exists>w'. uf2_unpack strerror (open_rb (concat (map mem_uf2 bks))) dstdir use_paths fs w = Some (Ret (ERR_UNK, fs'), w')"
  using unpack_loop_blocks [OF assms(1), of dstdir use_paths "[]" False fs] assms(2)
  by (simp add: uf2_unpack_def open_rb_def)

lemma unpack_count:
  "uf2_unpack_block dstdir use_paths (b\<lparr>block_count := c\<rparr>) fs = uf2_unpack_block dstdir use_paths b fs"
proof -
  have "data (b\<lparr>block_count := c\<rparr>) = data b" "data_bytes (b\<lparr>block_count := c\<rparr>) = data_bytes b"
    "file_offset (b\<lparr>block_count := c\<rparr>) = file_offset b" "file_size (b\<lparr>block_count := c\<rparr>) = file_size b"
    "block_name (b\<lparr>block_count := c\<rparr>) = block_name b" "block_skipped (b\<lparr>block_count := c\<rparr>) = block_skipped b"
    by (simp_all add: block_name_def block_skipped_def)
  then show ?thesis unfolding uf2_unpack_block_def by (simp only:)
qed

lemma unpack_blocks_count:
  "unpack_blocks dstdir use_paths (map (\<lambda>b. b\<lparr>block_count := c\<rparr>) bks) fs = unpack_blocks dstdir use_paths bks fs"
  by (induction bks arbitrary: fs) (auto simp: unpack_count split: prod.split option.split)

section \<open>Unpacking into an existing directory\<close>

text \<open>The target directory exists, and a file \<open>base\<close> may be written in it.\<close>

definition ready :: "string \<Rightarrow> path \<Rightarrow> string \<Rightarrow> fsys \<Rightarrow> bool" where
  "ready dstdir d base fs \<longleftrightarrow> walk fs (origin fs (dstdir @ ''/'')) (names dstdir) = Inr d
     \<and> \<not> dot_name base \<and> CHR ''/'' \<notin> set base \<and> length dstdir + 3 + length base \<le> 255
     \<and> tree fs (d @ [base]) \<noteq> Some Dir \<and> \<not> locked fs d \<and> \<not> locked fs (d @ [base])"

lemma mkdir_impl_noop:
  assumes "\<And>s t. done @ rest = s @ CHR ''/'' # t \<Longrightarrow> s \<noteq> '''' \<Longrightarrow> \<exists>d. walk fs (origin fs s) (names s) = Inr d"
  shows "uf2_mkdir_impl fs done rest = (None, fs)"
  using assms
proof (induction "length rest" arbitrary: "done" rest rule: less_induct)
  case less
  obtain sl name rest2 where r: "rest = sl @ name @ rest2" "takeWhile (\<lambda>c. c = CHR ''/'') rest = sl"
    "takeWhile (\<lambda>c. c \<noteq> CHR ''/'') (name @ rest2) = name"
    and n: "rest2 = [] \<or> hd rest2 = CHR ''/'' \<and> name \<noteq> []" by (rule mkdir_split)
  show ?case
  proof (cases rest2)
    case Nil
    then show ?thesis using mkdir_impl_step [OF r] by simp
  next
    case (Cons c r')
    then have c: "rest2 = CHR ''/'' # r'" "name \<noteq> []" using n by simp_all
    let ?path = "done @ sl @ name"
    have split: "done @ rest = ?path @ CHR ''/'' # r'" using r(1) c by simp
    have ne: "?path \<noteq> ''''" using c(2) by simp
    from less.prems [OF split ne] obtain d where "walk fs (origin fs ?path) (names ?path) = Inr d" by blast
    then have "os_mkdir fs ?path = (Some EEXIST, fs)" using ne by (rule os_mkdir_exists)
    moreover have "uf2_mkdir_impl fs (?path @ ''/'') r' = (None, fs)"
      by (rule less.hyps) (use r(1) c less.prems split in \<open>auto\<close>)
    ultimately show ?thesis using mkdir_impl_step [OF r] c by simp
  qed
qed
lemma ready_map:
  assumes "ready dstdir d base fs" and "uf2_basename name False = base"
  shows "uf2_map 256 dstdir name False = (dstdir @ ''/.'') @ CHR ''/'' # base"
proof -
  have "length (dstdir @ ''/./'' @ base) \<le> 255" using assms(1) by (simp add: ready_def)
  then have "take 255 (dstdir @ ''/./'' @ base) = dstdir @ ''/./'' @ base" by (rule take_all)
  then show ?thesis using assms(2) by (simp add: uf2_map_def)
qed

lemma ready_mkdir:
  assumes "ready dstdir d base fs"
  shows "uf2_mkdir_for fs ((dstdir @ ''/.'') @ CHR ''/'' # base) = (None, fs)"
  unfolding uf2_mkdir_for_def
proof (rule mkdir_impl_noop)
  fix s t
  assume p: "'''' @ (dstdir @ ''/.'') @ CHR ''/'' # base = s @ CHR ''/'' # t" and s: "s \<noteq> ''''"
  have o: "origin fs (dstdir @ ''/'') = origin fs s"
  proof -
    have "origin fs (dstdir @ ''/'') = origin fs ((dstdir @ ''/'') @ ''./'' @ base)"
      by (rule origin_append [symmetric]) simp
    also have "(dstdir @ ''/'') @ ''./'' @ base = s @ CHR ''/'' # t" using p by simp
    finally show ?thesis using s by (simp add: origin_append)
  qed
  have "names (s @ CHR ''/'' # t) = names ((dstdir @ ''/.'') @ CHR ''/'' # base)" using p by simp
  also have "\<dots> = names dstdir @ [''.'', base]"
    using assms by (simp add: ready_def names_append_slash names_plain)
  finally have n: "names s @ names t = (names dstdir @ [''.'']) @ [base]" by (simp add: names_append_slash)
  obtain ns m where "names t = ns @ [m]" by (metis append_butlast_last_id names_not_Nil)
  then have "names s @ ns = names dstdir @ [''.'']" using n by simp
  moreover have "walk fs (origin fs s) (names dstdir @ [''.'']) = Inr d"
    using assms o by (simp add: ready_def walk_append)
  ultimately have "walk fs (origin fs s) (names s @ ns) = Inr d" by simp
  then show "\<exists>d. walk fs (origin fs s) (names s) = Inr d" by (auto simp: walk_append split: sum.splits)
qed

lemma ready_write:
  assumes r: "ready dstdir d base fs"
  shows "uf2_write_into fs ((dstdir @ ''/.'') @ CHR ''/'' # base) buf n offs fsz
    = (None, set_contents (d @ [base]) (pwrite offs (take n buf) (resize fsz (contents fs (d @ [base])))) fs)"
proof -
  let ?p = "(dstdir @ ''/.'') @ CHR ''/'' # base"
  have o: "origin fs ?p = origin fs (dstdir @ ''/'')"
    using origin_append [of "dstdir @ ''/''" fs "CHR ''.'' # CHR ''/'' # base"] by simp
  have nm: "names ?p = (names dstdir @ [''.'']) @ [base]"
    using r by (simp add: ready_def names_append_slash names_plain)
  have "locate fs ?p = Inr (d, base)"
    using r o by (subst locate_names [OF nm]) (simp_all add: ready_def walk_append)
  then have "\<exists>fs1. os_open_creat fs ?p = (Inr (d @ [base]), fs1) \<and> (fs1 = fs \<and> tree fs (d @ [base]) \<noteq> None
      \<or> fs1 = set_contents (d @ [base]) [] fs \<and> tree fs (d @ [base]) = None)"
    using r by (auto simp: os_open_creat_def ready_def set_contents_def split: option.split node.split)
  then obtain fs1 where f: "os_open_creat fs ?p = (Inr (d @ [base]), fs1)"
    "contents fs1 (d @ [base]) = contents fs (d @ [base])" "fs1 = fs \<or> fs1 = set_contents (d @ [base]) [] fs"
    by (auto simp: contents_def)
  have "set_contents (d @ [base]) c fs1 = set_contents (d @ [base]) c fs" for c
    using f(3) by auto
  then show ?thesis
    using f(1,2) by (simp add: uf2_write_into_def os_ftruncate_def os_write_at_def)
qed

lemma ready_set:
  assumes "ready dstdir d base fs" and "tree fs q \<noteq> Some Dir"
  shows "ready dstdir d base (set_contents q bs fs)"
proof -
  have "wrote (\<lambda>_. True) (\<lambda>_. True) fs (set_contents q bs fs)"
    using assms(2) by (auto simp: wrote_def)
  moreover have "origin (set_contents q bs fs) p = origin fs p" for p by (simp add: origin_def)
  ultimately show ?thesis using assms(1) walk_wrote by (auto simp: ready_def)
qed

text \<open>A block as \<^verbatim>\<open>uf2_write_file\<close> makes it: a piece of the file, the name, zeros.\<close>

definition file_block :: "string \<Rightarrow> nat \<Rightarrow> u8 list \<Rightarrow> nat \<Rightarrow> int \<Rightarrow> uf2_block_t" where
  "file_block name fsz piece offs num =
    \<lparr>magic1 = UF2_MAGIC_1, magic2 = UF2_MAGIC_2, flags = UF2_FLAG_FILE, file_offset = of_nat offs,
      data_bytes = of_nat (length piece), block_number = word_of_int num, block_count = 0,
      file_size = of_nat fsz, data = piece @ bytes name @ replicate (476 - length piece - length name) 0,
      magic3 = UF2_MAGIC_3\<rparr>"

lemma file_block_data:
  assumes "length piece + length name < 476" and "c_string name"
  shows "length (data (file_block name fsz piece offs num)) = 476"
    and "(data (file_block name fsz piece offs num))[475 := 0] = data (file_block name fsz piece offs num)"
    and "block_name (file_block name fsz piece offs num) = name"
proof -
  define k where "k = 475 - length piece - length name"
  have k: "476 - (length piece + length name) = Suc k" "length piece + length name + Suc k = 476"
    using assms(1) by (simp_all add: k_def)
  let ?d = "data (file_block name fsz piece offs num)"
  have d: "?d = piece @ bytes name @ 0 # replicate k 0" by (simp add: file_block_def k(1) diff_diff_left)
  show "length ?d = 476" using k(2) by (simp add: d)
  have "?d = (piece @ bytes name @ replicate k 0) @ [0]" by (simp add: d replicate_append_same)
  moreover have "length (piece @ bytes name @ replicate k 0) = 475" using k(2) by simp
  ultimately have "?d ! 475 = 0" by (metis nth_append_length)
  then show same: "?d[475 := 0] = ?d" by (metis list_update_id)
  have "unat (data_bytes (file_block name fsz piece offs num)) = length piece"
    using assms(1) by (simp add: file_block_def)
  then show "block_name (file_block name fsz piece offs num) = name"
    unfolding block_name_def same by (simp add: d takeWhile_cstr [OF assms(2)])
qed

lemma unpack_file_block:
  assumes "ready dstdir d base fs" and "uf2_basename name False = base" and "c_string name"
    and "length name \<le> 150" and "length piece + length name < 476" and "length piece \<le> 466"
    and "offs < fsz" and "fsz \<le> UF2_FILE_MAX"
  shows "uf2_unpack_block dstdir False (file_block name fsz piece offs num) fs
    = (None, set_contents (d @ [base]) (pwrite offs piece (resize fsz (contents fs (d @ [base])))) fs)"
proof -
  let ?b = "file_block name fsz piece offs num"
  note fd = file_block_data [OF assms(5,3), of fsz offs num]
  have small: "fsz < 4294967296" using assms(8) by (simp add: UF2_FILE_MAX_def)
  then have u: "unat (file_size ?b) = fsz" "unat (file_offset ?b) = offs" "unat (data_bytes ?b) = length piece"
    using assms(5,7) by (simp_all add: file_block_def)
  have "\<not> file_size ?b \<le> file_offset ?b" using u assms(7) by (simp add: word_le_nat_alt)
  then have "\<not> block_skipped ?b"
    unfolding block_skipped_def using u assms fd(3)
    by (simp add: file_block_def UF2_PAYLOAD_MAX_def UF2_FILENAME_MAX_def UF2_FLAG_IGNORE_def UF2_FLAG_FILE_def)
  moreover have "take (length piece) (data ?b) = piece" by (simp add: file_block_def)
  ultimately show ?thesis
    unfolding uf2_unpack_block_def Let_def fd(2,3) u ready_map [OF assms(1,2)] ready_mkdir [OF assms(1)]
      prod.case option.case ready_write [OF assms(1)]
    by simp
qed

text \<open>All blocks of a file from an offset on, and what unpacking them does.\<close>

function file_blocks :: "string \<Rightarrow> nat \<Rightarrow> nat \<Rightarrow> u8 list \<Rightarrow> nat \<Rightarrow> int \<Rightarrow> uf2_block_t list" where
  "file_blocks name fsz m rest offs num =
    (if rest = [] \<or> m = 0 then []
     else file_block name fsz (take m rest) offs num
       # file_blocks name fsz m (drop m rest) (offs + length (take m rest)) (num + 1))"
  by pat_completeness auto
termination
  by (relation "measure (\<lambda>(name, fsz, m, rest, offs, num). length rest)") auto

declare file_blocks.simps [simp del]

lemma file_blocks_Nil [simp]: "file_blocks name fsz m [] offs num = []"
  by (subst file_blocks.simps) simp

definition piece_max :: "string \<Rightarrow> nat" where
  "piece_max name = min (475 - length name) 466"

lemma unpack_file_blocks:
  assumes "ready dstdir d base fs" and "uf2_basename name False = base" and "c_string name"
    and "length name \<le> 150" and "m = piece_max name" and "rest \<noteq> []" and "fsz = offs + length rest"
    and "fsz \<le> UF2_FILE_MAX"
  shows "unpack_blocks dstdir False (file_blocks name fsz m rest offs num) fs
    = (None, set_contents (d @ [base]) (take offs (resize fsz (contents fs (d @ [base]))) @ rest) fs)"
  using assms(1,6,7)
proof (induction rest arbitrary: offs num fs rule: length_induct)
  case (1 rest)
  define q where "q = d @ [base]"
  define c where "c = resize fsz (contents fs q)"
  define piece where "piece = take m rest"
  define c1 where "c1 = pwrite offs piece c"
  have m: "0 < m" "m \<le> 466" "m + length name < 476" using assms(4,5) by (auto simp: piece_max_def)
  have piece: "length piece \<le> m" "length piece \<le> length rest" "piece \<noteq> []"
    using m(1) 1(3) by (simp_all add: piece_def)
  have lc: "length c = fsz" by (simp add: c_def)
  have b: "uf2_unpack_block dstdir False (file_block name fsz piece offs num) fs = (None, set_contents q c1 fs)"
    unfolding q_def c1_def c_def
    by (rule unpack_file_block) (use 1 assms m piece in \<open>auto simp: length_greater_0_conv\<close>)
  have c1: "c1 = take offs c @ piece @ drop (offs + length piece) c" "length c1 = fsz"
    using 1(4) piece lc by (simp_all add: c1_def pwrite_def resize_def)
  have fb: "file_blocks name fsz m rest offs num = file_block name fsz piece offs num
      # file_blocks name fsz m (drop m rest) (offs + length piece) (num + 1)"
    using 1(3) m(1) by (subst file_blocks.simps) (simp add: piece_def)
  show ?case
  proof (cases "drop m rest = []")
    case True
    then have "piece = rest" by (simp add: piece_def)
    then have "c1 = take offs c @ rest" using c1(1) 1(4) lc by simp
    moreover have "file_blocks name fsz m (drop m rest) (offs + length piece) (num + 1) = []"
      using True by (subst file_blocks.simps) simp
    ultimately show ?thesis using b by (simp add: fb q_def c_def)
  next
    case False
    have lp: "length piece = m" using False by (simp add: piece_def)
    have "fsz = (offs + length piece) + length (drop m rest)" using 1(4) False lp by simp
    moreover have "ready dstdir d base (set_contents q c1 fs)"
      using 1(2) by (rule ready_set) (use 1(2) in \<open>simp add: ready_def q_def\<close>)
    moreover have "length (drop m rest) < length rest" using m(1) False by (cases rest) (simp_all add: piece_def)
    ultimately have "unpack_blocks dstdir False (file_blocks name fsz m (drop m rest) (offs + length piece) (num + 1)) (set_contents q c1 fs)
        = (None, set_contents q (take (offs + length piece) (resize fsz (contents (set_contents q c1 fs) q)) @ drop m rest) (set_contents q c1 fs))"
      using 1(1) False unfolding q_def by blast
    moreover have "take (offs + length piece) c1 = take offs c @ piece"
      using c1(1) 1(4) piece(2) lc by simp
    moreover have "piece @ drop m rest = rest" by (simp add: piece_def)
    ultimately show ?thesis using b c1(2) by (simp add: fb resize_id flip: q_def c_def)
  qed
qed

section \<open>Packing a file\<close>

lemma to_int_small: "0 \<le> x \<Longrightarrow> x < 2147483648 \<Longrightarrow> to_int x = x"
  by (simp add: to_int_def int_word_sint)

lemma to_size_t_small: "0 \<le> x \<Longrightarrow> x < 2147483648 \<Longrightarrow> to_size_t x = nat x"
  by (simp add: to_size_t_def unat_eq_nat_uint uint_word_of_int)

lemma file_turns:
  assumes "length name \<le> 150" and "length bs < 2147483648" and "m = piece_max name"
    and "block = \<lparr>magic1 = UF2_MAGIC_1, magic2 = UF2_MAGIC_2, flags = UF2_FLAG_FILE, file_offset = 0,
      data_bytes = 0, block_number = 0, block_count = 0, file_size = of_nat (length bs),
      data = buf, magic3 = UF2_MAGIC_3\<rparr>"
  shows "off \<le> length bs \<Longrightarrow>
    loop (uf2_file_turn block name start (int (length bs)) (int m) (length name))
      (dst, \<lparr>fdata = bs, fpos = off, feof = e\<rparr>, blks, int off) w
    = ret (blks + int (length (file_blocks name (length bs) m (drop off bs) off (start + blks))),
        dst @ concat (map mem_uf2 (file_blocks name (length bs) m (drop off bs) off (start + blks)))) w"
proof (induction "length bs - off" arbitrary: off dst e blks rule: less_induct)
  case less
  have m: "0 < m" "m \<le> 466" "m + length name < 476" using assms(1,3) by (auto simp: piece_max_def)
  show ?case
  proof (cases "off = length bs")
    case True
    then show ?thesis by (simp add: loop_step uf2_file_turn_def)
  next
    case False
    define piece where "piece = take m (drop off bs)"
    define req where "req = (if length bs - off \<le> m then length bs - off else m)"
    have lp: "length piece = req" by (simp add: piece_def req_def)
    have req: "0 < req" "req \<le> m" "off + req \<le> length bs" using False less.prems m(1) by (auto simp: req_def)
    have remain: "to_int (int (length bs) - int off) = int (length bs - off)"
      using less.prems assms(2) by (subst to_int_small) simp_all
    have rq: "(if int (length bs - off) \<le> int m then int (length bs - off) else int m) = int req"
      by (simp add: req_def)
    have "fread req \<lparr>fdata = bs, fpos = off, feof = e\<rparr> = (piece, \<lparr>fdata = bs, fpos = off + req, feof = e\<rparr>)"
    proof -
      have "take req (drop off bs) = piece" using lp by (simp add: piece_def req_def)
      then show ?thesis using lp by (simp add: fread_def Let_def)
    qed
    then have got: "fread (to_size_t (int req)) \<lparr>fdata = bs, fpos = off, feof = e\<rparr>
        = (piece, \<lparr>fdata = bs, fpos = off + req, feof = e\<rparr>)"
      using req m by (subst to_size_t_small) simp_all
    have dl: "to_int (int (length piece)) = int req" using lp req m by (subst to_int_small) simp_all
    have blk: "block\<lparr>data := piece @ take (length name) (bytes name) @ replicate (476 - length piece - length name) 0,
        file_offset := word_of_int (int off), data_bytes := word_of_int (int req),
        block_number := word_of_int (start + blks)\<rparr> = file_block name (length bs) piece off (start + blks)"
      by (simp add: assms(4) file_block_def lp)
    have c: "\<not> 476 < length piece" "\<not> 476 < length piece + length name" "int off < int (length bs)"
      using lp req m less.prems False by simp_all
    have "uf2_file_turn block name start (int (length bs)) (int m) (length name)
        (dst, \<lparr>fdata = bs, fpos = off, feof = e\<rparr>, blks, int off) w
      = ret (Inl (dst @ mem_uf2 (file_block name (length bs) piece off (start + blks)),
          \<lparr>fdata = bs, fpos = off + req, feof = e\<rparr>, blks + 1, int off + int req)) w"
      unfolding uf2_file_turn_def prod.case Let_def remain rq got dl blk using c by simp
    then have "loop (uf2_file_turn block name start (int (length bs)) (int m) (length name))
        (dst, \<lparr>fdata = bs, fpos = off, feof = e\<rparr>, blks, int off) w
      = loop (uf2_file_turn block name start (int (length bs)) (int m) (length name))
        (dst @ mem_uf2 (file_block name (length bs) piece off (start + blks)),
          \<lparr>fdata = bs, fpos = off + req, feof = e\<rparr>, blks + 1, int (off + req)) w"
      by (simp add: loop_step(3))
    moreover have "drop (off + req) bs = drop m (drop off bs)"
      using req by (cases "length bs - off \<le> m") (simp_all add: req_def add.commute)
    moreover have "file_blocks name (length bs) m (drop off bs) off (start + blks)
      = file_block name (length bs) piece off (start + blks)
        # file_blocks name (length bs) m (drop m (drop off bs)) (off + req) (start + (blks + 1))"
      using False less.prems m(1) lp by (subst file_blocks.simps) (simp add: piece_def add.assoc)
    ultimately show ?thesis
      using less.hyps [of "off + req" "dst @ mem_uf2 (file_block name (length bs) piece off (start + blks))" e "blks + 1"] req
      by simp
  qed
qed

lemma write_file_blocks:
  assumes "length name \<le> 150" and "length bs < 2147483648"
  shows "\<exists>w'. uf2_write_file dst (open_rb bs) name start (int (length bs)) w
    = ret (int (length (file_blocks name (length bs) (piece_max name) bs 0 start)),
        dst @ concat (map mem_uf2 (file_blocks name (length bs) (piece_max name) bs 0 start))) w'"
proof -
  have n: "(if UF2_FILENAME_MAX < length name then UF2_FILENAME_MAX else length name) = length name"
    using assms(1) by (simp add: UF2_FILENAME_MAX_def)
  have p: "(if int UF2_PAYLOAD_MAX < int 476 - int (length name) - 1 then int UF2_PAYLOAD_MAX
      else int 476 - int (length name) - 1) = int (piece_max name)"
    using assms(1) by (simp add: UF2_PAYLOAD_MAX_def piece_max_def)
  have o: "open_rb bs = \<lparr>fdata = bs, fpos = 0, feof = False\<rparr>" by (simp add: open_rb_def)
  show ?thesis
    unfolding uf2_write_file_def Let_def n p o
    using file_turns [OF assms refl refl, where off = 0 and buf = "replicate 476 0" and start = start and dst = dst
        and e = False and blks = 0] by auto
qed

section \<open>Packing all files\<close>

abbreviation packed_name :: "string \<Rightarrow> string \<Rightarrow> string" where
  "packed_name destdir f \<equiv> destdir @ ''/'' @ uf2_basename f False"

fun pack_blocks :: "string \<Rightarrow> (string \<times> u8 list) list \<Rightarrow> int \<Rightarrow> uf2_block_t list" where
  "pack_blocks destdir [] num = []"
| "pack_blocks destdir ((f, bs) # fls) num =
    (let name = packed_name destdir f;
         blocks = file_blocks name (length bs) (piece_max name) bs 0 num
     in blocks @ pack_blocks destdir fls (num + int (length blocks)))"

text \<open>A file that can be packed: it is there, with a name and a size the container allows.\<close>

definition packable :: "fsys \<Rightarrow> string \<Rightarrow> string \<times> u8 list \<Rightarrow> bool" where
  "packable fs destdir = (\<lambda>(f, bs). os_fopen_rb fs f = Some bs \<and> length bs < 2147483648
     \<and> length (packed_name destdir f) \<le> 150)"

lemma write_from_blocks:
  assumes "\<forall>x \<in> set fls. packable fs destdir x"
  shows "\<exists>w'. uf2_write_from fs destdir start (map fst fls) blks dst w
    = (let (r, out) = uf2_fixup_block_count (dst @ concat (map mem_uf2 (pack_blocks destdir fls blks))) start
         (blks + int (length (pack_blocks destdir fls blks))) in ret (r, out) w')"
  using assms
proof (induction fls arbitrary: blks dst w)
  case (Cons x fls)
  obtain f bs where x: "x = (f, bs)" by (cases x)
  let ?name = "packed_name destdir f"
  define fb where "fb = file_blocks ?name (length bs) (piece_max ?name) bs 0 blks"
  have p: "os_fopen_rb fs f = Some bs" "length bs < 2147483648" "length ?name \<le> 150"
    using Cons.prems by (simp_all add: x packable_def)
  have n: "take UF2_FILENAME_MAX ?name = ?name" using p(3) by (simp add: UF2_FILENAME_MAX_def)
  obtain w1 where w1: "uf2_write_file dst (open_rb bs) ?name blks (int (fsize (open_rb bs))) w
      = ret (int (length fb), dst @ concat (map mem_uf2 fb)) w1"
    using write_file_blocks [OF p(3,2), of dst blks w] by (auto simp: fb_def fsize_def open_rb_def)
  have "uf2_write_from fs destdir start (map fst (x # fls)) blks dst w
      = uf2_write_from fs destdir start (map fst fls) (blks + int (length fb)) (dst @ concat (map mem_uf2 fb)) w1"
    unfolding x list.map fst_conv uf2_write_from.simps Let_def n p(1) option.case w1 by simp
  then show ?case
    using Cons.IH [of "blks + int (length fb)" "dst @ concat (map mem_uf2 fb)" w1] Cons.prems
    by (simp add: x Let_def fb_def add.assoc)
qed simp

lemma fixup_blocks:
  assumes "\<forall>b \<in> set bks. length (data b) = 476" and "k + length bks = n" and "n < 8388608"
    and "length a = start + 512 * k"
  shows "uf2_fixup_from start (of_nat n) (of_nat k) (a @ concat (map mem_uf2 bks))
    = a @ concat (map (\<lambda>b. mem_uf2 (b\<lparr>block_count := of_nat n\<rparr>)) bks)"
  using assms(1,2,4)
proof (induction bks arbitrary: k a)
  case Nil
  then show ?case by (subst uf2_fixup_from.simps) simp
next
  case (Cons b bks)
  have k: "k < n" "k < 8388608" using Cons.prems(2) assms(3) by simp_all
  then have lt: "(of_nat k :: u32) < of_nat n" using assms(3) by (simp add: word_less_nat_alt)
  have off: "start + unat (512 * of_nat k :: u32) + 24 = length a + 24"
  proof -
    have "(512 * of_nat k :: u32) = of_nat (512 * k)" by simp
    then have "unat (512 * of_nat k :: u32) = 512 * k" using k(2) by (simp only:) (rule unat_u32_small, simp)
    then show ?thesis using Cons.prems(3) by simp
  qed
  have "pwrite (length a + 24) (le32 (of_nat n)) (a @ mem_uf2 b @ concat (map mem_uf2 bks))
      = a @ mem_uf2 (b\<lparr>block_count := of_nat n\<rparr>) @ concat (map mem_uf2 bks)"
    by (subst pwrite_inside) (simp_all add: mem_uf2_count)
  then have "uf2_fixup_from start (of_nat n) (of_nat k) (a @ concat (map mem_uf2 (b # bks)))
      = uf2_fixup_from start (of_nat n) (of_nat (Suc k)) ((a @ mem_uf2 (b\<lparr>block_count := of_nat n\<rparr>)) @ concat (map mem_uf2 bks))"
    using lt by (subst uf2_fixup_from.simps, subst off) (simp add: add.commute)
  also have "\<dots> = (a @ mem_uf2 (b\<lparr>block_count := of_nat n\<rparr>)) @ concat (map (\<lambda>b. mem_uf2 (b\<lparr>block_count := of_nat n\<rparr>)) bks)"
    by (rule Cons.IH) (use Cons.prems in simp_all)
  finally show ?case by simp
qed

lemma file_blocks_data:
  assumes "c_string name" and "length name \<le> 150" and "m = piece_max name"
    and "b \<in> set (file_blocks name fsz m rest offs num)"
  shows "length (data b) = 476"
  using assms(4)
proof (induction rest arbitrary: offs num rule: length_induct)
  case (1 rest)
  have m: "0 < m" "m + length name < 476" using assms(2,3) by (auto simp: piece_max_def)
  show ?case
  proof (cases "rest = []")
    case False
    then have "file_blocks name fsz m rest offs num = file_block name fsz (take m rest) offs num
       # file_blocks name fsz m (drop m rest) (offs + length (take m rest)) (num + 1)"
      using m(1) by (subst file_blocks.simps) simp
    then consider "b = file_block name fsz (take m rest) offs num"
      | "b \<in> set (file_blocks name fsz m (drop m rest) (offs + length (take m rest)) (num + 1))"
      using 1(2) by auto
    then show ?thesis
    proof cases
      case 1
      have "length (take m rest) + length name < 476" using m(2) by simp
      then show ?thesis using 1 file_block_data(1) [OF _ assms(1)] by simp
    next
      case 2
      moreover have "length (drop m rest) < length rest" using m(1) False by (cases rest) simp_all
      ultimately show ?thesis using 1(1) by blast
    qed
  qed (use 1(2) in simp)
qed

lemma c_string_packed: "c_string destdir \<Longrightarrow> c_string f \<Longrightarrow> c_string (packed_name destdir f)"
  by (auto simp: c_string_def uf2_basename_def dest: in_set_dropD)

lemma pack_blocks_data:
  assumes "\<forall>(f, bs) \<in> set fls. packable fs destdir (f, bs) \<and> c_string f" and "c_string destdir"
    and "b \<in> set (pack_blocks destdir fls num)"
  shows "length (data b) = 476"
  using assms(1,3)
proof (induction fls arbitrary: num)
  case (Cons x fls)
  obtain f bs where x: "x = (f, bs)" by (cases x)
  show ?case
    using Cons file_blocks_data [OF c_string_packed [OF assms(2)], of f _ b]
    by (auto simp: x Let_def packable_def)
qed simp

lemma unpack_pack_blocks:
  assumes "c_string destdir"
    and "\<forall>(f, bs) \<in> set fls. packable fs destdir (f, bs) \<and> c_string f \<and> bs \<noteq> [] \<and> length bs \<le> UF2_FILE_MAX
          \<and> ready dstdir d (uf2_basename f False) fs2"
    and "distinct (map (\<lambda>(f, bs). uf2_basename f False) fls)"
  shows "\<exists>fs'. unpack_blocks dstdir False (pack_blocks destdir fls num) fs2 = (None, fs')
    \<and> (\<forall>(f, bs) \<in> set fls. tree fs' (d @ [uf2_basename f False]) = Some (Regular bs))
    \<and> (\<forall>q. (\<forall>(f, bs) \<in> set fls. q \<noteq> d @ [uf2_basename f False]) \<longrightarrow> tree fs' q = tree fs2 q)"
  using assms(2,3)
proof (induction fls arbitrary: num fs2)
  case (Cons x fls)
  obtain f bs where x: "x = (f, bs)" by (cases x)
  let ?base = "uf2_basename f False"
  let ?name = "packed_name destdir f"
  define fb where "fb = file_blocks ?name (length bs) (piece_max ?name) bs 0 num"
  define fs1 where "fs1 = set_contents (d @ [?base]) bs fs2"
  have p: "length ?name \<le> 150" "c_string f" "bs \<noteq> []" "length bs \<le> UF2_FILE_MAX" "ready dstdir d ?base fs2"
    using Cons.prems(1) by (auto simp: x packable_def)
  have base: "uf2_basename ?name False = ?base"
    using basename_plain(2) [OF basename_no_slash, of destdir f] by simp
  have b: "unpack_blocks dstdir False fb fs2 = (None, fs1)"
    using unpack_file_blocks [OF p(5) base c_string_packed [OF assms(1) p(2)] p(1) refl p(3), of "length bs" 0 num] p(4)
    by (simp add: fb_def fs1_def)
  have "tree fs2 (d @ [?base]) \<noteq> Some Dir" using p(5) by (simp add: ready_def)
  then have ready1: "ready dstdir d g fs2 \<Longrightarrow> ready dstdir d g fs1" for g
    unfolding fs1_def by (rule ready_set [rotated])
  have "\<forall>(f, bs) \<in> set fls. packable fs destdir (f, bs) \<and> c_string f \<and> bs \<noteq> [] \<and> length bs \<le> UF2_FILE_MAX
      \<and> ready dstdir d (uf2_basename f False) fs1"
    using Cons.prems(1) ready1 by (auto simp: x)
  from Cons.IH [OF this, of "num + int (length fb)"] obtain fs' where
    u: "unpack_blocks dstdir False (pack_blocks destdir fls (num + int (length fb))) fs1 = (None, fs')"
    and c: "\<forall>(f, bs) \<in> set fls. tree fs' (d @ [uf2_basename f False]) = Some (Regular bs)"
    and o: "\<forall>q. (\<forall>(f, bs) \<in> set fls. q \<noteq> d @ [uf2_basename f False]) \<longrightarrow> tree fs' q = tree fs1 q"
    using Cons.prems(2) by (auto simp: x)
  have "\<forall>(g, cs) \<in> set fls. d @ [?base] \<noteq> d @ [uf2_basename g False]"
    using Cons.prems(2) by (force simp: x)
  then have "tree fs' (d @ [?base]) = Some (Regular bs)" using o by (simp add: fs1_def)
  moreover have "unpack_blocks dstdir False (pack_blocks destdir (x # fls) num) fs2 = (None, fs')"
    using u unpack_blocks_append [OF b] by (simp add: x Let_def fb_def)
  ultimately show ?case using c o by (intro exI [of _ fs']) (auto simp: x fs1_def)
qed simp

lemma length_file_blocks: "length (file_blocks name fsz m rest offs num) * m \<le> length rest + m"
proof (induction rest arbitrary: offs num rule: length_induct)
  case (1 rest)
  show ?case
  proof (cases "rest = [] \<or> m = 0")
    case False
    then have fb: "file_blocks name fsz m rest offs num = file_block name fsz (take m rest) offs num
       # file_blocks name fsz m (drop m rest) (offs + length (take m rest)) (num + 1)"
      by (subst file_blocks.simps) simp
    show ?thesis
    proof (cases "length rest \<le> m")
      case True
      then show ?thesis using fb by simp
    next
      case less: False
      then have "length (drop m rest) < length rest" using False by simp
      then have "length (file_blocks name fsz m (drop m rest) (offs + length (take m rest)) (num + 1)) * m
          \<le> length (drop m rest) + m" using 1 by blast
      then show ?thesis using less fb by simp
    qed
  qed (subst file_blocks.simps, simp)
qed

text \<open>What packing writes: the blocks with their count, which unpacking does not look at.\<close>

lemma pack_container:
  assumes "destdir \<noteq> ''''" and "c_string destdir"
    and files: "\<forall>(f, bs) \<in> set fls. packable fs destdir (f, bs) \<and> c_string f"
    and blocks: "length (pack_blocks destdir fls 0) < 8388608"
  obtains bks w1 where "uf2_pack strerror fs [] destdir (map fst fls) w = Some (Ret (0, concat (map mem_uf2 bks)), w1)"
    "\<forall>b \<in> set bks. length (data b) = 476"
    "\<forall>dstdir p fs. unpack_blocks dstdir p bks fs = unpack_blocks dstdir p (pack_blocks destdir fls 0) fs"
proof -
  define bks where "bks = pack_blocks destdir fls 0"
  define bks' where "bks' = map (\<lambda>b. b\<lparr>block_count := of_nat (length bks)\<rparr>) bks"
  have data: "\<forall>b \<in> set bks. length (data b) = 476"
    unfolding bks_def by (intro ballI) (rule pack_blocks_data [OF files assms(2)])
  have fixup: "uf2_fixup_from 0 (of_nat (length bks)) 0 (concat (map mem_uf2 bks)) = concat (map mem_uf2 bks')"
    using fixup_blocks [OF data _ blocks [folded bks_def], of 0 "[]" 0] by (simp add: bks'_def comp_def)
  have "\<forall>x \<in> set fls. packable fs destdir x" using files by auto
  from write_from_blocks [OF this, of 0 0 "[]" w] obtain w1 where "uf2_write_from fs destdir 0 (map fst fls) 0 [] w
      = (let (r, out) = uf2_fixup_block_count (concat (map mem_uf2 bks)) 0 (int (length bks)) in ret (r, out) w1)"
    unfolding bks_def by (simp only: append_Nil add_0) blast
  then have pack: "uf2_write_all fs [] destdir (map fst fls) w = ret (int (length bks), concat (map mem_uf2 bks')) w1"
    using fixup by (simp add: uf2_write_all_def uf2_fixup_block_count_def)
  show thesis
  proof (rule that)
    show "uf2_pack strerror fs [] destdir (map fst fls) w
        = Some (Ret (0, concat (map mem_uf2 bks')), w1\<lparr>errmsg := Some ''`uf2 pack` was successful.''\<rparr>)"
      using assms(1) by (simp add: uf2_pack_def pack)
    show "\<forall>b \<in> set bks'. length (data b) = 476" using data by (simp add: bks'_def)
    show "\<forall>dstdir p fs. unpack_blocks dstdir p bks' fs = unpack_blocks dstdir p (pack_blocks destdir fls 0) fs"
      by (simp add: bks'_def unpack_blocks_count bks_def)
  qed
qed

text \<open>
  C34: Packing and unpacking preserve the files: a container made of readable files with distinct base
  names is written without an error, and unpacking it into an existing directory without the paths
  succeeds and leaves exactly the contents of each file under its base name there, whatever files
  were there before, and nothing else changed. A file may be up to 64 megabytes long, but not empty;
  there may be up to 8388607 blocks.
\<close>

theorem uf2_roundtrip:
  assumes "destdir \<noteq> ''''" and "c_string destdir"
    and "\<forall>(f, bs) \<in> set fls. packable fs destdir (f, bs) \<and> c_string f \<and> bs \<noteq> [] \<and> length bs \<le> UF2_FILE_MAX
          \<and> ready dstdir d (uf2_basename f False) fs2"
    and "distinct (map (\<lambda>(f, bs). uf2_basename f False) fls)"
    and "length (pack_blocks destdir fls 0) < 8388608"
  shows "\<exists>out w1 fs' w2. uf2_pack strerror fs [] destdir (map fst fls) w = Some (Ret (0, out), w1)
    \<and> uf2_unpack strerror (open_rb out) dstdir False fs2 w1 = Some (Ret (ERR_UNK, fs'), w2)
    \<and> (\<forall>(f, bs) \<in> set fls. tree fs' (d @ [uf2_basename f False]) = Some (Regular bs))
    \<and> (\<forall>q. (\<forall>(f, bs) \<in> set fls. q \<noteq> d @ [uf2_basename f False]) \<longrightarrow> tree fs' q = tree fs2 q)"
proof -
  have files: "\<forall>(f, bs) \<in> set fls. packable fs destdir (f, bs) \<and> c_string f" using assms(3) by auto
  obtain bks w1 where 1: "uf2_pack strerror fs [] destdir (map fst fls) w = Some (Ret (0, concat (map mem_uf2 bks)), w1)"
    and b: "\<forall>b \<in> set bks. length (data b) = 476"
      "\<forall>dstdir p fs. unpack_blocks dstdir p bks fs = unpack_blocks dstdir p (pack_blocks destdir fls 0) fs"
    by (rule pack_container [OF assms(1,2) files assms(5), where strerror = strerror and w = w])
  obtain fs' where u: "unpack_blocks dstdir False bks fs2 = (None, fs')"
    and rest: "\<forall>(f, bs) \<in> set fls. tree fs' (d @ [uf2_basename f False]) = Some (Regular bs)"
      "\<forall>q. (\<forall>(f, bs) \<in> set fls. q \<noteq> d @ [uf2_basename f False]) \<longrightarrow> tree fs' q = tree fs2 q"
    using unpack_pack_blocks [OF assms(2,3,4), of 0, folded b(2) [rule_format]] by (elim exE conjE)
  obtain w3 where 2: "uf2_unpack strerror (open_rb (concat (map mem_uf2 bks))) dstdir False fs2 w1 = Some (Ret (ERR_UNK, fs'), w3)"
    using unpack_container [OF b(1) u] by blast
  show ?thesis
    by (rule exI [of _ "concat (map mem_uf2 bks)"], rule exI [of _ w1], rule exI [of _ fs'], rule exI [of _ w3])
      (intro conjI 1 2 rest)
qed

text \<open>
  A file of more than 64 megabytes is lost without a word: it is packed successfully, and
  unpacking the container reports success but skips all of its blocks and changes nothing.
\<close>

theorem uf2_oversize_lost:
  assumes "destdir \<noteq> ''''" and "c_string destdir" and "c_string f" and "packable fs destdir (f, bs)"
    and "UF2_FILE_MAX < length bs"
  shows "\<exists>out w1 w2. uf2_pack strerror fs [] destdir [f] w = Some (Ret (0, out), w1)
    \<and> uf2_unpack strerror (open_rb out) dstdir use_paths fs2 w1 = Some (Ret (ERR_UNK, fs2), w2)"
proof -
  have skip: "unpack_blocks dstdir use_paths (file_blocks name (length bs) m r offs num) fs2 = (None, fs2)" for name m r offs num
  proof (induction r arbitrary: offs num rule: length_induct)
    case (1 r)
    have "unat (of_nat (length bs) :: u32) = length bs" using assms(4) by (simp add: packable_def)
    then have "uf2_unpack_block dstdir use_paths (file_block name (length bs) p offs num) fs2 = (None, fs2)" for p
      using assms(5) by (simp add: uf2_unpack_block_def block_skipped_def file_block_def)
    then show ?case using 1 by (subst file_blocks.simps) (cases r; simp)
  qed
  have files: "\<forall>(f, bs) \<in> set [(f, bs)]. packable fs destdir (f, bs) \<and> c_string f" using assms(3,4) by simp
  have m: "325 \<le> piece_max (packed_name destdir f)" using assms(4) by (auto simp: packable_def piece_max_def)
  have "length (file_blocks (packed_name destdir f) (length bs) (piece_max (packed_name destdir f)) bs 0 0) * 325
      \<le> length (file_blocks (packed_name destdir f) (length bs) (piece_max (packed_name destdir f)) bs 0 0)
        * piece_max (packed_name destdir f)"
    using m by simp
  also have "\<dots> \<le> length bs + piece_max (packed_name destdir f)" by (rule length_file_blocks)
  also have "\<dots> < 2147483648 + 476"
    by (rule add_strict_mono) (use assms(4) in \<open>simp_all add: packable_def piece_max_def\<close>)
  finally have few: "length (pack_blocks destdir [(f, bs)] 0) < 8388608" by (simp add: Let_def)
  obtain bks w1 where "uf2_pack strerror fs [] destdir (map fst [(f, bs)]) w = Some (Ret (0, concat (map mem_uf2 bks)), w1)"
    and b: "\<forall>b \<in> set bks. length (data b) = 476"
      "\<forall>dstdir p fs. unpack_blocks dstdir p bks fs = unpack_blocks dstdir p (pack_blocks destdir [(f, bs)] 0) fs"
    by (rule pack_container [OF assms(1,2) files few, where strerror = strerror and w = w])
  then have 1: "uf2_pack strerror fs [] destdir [f] w = Some (Ret (0, concat (map mem_uf2 bks)), w1)" by simp
  have "unpack_blocks dstdir use_paths bks fs2 = (None, fs2)" using b(2) by (simp add: skip Let_def)
  from unpack_container [OF b(1) this] 1 show ?thesis by blast
qed

section \<open>Files of two gigabytes and more\<close>

lemma write_file_name:
  obtains k m block v where "k \<le> 150" "0 < m" "m \<le> 466"
    "uf2_write_file dst src name start n w = loop (uf2_file_turn block name start n (int m) k) (dst, src, 0, 0) v"
proof (rule that)
  define k where "k = (if length name > UF2_FILENAME_MAX then UF2_FILENAME_MAX else length name)"
  show k: "k \<le> 150" by (simp add: k_def UF2_FILENAME_MAX_def)
  show "0 < min (475 - k) 466" "min (475 - k) 466 \<le> 466" using k by simp_all
  have "(if int UF2_PAYLOAD_MAX < int 476 - int k - 1 then int UF2_PAYLOAD_MAX else int 476 - int k - 1)
      = int (min (475 - k) 466)"
    using k by (simp add: UF2_PAYLOAD_MAX_def)
  then show "uf2_write_file dst src name start n w = loop (uf2_file_turn
      \<lparr>magic1 = UF2_MAGIC_1, magic2 = UF2_MAGIC_2, flags = UF2_FLAG_FILE, file_offset = 0, data_bytes = 0,
        block_number = 0, block_count = 0, file_size = word_of_int n, data = replicate 476 0, magic3 = UF2_MAGIC_3\<rparr>
      name start n (int (min (475 - k) 466)) k) (dst, src, 0, 0)
      (put_err (bytes (''file '' @ [CHR 0x27] @ name @ [CHR 0x27] @ '' length '' @ dec (nat n) @ ''\<newline>'')) w)"
    unfolding uf2_write_file_def Let_def k_def [symmetric] by simp
qed

lemma pack_first_undef:
  fixes w :: "'d world"
  assumes "os_fopen_rb fs f = Some bs"
    and "\<And>name (v :: 'd world). \<exists>w'. uf2_write_file dst (open_rb bs) name 0 (int (length bs)) v = undef w'"
  shows "\<exists>w'. uf2_pack strerror fs dst brickdir (f # fls) w = undef w'"
proof -
  define dir where "dir = (if length brickdir = 0 then ''Projects'' else brickdir)"
  have sz: "int (fsize (open_rb bs)) = int (length bs)" by (simp add: fsize_def open_rb_def)
  obtain w' where "uf2_write_file dst (open_rb bs) (take UF2_FILENAME_MAX (dir @ ''/'' @ uf2_basename f False)) 0
      (int (length bs)) w = undef w'"
    using assms(2) by blast
  then show ?thesis
    unfolding uf2_pack_def uf2_write_all_def uf2_write_from.simps Let_def dir_def [symmetric] assms(1) option.case sz by simp
qed

lemma pack_first_None:
  fixes w :: "'d world"
  assumes "os_fopen_rb fs f = Some bs"
    and "\<And>name (v :: 'd world). uf2_write_file dst (open_rb bs) name 0 (int (length bs)) v = None"
  shows "uf2_pack strerror fs dst brickdir (f # fls) w = None"
proof -
  have sz: "int (fsize (open_rb bs)) = int (length bs)" by (simp add: fsize_def open_rb_def)
  show ?thesis
    unfolding uf2_pack_def uf2_write_all_def uf2_write_from.simps Let_def assms(1) option.case sz assms(2) call_None
    by (rule refl)
qed

text \<open>
  The remaining length of a file is converted to a signed 32-bit number: for a file of two to four
  gigabytes it is negative, and the read into the 476-byte data field of the block is unbounded.
\<close>

theorem uf2_pack_overruns:
  fixes w :: "'d world"
  assumes "os_fopen_rb fs f = Some bs" and "2147483648 \<le> length bs" and "length bs < 4294967296"
  shows "\<exists>w'. uf2_pack strerror fs dst brickdir (f # fls) w = Some (Undef, w')"
proof (rule pack_first_undef [OF assms(1)])
  fix name and v :: "'d world"
  obtain k m block v' where l: "uf2_write_file dst (open_rb bs) name 0 (int (length bs)) v
      = loop (uf2_file_turn block name 0 (int (length bs)) (int m) k) (dst, open_rb bs, 0, 0) v'"
    by (rule write_file_name)
  have i: "to_int (int (length bs)) = int (length bs) - 4294967296"
  proof -
    have "(int (length bs) + 2147483648) mod 4294967296 = int (length bs) + 2147483648 - 4294967296"
      using assms(2,3) by (subst mod_pos_geq) (simp_all add: mod_pos_pos_trivial)
    then show ?thesis unfolding to_int_def int_word_sint by simp
  qed
  have s: "length bs \<le> to_size_t (int (length bs) - 4294967296)"
  proof -
    have "(int (length bs) - 4294967296) mod 18446744073709551616 = int (length bs) - 4294967296 + 18446744073709551616"
    proof -
      have "(int (length bs) - 4294967296) mod 18446744073709551616
          = (int (length bs) - 4294967296 + 18446744073709551616) mod 18446744073709551616" by (rule mod_add_self2 [symmetric])
      also have "\<dots> = int (length bs) - 4294967296 + 18446744073709551616"
        using assms(2,3) by (intro mod_pos_pos_trivial) simp_all
      finally show ?thesis .
    qed
    then show ?thesis unfolding to_size_t_def unat_eq_nat_uint uint_word_of_int by simp
  qed
  obtain src' where f: "fread (to_size_t (int (length bs) - 4294967296)) (open_rb bs) = (bs, src')"
    using s by (simp add: fread_def open_rb_def)
  have r: "(if int (length bs) - 4294967296 \<le> int m then int (length bs) - 4294967296 else int m) = int (length bs) - 4294967296"
    using assms(3) by simp
  have c: "0 < int (length bs)" "476 < length bs" using assms(2) by linarith+
  have "uf2_file_turn block name 0 (int (length bs)) (int m) k (dst, open_rb bs, 0, 0) v' = undef v'"
    unfolding uf2_file_turn_def prod.case Let_def diff_0_right i r f using c by (simp only: if_True)
  then show "\<exists>w'. uf2_write_file dst (open_rb bs) name 0 (int (length bs)) v = undef w'" using l by (simp add: loop_step)
qed

text \<open>
  For a file whose length is a multiple of four gigabytes the remaining length is zero at once:
  packing writes blocks without data and never ends.
\<close>

theorem uf2_pack_hangs:
  fixes w :: "'d world"
  assumes "os_fopen_rb fs f = Some bs" and "bs \<noteq> []" and "length bs mod 4294967296 = 0"
  shows "uf2_pack strerror fs dst brickdir (f # fls) w = None"
proof (rule pack_first_None [OF assms(1)])
  fix name and v :: "'d world"
  obtain k m block v' where l: "k \<le> 150" "uf2_write_file dst (open_rb bs) name 0 (int (length bs)) v
      = loop (uf2_file_turn block name 0 (int (length bs)) (int m) k) (dst, open_rb bs, 0, 0) v'"
    by (rule write_file_name)
  obtain c where "length bs = 4294967296 * c" using assms(3) by auto
  then have i: "to_int (int (length bs) - 0) = 0" unfolding to_int_def int_word_sint by simp
  have z: "to_size_t 0 = 0" "to_int (int (length ([] :: u8 list))) = 0" by (simp_all add: to_size_t_def to_int_def)
  have pos: "0 < int (length bs)" using assms(2) by simp
  have "loop (uf2_file_turn block name 0 (int (length bs)) (int m) k) (dst, open_rb bs, 0, 0) v' = None"
  proof (rule loop_forever [where I = "\<lambda>st w. snd (snd (snd st)) = 0"])
    fix st :: "u8 list \<times> FILE \<times> int \<times> int" and w :: "'d world"
    assume "snd (snd (snd st)) = 0"
    then obtain dst src blks where st: "st = (dst, src, blks, 0)" by (metis prod.collapse)
    obtain src' where f: "fread 0 src = ([], src')" by (simp add: fread_def)
    have r: "(if (0 :: int) \<le> int m then 0 else int m) = 0" by simp
    show "\<exists>s1 w1. uf2_file_turn block name 0 (int (length bs)) (int m) k st w = Some (Ret (Inl s1), w1)
        \<and> snd (snd (snd s1)) = 0"
      unfolding uf2_file_turn_def prod.case st Let_def i r z f using pos l(1) by simp
  qed simp
  then show "uf2_write_file dst (open_rb bs) name 0 (int (length bs)) v = None" using l by simp
qed

section \<open>Concrete runs\<close>

definition disk :: "(path \<Rightarrow> node option) \<Rightarrow> fsys" where
  "disk t = \<lparr>tree = t, cwd = [], locked = (\<lambda>_. False)\<rparr>"

lemma disk_file:
  "c \<notin> set f \<or> True \<Longrightarrow> f \<noteq> '''' \<Longrightarrow> CHR ''/'' \<notin> set f \<Longrightarrow> \<not> dot_name f \<Longrightarrow>
    os_fopen_rb (disk ((\<lambda>_. None)([f] \<mapsto> Regular bs))) f = Some bs"
  by (simp add: os_fopen_rb_def locate_def names_plain origin_def disk_def)

theorem uf2_pack_overruns_witness:
  "\<exists>w'. uf2_pack (\<lambda>_. '''') (disk ((\<lambda>_. None)([''big''] \<mapsto> Regular (replicate 2147483648 0)))) [] ''Projects'' [''big'']
    (world0 ()) = Some (Undef, w')"
  by (rule uf2_pack_overruns [where bs = "replicate 2147483648 0"]) (simp_all only: length_replicate, simp_all add: disk_file dot_name_def)

theorem uf2_pack_hangs_witness:
  "uf2_pack (\<lambda>_. '''') (disk ((\<lambda>_. None)([''big''] \<mapsto> Regular (replicate 4294967296 0)))) [] ''Projects'' [''big'']
    (world0 ()) = None"
proof (rule uf2_pack_hangs)
  show "os_fopen_rb (disk ((\<lambda>_. None)([''big''] \<mapsto> Regular (replicate 4294967296 0)))) ''big'' = Some (replicate 4294967296 0)"
    by (rule disk_file) (simp_all add: dot_name_def)
  show "replicate 4294967296 (0 :: u8) \<noteq> []" by (simp only: replicate_empty)
  show "length (replicate 4294967296 (0 :: u8)) mod 4294967296 = 0" by (simp only: length_replicate mod_self)
qed

theorem uf2_oversize_lost_witness:
  "\<exists>out w1 w2. uf2_pack (\<lambda>_. '''') (disk ((\<lambda>_. None)([''big''] \<mapsto> Regular (replicate 70000000 0)))) [] ''Projects'' [''big'']
      (world0 ()) = Some (Ret (0, out), w1)
    \<and> uf2_unpack (\<lambda>_. '''') (open_rb out) ''out'' False (disk (\<lambda>_. None)) w1 = Some (Ret (ERR_UNK, disk (\<lambda>_. None)), w2)"
proof (rule uf2_oversize_lost)
  have "os_fopen_rb (disk ((\<lambda>_. None)([''big''] \<mapsto> Regular (replicate 70000000 0)))) ''big'' = Some (replicate 70000000 0)"
    by (rule disk_file) (simp_all add: dot_name_def)
  moreover have "uf2_basename ''big'' False = ''big''" by (rule basename_plain) simp
  ultimately show "packable (disk ((\<lambda>_. None)([''big''] \<mapsto> Regular (replicate 70000000 0)))) ''Projects'' (''big'', replicate 70000000 0)"
    unfolding packable_def prod.case length_replicate by simp
  show "UF2_FILE_MAX < length (replicate 70000000 (0 :: u8))" unfolding length_replicate by (simp add: UF2_FILE_MAX_def)
qed (simp_all add: c_string_def)

text \<open>Two files from a directory \<^verbatim>\<open>p\<close> into \<^verbatim>\<open>out\<close>, where one of them exists already.\<close>

definition project :: "path \<Rightarrow> node option" where
  "project = (\<lambda>_. None)([''p''] \<mapsto> Dir, [''p'', ''a''] \<mapsto> Regular [1, 2, 3], [''p'', ''b''] \<mapsto> Regular (replicate 1000 7),
     [''out''] \<mapsto> Dir, [''out'', ''b''] \<mapsto> Regular [9, 9])"

theorem uf2_roundtrip_witness:
  "\<exists>out w1 fs' w2. uf2_pack (\<lambda>_. '''') (disk project) [] ''Projects'' [''p/a'', ''p/b''] (world0 ()) = Some (Ret (0, out), w1)
    \<and> uf2_unpack (\<lambda>_. '''') (open_rb out) ''out'' False (disk project) w1 = Some (Ret (ERR_UNK, fs'), w2)
    \<and> tree fs' [''out'', ''a''] = Some (Regular [1, 2, 3])
    \<and> tree fs' [''out'', ''b''] = Some (Regular (replicate 1000 7))"
proof -
  let ?fls = "[(''p/a'', [1, 2, 3]), (''p/b'', replicate 1000 7)] :: (string \<times> u8 list) list"
  have base: "uf2_basename ''p/a'' False = ''a''" "uf2_basename ''p/b'' False = ''b''"
    using basename_plain(2) [of "''a''" "''p''"] basename_plain(2) [of "''b''" "''p''"] by simp_all
  have open_rb: "os_fopen_rb (disk project) ''p/a'' = Some [1, 2, 3]" "os_fopen_rb (disk project) ''p/b'' = Some (replicate 1000 7)"
    by (simp_all add: os_fopen_rb_def locate_def origin_def disk_def project_def dot_name_def)
  have rdy: "ready ''out'' [''out''] ''a'' (disk project)" "ready ''out'' [''out''] ''b'' (disk project)"
    by (simp_all add: ready_def origin_def disk_def project_def dot_name_def)
  have one: "length (file_blocks (packed_name ''Projects'' f) n (piece_max (packed_name ''Projects'' f)) bs 0 num) \<le> 2000"
    if "f = ''p/a'' \<or> f = ''p/b''" and "length bs \<le> 1000" for f n num and bs :: "u8 list"
  proof -
    have "piece_max (packed_name ''Projects'' f) = 465" using that(1) base by (auto simp: piece_max_def)
    then show ?thesis
      using length_file_blocks [of "packed_name ''Projects'' f" n "piece_max (packed_name ''Projects'' f)" bs 0 num] that(2)
      by simp
  qed
  have "length (pack_blocks ''Projects'' [(f, x), (g, y)] 0) \<le> 2000 + 2000"
    if "f = ''p/a''" "g = ''p/b''" "length x \<le> 1000" "length y \<le> 1000" for f g x y
    unfolding pack_blocks.simps Let_def length_append append_Nil2 by (rule add_mono; rule one) (use that in simp_all)
  from this [of "''p/a''" "''p/b''" "[1, 2, 3]" "replicate 1000 7"]
  have "length (pack_blocks ''Projects'' ?fls 0) < 8388608" by simp
  moreover have "\<forall>(f, bs) \<in> set ?fls. packable (disk project) ''Projects'' (f, bs) \<and> c_string f \<and> bs \<noteq> []
      \<and> length bs \<le> UF2_FILE_MAX \<and> ready ''out'' [''out''] (uf2_basename f False) (disk project)"
    by (simp add: base rdy open_rb packable_def c_string_def UF2_FILE_MAX_def)
  ultimately show ?thesis
    using uf2_roundtrip [where destdir = "''Projects''" and fls = ?fls and fs = "disk project" and ?fs2.0 = "disk project"
        and dstdir = "''out''" and d = "[''out'']" and strerror = "\<lambda>_. ''''" and w = "world0 ()"] base
    by (simp add: c_string_def) blast
qed

text \<open>A block whose name climbs out of the target directory ends up inside it.\<close>

theorem unpack_confined_witness:
  "\<exists>fs' w'. uf2_unpack (\<lambda>_. '''') (open_rb (mem_uf2 (file_block ''../x'' 3 [1, 2, 3] 0 0))) ''out'' False (disk project)
      (world0 ()) = Some (Ret (ERR_UNK, fs'), w') \<and> inside ''out'' fs' [''out'', ''x'']"
proof -
  let ?b = "file_block ''../x'' 3 [1, 2, 3] 0 0"
  define fs' where "fs' = set_contents [''out'', ''x''] [1, 2, 3] (disk project)"
  have r: "ready ''out'' [''out''] ''x'' (disk project)"
    by (simp add: ready_def origin_def disk_def project_def dot_name_def)
  have n: "uf2_basename ''../x'' False = ''x''" using basename_plain(2) [of "''x''" "''..''"] by simp
  have "contents (disk project) [''out'', ''x''] = []" by (simp add: contents_def disk_def project_def)
  then have "uf2_unpack_block ''out'' False ?b (disk project) = (None, fs')"
    using unpack_file_block [OF r n, of "[1, 2, 3]" 0 3 0]
    by (simp add: fs'_def c_string_def UF2_FILE_MAX_def pwrite_def resize_def)
  then have u: "unpack_blocks ''out'' False [?b] (disk project) = (None, fs')" by simp
  have "length (data ?b) = 476" by (rule file_block_data(1)) (simp_all add: c_string_def)
  then obtain w' where w': "uf2_unpack (\<lambda>_. '''') (open_rb (mem_uf2 ?b)) ''out'' False (disk project) (world0 ())
      = Some (Ret (ERR_UNK, fs'), w')"
    using unpack_container [OF _ u] by fastforce
  have "tree fs' [''out'', ''x''] = Some (Regular [1, 2, 3])" "tree (disk project) [''out'', ''x''] = None"
    by (simp_all add: fs'_def disk_def project_def)
  then have "inside ''out'' fs' [''out'', ''x'']"
    using unpack_confined [OF w', of "[''out'', ''x'']"] by simp
  with w' show ?thesis by blast
qed

end
