(* ===== verification/SerialPort.thy ===== *)
theory SerialPort
  imports Prelude
begin

text \<open>
  Opening and closing the serial port, the other half of \<^verbatim>\<open>src/src/bt-unix.c\<close>: the terminal behind the
  port is put into raw mode and its attributes are put back at the end. The flags of \<^verbatim>\<open><termios.h>\<close>
  have their Linux values; what \<^verbatim>\<open>perror\<close> prints is left out.
\<close>

section \<open>Terminals\<close>

record termios =
  c_iflag :: u32
  c_oflag :: u32
  c_cflag :: u32
  c_lflag :: u32
  c_vmin :: u8
  c_vtime :: u8

datatype access = RDONLY | WRONLY | RDWR

text \<open>The terminals by path, the open descriptors, and the next free descriptor.\<close>

record ttys =
  attrs :: "string \<Rightarrow> termios option"
  fds :: "int \<Rightarrow> (string \<times> access) option"
  next_fd :: int

definition sys_open :: "ttys \<Rightarrow> string \<Rightarrow> access \<Rightarrow> int \<times> ttys" where
  "sys_open t file mode =
    (if attrs t file = None then (- 1, t)
     else (next_fd t, t\<lparr>fds := (fds t)(next_fd t \<mapsto> (file, mode)), next_fd := next_fd t + 1\<rparr>))"

definition sys_close :: "ttys \<Rightarrow> int \<Rightarrow> ttys" where
  "sys_close t fd = t\<lparr>fds := (fds t)(fd := None)\<rparr>"

definition tcgetattr :: "ttys \<Rightarrow> int \<Rightarrow> termios option" where
  "tcgetattr t fd = Option.bind (fds t fd) (\<lambda>(file, _). attrs t file)"

definition tcsetattr :: "ttys \<Rightarrow> int \<Rightarrow> termios \<Rightarrow> ttys option" where
  "tcsetattr t fd a = map_option (\<lambda>(file, _). t\<lparr>attrs := (attrs t)(file \<mapsto> a)\<rparr>) (fds t fd)"

section \<open>bt-unix.c\<close>

definition BT :: string where "BT = ''/dev/cu.EV3-SerialPort''"

record bt_handle_t =
  read_fd :: int
  write_fd :: int
  old_read_mode :: termios
  old_write_mode :: termios

text \<open>
  \<^verbatim>\<open>BRKINT | ICRNL | IGNBRK | IGNCR | IGNPAR | INLCR | INPCK | ISTRIP | IXOFF | IXON | PARMRK\<close>,
  \<^verbatim>\<open>OPOST\<close>, \<^verbatim>\<open>CREAD | CS8\<close> and \<^verbatim>\<open>ECHO | ICANON | ISIG | IEXTEN\<close>.
\<close>

definition raw_iflags :: u32 where
  "raw_iflags = 0x002 OR 0x100 OR 0x001 OR 0x080 OR 0x004 OR 0x040 OR 0x010 OR 0x020 OR 0x1000 OR 0x400 OR 0x008"

definition raw_mode :: "termios \<Rightarrow> termios" where
  "raw_mode old = old\<lparr>c_iflag := c_iflag old AND NOT raw_iflags,
     c_oflag := c_oflag old AND NOT 0x001,
     c_cflag := c_cflag old OR (0x080 OR 0x030),
     c_lflag := c_lflag old AND NOT (0x008 OR 0x002 OR 0x001 OR 0x8000),
     c_vmin := 1, c_vtime := 0\<rparr>"

text \<open>The attributes before, and the terminals after; \<open>None\<close> for \<^verbatim>\<open>-1\<close>.\<close>

definition set_termios :: "ttys \<Rightarrow> int \<Rightarrow> (termios \<times> ttys) option" where
  "set_termios t fd =
    (case tcgetattr t fd of
       None \<Rightarrow> None
     | Some old \<Rightarrow>
       (case tcsetattr t fd (raw_mode old) of
          None \<Rightarrow> None
        | Some t \<Rightarrow> Some (old, t)))"

text \<open>Where the code returns \<^verbatim>\<open>NULL\<close> after opening a descriptor, the descriptor stays open.\<close>

definition bt_open :: "ttys \<Rightarrow> string option \<Rightarrow> string option \<Rightarrow> bt_handle_t option \<times> ttys" where
  "bt_open t file file2 =
    (let dev_file = (case file of None \<Rightarrow> BT | Some f \<Rightarrow> f);
         (rfd, wfd, t) =
           (if file2 \<noteq> None then
              let (rfd, t) = sys_open t dev_file RDONLY;
                  (wfd, t) = sys_open t dev_file WRONLY
              in (rfd, wfd, t)
            else let (fd, t) = sys_open t dev_file RDWR in (fd, fd, t))
     in
     if wfd = - 1 \<or> rfd = - 1 then (None, t)
     else case set_termios t rfd of
       None \<Rightarrow> (None, t)
     | Some (old_r, t) \<Rightarrow>
       (case set_termios t wfd of
          None \<Rightarrow> (None, t)
        | Some (old_w, t) \<Rightarrow>
          (Some \<lparr>read_fd = rfd, write_fd = wfd, old_read_mode = old_r, old_write_mode = old_w\<rparr>, t)))"

definition bt_close :: "ttys \<Rightarrow> bt_handle_t \<Rightarrow> ttys" where
  "bt_close t cb =
    (let t = (case tcsetattr t (write_fd cb) (old_write_mode cb) of None \<Rightarrow> t | Some t' \<Rightarrow> t');
         t = (case tcsetattr t (read_fd cb) (old_read_mode cb) of None \<Rightarrow> t | Some t' \<Rightarrow> t');
         t = sys_close t (write_fd cb)
     in sys_close t (read_fd cb))"

section \<open>The terminal is left as it was found\<close>

text \<open>Descriptors from the next free one on are not open, and that is none of the special values.\<close>

definition fresh_fds :: "ttys \<Rightarrow> bool" where
  "fresh_fds t \<longleftrightarrow> 0 \<le> next_fd t \<and> (\<forall>fd. next_fd t \<le> fd \<longrightarrow> fds t fd = None)"

definition bt_target :: "string option \<Rightarrow> string" where
  "bt_target file = (case file of None \<Rightarrow> BT | Some f \<Rightarrow> f)"

lemma bt_open_result:
  assumes "fresh_fds t" and "attrs t (bt_target file) = Some a"
  shows "bt_open t file file2 =
    (if file2 = None
     then (Some \<lparr>read_fd = next_fd t, write_fd = next_fd t, old_read_mode = a, old_write_mode = raw_mode a\<rparr>,
       \<lparr>attrs = (attrs t)(bt_target file \<mapsto> raw_mode (raw_mode a)),
        fds = (fds t)(next_fd t \<mapsto> (bt_target file, RDWR)), next_fd = next_fd t + 1, \<dots> = ttys.more t\<rparr>)
     else (Some \<lparr>read_fd = next_fd t, write_fd = next_fd t + 1, old_read_mode = a, old_write_mode = raw_mode a\<rparr>,
       \<lparr>attrs = (attrs t)(bt_target file \<mapsto> raw_mode (raw_mode a)),
        fds = (fds t)(next_fd t \<mapsto> (bt_target file, RDONLY), next_fd t + 1 \<mapsto> (bt_target file, WRONLY)),
        next_fd = next_fd t + 2, \<dots> = ttys.more t\<rparr>))"
  using assms unfolding bt_open_def Let_def bt_target_def [symmetric]
  by (auto simp: sys_open_def fresh_fds_def set_termios_def tcgetattr_def tcsetattr_def)

lemma raw_mode_again [simp]: "raw_mode (raw_mode a) = raw_mode a"
  by (simp add: raw_mode_def and.assoc or.assoc)

text \<open>
  C40: Closing the serial port undoes opening it: whether one or two descriptors were asked for, the
  terminal, which is in raw mode in between, has its old attributes again, all other terminals are
  untouched, and no descriptor is left open.
\<close>

theorem bt_close_restores:
  assumes "fresh_fds t" and "bt_open t file file2 = (Some cb, t1)"
  shows "attrs (bt_close t1 cb) = attrs t \<and> fds (bt_close t1 cb) = fds t
    \<and> attrs t1 (bt_target file) = map_option raw_mode (attrs t (bt_target file))"
proof (cases "attrs t (bt_target file)")
  case None
  then show ?thesis using assms(2)
    unfolding bt_open_def Let_def bt_target_def [symmetric] by (auto simp: sys_open_def split: if_splits)
next
  case (Some a)
  have "fds t (next_fd t) = None" "fds t (next_fd t + 1) = None" using assms(1) by (simp_all add: fresh_fds_def)
  then show ?thesis
    using assms(2) bt_open_result [OF assms(1) Some] Some
    by (auto simp: bt_close_def tcsetattr_def sys_close_def Let_def fun_eq_iff split: if_splits)
qed

text \<open>
  A second file for the output is ignored: with \<^verbatim>\<open>--serial=in,out\<close> both descriptors are opened on the
  first file, so nothing is ever written to the second.
\<close>

theorem bt_open_ignores_output_file:
  assumes "fresh_fds t" and "bt_open t (Some file) (Some file2) = (Some cb, t1)"
  shows "fds t1 (write_fd cb) = Some (file, WRONLY) \<and> fds t1 (read_fd cb) = Some (file, RDONLY)"
proof (cases "attrs t file")
  case None
  then show ?thesis using assms(2) unfolding bt_open_def Let_def by (auto simp: sys_open_def split: if_splits)
next
  case (Some a)
  then have "attrs t (bt_target (Some file)) = Some a" by (simp add: bt_target_def)
  from bt_open_result [OF assms(1) this] assms(2) show ?thesis by (auto simp: bt_target_def)
qed

definition two_ports :: ttys where
  "two_ports = \<lparr>attrs = (\<lambda>f. if f = ''in'' \<or> f = ''out''
       then Some \<lparr>c_iflag = 0x500, c_oflag = 5, c_cflag = 0xBF, c_lflag = 0x8A3B, c_vmin = 4, c_vtime = 2\<rparr> else None),
     fds = (\<lambda>_. None), next_fd = 3\<rparr>"

theorem bt_close_restores_witness:
  "\<exists>cb t1. bt_open two_ports (Some ''in'') None = (Some cb, t1) \<and> attrs t1 ''in'' \<noteq> attrs two_ports ''in''
    \<and> attrs (bt_close t1 cb) = attrs two_ports"
proof -
  have f: "fresh_fds two_ports" by (simp add: fresh_fds_def two_ports_def)
  obtain cb t1 where o: "bt_open two_ports (Some ''in'') None = (Some cb, t1)"
    using bt_open_result [OF f, of "Some ''in''"] by (auto simp: two_ports_def bt_target_def)
  moreover from bt_close_restores [OF f o]
  have "attrs t1 ''in'' \<noteq> attrs two_ports ''in''" "attrs (bt_close t1 cb) = attrs two_ports"
    by (auto simp: two_ports_def bt_target_def raw_mode_def)
  ultimately show ?thesis by blast
qed

theorem bt_open_ignores_output_file_witness:
  "\<exists>cb t1. bt_open two_ports (Some ''in'') (Some ''out'') = (Some cb, t1) \<and> fds t1 (write_fd cb) = Some (''in'', WRONLY)"
proof -
  have f: "fresh_fds two_ports" by (simp add: fresh_fds_def two_ports_def)
  obtain cb t1 where o: "bt_open two_ports (Some ''in'') (Some ''out'') = (Some cb, t1)"
    using bt_open_result [OF f, of "Some ''in''"] by (auto simp: two_ports_def bt_target_def)
  with bt_open_ignores_output_file [OF f o] show ?thesis by blast
qed

end
