(* ===== verification/Serial.thy ===== *)
theory Serial
  imports DirCmds Scripted
begin

text \<open>
  The serial port, \<^verbatim>\<open>src/src/bt-unix.c\<close>; on POSIX systems TCP connections use the same read and write
  functions. A byte stream replaces the packets of the HID transport: the writer drops the report
  byte, the reader finds the end of a reply from the length it starts with.

  The system calls \<^verbatim>\<open>read\<close>, \<^verbatim>\<open>write\<close> and \<^verbatim>\<open>select\<close> on the descriptors are parameters.
\<close>

section \<open>Reading and writing\<close>

text \<open>
  \<open>fd_write s bs\<close> is the number of bytes \<^verbatim>\<open>write\<close> accepts, \<open>fd_read s n\<close> what \<^verbatim>\<open>read\<close> of up to \<open>n\<close>
  bytes stores, nothing at the end of the stream; both are \<open>None\<close> for \<^verbatim>\<open>-1\<close>. \<open>fd_ready s ms\<close> is
  whether \<^verbatim>\<open>select\<close> finds input within the time. Neither call goes beyond what it is asked for.
  What \<^verbatim>\<open>perror\<close> prints is left out.
\<close>

record 's os_fd =
  fd_write :: "'s \<Rightarrow> u8 list \<Rightarrow> nat option \<times> 's"
  fd_read :: "'s \<Rightarrow> nat \<Rightarrow> u8 list option \<times> 's"
  fd_ready :: "'s \<Rightarrow> int \<Rightarrow> bool \<times> 's"

definition sys_write :: "'s os_fd \<Rightarrow> 's \<Rightarrow> u8 list \<Rightarrow> nat option \<times> 's" where
  "sys_write os s bs = (case fd_write os s bs of (r, s) \<Rightarrow> (map_option (min (length bs)) r, s))"

definition sys_read :: "'s os_fd \<Rightarrow> 's \<Rightarrow> nat \<Rightarrow> u8 list option \<times> 's" where
  "sys_read os s n = (case fd_read os s n of (r, s) \<Rightarrow> (map_option (take n) r, s))"

text \<open>The loop of \<^verbatim>\<open>bt_write\<close>; it does not end while \<^verbatim>\<open>write\<close> keeps accepting nothing.\<close>

partial_function (option) bt_write_from :: "'s os_fd \<Rightarrow> 's \<Rightarrow> u8 list \<Rightarrow> nat \<Rightarrow> (int \<times> 's) option" where
  "bt_write_from os s buf sent =
    (if sent < length buf then
       (case sys_write os s (drop sent buf) of
          (None, s) \<Rightarrow> Some (int sent, s)
        | (Some n, s) \<Rightarrow> bt_write_from os s buf (sent + n))
     else Some (int sent, s))"

text \<open>The argument is the \<^verbatim>\<open>count\<close> bytes handed over, of which there is at least one.\<close>

definition bt_write :: "'s os_fd \<Rightarrow> 's \<Rightarrow> u8 list \<Rightarrow> (int \<times> 's) option" where
  "bt_write os s bs = bt_write_from os s (tl bs) 0"

text \<open>
  The two loops of \<^verbatim>\<open>bt_read\<close>; \<open>got\<close> are the bytes stored so far, \<^verbatim>\<open>recvd\<close> their number. In the
  first every turn that goes on stores at least one of the two bytes of the length; its result says
  whether the length was read.
\<close>

function bt_read_head :: "'s os_fd \<Rightarrow> 's \<Rightarrow> u8 list \<Rightarrow> bool \<times> u8 list \<times> 's" where
  "bt_read_head os s got =
    (case sys_read os s (2 - length got) of
       (None, s) \<Rightarrow> (False, got, s)
     | (Some bs, s) \<Rightarrow>
       if bs = [] then (False, got, s)
       else if length (got @ bs) < 2 then bt_read_head os s (got @ bs)
       else (True, got @ bs, s))"
  by pat_completeness auto
termination
  by (relation "measure (\<lambda>(os, s, got). 2 - length got)")
    (auto simp: length_greater_0_conv [symmetric] simp del: length_greater_0_conv)

declare bt_read_head.simps [simp del]

function bt_read_body :: "'s os_fd \<Rightarrow> 's \<Rightarrow> u8 list \<Rightarrow> nat \<Rightarrow> int \<times> u8 list \<times> 's" where
  "bt_read_body os s got packet_len =
    (if length got < packet_len then
       (case sys_read os s (packet_len - length got) of
          (None, s) \<Rightarrow> (- 1, got, s)
        | (Some bs, s) \<Rightarrow>
          if bs = [] then (int (length got), got, s)
          else bt_read_body os s (got @ bs) packet_len)
     else (int (length got), got, s))"
  by pat_completeness auto
termination
  by (relation "measure (\<lambda>(os, s, got, packet_len). packet_len - length got)")
    (auto simp: length_greater_0_conv [symmetric] simp del: length_greater_0_conv)

declare bt_read_body.simps [simp del]

text \<open>The buffer is said to hold \<^verbatim>\<open>count\<close> bytes.\<close>

definition bt_read :: "'s os_fd \<Rightarrow> 's \<Rightarrow> nat \<Rightarrow> int \<Rightarrow> (int \<times> u8 list \<times> 's) option" where
  "bt_read os s count milliseconds =
    (let (ready, s) = (if milliseconds \<ge> 0 then fd_ready os s milliseconds else (True, s)) in
     if \<not> ready then Some (0, [], s)
     else
       let (ok, got, s) = bt_read_head os s [] in
       if \<not> ok then Some (- 1, got, s)
       else
         let packet_len = 2 + unat (get16 got 0) in
         if packet_len > 2 * count then Some (- 1, got, s)
         else Some (bt_read_body os s got packet_len))"

definition serial_io :: "'s os_fd \<Rightarrow> 's ev3_io" where
  "serial_io os = \<lparr>io_write = bt_write os, io_read = bt_read os, io_kind = SERIAL\<rparr>"

section \<open>A byte stream\<close>

text \<open>
  The contract of the descriptors: a write accepts some of the bytes, a read gets some of the bytes the
  brick will send, and waits for them, and reading is not seen by the brick. \<open>out s\<close> are the bytes
  written so far, \<open>seen s\<close> the number of bytes read, \<open>pend s\<close> those still to be read; how they are
  cut into pieces is left open.
\<close>

definition takes :: "'s os_fd \<Rightarrow> ('s \<Rightarrow> u8 list) \<Rightarrow> ('s \<Rightarrow> nat) \<Rightarrow> bool" where
  "takes os out seen \<longleftrightarrow> (\<forall>s bs. bs \<noteq> [] \<longrightarrow>
     (\<exists>n s'. fd_write os s bs = (Some n, s') \<and> 0 < n \<and> n \<le> length bs \<and> out s' = out s @ take n bs
       \<and> seen s' = seen s))"

definition delivers :: "'s os_fd \<Rightarrow> ('s \<Rightarrow> u8 list) \<Rightarrow> ('s \<Rightarrow> u8 list) \<Rightarrow> bool" where
  "delivers os out pend \<longleftrightarrow>
    (\<forall>s n. pend s \<noteq> [] \<longrightarrow> 0 < n \<longrightarrow> (\<exists>bs s'. fd_read os s n = (Some bs, s') \<and> bs \<noteq> [] \<and> length bs \<le> n
       \<and> pend s = bs @ pend s' \<and> out s' = out s))
    \<and> (\<forall>s ms. pend s \<noteq> [] \<longrightarrow> (\<exists>s'. fd_ready os s ms = (True, s') \<and> pend s' = pend s \<and> out s' = out s))"

lemma write_from_all:
  assumes "takes os out seen" and "sent \<le> length buf"
  shows "\<exists>s'. bt_write_from os s buf sent = Some (int (length buf), s') \<and> out s' = out s @ drop sent buf
    \<and> seen s' = seen s"
  using assms(2)
proof (induction "length buf - sent" arbitrary: s sent rule: less_induct)
  case less
  show ?case
  proof (cases "sent = length buf")
    case True
    then show ?thesis by (subst bt_write_from.simps) simp
  next
    case False
    then have "drop sent buf \<noteq> []" using less.prems by simp
    then obtain n s1 where w: "fd_write os s (drop sent buf) = (Some n, s1)" "0 < n" "n \<le> length (drop sent buf)"
      "out s1 = out s @ take n (drop sent buf)" "seen s1 = seen s"
      using assms(1) unfolding takes_def by blast
    then have sw: "sys_write os s (drop sent buf) = (Some n, s1)" by (simp add: sys_write_def)
    have "length buf - (sent + n) < length buf - sent" "sent + n \<le> length buf"
      using w(2,3) False less.prems by simp_all
    from less.hyps [OF this, of s1] obtain s' where
      "bt_write_from os s1 buf (sent + n) = Some (int (length buf), s')" "out s' = out s1 @ drop (sent + n) buf"
      "seen s' = seen s1" by blast
    moreover have "take n (drop sent buf) @ drop (sent + n) buf = drop sent buf"
      by (metis add.commute append_take_drop_id drop_drop)
    ultimately show ?thesis
      using False less.prems w(4,5) by (subst bt_write_from.simps) (auto simp: sw)
  qed
qed

lemma sys_read_piece:
  assumes "delivers os out pend" and "pend s \<noteq> []" and "0 < n"
  obtains bs s' where "sys_read os s n = (Some bs, s')" "bs \<noteq> []" "length bs \<le> n"
    "pend s = bs @ pend s'" "out s' = out s"
proof -
  obtain bs s' where "fd_read os s n = (Some bs, s')" "bs \<noteq> []" "length bs \<le> n" "pend s = bs @ pend s'" "out s' = out s"
    using assms unfolding delivers_def by blast
  then show thesis using that [of bs s'] by (simp add: sys_read_def)
qed

lemma read_head_all:
  assumes "delivers os out pend"
  shows "got @ pend s = hd2 @ r \<Longrightarrow> length hd2 = 2 \<Longrightarrow> length got < 2 \<Longrightarrow>
    \<exists>s'. bt_read_head os s got = (True, hd2, s') \<and> pend s' = r \<and> out s' = out s"
proof (induction "2 - length got" arbitrary: got s rule: less_induct)
  case less
  have "length (got @ pend s) = 2 + length r" using less.prems(1,2) by simp
  then have "pend s \<noteq> []" using less.prems(3) by auto
  then obtain bs s1 where p: "sys_read os s (2 - length got) = (Some bs, s1)" "bs \<noteq> []" "length bs \<le> 2 - length got"
      "pend s = bs @ pend s1" "out s1 = out s"
    using sys_read_piece [OF assms] less.prems(3) by (metis zero_less_diff)
  have eq: "(got @ bs) @ pend s1 = hd2 @ r" using p(4) less.prems(1) by simp
  show ?case
  proof (cases "length (got @ bs) < 2")
    case True
    moreover have "2 - length (got @ bs) < 2 - length got" using p(2) less.prems(3) by (cases bs) simp_all
    ultimately obtain s' where "bt_read_head os s1 (got @ bs) = (True, hd2, s')" "pend s' = r" "out s' = out s1"
      using less.hyps [OF _ eq less.prems(2)] by blast
    then show ?thesis using True p by (subst bt_read_head.simps) simp
  next
    case False
    then have "length (got @ bs) = length hd2" using p(3) less.prems(2,3) by simp
    then have "got @ bs = hd2" "pend s1 = r" using eq by (metis append_eq_append_conv)+
    then show ?thesis using False p by (subst bt_read_head.simps) simp
  qed
qed

lemma read_body_all:
  assumes "delivers os out pend"
  shows "got @ pend s = f @ r \<Longrightarrow> length got \<le> length f \<Longrightarrow>
    \<exists>s'. bt_read_body os s got (length f) = (int (length f), f, s') \<and> pend s' = r \<and> out s' = out s"
proof (induction "length f - length got" arbitrary: got s rule: less_induct)
  case less
  show ?case
  proof (cases "length got < length f")
    case False
    then have "got = f" "pend s = r" using less.prems by simp_all
    then show ?thesis by (subst bt_read_body.simps) simp
  next
    case True
    have "length (got @ pend s) = length f + length r" using less.prems(1) by simp
    then have "pend s \<noteq> []" using True by auto
    then obtain bs s1 where p: "sys_read os s (length f - length got) = (Some bs, s1)" "bs \<noteq> []"
        "length bs \<le> length f - length got" "pend s = bs @ pend s1" "out s1 = out s"
      using sys_read_piece [OF assms] True by (metis zero_less_diff)
    have "(got @ bs) @ pend s1 = f @ r" using p(4) less.prems(1) by simp
    moreover have "length (got @ bs) \<le> length f" using p(3) True by simp
    moreover have "length f - length (got @ bs) < length f - length got" using p(2) True by (cases bs) simp_all
    ultimately obtain s' where "bt_read_body os s1 (got @ bs) (length f) = (int (length f), f, s')"
        "pend s' = r" "out s' = out s1"
      using less.hyps by blast
    then show ?thesis using True p by (subst bt_read_body.simps) simp
  qed
qed

text \<open>A reply as the brick frames it: its length, then as many bytes.\<close>

definition framed_reply :: "u8 list \<Rightarrow> bool" where
  "framed_reply f \<longleftrightarrow> 2 \<le> length f \<and> unat (get16 f 0) + 2 = length f"

lemma get16_take: "2 \<le> length f \<Longrightarrow> get16 (take 2 f) 0 = get16 f 0"
  by (simp add: get16_def)

lemma bt_read_framed:
  assumes "delivers os out pend" and "framed_reply f" and "length f \<le> 2 * count" and "pend s = f @ r"
  shows "\<exists>s'. bt_read os s count ms = Some (int (length f), f, s') \<and> pend s' = r \<and> out s' = out s"
proof -
  have f: "2 \<le> length f" "2 + unat (get16 (take 2 f) 0) = length f"
    using assms(2) by (auto simp: framed_reply_def get16_take)
  then have "pend s \<noteq> []" using assms(4) by auto
  then obtain s0 where s0: "(if ms \<ge> 0 then fd_ready os s ms else (True, s)) = (True, s0)" "pend s0 = f @ r" "out s0 = out s"
  proof (cases "0 \<le> ms")
    case True
    obtain s' where "fd_ready os s ms = (True, s')" "pend s' = pend s" "out s' = out s"
      using assms(1) \<open>pend s \<noteq> []\<close> unfolding delivers_def by meson
    with True assms(4) show ?thesis using that [of s'] by simp
  qed (use assms(4) that [of s] in simp)
  have "[] @ pend s0 = take 2 f @ (drop 2 f @ r)" "length (take 2 f) = 2" using s0(2) f(1) by simp_all
  from read_head_all [OF assms(1) this] obtain s1 where
    s1: "bt_read_head os s0 [] = (True, take 2 f, s1)" "pend s1 = drop 2 f @ r" "out s1 = out s0" by auto
  have "take 2 f @ pend s1 = f @ r" "length (take 2 f) \<le> length f" using s1(2) by simp_all
  from read_body_all [OF assms(1) this] obtain s' where
    "bt_read_body os s1 (take 2 f) (length f) = (int (length f), f, s')" "pend s' = r" "out s' = out s1" by blast
  then show ?thesis
    using assms(3) s0 s1 f(2) unfolding bt_read_def s0(1) prod.case Let_def s1(1) f(2) by simp
qed

text \<open>
  The bridge from the stream to packets: a request goes out without its report byte, however the
  writes are cut, and a framed reply that fits the buffer comes back whole, however the reads are cut.
\<close>

lemma serial_answers:
  assumes "takes os out seen" and "delivers os out pend" and "framed_reply f" and "length f \<le> sz"
    and "\<And>s. out s = out (dev w) @ tl q \<Longrightarrow> seen s = seen (dev w) \<Longrightarrow> pend s = f @ r"
  obtains s' where "answers (serial_io os) w q sz ms (overlay (uninit w sz) f) s'" "pend s' = r"
    "out s' = out (dev w) @ tl q"
proof -
  obtain s1 where s1: "bt_write os (dev w) q = Some (int (length (tl q)), s1)" "out s1 = out (dev w) @ tl q"
      "seen s1 = seen (dev w)"
    unfolding bt_write_def using write_from_all [OF assms(1), of 0 "tl q"] by auto
  have "length f \<le> 2 * sz" using assms(4) by simp
  then obtain s' where s': "bt_read os s1 sz ms = Some (int (length f), f, s')" "pend s' = r" "out s' = out s1"
    using bt_read_framed [OF assms(2,3) _ assms(5) [OF s1(2,3)]] by blast
  have "0 < length f" using assms(3) by (auto simp: framed_reply_def)
  then have "answers (serial_io os) w q sz ms (overlay (uninit w sz) f) s'"
    using s1(1) s'(1) assms(4) by (simp add: answers_def serial_io_def)
  then show thesis using that s1(2) s'(2,3) by simp
qed

text \<open>
  C39: Over a serial or TCP stream that cuts writes and reads into pieces of any size, a directory
  request arrives as one whole frame without the report byte, its reply is taken from the stream
  exactly, and the result is the one the reply stands for; the bytes after the reply stay in the stream.
\<close>

theorem mkdir_over_stream:
  assumes "takes os out seen" and "delivers os out pend" and "length path < 65527"
    and "framed_reply f" and "length f = 7"
    and "\<And>s. out s = out (dev w) @ le16 (of_nat (length path + 5)) @ [0, 0, 1, 0x9B] @ cstr path \<Longrightarrow>
      seen s = seen (dev w) \<Longrightarrow> pend s = f @ r"
  shows "\<exists>w'. pend (dev w') = r
    \<and> out (dev w') = out (dev w) @ le16 (of_nat (length path + 5)) @ [0, 0, 1, 0x9B] @ cstr path
    \<and> mkdir (serial_io os) path w = ret (if f ! 4 \<noteq> 5 then ERR_UNK else ERR_VM) w'
    \<and> (f ! 4 = 5 \<longrightarrow> errno w' = uint (f ! 6))"
proof -
  let ?q = "[0] @ le16 (of_nat (length path + 5)) @ [0, 0, 1, 0x9B] @ cstr path"
  obtain s' where a: "answers (serial_io os) w ?q 7 2000 (overlay (uninit w 7) f) s'" "pend s' = r" "out s' = out (dev w) @ tl ?q"
  proof (rule serial_answers [OF assms(1,2,4), of 7 w ?q r 2000])
    show "length f \<le> 7" using assms(5) by simp
    show "pend s = f @ r" if "out s = out (dev w) @ tl ?q" "seen s = seen (dev w)" for s
      by (rule assms(6)) (use that in simp_all)
  qed
  have f: "overlay (uninit w 7) f = f" using assms(5) by simp
  have five: "unat (get16 f 0) = 5" using assms(4,5) by (auto simp: framed_reply_def)
  note ans = a(1) [unfolded f, folded sizeof_SYSTEM_REPLY_def TIMEOUT_def]
  have "unat (get16 f 0) + 0 \<le> sizeof_SYSTEM_REPLY" using five by (simp add: sizeof_SYSTEM_REPLY_def)
  then have len_ok: "unat (get16 f 0) + 0 \<le> sizeof_SYSTEM_REPLY" .
  have fields: "r_type (as_SYSTEM_REPLY f) = f ! 4" "r_packetLen (as_SYSTEM_REPLY f) = get16 f 0"
      "r_ret (as_SYSTEM_REPLY f) = f ! 6"
    by (simp_all add: as_SYSTEM_REPLY_def)
  note out = mkdir.plain_outcome [OF mkdir_request_eq [OF assms(3)] ans, unfolded fields VM_ERROR_def]
  have "\<exists>w'. dev w' = s' \<and> mkdir (serial_io os) path w = ret (if f ! 4 \<noteq> 5 then ERR_UNK else ERR_VM) w'
    \<and> (f ! 4 = 5 \<longrightarrow> errno w' = uint (f ! 6))"
  proof (cases "f ! 4 = 5")
    case True
    then show ?thesis using out len_ok by auto
  next
    case False
    then show ?thesis using out by auto
  qed
  then show ?thesis using a(2,3) by auto
qed

section \<open>What goes unnoticed\<close>

lemma write_from_nonneg: "bt_write_from os s buf sent = Some (r, s') \<Longrightarrow> 0 \<le> r"
proof -
  assume a: "bt_write_from os s buf sent = Some (r, s')"
  have "0 \<le> fst (r, s')"
    by (rule bt_write_from.raw_induct [where P = "\<lambda>os s buf sent p. 0 \<le> fst p", OF _ a])
      (auto split: if_splits prod.splits option.splits)
  then show ?thesis by simp
qed

text \<open>
  \<^verbatim>\<open>bt_write\<close> does not report errors: when every write on the descriptor fails it returns zero, not
  the negative status its description promises, so that no command over a serial or TCP stream ever
  notices that its request was not sent; \<^verbatim>\<open>mkdir\<close>, for one, goes on to wait for a reply.
\<close>

theorem serial_write_error_lost:
  assumes "length path < 65527" and "mkdir (serial_io os) path w = Some (r, w')"
  shows "\<exists>q. trace w' = trace w @ [Wr q, Rd 7 2000]"
proof -
  have "0 \<le> res" if "io_write (serial_io os) s q = Some (res, s')" for res s q s'
    using that write_from_nonneg by (simp add: serial_io_def bt_write_def)
  from mkdir.read_anyway [OF assms(2) mkdir_request_eq [OF assms(1)] this] show ?thesis
    by (auto simp: sizeof_SYSTEM_REPLY_def TIMEOUT_def)
qed

text \<open>
  The reader accepts replies of up to twice the size of the buffer it is given: over a stream, a
  framed reply of 8 to 14 bytes is stored past the seven bytes \<^verbatim>\<open>mkdir\<close> has for it.
\<close>

theorem serial_overruns_buffer:
  assumes "takes os out seen" and "delivers os out pend" and "length path < 65527"
    and "framed_reply f" and "7 < length f" and "length f \<le> 14"
    and "\<And>s. out s = out (dev w) @ le16 (of_nat (length path + 5)) @ [0, 0, 1, 0x9B] @ cstr path \<Longrightarrow>
      seen s = seen (dev w) \<Longrightarrow> pend s = f @ r"
  shows "\<exists>w'. mkdir (serial_io os) path w = undef w'"
proof -
  let ?q = "[0] @ le16 (of_nat (length path + 5)) @ [0, 0, 1, 0x9B] @ cstr path"
  obtain s1 where s1: "bt_write os (dev w) ?q = Some (int (length (tl ?q)), s1)" "out s1 = out (dev w) @ tl ?q"
      "seen s1 = seen (dev w)"
    unfolding bt_write_def using write_from_all [OF assms(1), of 0 "tl ?q"] by auto
  have "length f \<le> 2 * 7" using assms(6) by simp
  then obtain s' where s': "bt_read os s1 7 2000 = Some (int (length f), f, s')"
    using bt_read_framed [OF assms(2,4), of 7 s1 r 2000] assms(7) [of s1] s1(2,3) by auto
  show ?thesis
    by (rule mkdir.read_overruns [OF mkdir_request_eq [OF assms(3)], of "serial_io os" w])
      (use s1(1) s' assms(5) in \<open>auto simp: serial_io_def sizeof_SYSTEM_REPLY_def TIMEOUT_def\<close>)
qed

section \<open>A slow line\<close>

text \<open>
  A brick at the end of a line that moves one byte per call: it answers what it has received. The
  state is what was written and how much has been read.
\<close>

definition slow_os :: "(u8 list \<Rightarrow> u8 list) \<Rightarrow> (u8 list \<times> nat) os_fd" where
  "slow_os reply = \<lparr>fd_write = (\<lambda>(sent, n) bs. (Some 1, (sent @ take 1 bs, n))),
     fd_read = (\<lambda>(sent, n) k. (Some (take 1 (drop n (reply sent))), (sent, n + 1))),
     fd_ready = (\<lambda>(sent, n) ms. (drop n (reply sent) \<noteq> [], (sent, n)))\<rparr>"

lemma slow_os_stream:
  "takes (slow_os reply) fst snd" "delivers (slow_os reply) fst (\<lambda>(sent, n). drop n (reply sent))"
proof -
  have "fd_write (slow_os reply) (q, n) bs = (Some 1, (q @ take 1 bs, n))" for q n bs by (simp add: slow_os_def)
  moreover have "1 \<le> length bs" if "bs \<noteq> []" for bs :: "u8 list" using that by (cases bs) simp_all
  ultimately show "takes (slow_os reply) fst snd" by (force simp: takes_def)
  show "delivers (slow_os reply) fst (\<lambda>(sent, n). drop n (reply sent))"
    unfolding delivers_def
  proof (intro conjI allI impI)
    fix s :: "u8 list \<times> nat" and k :: nat
    obtain q n where s: "s = (q, n)" by (cases s)
    assume "(\<lambda>(sent, n). drop n (reply sent)) s \<noteq> []" and k: "0 < k"
    then obtain x xs where x: "drop n (reply q) = x # xs" by (cases "drop n (reply q)") (auto simp: s)
    then have "drop (Suc n) (reply q) = xs" by (metis drop_Suc list.sel(3) tl_drop)
    then show "\<exists>bs s'. fd_read (slow_os reply) s k = (Some bs, s') \<and> bs \<noteq> [] \<and> length bs \<le> k
        \<and> (\<lambda>(sent, n). drop n (reply sent)) s = bs @ (\<lambda>(sent, n). drop n (reply sent)) s' \<and> fst s' = fst s"
      using x k by (simp add: slow_os_def s)
  next
    fix s :: "u8 list \<times> nat" and ms
    assume "(\<lambda>(sent, n). drop n (reply sent)) s \<noteq> []"
    then show "\<exists>s'. fd_ready (slow_os reply) s ms = (True, s')
        \<and> (\<lambda>(sent, n). drop n (reply sent)) s' = (\<lambda>(sent, n). drop n (reply sent)) s \<and> fst s' = fst s"
      by (cases s) (simp add: slow_os_def)
  qed
qed

theorem mkdir_over_stream_witness:
  "\<exists>w'. mkdir (serial_io (slow_os (\<lambda>q. if q = [6, 0, 0, 0, 1, 0x9B, 0x61, 0] then [5, 0, 0, 0, 5, 0x9B, 6, 1] else [])))
    ''a'' (world0 ([], 0)) = ret ERR_VM w' \<and> errno w' = 6"
proof -
  let ?reply = "\<lambda>q. if q = [6, 0, 0, 0, 1, 0x9B, 0x61, 0] then [5, 0, 0, 0, 5, 0x9B, 6, 1] else [] :: u8 list"
  have q: "le16 (of_nat (length ''a'' + 5)) @ [0, 0, 1, 0x9B] @ cstr ''a'' = [6, 0, 0, 0, 1, 0x9B, 0x61, 0]"
    by (simp add: le16_def cstr_def bytes_def)
  have fr: "framed_reply [5, 0, 0, 0, 5, 0x9B, 6]" by (simp add: framed_reply_def get16_def)
  have pend: "(\<lambda>(sent, n). drop n (?reply sent)) s = [5, 0, 0, 0, 5, 0x9B, 6] @ [1]"
    if "fst s = fst (dev (world0 ([], 0))) @ le16 (of_nat (length ''a'' + 5)) @ [0, 0, 1, 0x9B] @ cstr ''a''"
      and "snd s = snd (dev (world0 ([] :: u8 list, 0)))" for s
    using that unfolding q by (cases s) simp
  have "length ''a'' < 65527" "length [5, 0, 0, 0, 5, 0x9B, 6 :: u8] = 7" by simp_all
  from mkdir_over_stream [where w = "world0 ([], 0)", OF slow_os_stream this(1) fr this(2) pend] show ?thesis by auto
qed

theorem serial_write_error_lost_witness:
  "\<exists>w' q. mkdir (serial_io \<lparr>fd_write = (\<lambda>s bs. (None, s)), fd_read = (\<lambda>s n. (None, s)), fd_ready = (\<lambda>s ms. (True, s))\<rparr>)
    ''a'' (world0 ()) = ret ERR_COMM w' \<and> trace w' = [Wr q, Rd 7 2000]"
proof -
  let ?io = "serial_io \<lparr>fd_write = (\<lambda>s bs. (None, s)), fd_read = (\<lambda>s n. (None, s)), fd_ready = (\<lambda>s ms. (True, s))\<rparr> :: unit ev3_io"
  have wr: "io_write ?io (dev (world0 ())) q = Some (0, ())" for q
    by (cases "tl q") (simp_all add: serial_io_def bt_write_def bt_write_from.simps sys_write_def)
  have rd: "io_read ?io () sizeof_SYSTEM_REPLY TIMEOUT = Some (- 1, [], ())"
    by (simp add: serial_io_def bt_read_def bt_read_head.simps sys_read_def)
  obtain w1 where "mkdir ?io ''a'' (world0 ()) = comm_fail ERR_COMM ''Unable to read CREATE_DIR_REPLY'' w1"
    by (rule mkdir.read_fails [OF mkdir_request_eq [of "''a''"] wr _ rd]) simp_all
  then have "\<exists>w'. mkdir ?io ''a'' (world0 ()) = ret ERR_COMM w'" by (simp add: comm_fail_def)
  then obtain w' where w': "mkdir ?io ''a'' (world0 ()) = ret ERR_COMM w'" by blast
  from serial_write_error_lost [OF _ w'] show ?thesis using w' by auto
qed

theorem serial_overruns_buffer_witness:
  "\<exists>w'. mkdir (serial_io (slow_os (\<lambda>q. if q = [6, 0, 0, 0, 1, 0x9B, 0x61, 0] then [6, 0, 0, 0, 3, 0x9B, 0, 9] else [])))
    ''a'' (world0 ([], 0)) = undef w'"
proof -
  let ?reply = "\<lambda>q. if q = [6, 0, 0, 0, 1, 0x9B, 0x61, 0] then [6, 0, 0, 0, 3, 0x9B, 0, 9] else [] :: u8 list"
  have q: "le16 (of_nat (length ''a'' + 5)) @ [0, 0, 1, 0x9B] @ cstr ''a'' = [6, 0, 0, 0, 1, 0x9B, 0x61, 0]"
    by (simp add: le16_def cstr_def bytes_def)
  have fr: "framed_reply [6, 0, 0, 0, 3, 0x9B, 0, 9]" by (simp add: framed_reply_def get16_def)
  have pend: "(\<lambda>(sent, n). drop n (?reply sent)) s = [6, 0, 0, 0, 3, 0x9B, 0, 9] @ []"
    if "fst s = fst (dev (world0 ([], 0))) @ le16 (of_nat (length ''a'' + 5)) @ [0, 0, 1, 0x9B] @ cstr ''a''"
      and "snd s = snd (dev (world0 ([] :: u8 list, 0)))" for s
    using that unfolding q by (cases s) simp
  have "length ''a'' < 65527" "7 < length [6, 0, 0, 0, 3, 0x9B, 0, 9 :: u8]" "length [6, 0, 0, 0, 3, 0x9B, 0, 9 :: u8] \<le> 14"
    by simp_all
  from serial_overruns_buffer [where w = "world0 ([], 0)", OF slow_os_stream this(1) fr this(2,3) pend] show ?thesis .
qed

end
