(* ===== verification/Tcp.thy ===== *)
theory Tcp
  imports Serial
begin

text \<open>
  Finding a brick in the network and connecting to it, \<^verbatim>\<open>src/src/tcp.c\<close> on POSIX systems. The brick
  broadcasts its serial number and port; the host answers to where the broadcast came from, connects,
  and asks for the serial number. The socket calls are parameters. A variable or field that has not
  been written to is \<open>None\<close>, and using it is undefined.
\<close>

section \<open>The network\<close>

text \<open>
  Addresses are 32-bit numbers. \<open>n_recvfrom n secs limit\<close> is a datagram of at most \<open>limit\<close> bytes
  and its sender, if one comes in time; \<open>n_connect\<close> opens a socket and starts to connect, \<open>n_select\<close> waits until it is writable,
  \<open>n_so_error\<close> is the result of the attempt; \<open>n_perror\<close> is the text \<^verbatim>\<open>perror\<close> adds.
\<close>

record 'n net =
  n_pton :: "string \<Rightarrow> int \<times> u32"
  n_ntop :: "u32 \<Rightarrow> string"
  n_udp_socket :: "'n \<Rightarrow> bool \<times> 'n"
  n_bind :: "'n \<Rightarrow> nat \<Rightarrow> bool \<times> 'n"
  n_recvfrom :: "'n \<Rightarrow> nat \<Rightarrow> nat \<Rightarrow> (u8 list \<times> u32) option \<times> 'n"
  n_sendto :: "'n \<Rightarrow> u32 \<Rightarrow> u8 list \<Rightarrow> bool \<times> 'n"
  n_connect :: "'n \<Rightarrow> u32 \<Rightarrow> u16 \<Rightarrow> int \<times> 'n"
  n_select :: "'n \<Rightarrow> nat \<Rightarrow> bool \<times> 'n"
  n_so_error :: "'n \<Rightarrow> int"
  n_send :: "'n \<Rightarrow> u8 list \<Rightarrow> bool \<times> 'n"
  n_recv :: "'n \<Rightarrow> nat \<Rightarrow> u8 list option \<times> 'n"
  n_close :: "'n \<Rightarrow> 'n"
  n_perror :: "'n \<Rightarrow> string"

record tcp_handle =
  h_serial :: "string option"
  h_ip :: "string option"
  h_tcp_port :: "u32 option"
  h_name :: "string option"
  h_protocol :: "string option"

definition blank_handle :: tcp_handle where
  "blank_handle = \<lparr>h_serial = None, h_ip = None, h_tcp_port = None, h_name = None, h_protocol = None\<rparr>"

definition UDP_PORT :: nat where "UDP_PORT = 3015"
definition TCP_PORT :: u32 where "TCP_PORT = 5555"
definition UDP_RECV_TIMEOUT :: nat where "UDP_RECV_TIMEOUT = 6"
definition TCP_CONNECT_TIMEOUT :: nat where "TCP_CONNECT_TIMEOUT = 1"

definition bailout :: "'n net \<Rightarrow> string \<Rightarrow> 'n world \<Rightarrow> 'n world" where
  "bailout net msg w = put_err (bytes (msg @ '': '' @ n_perror net (dev w) @ ''\<newline>'')) w"

section \<open>sscanf\<close>

definition blank_char :: "char \<Rightarrow> bool" where
  "blank_char c \<longleftrightarrow> isspace (of_char c)"

text \<open>The literal part of a format: white space in it stands for any amount of white space.\<close>

fun scan_lit :: "string \<Rightarrow> string \<Rightarrow> string option" where
  "scan_lit [] inp = Some inp"
| "scan_lit (f # fs) inp =
    (if blank_char f then scan_lit fs (dropWhile blank_char inp)
     else case inp of [] \<Rightarrow> None | c # cs \<Rightarrow> if c = f then scan_lit fs cs else None)"

text \<open>\<^verbatim>\<open>%s\<close> and \<^verbatim>\<open>%u\<close>, which takes a sign: what is read and what is left.\<close>

definition scan_s :: "string \<Rightarrow> (string \<times> string) option" where
  "scan_s inp =
    (let s = dropWhile blank_char inp; t = takeWhile (\<lambda>c. \<not> blank_char c) s
     in if t = [] then None else Some (t, drop (length t) s))"

definition digit_char :: "char \<Rightarrow> bool" where
  "digit_char c \<longleftrightarrow> 48 \<le> (of_char c :: nat) \<and> of_char c \<le> (57 :: nat)"

definition decimal :: "string \<Rightarrow> nat" where
  "decimal s = foldl (\<lambda>n c. 10 * n + (of_char c - 48)) 0 s"

definition scan_u :: "string \<Rightarrow> (u32 \<times> string) option" where
  "scan_u inp =
    (let s = dropWhile blank_char inp;
         neg = (s \<noteq> [] \<and> hd s = CHR ''-'');
         s = (if s \<noteq> [] \<and> hd s \<in> {CHR ''-'', CHR ''+''} then tl s else s);
         t = takeWhile digit_char s; n = of_nat (decimal t)
     in if t = [] then None else Some (if neg then - n else n, drop (length t) s))"

text \<open>
  The \<^verbatim>\<open>sscanf\<close> of a broadcast. It stops at the first part that does not match, with what it has
  stored so far. The fields hold 15, 96 and 8 bytes, and the format has no widths: storing more is
  undefined (\<open>None\<close>).
\<close>

definition scan_protocol :: "string \<Rightarrow> tcp_handle \<Rightarrow> tcp_handle option" where
  "scan_protocol inp h =
    (case Option.bind (scan_lit ''\<newline>Protocol: '' inp) scan_s of
       None \<Rightarrow> Some h
     | Some (t, _) \<Rightarrow> if length t \<ge> 8 then None else Some (h\<lparr>h_protocol := Some t\<rparr>))"

definition scan_name :: "string \<Rightarrow> tcp_handle \<Rightarrow> tcp_handle option" where
  "scan_name inp h =
    (case Option.bind (scan_lit ''\<newline>Name: '' inp) scan_s of
       None \<Rightarrow> Some h
     | Some (t, rest) \<Rightarrow> if length t \<ge> 96 then None else scan_protocol rest (h\<lparr>h_name := Some t\<rparr>))"

definition scan_port :: "string \<Rightarrow> tcp_handle \<Rightarrow> tcp_handle option" where
  "scan_port inp h =
    (case Option.bind (scan_lit ''\<newline>Port: '' inp) scan_u of
       None \<Rightarrow> Some h
     | Some (p, rest) \<Rightarrow> scan_name rest (h\<lparr>h_tcp_port := Some p\<rparr>))"

definition scan_broadcast :: "string \<Rightarrow> tcp_handle \<Rightarrow> tcp_handle option" where
  "scan_broadcast inp h =
    (case Option.bind (scan_lit ''Serial-Number: '' inp) scan_s of
       None \<Rightarrow> Some h
     | Some (t, rest) \<Rightarrow> if length t \<ge> 15 then None else scan_port rest (h\<lparr>h_serial := Some t\<rparr>))"

section \<open>tcp_open\<close>

text \<open>
  One turn of the search for a brick: \<open>Inl\<close> the handle and the sender for another turn, \<open>Inr\<close> the
  end, which is \<open>None\<close> after an error. The buffer holds 128 bytes, and so may the datagram; the
  terminator is stored after it.
\<close>

definition search_turn ::
    "'n net \<Rightarrow> string option \<Rightarrow> nat \<Rightarrow> tcp_handle \<Rightarrow> 'n world
      \<Rightarrow> (tcp_handle + (tcp_handle \<times> u32) option, 'n) run" where
  "search_turn net serial timeout h w =
    (case n_recvfrom net (dev w) (if timeout \<noteq> 0 then timeout else UDP_RECV_TIMEOUT) 128 of
       (None, n) \<Rightarrow>
         (let w = bailout net ''Failed to recieve broadcast'' (w\<lparr>dev := n_close net n\<rparr>) in ret (Inr None) w)
     | (Some (bs, addr), n) \<Rightarrow>
         let w = w\<lparr>dev := n\<rparr> in
         if length bs \<ge> 128 then undef w
         else case scan_broadcast (string_of (takeWhile (\<lambda>x. x \<noteq> 0) bs)) h of
           None \<Rightarrow> undef w
         | Some h \<Rightarrow>
           (case serial of
              None \<Rightarrow> ret (Inr (Some (h, addr))) w
            | Some s \<Rightarrow>
              (case h_serial h of
                 None \<Rightarrow> undef w
               | Some s' \<Rightarrow> if s \<noteq> s' then ret (Inl h) w else ret (Inr (Some (h, addr))) w)))"

text \<open>From the stream socket on; \<open>addr\<close> and \<open>port\<close> are in \<^verbatim>\<open>servaddr\<close>. The request fits its buffer of 128 bytes.\<close>

definition tcp_meet ::
    "'n net \<Rightarrow> nat \<Rightarrow> u32 \<Rightarrow> u16 \<Rightarrow> tcp_handle \<Rightarrow> 'n world \<Rightarrow> (tcp_handle option, 'n) run" where
  "tcp_meet net timeout addr port h w =
    (let (r, n) = n_connect net (dev w) addr port;
         (ready, n) = n_select net n (if timeout \<noteq> 0 then timeout else TCP_CONNECT_TIMEOUT);
         r = (if ready \<and> n_so_error net n = 0 then 0 else r);
         w = w\<lparr>dev := n\<rparr>
     in
     if r = - 1 then ret None (bailout net ''Failed to initiate TCP connection'' (w\<lparr>dev := n_close net (dev w)\<rparr>))
     else
       case (h_serial h, h_protocol h) of
         (Some serial, Some protocol) \<Rightarrow>
           let buffer = bytes (''GET /target?sn='' @ serial @ '' VMTP1.0\<newline>Protocol: '' @ protocol);
               (ok, n) = n_send net (dev w) buffer;
               w = w\<lparr>dev := n\<rparr>
           in
           if \<not> ok then ret None (bailout net ''Failed to handshake over TCP'' (w\<lparr>dev := n_close net (dev w)\<rparr>))
           else
             (case n_recv net (dev w) 128 of
                (None, n) \<Rightarrow>
                  ret None (bailout net ''Failed to recieve TCP-connection confirmation'' (w\<lparr>dev := n_close net n\<rparr>))
              | (Some bs, n) \<Rightarrow>
                  let w = w\<lparr>dev := n\<rparr> in if length bs \<ge> 128 then undef w else ret (Some h) w)
       | _ \<Rightarrow> undef w)"

definition tcp_open :: "'n net \<Rightarrow> string option \<Rightarrow> nat \<Rightarrow> 'n world \<Rightarrow> (tcp_handle option, 'n) run" where
  "tcp_open net serial timeout w =
    (let h = blank_handle in
     if serial \<noteq> None \<and> CHR ''.'' \<in> set (the serial) then
       (case n_pton net (the serial) of (r, addr) \<Rightarrow>
          if r = 0 then ret None (put_err (bytes (''Invalid IP specified '' @ [CHR 0x27] @ the serial @ [CHR 0x27] @ ''\<newline>'')) w)
          else if r = - 1 then ret None (bailout net ''Parsing IP failed'' w)
          else
            let h = \<lparr>h_serial = Some ''[n/a]'', h_ip = Some (take 47 (the serial)), h_tcp_port = Some TCP_PORT,
                  h_name = Some ''[n/a]'', h_protocol = Some ''[n/a]''\<rparr>
            in tcp_meet net timeout addr (ucast TCP_PORT) h w)
     else
       case n_udp_socket net (dev w) of (ok, n) \<Rightarrow>
         let w = w\<lparr>dev := n\<rparr> in
         if \<not> ok then ret None (bailout net ''Failed to create socket'' w)
         else
           (case n_bind net (dev w) UDP_PORT of (ok, n) \<Rightarrow>
              let w = w\<lparr>dev := n\<rparr> in
              if \<not> ok then ret None (bailout net ''Failed to bind'' (w\<lparr>dev := n_close net (dev w)\<rparr>))
              else
                call (loop (search_turn net serial timeout) h w) (\<lambda>found w.
                case found of
                  None \<Rightarrow> ret None w
                | Some (h, addr) \<Rightarrow>
                    (case n_sendto net (dev w) addr [0x00] of (ok, n) \<Rightarrow>
                       let w = w\<lparr>dev := n_close net n\<rparr> in
                       if \<not> ok then ret None (bailout net ''Failed to initiate handshake'' w)
                       else
                         let h = h\<lparr>h_ip := Some (take 47 (n_ntop net addr))\<rparr> in
                         case h_tcp_port h of
                           None \<Rightarrow> undef w
                         | Some port \<Rightarrow> tcp_meet net timeout addr (ucast port) h w))))"

section \<open>Only the brick that was asked for\<close>

text \<open>
  From \<open>addr\<close> a datagram came that announces the serial number \<open>s\<close>, and \<open>h\<close> holds what it says; the one before
  had another number or none. \<open>n\<close> is the state of the network after it.
\<close>

definition heard :: "'n net \<Rightarrow> nat \<Rightarrow> string \<Rightarrow> tcp_handle \<Rightarrow> u32 \<Rightarrow> 'n \<Rightarrow> bool" where
  "heard net timeout s h addr n \<longleftrightarrow> (\<exists>n0 bs h0.
    n_recvfrom net n0 (if timeout \<noteq> 0 then timeout else UDP_RECV_TIMEOUT) 128 = (Some (bs, addr), n) \<and> length bs < 128
    \<and> h_serial h0 \<noteq> Some s \<and> scan_broadcast (string_of (takeWhile (\<lambda>x. x \<noteq> 0) bs)) h0 = Some h \<and> h_serial h = Some s)"

text \<open>
  A stream was connected to \<open>addr\<close> and \<open>port\<close>, the request for the serial number of \<open>h\<close> sent over it, and an answer
  received, between the states \<open>n\<close> and \<open>n'\<close> of the network.
\<close>

definition joined :: "'n net \<Rightarrow> nat \<Rightarrow> u32 \<Rightarrow> u16 \<Rightarrow> tcp_handle \<Rightarrow> 'n \<Rightarrow> 'n \<Rightarrow> bool" where
  "joined net timeout addr port h n n' \<longleftrightarrow> (\<exists>r n1 ready n2 serial protocol n3 answer.
    n_connect net n addr port = (r, n1) \<and> n_select net n1 (if timeout \<noteq> 0 then timeout else TCP_CONNECT_TIMEOUT) = (ready, n2)
    \<and> (r \<noteq> - 1 \<or> ready \<and> n_so_error net n2 = 0) \<and> h_serial h = Some serial \<and> h_protocol h = Some protocol
    \<and> n_send net n2 (bytes (''GET /target?sn='' @ serial @ '' VMTP1.0\<newline>Protocol: '' @ protocol)) = (True, n3)
    \<and> n_recv net n3 128 = (Some answer, n'))"

lemma meet_joined:
  assumes "tcp_meet net timeout addr port h w = Some (Ret (Some h'), w')"
  shows "h' = h \<and> joined net timeout addr port h (dev w) (dev w')"
proof -
  obtain r n1 where c: "n_connect net (dev w) addr port = (r, n1)" by fastforce
  obtain ready n2 where s: "n_select net n1 (if timeout \<noteq> 0 then timeout else TCP_CONNECT_TIMEOUT) = (ready, n2)" by fastforce
  show ?thesis
    using assms c s unfolding joined_def tcp_meet_def Let_def
    by (auto split: prod.splits if_splits option.splits)
qed

lemma turn_hears:
  assumes "search_turn net (Some s) timeout h w = ret a w'"
  shows "case a of Inl h' \<Rightarrow> h_serial h' \<noteq> Some s | Inr None \<Rightarrow> True
    | Inr (Some (h', addr)) \<Rightarrow> h_serial h \<noteq> Some s \<longrightarrow> heard net timeout s h' addr (dev w')"
proof -
  define secs where "secs = (if timeout \<noteq> 0 then timeout else UDP_RECV_TIMEOUT)"
  obtain m n where r: "n_recvfrom net (dev w) secs 128 = (m, n)" by (cases "n_recvfrom net (dev w) secs 128")
  show ?thesis
  proof (cases m)
    case None
    then show ?thesis using assms unfolding search_turn_def secs_def [symmetric] r by (auto simp: Let_def)
  next
    case (Some d)
    obtain bs addr where d: "d = (bs, addr)" by (cases d)
    let ?text = "string_of (takeWhile (\<lambda>x. x \<noteq> 0) bs)"
    have st: "search_turn net (Some s) timeout h w = (if length bs \<ge> 128 then undef (w\<lparr>dev := n\<rparr>)
        else case scan_broadcast ?text h of None \<Rightarrow> undef (w\<lparr>dev := n\<rparr>)
        | Some h \<Rightarrow> (case h_serial h of None \<Rightarrow> undef (w\<lparr>dev := n\<rparr>)
            | Some s' \<Rightarrow> if s \<noteq> s' then ret (Inl h) (w\<lparr>dev := n\<rparr>) else ret (Inr (Some (h, addr))) (w\<lparr>dev := n\<rparr>)))"
      unfolding search_turn_def secs_def [symmetric] r Some d by (simp only: prod.case option.case Let_def)
    have l: "\<not> 128 \<le> length bs" using assms unfolding st by (auto split: if_splits)
    with assms obtain h' s' where h': "scan_broadcast ?text h = Some h'" "h_serial h' = Some s'"
      unfolding st by (simp split: option.splits)
    have "a = (if s \<noteq> s' then Inl h' else Inr (Some (h', addr)))" "w' = w\<lparr>dev := n\<rparr>"
      using assms l h' unfolding st by (simp_all split: if_splits)
    moreover have "heard net timeout s h' addr n" if "h_serial h \<noteq> Some s" "s = s'"
      unfolding heard_def secs_def [symmetric]
      by (rule exI [of _ "dev w"], rule exI [of _ bs], rule exI [of _ h]) (use that h' l r in \<open>simp add: Some d\<close>)
    ultimately show ?thesis using h'(2) by simp
  qed
qed

lemma search_finds:
  assumes "loop (search_turn net (Some s) timeout) h w = Some (Ret (Some (h', addr)), w')" and "h_serial h \<noteq> Some s"
  shows "heard net timeout s h' addr (dev w')"
proof -
  have "case Some (h', addr) of None \<Rightarrow> True | Some (h', addr) \<Rightarrow> heard net timeout s h' addr (dev w')"
    by (rule loop_invariant [where I = "\<lambda>h _. h_serial h \<noteq> Some s"
          and Q = "\<lambda>a w. case a of None \<Rightarrow> True | Some (h', addr) \<Rightarrow> heard net timeout s h' addr (dev w)", OF assms(1)])
      (use assms(2) in \<open>auto dest: turn_hears split: option.split\<close>)
  then show ?thesis by simp
qed

text \<open>
  C36: When a serial number is asked for and \<^verbatim>\<open>tcp_open\<close> succeeds, it has heard a broadcast with that number, has
  answered to the sender of this very broadcast with one zero byte, has connected to the address of this
  sender and to the port of the handle, has sent the request with that serial number and received an
  answer; and the handle it returns holds what the broadcast says, and the sender's address. However many
  broadcasts of other bricks it hears before, it never connects to one of those. A serial number with a
  dot is taken for an address of IP instead, so it is excluded.
\<close>

theorem tcp_open_right_brick:
  assumes "tcp_open net (Some s) timeout w = Some (Ret (Some h), w')" and "CHR ''.'' \<notin> set s"
  shows "\<exists>h0 addr n n' port. heard net timeout s h0 addr n \<and> n_sendto net n addr [0x00] = (True, n')
    \<and> h = h0\<lparr>h_ip := Some (take 47 (n_ntop net addr))\<rparr> \<and> h_serial h = Some s \<and> h_tcp_port h = Some port
    \<and> joined net timeout addr (ucast port) h (n_close net n') (dev w')"
proof -
  obtain w0 h0 addr w1 where l: "loop (search_turn net (Some s) timeout) blank_handle w0 = Some (Ret (Some (h0, addr)), w1)"
    and m: "(case n_sendto net (dev w1) addr [0x00] of (ok, n) \<Rightarrow>
       let w = w1\<lparr>dev := n_close net n\<rparr> in
       if \<not> ok then ret None (bailout net ''Failed to initiate handshake'' w)
       else
         let h = h0\<lparr>h_ip := Some (take 47 (n_ntop net addr))\<rparr> in
         case h_tcp_port h of
           None \<Rightarrow> undef w
         | Some port \<Rightarrow> tcp_meet net timeout addr (ucast port) h w) = Some (Ret (Some h), w')"
    using assms by (auto simp: tcp_open_def Let_def split: prod.splits if_splits option.splits elim!: call_RetE)
  have heard: "heard net timeout s h0 addr (dev w1)" by (rule search_finds [OF l]) (simp add: blank_handle_def)
  then have "h_serial h0 = Some s" by (auto simp: heard_def)
  moreover obtain n' port where "n_sendto net (dev w1) addr [0x00] = (True, n')" "h_tcp_port h0 = Some port"
      "tcp_meet net timeout addr (ucast port) (h0\<lparr>h_ip := Some (take 47 (n_ntop net addr))\<rparr>) (w1\<lparr>dev := n_close net n'\<rparr>)
        = Some (Ret (Some h), w')"
    using m by (auto simp: Let_def split: prod.splits if_splits option.splits)
  ultimately show ?thesis using heard meet_joined by fastforce
qed

section \<open>Reading a broadcast\<close>

definition token :: "string \<Rightarrow> bool" where
  "token t \<longleftrightarrow> t \<noteq> [] \<and> (\<forall>c \<in> set t. \<not> blank_char c)"

lemma scan_lit_same: "(\<forall>c \<in> set f. \<not> blank_char c) \<Longrightarrow> scan_lit (f @ g) (f @ r) = scan_lit g r"
  by (induction f) auto

lemma dropWhile_token: "token t \<Longrightarrow> dropWhile blank_char (t @ r) = t @ r"
  by (cases t) (auto simp: token_def)

lemma scan_s_token:
  assumes "token t" and "r = [] \<or> blank_char (hd r)"
  shows "scan_s (t @ r) = Some (t, r)"
proof -
  have "takeWhile (\<lambda>c. \<not> blank_char c) (t @ r) = t"
    using assms by (subst takeWhile_append2) (auto simp: token_def takeWhile_eq_Nil_iff)
  then show ?thesis using assms(1) by (simp add: scan_s_def dropWhile_token Let_def token_def)
qed

lemma decimal_snoc: "decimal (s @ [c]) = 10 * decimal s + (of_char c - 48)"
  by (simp add: decimal_def)

lemma digit_values: "n < 10 \<Longrightarrow> of_char (digit n) = n + 48"
proof -
  have "list_all (\<lambda>n. of_char (digit n) = n + 48) [0..<10]" by code_simp
  then show "n < 10 \<Longrightarrow> ?thesis" by (simp add: list_all_iff)
qed

lemma dec_token: "dec n \<noteq> [] \<and> list_all digit_char (dec n) \<and> decimal (dec n) = n"
proof (induction n rule: dec.induct)
  case (1 n)
  have dg: "digit_char (digit m)" if "m < 10" for m using digit_values [OF that] that by (simp add: digit_char_def)
  show ?case
  proof (cases "n < 10")
    case True
    then show ?thesis using dg digit_values [OF True] by (simp add: dec.simps [of n] decimal_def)
  next
    case False
    have "n mod 10 < 10" by simp
    from dg [OF this] digit_values [OF this] show ?thesis
      using 1 [OF False] False by (simp add: dec.simps [of n] decimal_snoc)
  qed
qed

lemma blank_chars [simp]: "blank_char CHR '' ''" "blank_char CHR 0x0A" "blank_char CHR 0x0D"
  by (simp_all add: blank_char_def isspace_def)

lemma scan_lit_word:
  assumes "token f" and "token t"
  shows "scan_lit (f @ '' '') (f @ CHR '' '' # t @ r) = Some (t @ r)"
    and "scan_lit (CHR 0x0A # f @ '' '') (CHR 0x0D # CHR 0x0A # f @ CHR '' '' # t @ r) = Some (t @ r)"
proof -
  show 1: "scan_lit (f @ '' '') (f @ CHR '' '' # t @ r) = Some (t @ r)"
    using assms by (simp add: scan_lit_same token_def [of f] dropWhile_token)
  show "scan_lit (CHR 0x0A # f @ '' '') (CHR 0x0D # CHR 0x0A # f @ CHR '' '' # t @ r) = Some (t @ r)"
    using 1 dropWhile_token [OF assms(1)] by simp
qed

lemma format_words: "token ''Serial-Number:''" "token ''Port:''" "token ''Name:''" "token ''Protocol:''"
  by (simp_all add: token_def blank_char_def isspace_def)

lemma scan_serial_word:
  assumes "token t" and "length t < 15"
  shows "scan_broadcast (''Serial-Number: '' @ t @ CHR 0x0D # r) h = scan_port (CHR 0x0D # r) (h\<lparr>h_serial := Some t\<rparr>)"
  using assms scan_lit_word(1) [OF format_words(1) assms(1), of "CHR 0x0D # r"] scan_s_token [OF assms(1), of "CHR 0x0D # r"]
  by (simp add: scan_broadcast_def)

lemma scan_name_word:
  assumes "token t" and "length t < 96"
  shows "scan_name (CHR 0x0D # CHR 0x0A # ''Name: '' @ t @ CHR 0x0D # r) h
    = scan_protocol (CHR 0x0D # r) (h\<lparr>h_name := Some t\<rparr>)"
  using assms scan_lit_word(2) [OF format_words(3) assms(1), of "CHR 0x0D # r"] scan_s_token [OF assms(1), of "CHR 0x0D # r"]
  by (simp add: scan_name_def)

lemma scan_protocol_word:
  assumes "token t" and "length t < 8"
  shows "scan_protocol (CHR 0x0D # CHR 0x0A # ''Protocol: '' @ t @ CHR 0x0D # r) h = Some (h\<lparr>h_protocol := Some t\<rparr>)"
  using assms scan_lit_word(2) [OF format_words(4) assms(1), of "CHR 0x0D # r"] scan_s_token [OF assms(1), of "CHR 0x0D # r"]
  by (simp add: scan_protocol_def)

lemma scan_port_word:
  "scan_port (CHR 0x0D # CHR 0x0A # ''Port: '' @ dec p @ CHR 0x0D # r) h
    = scan_name (CHR 0x0D # r) (h\<lparr>h_tcp_port := Some (of_nat p)\<rparr>)"
proof -
  have d: "dec p \<noteq> []" "list_all digit_char (dec p)" "decimal (dec p) = p" using dec_token [of p] by simp_all
  have "\<not> blank_char c" if "digit_char c" for c
    using that by (auto simp: blank_char_def isspace_def digit_char_def word_le_nat_alt word_less_nat_alt unat_arith_simps)
  then have t: "token (dec p)" using d(1,2) by (auto simp: token_def list_all_iff)
  have "takeWhile digit_char (dec p @ CHR 0x0D # r) = dec p"
    using d(2) by (subst takeWhile_append2) (auto simp: list_all_iff digit_char_def)
  moreover have "\<not> digit_char CHR ''-''" "\<not> digit_char CHR ''+''" by (simp_all add: digit_char_def)
  then have "hd (dec p @ CHR 0x0D # r) \<notin> {CHR ''-'', CHR ''+''}" using d(1,2) by (cases "dec p") auto
  ultimately have "scan_u (dec p @ CHR 0x0D # r) = Some (of_nat p, CHR 0x0D # r)"
    using d by (simp add: scan_u_def dropWhile_token [OF t] Let_def)
  then show ?thesis
    using scan_lit_word(2) [OF format_words(2) t, of "CHR 0x0D # r"] by (simp add: scan_port_def)
qed

text \<open>A broadcast as the brick sends it.\<close>

definition broadcast :: "string \<Rightarrow> nat \<Rightarrow> string \<Rightarrow> string \<Rightarrow> string" where
  "broadcast serial port name protocol =
    ''Serial-Number: '' @ serial @ [CHR 0x0D, CHR 0x0A] @ ''Port: '' @ dec port @ [CHR 0x0D, CHR 0x0A]
    @ ''Name: '' @ name @ [CHR 0x0D, CHR 0x0A] @ ''Protocol: '' @ protocol @ [CHR 0x0D, CHR 0x0A]"

text \<open>
  A broadcast of a brick whose serial number, name and protocol are words that fit their fields is
  read back exactly.
\<close>

theorem broadcast_roundtrip:
  assumes "token serial" and "length serial < 15" and "token name" and "length name < 96"
    and "token protocol" and "length protocol < 8" and "port < 65536"
  shows "scan_broadcast (broadcast serial port name protocol) h
    = Some (h\<lparr>h_serial := Some serial, h_tcp_port := Some (of_nat port), h_name := Some name, h_protocol := Some protocol\<rparr>)"
proof -
  note words = scan_serial_word [OF assms(1,2)] scan_port_word scan_name_word [OF assms(3,4)]
    scan_protocol_word [OF assms(5,6)]
  show ?thesis
    using words by (simp add: broadcast_def)
qed


theorem broadcast_roundtrip_witness:
  "scan_broadcast (broadcast ''0016533f0c1e'' 5555 ''EV3'' ''EV3'') blank_handle
    = Some \<lparr>h_serial = Some ''0016533f0c1e'', h_ip = None, h_tcp_port = Some 5555, h_name = Some ''EV3'', h_protocol = Some ''EV3''\<rparr>"
  by (subst broadcast_roundtrip) (simp_all add: token_def blank_char_def isspace_def blank_handle_def)

text \<open>A turn of the search that hears such a broadcast.\<close>

lemma search_hears:
  assumes "token serial" and "length serial < 15" and "token name" and "length name < 96"
    and "token protocol" and "length protocol < 8" and "port < 65536"
    and "c_string (broadcast serial port name protocol)" and "length (broadcast serial port name protocol) < 128"
    and "n_recvfrom net (dev w) (if timeout \<noteq> 0 then timeout else UDP_RECV_TIMEOUT) 128
      = (Some (bytes (broadcast serial port name protocol), addr), n)"
  shows "search_turn net want timeout h w =
    (let h' = h\<lparr>h_serial := Some serial, h_tcp_port := Some (of_nat port), h_name := Some name, h_protocol := Some protocol\<rparr>
     in ret (if want \<noteq> None \<and> the want \<noteq> serial then Inl h' else Inr (Some (h', addr))) (w\<lparr>dev := n\<rparr>))"
proof -
  have z: "takeWhile (\<lambda>x. x \<noteq> 0) (bytes (broadcast serial port name protocol)) = bytes (broadcast serial port name protocol)"
    using bytes_nonzero [OF assms(8)] by simp
  show ?thesis
    using assms(9) unfolding search_turn_def assms(10)
    by (simp only: prod.case option.case Let_def z string_of_bytes broadcast_roundtrip [OF assms(1-7)]) (auto split: option.split)
qed

section \<open>Broadcasts that do not fit\<close>

lemma scan_serial_too_long:
  assumes "token t" and "15 \<le> length t" and "r = [] \<or> blank_char (hd r)"
  shows "scan_broadcast (''Serial-Number: '' @ t @ r) h = None"
  using assms(2) scan_lit_word(1) [OF format_words(1) assms(1), of r] scan_s_token [OF assms(1,3)]
  by (simp add: scan_broadcast_def)

text \<open>
  Whoever can reach the port the search listens on can make \<^verbatim>\<open>tcp_open\<close> write outside the handle: a
  datagram below the 128 bytes that are asked for, whose serial number is a word of 15 or more
  characters, runs over the field and leads to undefined behaviour.
\<close>

theorem tcp_open_remote_overflow:
  assumes "token t" and "15 \<le> length t" and "c_string t" and "length t < 113"
    and "serial = None \<or> CHR ''.'' \<notin> set (the serial)"
    and "n_udp_socket net (dev w) = (True, n1)" and "n_bind net n1 UDP_PORT = (True, n2)"
    and "n_recvfrom net n2 (if timeout \<noteq> 0 then timeout else UDP_RECV_TIMEOUT) 128
      = (Some (bytes (''Serial-Number: '' @ t), addr), n3)"
  shows "tcp_open net serial timeout w = Some (Undef, w\<lparr>dev := n3\<rparr>)"
proof -
  have z: "takeWhile (\<lambda>x. x \<noteq> 0) (bytes (''Serial-Number: '' @ t)) = bytes (''Serial-Number: '' @ t)"
    using bytes_nonzero [OF assms(3)] by (simp add: bytes_def)
  have s: "scan_broadcast (''Serial-Number: '' @ t) blank_handle = None"
    using scan_serial_too_long [OF assms(1,2), of "[]"] by simp
  have l: "length (bytes (''Serial-Number: '' @ t)) < 128" using assms(4) by (simp add: bytes_def)
  have "n_recvfrom net (dev (w\<lparr>dev := n2\<rparr>)) (if timeout \<noteq> 0 then timeout else UDP_RECV_TIMEOUT) 128
    = (Some (bytes (''Serial-Number: '' @ t), addr), n3)"
    using assms(8) by (simp split del: if_split)
  then have turn: "search_turn net serial timeout blank_handle (w\<lparr>dev := n2\<rparr>) = undef (w\<lparr>dev := n3\<rparr>)"
    using l unfolding search_turn_def by (simp only: prod.case option.case Let_def z string_of_bytes s) simp
  show ?thesis
    using assms(5-7) turn by (auto simp: tcp_open_def Let_def loop.simps)
qed


section \<open>A network\<close>

text \<open>The datagrams to come, and what has been sent.\<close>

definition small_net :: "((u8 list \<times> u32) list \<times> u8 list list) net" where
  "small_net = \<lparr>n_pton = (\<lambda>s. (0, 0)), n_ntop = (\<lambda>a. ''10.0.0.7''),
    n_udp_socket = (\<lambda>n. (True, n)), n_bind = (\<lambda>n port. (True, n)),
    n_recvfrom = (\<lambda>n secs limit. case fst n of
        [] \<Rightarrow> (None, n) | (bs, addr) # ds \<Rightarrow> (Some (take limit bs, addr), (ds, snd n))),
    n_sendto = (\<lambda>n addr bs. (True, (fst n, snd n @ [bs]))),
    n_connect = (\<lambda>n addr port. (- 1, n)), n_select = (\<lambda>n secs. (True, n)), n_so_error = (\<lambda>n. 0),
    n_send = (\<lambda>n bs. (True, (fst n, snd n @ [bs]))),
    n_recv = (\<lambda>n limit. (Some (bytes ''Accept:EV340''), n)),
    n_close = (\<lambda>n. n), n_perror = (\<lambda>n. ''timed out'')\<rparr>"

definition two_bricks :: "(u8 list \<times> u32) list" where
  "two_bricks = [(bytes (broadcast ''0016533f0c1e'' 5555 ''EV3'' ''EV3''), 3), (bytes (broadcast ''00165340aaaa'' 5556 ''SECOND'' ''EV3''), 7)]"


lemma small_net_sel [simp]:
  "n_ntop small_net a = ''10.0.0.7''" "n_udp_socket small_net n = (True, n)" "n_bind small_net n port = (True, n)"
  "n_recvfrom small_net ([], out) secs limit = (None, ([], out))"
  "n_recvfrom small_net ((bs, addr) # ds, out) secs limit = (Some (take limit bs, addr), (ds, out))"
  "n_sendto small_net n addr bs = (True, (fst n, snd n @ [bs]))"
  "n_connect small_net n addr port16 = (- 1, n)" "n_select small_net n secs = (True, n)" "n_so_error small_net n = 0"
  "n_send small_net n bs = (True, (fst n, snd n @ [bs]))"
  "n_recv small_net n limit = (Some (bytes ''Accept:EV340''), n)" "n_close small_net n = n"
  by (simp_all add: small_net_def)

theorem tcp_open_right_brick_witness:
  "\<exists>h w'. tcp_open small_net (Some ''00165340aaaa'') 0 (world0 (two_bricks, [])) = Some (Ret (Some h), w')
    \<and> h_serial h = Some ''00165340aaaa'' \<and> snd (dev w') = [[0], bytes ''GET /target?sn=00165340aaaa VMTP1.0\<newline>Protocol: EV3'']"
proof -
  let ?s1 = "''0016533f0c1e''" and ?s2 = "''00165340aaaa''"
  let ?w = "world0 (two_bricks, [] :: u8 list list)"
  let ?b1 = "broadcast ?s1 5555 ''EV3'' ''EV3''" and ?b2 = "broadcast ?s2 5556 ''SECOND'' ''EV3''"
  have words: "token ?s1" "token ?s2" "token ''EV3''" "token ''SECOND''"
    by (simp_all add: token_def blank_char_def isspace_def)
  have fit: "c_string ?b1" "length ?b1 < 128" "c_string ?b2" "length ?b2 < 128"
    by (simp_all add: broadcast_def c_string_def dec.simps digit_def)
  have take: "take 128 (bytes ?b1) = bytes ?b1" "take 128 (bytes ?b2) = bytes ?b2"
    using fit by simp_all
  have t1: "\<exists>h. search_turn small_net (Some ?s2) 0 blank_handle ?w = ret (Inl h) (?w\<lparr>dev := (tl two_bricks, [])\<rparr>)"
    using search_hears [of ?s1 "''EV3''" "''EV3''" 5555 small_net ?w 0 3 "(tl two_bricks, [])" "Some ?s2" blank_handle] words fit
    by (simp add: two_bricks_def take Let_def)
  have same: "(world0 d)\<lparr>dev := e\<rparr> = world0 e" for d e :: "(u8 list \<times> u32) list \<times> u8 list list"
    by (simp add: world0_def)
  obtain h where t1: "search_turn small_net (Some ?s2) 0 blank_handle ?w = ret (Inl h) (?w\<lparr>dev := (tl two_bricks, [])\<rparr>)"
    using t1 ..
  have t2: "search_turn small_net (Some ?s2) 0 h (?w\<lparr>dev := (tl two_bricks, [])\<rparr>)
      = ret (Inr (Some (h\<lparr>h_serial := Some ?s2, h_tcp_port := Some 5556, h_name := Some ''SECOND'', h_protocol := Some ''EV3''\<rparr>, 7)))
          (?w\<lparr>dev := ([], [])\<rparr>)"
    using search_hears [of ?s2 "''SECOND''" "''EV3''" 5556 small_net "?w\<lparr>dev := (tl two_bricks, [])\<rparr>" 0 7 "([], [])" "Some ?s2" h] words fit
    by (simp add: two_bricks_def take Let_def)
  have "\<exists>h w'. tcp_open small_net (Some ?s2) 0 ?w = Some (Ret (Some h), w')
      \<and> snd (dev w') = [[0], bytes ''GET /target?sn=00165340aaaa VMTP1.0\<newline>Protocol: EV3'']"
    using t1 t2 unfolding same by (simp add: tcp_open_def same loop_step call_def tcp_meet_def Let_def bytes_def)
  then obtain h w' where r: "tcp_open small_net (Some ?s2) 0 ?w = Some (Ret (Some h), w')"
    and o: "snd (dev w') = [[0], bytes ''GET /target?sn=00165340aaaa VMTP1.0\<newline>Protocol: EV3'']" by blast
  show ?thesis using r o tcp_open_right_brick [OF r] by auto
qed

theorem tcp_open_remote_overflow_witness:
  "tcp_open small_net None 0 (world0 ([(bytes ''Serial-Number: 0016533f0c1e123'', 9)], []))
    = Some (Undef, (world0 ([], []))\<lparr>dev := ([], [])\<rparr>)"
proof -
  let ?w = "world0 ([(bytes (''Serial-Number: '' @ ''0016533f0c1e123''), 9)], [])"
  have "tcp_open small_net None 0 ?w = Some (Undef, ?w\<lparr>dev := ([], [])\<rparr>)"
  proof (rule tcp_open_remote_overflow)
    show "token ''0016533f0c1e123''" by (simp add: token_def blank_char_def isspace_def)
    show "n_udp_socket small_net (dev ?w) = (True, dev ?w)" and "n_bind small_net (dev ?w) UDP_PORT = (True, dev ?w)"
      by (simp_all add: small_net_def)
    show "n_recvfrom small_net (dev ?w) (if (0 :: nat) \<noteq> 0 then 0 else UDP_RECV_TIMEOUT) 128
        = (Some (bytes (''Serial-Number: '' @ ''0016533f0c1e123''), 9), ([], []))"
      by (simp add: bytes_def)
  qed (simp_all add: c_string_def)
  then show ?thesis by (simp add: world0_def)
qed


section \<open>The transport over TCP\<close>

text \<open>On POSIX systems \<^verbatim>\<open>tcp_write\<close> and \<^verbatim>\<open>tcp_read\<close> are those of the serial port.\<close>

definition tcp_io :: "'s os_fd \<Rightarrow> 's ev3_io" where
  "tcp_io os = (serial_io os)\<lparr>io_kind := TCP\<rparr>"

end
