(* ===== verification/Bridge.thy ===== *)
theory Bridge
  imports Tcp
begin

text \<open>
  \<^verbatim>\<open>src/src/bridge.c\<close>: a brick on the network that passes the packets of a PC on to the brick behind
  \<^verbatim>\<open>handle\<close>, and its packets back. The socket calls are parameters. \<^verbatim>\<open>NDEBUG\<close> is defined after
  \<^verbatim>\<open><assert.h>\<close> is included, so the assertions are checked while the debugging output is off; what is
  left of the dumps is that they read the buffer.
\<close>

section \<open>State\<close>

datatype NET_STATE = TCP_NOT_CONNECTED | TCP_CONNECTED | CLOSED

datatype TCP_CSTATE = TCP_IDLE | TCP_WAIT_ON_START | TCP_WAIT_ON_LENGTH | TCP_WAIT_ON_ONLY_CHUNK

text \<open>
  The calls on descriptors: \<open>b_read os fd n\<close> gives the result of \<^verbatim>\<open>read\<close> and the bytes it stored;
  \<open>b_accept\<close> waits up to a second for a connection; \<open>b_select os fd wr\<close> tells whether the socket can
  be read, and whether it can be written if \<open>wr\<close> asks for that.
\<close>

record 'd bridge_os =
  b_time :: "'d \<Rightarrow> int"
  b_udp_socket :: "'d \<Rightarrow> int \<times> 'd"
  b_set_broadcast :: "int \<Rightarrow> 'd \<Rightarrow> int \<times> 'd"
  b_sendto :: "int \<Rightarrow> u8 list \<Rightarrow> 'd \<Rightarrow> int \<times> 'd"
  b_tcp_socket :: "'d \<Rightarrow> int \<times> 'd"
  b_bind :: "int \<Rightarrow> 'd \<Rightarrow> int \<times> 'd"
  b_listen :: "int \<Rightarrow> 'd \<Rightarrow> int \<times> 'd"
  b_accept :: "int \<Rightarrow> 'd \<Rightarrow> int \<times> 'd"
  b_select :: "int \<Rightarrow> bool \<Rightarrow> 'd \<Rightarrow> (bool \<times> bool) \<times> 'd"
  b_read :: "int \<Rightarrow> nat \<Rightarrow> 'd \<Rightarrow> int \<times> u8 list \<times> 'd"
  b_write :: "int \<Rightarrow> u8 list \<Rightarrow> 'd \<Rightarrow> int \<times> 'd"
  b_shutdown :: "int \<Rightarrow> 'd \<Rightarrow> int \<times> 'd"
  b_close :: "int \<Rightarrow> 'd \<Rightarrow> 'd"

text \<open>The static variables of the file and the variables of \<^verbatim>\<open>bridge_mode\<close>.\<close>

record bridge =
  NetConnection :: NET_STATE
  TcpRead :: TCP_CSTATE
  UdpSocketDescriptor :: int
  TcpConnectionSocket :: int
  TCPListenServer :: int
  TcpReadBufPointer :: u32
  TcpTotalLength :: u32
  TcpRestLen :: u32
  start :: int
  ReadBuf :: "u8 list"
  WriteBuf :: "u8 list"
  write_len :: int
  write_pos :: int

definition bridge_init :: bridge where
  "bridge_init = \<lparr>NetConnection = CLOSED, TcpRead = TCP_IDLE, UdpSocketDescriptor = 0, TcpConnectionSocket = 0,
     TCPListenServer = 0, TcpReadBufPointer = 0, TcpTotalLength = 0, TcpRestLen = 0, start = 0,
     ReadBuf = replicate 65540 0, WriteBuf = replicate 65540 0, write_len = 0, write_pos = 0\<rparr>"

definition BEACON_TIME :: nat where "BEACON_TIME = 1"

section \<open>Timer and sockets\<close>

definition cNetStartTimer :: "'d bridge_os \<Rightarrow> bridge \<Rightarrow> 'd world \<Rightarrow> bridge" where
  "cNetStartTimer os b w = b\<lparr>start := b_time os (dev w)\<rparr>"

definition cNetCheckTimer :: "'d bridge_os \<Rightarrow> bridge \<Rightarrow> 'd world \<Rightarrow> u32" where
  "cNetCheckTimer os b w = word_of_int (b_time os (dev w) - start b)"

text \<open>The descriptor is shut down but never closed.\<close>

definition drain_turn :: "'d bridge_os \<Rightarrow> int \<Rightarrow> unit \<Rightarrow> 'd world \<Rightarrow> (unit + unit, 'd) run" where
  "drain_turn os fd = (\<lambda>_ w.
    (case b_read os fd 100 (dev w) of
       (res, bs, d) \<Rightarrow>
         let w = w\<lparr>dev := d\<rparr> in
         if 128 < length bs then undef w
         else if res < 0 then ret (Inr ()) w
         else if res \<noteq> 0 then ret (Inl ()) w
         else ret (Inr ()) w))"

definition cNetTcpClose :: "'d bridge_os \<Rightarrow> bridge \<Rightarrow> 'd world \<Rightarrow> (bridge, 'd) run" where
  "cNetTcpClose os b w =
    (case b_shutdown os (TcpConnectionSocket b) (dev w) of
       (res, d) \<Rightarrow>
         let w = w\<lparr>dev := d\<rparr>;
             b' = b\<lparr>TcpConnectionSocket := 0, NetConnection := TCP_NOT_CONNECTED\<rparr>
         in
         if res < 0 then call (loop (drain_turn os (TcpConnectionSocket b)) () w) (\<lambda>_ w. ret b' w)
         else ret b' w)"

definition cNetUdpClose :: "'d bridge_os \<Rightarrow> bridge \<Rightarrow> 'd world \<Rightarrow> bridge \<times> 'd world" where
  "cNetUdpClose os b w =
    (b\<lparr>NetConnection := CLOSED\<rparr>, w\<lparr>dev := b_close os (UdpSocketDescriptor b) (dev w)\<rparr>)"

definition cNetInitTcpServer :: "'d bridge_os \<Rightarrow> bridge \<Rightarrow> 'd world \<Rightarrow> bool \<times> bridge \<times> 'd world" where
  "cNetInitTcpServer os b w =
    (let b = b\<lparr>TcpRead := TCP_IDLE\<rparr>;
         (ok, b, w) =
           (if TCPListenServer b = 0 then
              let (fd, d) = b_tcp_socket os (dev w);
                  b = b\<lparr>TCPListenServer := fd\<rparr>; w = w\<lparr>dev := d\<rparr>
              in if fd < 0 then (False, b, w)
                 else let (res, d) = b_bind os fd (dev w) in (\<not> res < 0, b, w\<lparr>dev := d\<rparr>)
            else (True, b, w))
     in
     if \<not> ok then (False, b, w)
     else let (res, d) = b_listen os (TCPListenServer b) (dev w) in (\<not> res < 0, b, w\<lparr>dev := d\<rparr>))"

definition cNetWaitForTcpConnection :: "'d bridge_os \<Rightarrow> bridge \<Rightarrow> 'd world \<Rightarrow> bool \<times> bridge \<times> 'd world" where
  "cNetWaitForTcpConnection os b w =
    (let (fd, d) = b_accept os (TCPListenServer b) (dev w);
         b = b\<lparr>TcpConnectionSocket := fd\<rparr>; w = w\<lparr>dev := d\<rparr>
     in if fd < 0 then (False, b, w) else (True, b\<lparr>TcpRead := TCP_WAIT_ON_START\<rparr>, w))"

section \<open>Writing and reading\<close>

text \<open>A dump reads \<open>len\<close> bytes of a buffer from \<open>off\<close> on.\<close>

definition hexdump :: "u8 list \<Rightarrow> nat \<Rightarrow> nat \<Rightarrow> 'd world \<Rightarrow> ('d world \<Rightarrow> ('a, 'd) run) \<Rightarrow> ('a, 'd) run" where
  "hexdump buf off len w k = (if off + len \<le> length buf then k w else undef w)"

text \<open>\<open>off\<close> is where the data begin in \<open>buf\<close>; a length is converted to an unsigned number.\<close>

definition cNetWriteTcp ::
    "'d bridge_os \<Rightarrow> bridge \<Rightarrow> u8 list \<Rightarrow> nat \<Rightarrow> int \<Rightarrow> 'd world \<Rightarrow> (int, 'd) run" where
  "cNetWriteTcp os b buf off len w =
    (let len = unat (word_of_int len :: u32) in
     if len < 1 then ret 0 w
     else if NetConnection b \<noteq> TCP_CONNECTED then ret 0 w
     else
       hexdump buf off len w (\<lambda>w.
       case b_write os (TcpConnectionSocket b) (take len (drop off buf)) (dev w) of
         (res, d) \<Rightarrow> ret res (w\<lparr>dev := d\<rparr>)))"

fun occurs :: "u8 list \<Rightarrow> u8 list \<Rightarrow> bool" where
  "occurs needle [] = (needle = [])"
| "occurs needle (c # cs) = (take (length needle) (c # cs) = needle \<or> occurs needle cs)"

definition accept_text :: "u8 list" where
  "accept_text = bytes (''Accept:EV340'' @ [CHR 0x0D, CHR 0x0A, CHR 0x0D, CHR 0x0A])"

text \<open>
  \<^verbatim>\<open>read\<close> into \<^verbatim>\<open>Buffer\<close>, which begins after the first byte of \<^verbatim>\<open>ReadBuf\<close>, from its index \<open>i\<close> on.
\<close>

definition read_into ::
    "'d bridge_os \<Rightarrow> nat \<Rightarrow> nat \<Rightarrow> bridge \<Rightarrow> 'd world \<Rightarrow> (int \<Rightarrow> bridge \<Rightarrow> 'd world \<Rightarrow> ('a, 'd) run) \<Rightarrow> ('a, 'd) run" where
  "read_into os i n b w k =
    (case b_read os (TcpConnectionSocket b) n (dev w) of
       (res, bs, d) \<Rightarrow>
         let w = w\<lparr>dev := d\<rparr> in
         if length (ReadBuf b) < 1 + i + length bs then undef w
         else k res (b\<lparr>ReadBuf := put_at (1 + i) bs (ReadBuf b)\<rparr>) w)"

text \<open>The three states in which something is read. Each gives \<^verbatim>\<open>DataRead\<close>.\<close>

definition read_start :: "'d bridge_os \<Rightarrow> bridge \<Rightarrow> 'd world \<Rightarrow> (int \<times> bridge, 'd) run" where
  "read_start os b w =
    read_into os 0 100 b w (\<lambda>res b w.
    hexdump (ReadBuf b) 1 (unat (word_of_int res :: u32)) w (\<lambda>w.
    if res = 0 then call (cNetTcpClose os b w) (\<lambda>b w. ret (0, b) w)
    else if 0 \<notin> set (tl (ReadBuf b)) then undef w
    else if occurs (bytes ''ET /target?sn='') (takeWhile (\<lambda>x. x \<noteq> 0) (tl (ReadBuf b))) then
      call (cNetWriteTcp os b accept_text 0 16 w) (\<lambda>_ w. ret (0, b\<lparr>TcpRead := TCP_WAIT_ON_LENGTH\<rparr>) w)
    else ret (0, b) w))"

definition read_length :: "'d bridge_os \<Rightarrow> bridge \<Rightarrow> 'd world \<Rightarrow> (int \<times> bridge, 'd) run" where
  "read_length os b w =
    read_into os 0 2 (b\<lparr>TcpReadBufPointer := 0\<rparr>) w (\<lambda>res b w.
    if res < 2 then call (cNetTcpClose os b w) (\<lambda>b w. ret (res, b) w)
    else
      let rest = ucast (ReadBuf b ! 1) + ucast (ReadBuf b ! 2) * 256 :: u32
      in ret (0, b\<lparr>TcpRestLen := rest, TcpTotalLength := rest + 2, TcpRead := TCP_WAIT_ON_ONLY_CHUNK,
             TcpReadBufPointer := TcpReadBufPointer b + word_of_int res\<rparr>) w)"

definition read_chunk :: "'d bridge_os \<Rightarrow> bridge \<Rightarrow> 'd world \<Rightarrow> (int \<times> bridge, 'd) run" where
  "read_chunk os b w =
    read_into os (unat (TcpReadBufPointer b)) (unat (TcpRestLen b)) b w (\<lambda>res b w.
    if res = 0 then call (cNetTcpClose os b w) (\<lambda>b w. ret (0, b) w)
    else
      let b = b\<lparr>TcpReadBufPointer := TcpReadBufPointer b + word_of_int res\<rparr>;
          (n, b) =
            (if TcpRestLen b = word_of_int res then
               (sint (TcpTotalLength b), b\<lparr>TcpRead := TCP_WAIT_ON_LENGTH\<rparr>)
             else (0, b\<lparr>TcpRestLen := TcpRestLen b - word_of_int res\<rparr>))
      in hexdump (ReadBuf b) 1 (unat (TcpTotalLength b)) w (\<lambda>w. ret (n, b) w))"

text \<open>\<open>Buffer\<close> holds 65539 bytes. The result \<open>None\<close> is a failed assertion, which ends the program.\<close>

definition cNetReadTcp :: "'d bridge_os \<Rightarrow> bridge \<Rightarrow> 'd world \<Rightarrow> ((int \<times> bridge) option, 'd) run" where
  "cNetReadTcp os b w =
    (case TcpRead b of
       TCP_IDLE \<Rightarrow> ret (Some (0, b)) w
     | TCP_WAIT_ON_START \<Rightarrow> call (read_start os b w) (\<lambda>r w. ret (Some r) w)
     | TCP_WAIT_ON_LENGTH \<Rightarrow> call (read_length os b w) (\<lambda>r w. ret (Some r) w)
     | TCP_WAIT_ON_ONLY_CHUNK \<Rightarrow>
         if unat (TcpTotalLength b) \<le> 65539 then call (read_chunk os b w) (\<lambda>r w. ret (Some r) w)
         else ret None w)"

section \<open>The beacon\<close>

definition beacon :: string where
  "beacon = ''Serial-Number: 31337'' @ [CHR 0x0D, CHR 0x0A] @ ''Port: 5555'' @ [CHR 0x0D, CHR 0x0A]
     @ ''Name: USB Bridge'' @ [CHR 0x0D, CHR 0x0A] @ ''Protocol: EV3'' @ [CHR 0x0D, CHR 0x0A]"

definition cNetTransmitBeacon :: "'d bridge_os \<Rightarrow> bridge \<Rightarrow> 'd world \<Rightarrow> bridge \<times> 'd world" where
  "cNetTransmitBeacon os b w =
    (if unat (cNetCheckTimer os b w) < BEACON_TIME then (b, w)
     else
       let (res, d) = b_sendto os (UdpSocketDescriptor b) (bytes beacon) (dev w);
           w = w\<lparr>dev := d\<rparr>;
           (b, w) = (if res < 0 then cNetUdpClose os b w else (b, w))
       in (cNetStartTimer os b w, w))"

definition cNetInitUdp :: "'d bridge_os \<Rightarrow> bridge \<Rightarrow> 'd world \<Rightarrow> bool \<times> bridge \<times> 'd world" where
  "cNetInitUdp os b w =
    (let (fd, d) = b_udp_socket os (dev w);
         b = b\<lparr>UdpSocketDescriptor := fd\<rparr>; w = w\<lparr>dev := d\<rparr>
     in
     if fd < 0 then (False, b, w)
     else
       let (res, d) = b_set_broadcast os fd (dev w); w = w\<lparr>dev := d\<rparr> in
       if res < 0 then (False, b, w)
       else
         let (b, w) = cNetTransmitBeacon os b w in (True, b\<lparr>NetConnection := TCP_NOT_CONNECTED\<rparr>, w))"

section \<open>bridge_mode\<close>

text \<open>A packet of the brick, if none is waiting to be sent on: \<open>None\<close> is a failed assertion.\<close>

definition fetch_packet :: "'d ev3_io \<Rightarrow> bridge \<Rightarrow> 'd world \<Rightarrow> (bridge option, 'd) run" where
  "fetch_packet io b w =
    (if write_len b \<le> 0 then
       ev3_read_timeout io (WriteBuf b) 65540 0 w (\<lambda>res buf w.
       let b = b\<lparr>WriteBuf := buf, write_len := res, write_pos := 0\<rparr> in
       if res \<noteq> 0 then
         let realLen = uint (buf ! 0) + 256 * uint (buf ! 1) + 2 in
         if realLen \<le> res then ret (Some (b\<lparr>write_len := realLen\<rparr>)) w else ret None w
       else ret (Some b) w)
     else ret (Some b) w)"

text \<open>
  What a readable socket brings goes to the brick; \<open>True\<close> in the result leaves the turn. The outer
  \<open>None\<close> is a failed assertion.
\<close>

definition serve_read :: "'d bridge_os \<Rightarrow> 'd ev3_io \<Rightarrow> bridge \<Rightarrow> 'd world \<Rightarrow> ((bool \<times> bridge) option, 'd) run" where
  "serve_read os io b w =
    call (cNetReadTcp os b w) (\<lambda>r w.
    case r of
      None \<Rightarrow> ret None w
    | Some (len, b) \<Rightarrow>
      if len > 0 then
        ev3_write io (ReadBuf b) (nat (len + 1)) w (\<lambda>err w.
        if err < len + 1 then call (cNetTcpClose os b w) (\<lambda>b w. ret (Some (True, b)) w)
        else ret (Some (False, b)) w)
      else ret (Some (False, b)) w)"

definition serve_write :: "'d bridge_os \<Rightarrow> bridge \<Rightarrow> 'd world \<Rightarrow> (bridge, 'd) run" where
  "serve_write os b w =
    call (cNetWriteTcp os b (WriteBuf b) (nat (write_pos b)) (write_len b) w) (\<lambda>written w.
    ret (if written > 0 then b\<lparr>write_len := write_len b - written, write_pos := write_pos b + written\<rparr> else b) w)"

text \<open>One turn of the loop: \<open>Inr\<close> when it ends, with \<open>None\<close> for a failed assertion.\<close>

definition connected_turn :: "'d bridge_os \<Rightarrow> 'd ev3_io \<Rightarrow> bridge \<Rightarrow> 'd world \<Rightarrow> (bridge + bridge option, 'd) run" where
  "connected_turn os io b w =
    call (fetch_packet io b w) (\<lambda>r w.
    case r of
      None \<Rightarrow> ret (Inr None) w
    | Some b \<Rightarrow>
      (case b_select os (TcpConnectionSocket b) (write_len b > 0) (dev w) of
         ((rd, wr), d) \<Rightarrow>
           let fd = TcpConnectionSocket b; wanted = (write_len b > 0); w = w\<lparr>dev := d\<rparr> in
           call (if rd then serve_read os io b w else ret (Some (False, b)) w) (\<lambda>r w.
           case r of
             None \<Rightarrow> ret (Inr None) w
           | Some (leave, b) \<Rightarrow>
             if leave then ret (Inl b) w
             else if wanted \<and> wr \<and> TcpConnectionSocket b = fd then call (serve_write os b w) (\<lambda>b w. ret (Inl b) w)
             else ret (Inl b) w)))"

definition bridge_turn :: "'d bridge_os \<Rightarrow> 'd ev3_io \<Rightarrow> bridge \<Rightarrow> 'd world \<Rightarrow> (bridge + bridge option, 'd) run" where
  "bridge_turn os io b w =
    (case NetConnection b of
       CLOSED \<Rightarrow> ret (Inr (Some b)) w
     | TCP_NOT_CONNECTED \<Rightarrow>
         (let (b, w) = cNetTransmitBeacon os b w;
              (ok, b, w) = cNetWaitForTcpConnection os b w
          in ret (Inl (if ok then b\<lparr>NetConnection := TCP_CONNECTED\<rparr> else b)) w)
     | TCP_CONNECTED \<Rightarrow> connected_turn os io b w)"

text \<open>The result \<open>None\<close> is a failed assertion.\<close>

definition bridge_mode :: "'d bridge_os \<Rightarrow> 'd ev3_io \<Rightarrow> 'd world \<Rightarrow> (ERR option, 'd) run" where
  "bridge_mode os io w =
    (let (ok, b, w) = cNetInitUdp os bridge_init w in
     if \<not> ok then ret (Some ERR_IO) w
     else
       let (ok, b, w) = cNetInitTcpServer os b w in
       if \<not> ok then ret (Some ERR_IO) w
       else
         call (loop (bridge_turn os io) b w) (\<lambda>r w.
         case r of
           None \<Rightarrow> ret None w
         | Some b \<Rightarrow>
           call (cNetTcpClose os b w) (\<lambda>b w.
           let (b, w) = cNetUdpClose os b w in ret (Some ERR_UNK) w)))"


section \<open>The buffers are never overrun\<close>

text \<open>
  The transport stores into \<^verbatim>\<open>WriteBuf\<close>, which holds 65540 bytes; \<open>overlong io w\<close> says that the last read of it
  brought more than that. \<open>safe io P m\<close>: the run does nothing undefined but for such a read, and what it returns
  satisfies \<open>P\<close>.
\<close>

definition overlong :: "'d ev3_io \<Rightarrow> 'd world \<Rightarrow> bool" where
  "overlong io w \<longleftrightarrow> (\<exists>d res bs d'. io_read io d 65540 0 = Some (res, bs, d') \<and> 65540 < length bs
     \<and> received w \<noteq> [] \<and> last (received w) = bs)"

definition safe :: "'d ev3_io \<Rightarrow> ('a \<Rightarrow> bool) \<Rightarrow> ('a, 'd) run \<Rightarrow> bool" where
  "safe io P m \<longleftrightarrow> (case m of None \<Rightarrow> True | Some (Ret a, w) \<Rightarrow> P a | Some (Undef, w) \<Rightarrow> overlong io w)"

lemma safe_simps [simp]: "safe io P (ret a w) \<longleftrightarrow> P a" "safe io P (undef w) \<longleftrightarrow> overlong io w" "safe io P None"
  by (simp_all add: safe_def)

lemma run_cases:
  obtains "m = None" | a w where "m = ret a w" | w where "m = undef w"
proof (cases m)
  case (Some rw)
  then show thesis using that(2,3) by (cases rw; cases "fst rw") auto
qed (use that(1) in blast)

lemma safe_call: "safe io P m \<Longrightarrow> (\<And>a w. P a \<Longrightarrow> safe io Q (k a w)) \<Longrightarrow> safe io Q (call m k)"
  by (cases m rule: run_cases) auto

lemma safe_mono: "safe io P m \<Longrightarrow> (\<And>a. P a \<Longrightarrow> Q a) \<Longrightarrow> safe io Q m"
  by (cases m rule: run_cases) auto

lemma safe_body:
  "safe io P m \<Longrightarrow> m = ret a w \<Longrightarrow> P a" "safe io P m \<Longrightarrow> m = undef w \<Longrightarrow> overlong io w"
  by auto

lemma safe_loop:
  assumes turn: "\<And>s w. I s \<Longrightarrow> safe io (\<lambda>t. case t of Inl s' \<Rightarrow> I s' | Inr a \<Rightarrow> P a) (body s w)" and "I s"
  shows "safe io P (loop body s w)"
proof (cases "loop body s w")
  case (Some rw)
  obtain r w' where run: "loop body s w = Some (r, w')" using Some by (cases rw) auto
  have "I s \<longrightarrow> safe io P (Some (r, w'))"
    by (rule loop_induct [where P = "\<lambda>s w r w'. I s \<longrightarrow> safe io P (Some (r, w'))", OF run])
       (use turn in \<open>auto dest: safe_body [OF turn]\<close>)
  then show ?thesis using run assms(2) by simp
qed simp

text \<open>
  The sockets: reads succeed, give the number of bytes they store, and store at most as many as asked for;
  a write takes at most what it is given.
\<close>

definition honest_os :: "'d bridge_os \<Rightarrow> bool" where
  "honest_os os \<longleftrightarrow>
    (\<forall>fd n d. case b_read os fd n d of (res, bs, d') \<Rightarrow> res = int (length bs) \<and> length bs \<le> n)
    \<and> (\<forall>fd bs d. fst (b_write os fd bs d) \<le> int (length bs))"

lemma honest_read: "honest_os os \<Longrightarrow> b_read os fd n d = (res, bs, d') \<Longrightarrow> res = int (length bs) \<and> length bs \<le> n"
  unfolding honest_os_def by (metis (mono_tags, lifting) old.prod.case)

definition bridge_ok :: "int \<Rightarrow> bridge \<Rightarrow> bool" where
  "bridge_ok wl b \<longleftrightarrow>
    write_len b = wl \<and> length (ReadBuf b) = 65540 \<and> ReadBuf b ! 0 = 0 \<and> ReadBuf b ! 65539 = 0 \<and> length (WriteBuf b) = 65540
    \<and> 0 \<le> write_pos b \<and> (0 < wl \<longrightarrow> write_pos b + wl \<le> 65540)
    \<and> (TcpRead b = TCP_WAIT_ON_ONLY_CHUNK \<longrightarrow>
         unat (TcpReadBufPointer b) + unat (TcpRestLen b) = unat (TcpTotalLength b)
         \<and> unat (TcpTotalLength b) \<le> 65537)"

lemma bridge_ok_updates [simp]:
  "bridge_ok wl (b\<lparr>TcpConnectionSocket := fd\<rparr>) = bridge_ok wl b"
  "bridge_ok wl (b\<lparr>NetConnection := n\<rparr>) = bridge_ok wl b"
  "bridge_ok wl (b\<lparr>start := t\<rparr>) = bridge_ok wl b"
  "bridge_ok wl (b\<lparr>UdpSocketDescriptor := fd\<rparr>) = bridge_ok wl b"
  "bridge_ok wl (b\<lparr>TCPListenServer := fd\<rparr>) = bridge_ok wl b"
  by (simp_all add: bridge_ok_def)

lemma safe_drain:
  fixes os :: "'d bridge_os"
  shows "honest_os os \<Longrightarrow> safe io (\<lambda>_. True) (loop (drain_turn os fd) u w)"
proof (rule safe_loop [where I = "\<lambda>_. True"])
  fix s and w :: "'d world" assume "honest_os os"
  obtain res bs d where r: "b_read os fd 100 (dev w) = (res, bs, d)" by (metis prod_cases3)
  with honest_read [OF \<open>honest_os os\<close> r] show "safe io (\<lambda>t. case t of Inl s' \<Rightarrow> True | Inr a \<Rightarrow> True) (drain_turn os fd s w)"
    by (simp add: drain_turn_def Let_def)
qed simp

lemma safe_close: "honest_os os \<Longrightarrow> bridge_ok wl b \<Longrightarrow> safe io (bridge_ok wl) (cNetTcpClose os b w)"
  unfolding cNetTcpClose_def Let_def by (auto split: prod.split intro!: safe_call [OF safe_drain])


lemma safe_read_into:
  assumes "honest_os os" and "1 + i + n \<le> length (ReadBuf b)"
    and k: "\<And>bs w. length bs \<le> n \<Longrightarrow> safe io P (k (int (length bs)) (b\<lparr>ReadBuf := put_at (1 + i) bs (ReadBuf b)\<rparr>) w)"
  shows "safe io P (read_into os i n b w k)"
proof -
  obtain res bs d where r: "b_read os (TcpConnectionSocket b) n (dev w) = (res, bs, d)" by (metis prod_cases3)
  with honest_read [OF assms(1) r] assms(2) k show ?thesis by (simp add: read_into_def Let_def)
qed

lemma bridge_ok_read:
  assumes "bridge_ok wl b" and "1 + i + length bs \<le> 65539"
  shows "bridge_ok wl (b\<lparr>ReadBuf := put_at (1 + i) bs (ReadBuf b)\<rparr>)"
  using assms by (auto simp: bridge_ok_def put_at_def nth_append)

lemma bridge_ok_NUL: "bridge_ok wl b \<Longrightarrow> 0 \<in> set (tl (ReadBuf b))"
proof -
  assume "bridge_ok wl b"
  then have "tl (ReadBuf b) ! 65538 = 0" "65538 < length (tl (ReadBuf b))" by (simp_all add: bridge_ok_def nth_tl)
  then show ?thesis by (metis nth_mem)
qed

lemma safe_write:
  assumes "NetConnection b = TCP_CONNECTED \<Longrightarrow> 0 < len \<Longrightarrow> off + nat len \<le> length buf" and "len \<le> 65540" and "0 \<le> len"
    and "honest_os os"
  shows "safe io (\<lambda>n. n \<le> len) (cNetWriteTcp os b buf off len w)"
proof -
  have "unat (word_of_int len :: u32) = nat len" using assms(2,3) by (simp add: unat_eq_nat_uint uint_word_of_int)
  moreover have "n \<le> len" if "b_write os fd (take (nat len) (drop off buf)) d = (n, d')" for fd d d' n
  proof -
    have "n \<le> int (length (take (nat len) (drop off buf)))"
      using assms(4) that unfolding honest_os_def by (metis fst_conv)
    then show ?thesis using assms(3) by (simp add: min_def split: if_splits)
  qed
  ultimately show ?thesis using assms(1,3)
    by (auto simp: cNetWriteTcp_def Let_def hexdump_def split: prod.split)
qed


text \<open>What a read of the socket gives: at most the frame that \<open>ReadBuf\<close> holds.\<close>

definition read_ok :: "int \<Rightarrow> int \<times> bridge \<Rightarrow> bool" where
  "read_ok wl r \<longleftrightarrow> bridge_ok wl (snd r) \<and> fst r \<le> 65537"

lemma safe_read_start:
  assumes os: "honest_os os" and b: "bridge_ok wl b"
  shows "safe io (read_ok wl) (read_start os b w)"
  unfolding read_start_def
proof (rule safe_read_into [OF os])
  show "1 + 0 + 100 \<le> length (ReadBuf b)" using b by (simp add: bridge_ok_def)
  fix bs :: "u8 list" and w
  assume l: "length bs \<le> 100"
  define b' where "b' = b\<lparr>ReadBuf := put_at (1 + 0) bs (ReadBuf b)\<rparr>"
  have ok: "bridge_ok wl b'" unfolding b'_def by (rule bridge_ok_read [OF b]) (use l in simp)
  have ok': "bridge_ok wl (b'\<lparr>TcpRead := TCP_WAIT_ON_LENGTH\<rparr>)" using ok by (simp add: bridge_ok_def)
  have n: "unat (word_of_int (int (length bs)) :: u32) = length bs" using l by (simp add: unat_u32_small)
  have hex: "1 + length bs \<le> length (ReadBuf b')" using ok l by (simp add: bridge_ok_def)
  have acc: "safe io (\<lambda>n. n \<le> 16) (cNetWriteTcp os b' accept_text 0 16 w)"
    by (rule safe_write) (simp_all add: os accept_text_def)
  show "safe io (read_ok wl)
      (hexdump (ReadBuf b') 1 (unat (word_of_int (int (length bs)) :: u32)) w
        (\<lambda>w. if int (length bs) = 0 then call (cNetTcpClose os b' w) (\<lambda>b w. ret (0, b) w)
             else if 0 \<notin> set (tl (ReadBuf b')) then undef w
             else if occurs (bytes ''ET /target?sn='') (takeWhile (\<lambda>x. x \<noteq> 0) (tl (ReadBuf b')))
               then call (cNetWriteTcp os b' accept_text 0 16 w) (\<lambda>_ w. ret (0, b'\<lparr>TcpRead := TCP_WAIT_ON_LENGTH\<rparr>) w)
             else ret (0, b') w))"
    unfolding hexdump_def n using hex bridge_ok_NUL [OF ok]
    by (auto intro: safe_call [OF safe_close [OF os ok]] safe_call [OF acc] simp: read_ok_def ok ok')
qed

lemma length_field: "unat (ucast (x :: u8) + ucast (y :: u8) * 256 :: u32) = unat x + 256 * unat y"
proof -
  have "take_bit 32 (unat z) = unat z" for z :: u8
    by (rule take_bit_nat_eq_self) (rule less_trans [OF unat_u8_bound], simp)
  moreover have "unat x + unat y * 256 < 4294967296" "unat y * 256 < 4294967296"
    using unat_u8_bound [of x] unat_u8_bound [of y] by linarith+
  ultimately show ?thesis by (simp add: unat_word_ariths unsigned_ucast_eq)
qed

lemma safe_read_length:
  assumes os: "honest_os os" and b: "bridge_ok wl b" and st: "TcpRead b = TCP_WAIT_ON_LENGTH"
  shows "safe io (read_ok wl) (read_length os b w)"
  unfolding read_length_def
proof (rule safe_read_into [OF os])
  show "1 + 0 + 2 \<le> length (ReadBuf (b\<lparr>TcpReadBufPointer := 0\<rparr>))" using b by (simp add: bridge_ok_def)
  fix bs :: "u8 list" and w
  assume l: "length bs \<le> 2"
  define b' where "b' = b\<lparr>TcpReadBufPointer := 0, ReadBuf := put_at (1 + 0) bs (ReadBuf (b\<lparr>TcpReadBufPointer := 0\<rparr>))\<rparr>"
  show "safe io (read_ok wl)
      (if int (length bs) < 2 then call (cNetTcpClose os b' w) (\<lambda>b w. ret (int (length bs), b) w)
       else let rest = ucast (ReadBuf b' ! 1) + ucast (ReadBuf b' ! 2) * 256 :: u32
            in ret (0, b'\<lparr>TcpRestLen := rest, TcpTotalLength := rest + 2, TcpRead := TCP_WAIT_ON_ONLY_CHUNK,
                 TcpReadBufPointer := TcpReadBufPointer b' + word_of_int (int (length bs))\<rparr>) w)"
  proof (cases "length bs = 2")
    case False
    have "bridge_ok wl (b\<lparr>TcpReadBufPointer := 0\<rparr>)" using b st by (simp add: bridge_ok_def)
    from bridge_ok_read [OF this, of 0 bs] have "bridge_ok wl b'" using l by (simp add: b'_def)
    then show ?thesis using False l
      by (auto intro: safe_call [OF safe_close [OF os]] simp: read_ok_def)
  next
    case True
    have "bridge_ok wl (b\<lparr>TcpReadBufPointer := 0\<rparr>)" using b st by (simp add: bridge_ok_def)
    from bridge_ok_read [OF this, of 0 bs] have ok: "bridge_ok wl b'" using l by (simp add: b'_def)
    define rest :: u32 where "rest = ucast (ReadBuf b' ! 1) + ucast (ReadBuf b' ! 2) * 256"
    have r: "unat rest \<le> 65535"
      using unat_u8_bound [of "ReadBuf b' ! 1"] unat_u8_bound [of "ReadBuf b' ! 2"] unfolding rest_def length_field by linarith
    then have "unat (rest + 2) = unat rest + 2" by (simp add: unat_word_ariths)
    then show ?thesis using ok r True st unfolding rest_def [symmetric] Let_def
      by (simp add: read_ok_def bridge_ok_def b'_def)
  qed
qed


lemma sint_small: "unat (x :: u32) \<le> 65537 \<Longrightarrow> sint x = int (unat x)"
proof -
  assume "unat x \<le> 65537"
  then have "uint x \<le> 65537" unfolding uint_nat by linarith
  then have "signed_take_bit 31 (uint x) = uint x"
    by (intro signed_take_bit_int_eq_self) (rule order_trans [OF _ uint_ge_0], simp, simp)
  moreover have "sint x = signed_take_bit 31 (uint x)" using sint_uint [of x] by simp
  ultimately show ?thesis by (simp only: uint_nat)
qed

lemma safe_read_chunk:
  assumes os: "honest_os os" and b: "bridge_ok wl b" and st: "TcpRead b = TCP_WAIT_ON_ONLY_CHUNK"
  shows "safe io (read_ok wl) (read_chunk os b w)"
  unfolding read_chunk_def
proof (rule safe_read_into [OF os])
  have sum: "unat (TcpReadBufPointer b) + unat (TcpRestLen b) = unat (TcpTotalLength b)"
    and tot: "unat (TcpTotalLength b) \<le> 65537" and lb: "length (ReadBuf b) = 65540"
    using b st by (simp_all add: bridge_ok_def)
  show "1 + unat (TcpReadBufPointer b) + unat (TcpRestLen b) \<le> length (ReadBuf b)" using sum tot lb by simp
  fix bs :: "u8 list" and w
  assume l: "length bs \<le> unat (TcpRestLen b)"
  define b' where "b' = b\<lparr>ReadBuf := put_at (1 + unat (TcpReadBufPointer b)) bs (ReadBuf b)\<rparr>"
  have ok: "bridge_ok wl b'" unfolding b'_def by (rule bridge_ok_read [OF b]) (use l sum tot in simp)
  have n: "unat (word_of_int (int (length bs)) :: u32) = length bs" using l sum tot by (simp add: unat_u32_small)
  have p: "unat (TcpReadBufPointer b + word_of_int (int (length bs))) = unat (TcpReadBufPointer b) + length bs"
    using n l sum tot by (simp add: unat_word_ariths)
  have r: "unat (TcpRestLen b - word_of_int (int (length bs))) = unat (TcpRestLen b) - length bs"
    using n l by (subst unat_sub) (simp_all add: word_le_nat_alt)
  have s: "sint (TcpTotalLength b) \<le> 65537"
    unfolding sint_small [OF tot] using tot by linarith
  have fields: "TcpReadBufPointer b' = TcpReadBufPointer b" "TcpRestLen b' = TcpRestLen b"
    "TcpTotalLength b' = TcpTotalLength b" "TcpRead b' = TCP_WAIT_ON_ONLY_CHUNK" "length (ReadBuf b') = 65540"
    using st ok by (simp_all add: b'_def bridge_ok_def)
  show "safe io (read_ok wl)
      (if int (length bs) = 0 then call (cNetTcpClose os b' w) (\<lambda>b w. ret (0, b) w)
       else let b = b'\<lparr>TcpReadBufPointer := TcpReadBufPointer b' + word_of_int (int (length bs))\<rparr>;
                (n, b) = (if TcpRestLen b = word_of_int (int (length bs))
                  then (sint (TcpTotalLength b), b\<lparr>TcpRead := TCP_WAIT_ON_LENGTH\<rparr>)
                  else (0, b\<lparr>TcpRestLen := TcpRestLen b - word_of_int (int (length bs))\<rparr>))
            in hexdump (ReadBuf b) 1 (unat (TcpTotalLength b)) w (\<lambda>w. ret (n, b) w))"
  proof (cases "bs = []")
    case True
    then show ?thesis by (auto simp: read_ok_def intro: safe_call [OF safe_close [OF os ok]])
  next
    case False
    then show ?thesis using ok p r s sum tot l unfolding Let_def
      by (auto simp: hexdump_def fields read_ok_def bridge_ok_def)
  qed
qed

lemma safe_cNetReadTcp:
  assumes os: "honest_os os" and b: "bridge_ok wl b"
  shows "safe io (\<lambda>r. case r of None \<Rightarrow> True | Some r \<Rightarrow> read_ok wl r) (cNetReadTcp os b w)"
  using b unfolding cNetReadTcp_def
  by (auto split: TCP_CSTATE.split simp: read_ok_def
      intro: safe_call [OF safe_read_start [OF os b]] safe_call [OF safe_read_length [OF os b]]
        safe_call [OF safe_read_chunk [OF os b]])


lemma safe_fetch:
  assumes b: "bridge_ok wl b"
  shows "safe io (\<lambda>r. case r of None \<Rightarrow> True | Some b \<Rightarrow> \<exists>wl. bridge_ok wl b) (fetch_packet io b w)"
proof (cases "write_len b \<le> 0 \<and> io_read io (dev w) 65540 0 \<noteq> None")
  case True
  then obtain res bs d where r: "io_read io (dev w) 65540 0 = Some (res, bs, d)" by auto
  have lb: "length (WriteBuf b) = 65540" using b by (simp add: bridge_ok_def)
  show ?thesis
  proof (cases "length bs \<le> 65540")
    case l: True
    have lo: "length (overlay (WriteBuf b) bs) = 65540" using l lb by simp
    define n where "n = uint (overlay (WriteBuf b) bs ! 0) + 256 * uint (overlay (WriteBuf b) bs ! 1) + 2"
    have n: "n \<le> 65540" using unat_u8_bound [of "overlay (WriteBuf b) bs ! 0"] unat_u8_bound [of "overlay (WriteBuf b) bs ! 1"]
      unfolding n_def uint_nat by linarith
    show ?thesis using True b l lb lo
      using n [unfolded n_def One_nat_def] by (auto simp: fetch_packet_def ev3_read_timeout_def r Let_def bridge_ok_def)
  next
    case False
    then have "overlong io (w\<lparr>dev := d, trace := trace w @ [Rd 65540 0], received := received w @ [bs]\<rparr>)"
      unfolding overlong_def using r by auto
    then show ?thesis using False True lb by (simp add: fetch_packet_def ev3_read_timeout_def r Let_def)
  qed
next
  case False
  then show ?thesis using b
    by (cases "io_read io (dev w) 65540 0") (auto simp: fetch_packet_def ev3_read_timeout_def)
qed

lemma safe_serve_read:
  assumes os: "honest_os os" and b: "bridge_ok wl b"
  shows "safe io (\<lambda>r. case r of None \<Rightarrow> True | Some (_, b) \<Rightarrow> bridge_ok wl b) (serve_read os io b w)"
  unfolding serve_read_def
proof (rule safe_call [OF safe_cNetReadTcp [OF os b]])
  fix r w
  assume "case r of None \<Rightarrow> True | Some r \<Rightarrow> read_ok wl r"
  then show "safe io (\<lambda>r. case r of None \<Rightarrow> True | Some (_, b) \<Rightarrow> bridge_ok wl b)
      (case r of None \<Rightarrow> ret None w
       | Some (len, b) \<Rightarrow>
         if len > 0 then
           ev3_write io (ReadBuf b) (nat (len + 1)) w (\<lambda>err w.
           if err < len + 1 then call (cNetTcpClose os b w) (\<lambda>b w. ret (Some (True, b)) w)
           else ret (Some (False, b)) w)
         else ret (Some (False, b)) w)"
    by (auto split: option.split prod.split simp: read_ok_def ev3_write_def bridge_ok_def
        intro!: safe_call [OF safe_close [OF os]])
qed

lemma safe_serve_write:
  assumes os: "honest_os os" and b: "bridge_ok wl b" and w: "write_len b > 0"
  shows "safe io (\<lambda>b. \<exists>wl. bridge_ok wl b) (serve_write os b w')"
  unfolding serve_write_def
proof (rule safe_call [OF safe_write])
  have "0 \<le> write_pos b" "write_pos b + write_len b \<le> 65540" "length (WriteBuf b) = 65540"
    using b w by (simp_all add: bridge_ok_def)
  then show "nat (write_pos b) + nat (write_len b) \<le> length (WriteBuf b)" using w by linarith
  show "write_len b \<le> 65540" "0 \<le> write_len b" using b w by (auto simp: bridge_ok_def)
  fix n w assume "n \<le> write_len b"
  then show "safe io (\<lambda>b. \<exists>wl. bridge_ok wl b) (ret (if n > 0 then b\<lparr>write_len := write_len b - n, write_pos := write_pos b + n\<rparr> else b) w)"
    using b w by (auto simp: bridge_ok_def)
qed (rule os)

lemma safe_turn:
  assumes os: "honest_os os" and b: "bridge_ok wl b"
  shows "safe io (\<lambda>t. case t of Inl b' \<Rightarrow> \<exists>wl. bridge_ok wl b' | Inr r \<Rightarrow> (case r of None \<Rightarrow> True | Some b' \<Rightarrow> \<exists>wl. bridge_ok wl b'))
    (bridge_turn os io b w)" (is "safe io ?T _")
proof -
  have keep: "safe io (\<lambda>r. case r of None \<Rightarrow> True | Some (_, b) \<Rightarrow> bridge_ok wl b)
      (if rd then serve_read os io b w else ret (Some (False, b)) w)" if "bridge_ok wl b" for wl b rd w
    using that safe_serve_read [OF os that] by simp
  have conn: "safe io ?T (connected_turn os io b w)" unfolding connected_turn_def
  proof (rule safe_call [OF safe_fetch [OF b]])
    fix r w
    assume "case r of None \<Rightarrow> True | Some b \<Rightarrow> \<exists>wl. bridge_ok wl b"
    then consider "r = None" | b' wl where "r = Some b'" "bridge_ok wl b'" by (cases r) auto
    then show "safe io ?T (case r of None \<Rightarrow> ret (Inr None) w
      | Some b \<Rightarrow> (case b_select os (TcpConnectionSocket b) (write_len b > 0) (dev w) of
         ((rd, wr), d) \<Rightarrow>
           let fd = TcpConnectionSocket b; wanted = (write_len b > 0); w = w\<lparr>dev := d\<rparr> in
           call (if rd then serve_read os io b w else ret (Some (False, b)) w) (\<lambda>r w.
           case r of
             None \<Rightarrow> ret (Inr None) w
           | Some (leave, b) \<Rightarrow>
             if leave then ret (Inl b) w
             else if wanted \<and> wr \<and> TcpConnectionSocket b = fd then call (serve_write os b w) (\<lambda>b w. ret (Inl b) w)
             else ret (Inl b) w)))"
    proof cases
      case 2
      have wl: "write_len b'' = wl" if "bridge_ok wl b''" for b'' using that by (simp add: bridge_ok_def)
      obtain rd wr d where sel: "b_select os (TcpConnectionSocket b') (write_len b' > 0) (dev w) = ((rd, wr), d)"
        by (metis prod.collapse)
      show ?thesis unfolding Let_def \<open>r = Some b'\<close> option.case sel prod.case
      proof (rule safe_call [OF keep [OF 2(2)]])
        fix r :: "(bool \<times> bridge) option" and w
        assume "case r of None \<Rightarrow> True | Some (_, b) \<Rightarrow> bridge_ok wl b"
        then show "safe io ?T (case r of None \<Rightarrow> ret (Inr None) w
          | Some (leave, b) \<Rightarrow>
             if leave then ret (Inl b) w
             else if write_len b' > 0 \<and> wr \<and> TcpConnectionSocket b = TcpConnectionSocket b' then
               call (serve_write os b w) (\<lambda>b w. ret (Inl b) w)
             else ret (Inl b) w)"
          using wl [OF 2(2)] wl
          by (auto split: option.split intro!: safe_call [OF safe_serve_write [OF os]])
      qed
    qed simp
  qed
  show ?thesis
  proof (cases "NetConnection b")
    case TCP_NOT_CONNECTED
    have "\<exists>wl. bridge_ok wl (fst (cNetTransmitBeacon os b w))" for w
      using b by (auto simp: cNetTransmitBeacon_def cNetUdpClose_def cNetStartTimer_def Let_def split: prod.split)
    moreover have "bridge_ok wl (fst (snd (cNetWaitForTcpConnection os b w)))" if "bridge_ok wl b" for wl b w
      using that by (auto simp: cNetWaitForTcpConnection_def bridge_ok_def Let_def split: prod.split)
    ultimately show ?thesis using TCP_NOT_CONNECTED
      by (auto simp: bridge_turn_def split: prod.split) (metis fst_conv snd_conv)+
  qed (use b conn in \<open>auto simp: bridge_turn_def\<close>)
qed


lemma bridge_ok_init: "bridge_ok 0 bridge_init"
proof -
  have "length (replicate 65540 (0 :: u8)) = 65540" "replicate 65540 (0 :: u8) ! 65539 = 0" "replicate 65540 (0 :: u8) ! 0 = 0"
    by (rule length_replicate) (subst nth_replicate; simp)+
  then show ?thesis unfolding bridge_ok_def bridge_init_def by simp
qed

lemma init_udp_ok: "bridge_ok wl b \<Longrightarrow> cNetInitUdp os b w = (ok, b', w') \<Longrightarrow> \<exists>wl. bridge_ok wl b'"
  by (auto simp: cNetInitUdp_def cNetTransmitBeacon_def cNetUdpClose_def cNetStartTimer_def Let_def
      split: prod.splits if_splits)

lemma init_server_ok: "bridge_ok wl b \<Longrightarrow> cNetInitTcpServer os b w = (ok, b', w') \<Longrightarrow> \<exists>wl. bridge_ok wl b'"
proof -
  assume ok: "bridge_ok wl b" and run: "cNetInitTcpServer os b w = (ok, b', w')"
  from ok have "bridge_ok wl (b\<lparr>TcpRead := TCP_IDLE\<rparr>)" by (simp add: bridge_ok_def)
  with run show ?thesis by (auto simp: cNetInitTcpServer_def Let_def split: prod.splits if_splits)
qed



section \<open>The frames of the client\<close>

text \<open>
  The steps of the reader, with the number of bytes each gives to the bridge. The stream, as TCP gives it: a
  read of something brings at least one byte and as few more as it likes, a read of nothing brings nothing; and
  closing the connection succeeds.
\<close>

inductive net_reads :: "'d bridge_os \<Rightarrow> bridge \<times> 'd world \<Rightarrow> int list \<Rightarrow> bridge \<times> 'd world \<Rightarrow> bool" for os where
  stop: "net_reads os s [] s"
| step: "cNetReadTcp os b w = ret (Some (n, b')) w' \<Longrightarrow> net_reads os (b', w') ns t \<Longrightarrow> net_reads os (b, w) (n # ns) t"

inductive_cases net_readsE: "net_reads os (b, w) (n # ns) t"

definition streams :: "'d bridge_os \<Rightarrow> ('d \<Rightarrow> u8 list) \<Rightarrow> bool" where
  "streams os incoming \<longleftrightarrow>
    (\<forall>fd n d. 0 < n \<and> incoming d \<noteq> [] \<longrightarrow>
      (\<exists>bs d'. b_read os fd n d = (int (length bs), bs, d') \<and> bs \<noteq> [] \<and> length bs \<le> n \<and> incoming d = bs @ incoming d'))
    \<and> (\<forall>fd d. b_read os fd 0 d = (0, [], d)) \<and> (\<forall>fd d. fst (b_shutdown os fd d) = 0)"

lemma streamsE:
  assumes "streams os incoming" and "0 < n" and "incoming d \<noteq> []"
  obtains bs d' where "b_read os fd n d = (int (length bs), bs, d')" "bs \<noteq> []" "length bs \<le> n" "incoming d = bs @ incoming d'"
  using assms unfolding streams_def by meson

lemma streams_close:
  assumes "streams os incoming"
  shows "\<exists>w'. cNetTcpClose os b w = ret (b\<lparr>TcpConnectionSocket := 0, NetConnection := TCP_NOT_CONNECTED\<rparr>) w'"
proof -
  obtain d where "b_shutdown os (TcpConnectionSocket b) (dev w) = (0, d)"
    using assms unfolding streams_def by (metis prod.collapse)
  then show ?thesis by (simp add: cNetTcpClose_def)
qed

lemma take_put_after: "i \<le> length buf \<Longrightarrow> take (i + length bs) (put_at i bs buf) = take i buf @ bs"
  by (simp add: put_at_def)

lemma chunk_reads:
  assumes "streams os incoming" and "TcpRead b = TCP_WAIT_ON_ONLY_CHUNK" and "length (ReadBuf b) = 65540"
    and "unat (TcpReadBufPointer b) = i" and "unat (TcpRestLen b) = length p" and "unat (TcpTotalLength b) = i + length p"
    and "i + length p \<le> 65537" and "p \<noteq> []" and "incoming (dev w) = p @ r"
  shows "\<exists>k b' w'. net_reads os (b, w) (replicate k 0 @ [int (i + length p)]) (b', w')
    \<and> take (1 + i + length p) (ReadBuf b') = take (1 + i) (ReadBuf b) @ p
    \<and> TcpRead b' = TCP_WAIT_ON_LENGTH \<and> length (ReadBuf b') = 65540 \<and> incoming (dev w') = r"
  using assms(2-)
proof (induction "length p" arbitrary: b w p i rule: less_induct)
  case less
  have pos: "0 < length p" "incoming (dev w) \<noteq> []" using less.prems by auto
  obtain bs d' where rd: "b_read os (TcpConnectionSocket b) (length p) (dev w) = (int (length bs), bs, d')" "bs \<noteq> []"
      "length bs \<le> length p" "incoming (dev w) = bs @ incoming d'"
    using streamsE [OF assms(1) pos] by metis
  define p' where "p' = drop (length bs) p"
  have p: "p = bs @ p'" "incoming d' = p' @ r"
  proof -
    have eq: "bs @ incoming d' = p @ r" using rd(4) less.prems(8) by simp
    have "bs = take (length bs) p" using arg_cong [OF eq, of "take (length bs)"] rd(3) by simp
    then show "p = bs @ p'" by (metis append_take_drop_id p'_def)
    show "incoming d' = p' @ r" using arg_cong [OF eq, of "drop (length bs)"] rd(3) by (simp add: p'_def)
  qed
  define w1 where "w1 = w\<lparr>dev := d'\<rparr>"
  define buf where "buf = put_at (1 + i) bs (ReadBuf b)"
  have lbuf: "length buf = 65540" using less.prems rd(3) by (simp add: buf_def)
  have tb: "take (1 + i + length bs) buf = take (1 + i) (ReadBuf b) @ bs"
    unfolding buf_def by (rule take_put_after) (use less.prems in simp)
  have n: "unat (word_of_int (int (length bs)) :: u32) = length bs" using rd(3) less.prems by (simp add: unat_u32_small)
  have fin: "TcpRestLen b = word_of_int (int (length bs)) \<longleftrightarrow> p' = []"
    using n less.prems(4) p(1) by (auto simp: word_unat_eq_iff)
  have total: "sint (TcpTotalLength b) = int (i + length p)" using less.prems by (subst sint_small) simp_all
  show ?case
  proof (cases "p' = []")
    case True
    define b1 where "b1 = b\<lparr>ReadBuf := buf, TcpReadBufPointer := TcpReadBufPointer b + word_of_int (int (length bs)),
      TcpRead := TCP_WAIT_ON_LENGTH\<rparr>"
    have "cNetReadTcp os b w = ret (Some (int (i + length p), b1)) w1"
      using less.prems rd lbuf fin True total
      by (simp add: cNetReadTcp_def read_chunk_def read_into_def hexdump_def Let_def b1_def w1_def buf_def)
    then have "net_reads os (b, w) (replicate 0 0 @ [int (i + length p)]) (b1, w1)"
      by (auto intro: net_reads.intros)
    moreover have "take (1 + i + length p) (ReadBuf b1) = take (1 + i) (ReadBuf b) @ p" using tb True p by (simp add: b1_def)
    ultimately show ?thesis using True p lbuf by (fastforce simp: b1_def w1_def)
  next
    case False
    define b1 where "b1 = b\<lparr>ReadBuf := buf, TcpReadBufPointer := TcpReadBufPointer b + word_of_int (int (length bs)),
      TcpRestLen := TcpRestLen b - word_of_int (int (length bs))\<rparr>"
    have "cNetReadTcp os b w = ret (Some (0, b1)) w1"
      using less.prems rd lbuf fin False
      by (simp add: cNetReadTcp_def read_chunk_def read_into_def hexdump_def Let_def b1_def w1_def buf_def)
    moreover have "\<exists>k b' w'. net_reads os (b1, w1) (replicate k 0 @ [int (i + length bs + length p')]) (b', w')
      \<and> take (1 + (i + length bs) + length p') (ReadBuf b') = take (1 + (i + length bs)) (ReadBuf b1) @ p'
      \<and> TcpRead b' = TCP_WAIT_ON_LENGTH \<and> length (ReadBuf b') = 65540 \<and> incoming (dev w') = r"
    proof (rule less.hyps)
      show "unat (TcpReadBufPointer b1) = i + length bs" using n less.prems rd(3) by (simp add: b1_def unat_word_ariths)
      have "unat (TcpRestLen b - word_of_int (int (length bs))) = length p - length bs"
        using n less.prems rd(3) by (subst unat_sub) (simp_all add: word_le_nat_alt)
      then show "unat (TcpRestLen b1) = length p'" using p(1) by (simp add: b1_def)
    qed (use less.prems p rd(2) False lbuf in \<open>simp_all add: b1_def w1_def\<close>)
    then obtain k b' w' where rest: "net_reads os (b1, w1) (replicate k 0 @ [int (i + length p)]) (b', w')"
      "take (1 + i + length p) (ReadBuf b') = take (1 + i) (ReadBuf b) @ p"
      "TcpRead b' = TCP_WAIT_ON_LENGTH" "length (ReadBuf b') = 65540" "incoming (dev w') = r"
      using p(1) tb by (auto simp: b1_def add.assoc)
    ultimately have "net_reads os (b, w) (replicate (Suc k) 0 @ [int (i + length p)]) (b', w')"
      by (auto intro: net_reads.intros)
    with rest(2-5) show ?thesis by blast
  qed
qed


lemma le16_value: "unat (le16 x ! 0) + 256 * unat (le16 x ! 1) = unat x"
proof -
  have "unat (ucast x :: u8) = unat x mod 256" by (simp add: unsigned_ucast_eq take_bit_eq_mod)
  moreover have "unat (ucast (drop_bit 8 x) :: u8) = unat x div 256"
  proof -
    have "unat (drop_bit 8 x) = unat x div 256" by (simp add: drop_bit_eq_div unat_div_distrib)
    moreover have "unat x div 256 < 256" using unat_u16_bound [of x] by linarith
    ultimately show ?thesis by (simp add: unsigned_ucast_eq take_bit_eq_mod)
  qed
  ultimately show ?thesis by (simp add: le16_def)
qed

text \<open>A length that arrives in one piece.\<close>

lemma length_reads:
  assumes "streams os incoming" and "bridge_ok wl b" and "TcpRead b = TCP_WAIT_ON_LENGTH"
    and "length p < 65536" and "incoming (dev w) = le16 (of_nat (length p)) @ p @ r"
    and "b_read os (TcpConnectionSocket b) 2 (dev w) = (2, bs, d')"
  shows "\<exists>b1. cNetReadTcp os b w = ret (Some (0, b1)) (w\<lparr>dev := d'\<rparr>) \<and> TcpRead b1 = TCP_WAIT_ON_ONLY_CHUNK
    \<and> length (ReadBuf b1) = 65540 \<and> unat (TcpReadBufPointer b1) = 2 \<and> unat (TcpRestLen b1) = length p
    \<and> unat (TcpTotalLength b1) = length p + 2 \<and> take 3 (ReadBuf b1) = [0] @ le16 (of_nat (length p)) \<and> incoming d' = p @ r"
proof -
  define h where "h = le16 (of_nat (length p) :: u16)"
  have lh: "length h = 2" by (simp add: h_def)
  have lb: "length (ReadBuf b) = 65540" "ReadBuf b ! 0 = 0" using assms(2) by (simp_all add: bridge_ok_def)
  have inc: "incoming (dev w) = h @ p @ r" using assms(5) by (simp add: h_def)
  then have pos: "0 < (2 :: nat)" "incoming (dev w) \<noteq> []" using lh by auto
  have rd: "length bs = 2" "incoming (dev w) = bs @ incoming d'"
    using streamsE [OF assms(1) pos, of "TcpConnectionSocket b"] assms(6) by auto
  have bs: "bs = h" "incoming d' = p @ r"
    using rd inc lh by (metis append_eq_append_conv)+
  define buf where "buf = put_at 1 h (ReadBuf b)"
  have tb: "take 3 buf = [0] @ h"
  proof -
    have "take (1 + length h) buf = take 1 (ReadBuf b) @ h" unfolding buf_def by (rule take_put_after) (simp add: lb)
    moreover have "take 1 (ReadBuf b) = [0]" using lb by (cases "ReadBuf b") auto
    ultimately show ?thesis using lh by (simp add: numeral_3_eq_3)
  qed
  have lbuf: "length buf = 65540" using lb lh by (simp add: buf_def)
  have hd: "buf ! 1 = h ! 0" "buf ! 2 = h ! 1"
    using tb lbuf nth_take [of 1 3 buf] nth_take [of 2 3 buf] by simp_all
  define rest :: u32 where "rest = ucast (buf ! 1) + ucast (buf ! 2) * 256"
  have rest: "unat rest = length p"
    using assms(4) unfolding rest_def length_field hd h_def le16_value by (simp add: unat_u16_small)
  define b1 where "b1 = b\<lparr>TcpReadBufPointer := 2, ReadBuf := buf, TcpRestLen := rest, TcpTotalLength := rest + 2,
    TcpRead := TCP_WAIT_ON_ONLY_CHUNK\<rparr>"
  have "cNetReadTcp os b w = ret (Some (0, b1)) (w\<lparr>dev := d'\<rparr>)"
    using assms(3,6) bs lb lh
    by (simp add: cNetReadTcp_def read_length_def read_into_def Let_def b1_def buf_def rest_def)
  moreover have "unat (rest + 2) = length p + 2" using rest assms(4) by (simp add: unat_word_ariths)
  ultimately show ?thesis using rest lbuf tb bs(2) by (intro exI [of _ b1]) (simp add: b1_def h_def)
qed

text \<open>
  C7: How the bridge puts the frames of a client together, over a TCP stream that is cut in any way. If the first
  read brings both bytes of the length and the frame is not empty, some reads give nothing, and then one gives the
  whole frame, with the report byte before it and exactly the bytes of the stream in it, however these are cut; the
  next frame begins where it ends. But if the stream was cut between the two bytes of the length, the bridge gives
  up and closes the connection, and counts the one byte it has as a packet; and after a length of 0 it takes the
  read of nothing for the end of the stream and closes the connection as well.
\<close>

theorem bridge_reads_frame:
  assumes "streams os incoming" and "bridge_ok wl b" and "TcpRead b = TCP_WAIT_ON_LENGTH"
    and "length p < 65536" and "incoming (dev w) = le16 (of_nat (length p)) @ p @ r"
  shows "if fst (b_read os (TcpConnectionSocket b) 2 (dev w)) = 1 then
      \<exists>b' w'. net_reads os (b, w) [1] (b', w') \<and> NetConnection b' = TCP_NOT_CONNECTED
    else if p = [] then
      \<exists>b' w'. net_reads os (b, w) [0, 0] (b', w') \<and> NetConnection b' = TCP_NOT_CONNECTED
    else
      \<exists>k b' w'. net_reads os (b, w) (replicate k 0 @ [int (length p) + 2]) (b', w')
        \<and> take (length p + 3) (ReadBuf b') = [0] @ le16 (of_nat (length p)) @ p
        \<and> TcpRead b' = TCP_WAIT_ON_LENGTH \<and> incoming (dev w') = r"
proof -
  have "0 < (2 :: nat)" "incoming (dev w) \<noteq> []" using assms(5) by (auto simp: le16_def)
  from streamsE [OF assms(1) this] obtain bs d' where
    rd: "b_read os (TcpConnectionSocket b) 2 (dev w) = (int (length bs), bs, d')" "bs \<noteq> []" "length bs \<le> 2" by metis
  have lb: "length (ReadBuf b) = 65540" using assms(2) by (simp add: bridge_ok_def)
  show ?thesis
  proof (cases "length bs = 1")
    case True
    define b1 where "b1 = b\<lparr>TcpReadBufPointer := 0, ReadBuf := put_at 1 bs (ReadBuf b)\<rparr>"
    obtain w' where "cNetTcpClose os b1 (w\<lparr>dev := d'\<rparr>) = ret (b1\<lparr>TcpConnectionSocket := 0, NetConnection := TCP_NOT_CONNECTED\<rparr>) w'"
      using streams_close [OF assms(1)] by blast
    then have "cNetReadTcp os b w = ret (Some (1, b1\<lparr>TcpConnectionSocket := 0, NetConnection := TCP_NOT_CONNECTED\<rparr>)) w'"
      using rd True lb assms(3) by (simp add: cNetReadTcp_def read_length_def read_into_def b1_def)
    then show ?thesis using rd(1) True by (fastforce intro: net_reads.intros)
  next
    case False
    then have "length bs = 2" using rd(2,3) by (cases bs) (auto simp: le_Suc_eq)
    then have rd2: "b_read os (TcpConnectionSocket b) 2 (dev w) = (2, bs, d')" using rd(1) by simp
    obtain b1 where b1: "cNetReadTcp os b w = ret (Some (0, b1)) (w\<lparr>dev := d'\<rparr>)" "TcpRead b1 = TCP_WAIT_ON_ONLY_CHUNK"
      "length (ReadBuf b1) = 65540" "unat (TcpReadBufPointer b1) = 2" "unat (TcpRestLen b1) = length p"
      "unat (TcpTotalLength b1) = length p + 2" "take 3 (ReadBuf b1) = [0] @ le16 (of_nat (length p))" "incoming d' = p @ r"
      using length_reads [OF assms rd2] by blast
    show ?thesis
    proof (cases "p = []")
      case True
      have none: "put_at i [] m = m" for i and m :: "u8 list" by (simp add: put_at_def)
      obtain w' where c: "cNetTcpClose os b1 (w\<lparr>dev := d'\<rparr>) = ret (b1\<lparr>TcpConnectionSocket := 0, NetConnection := TCP_NOT_CONNECTED\<rparr>) w'"
        using streams_close [OF assms(1)] by blast
      have "b_read os (TcpConnectionSocket b1) 0 d' = (0, [], d')" using assms(1) by (simp add: streams_def)
      then have "cNetReadTcp os b1 (w\<lparr>dev := d'\<rparr>) = ret (Some (0, b1\<lparr>TcpConnectionSocket := 0, NetConnection := TCP_NOT_CONNECTED\<rparr>)) w'"
        using b1 True c by (simp add: cNetReadTcp_def read_chunk_def read_into_def none)
      then have "net_reads os (b, w) [0, 0] (b1\<lparr>TcpConnectionSocket := 0, NetConnection := TCP_NOT_CONNECTED\<rparr>, w')"
        using b1(1) by (auto intro: net_reads.intros)
      then show ?thesis using rd2 True by fastforce
    next
      case False
      have "\<exists>k b' w'. net_reads os (b1, w\<lparr>dev := d'\<rparr>) (replicate k 0 @ [int (2 + length p)]) (b', w')
        \<and> take (1 + 2 + length p) (ReadBuf b') = take (1 + 2) (ReadBuf b1) @ p
        \<and> TcpRead b' = TCP_WAIT_ON_LENGTH \<and> length (ReadBuf b') = 65540 \<and> incoming (dev w') = r"
        by (rule chunk_reads [OF assms(1) b1(2-5)]) (use assms(4) b1(6,8) False in simp_all)
      then obtain k b' w' where rest: "net_reads os (b1, w\<lparr>dev := d'\<rparr>) (replicate k 0 @ [int (2 + length p)]) (b', w')"
        "take (1 + 2 + length p) (ReadBuf b') = take (1 + 2) (ReadBuf b1) @ p"
        "TcpRead b' = TCP_WAIT_ON_LENGTH" "incoming (dev w') = r" by blast
      have "net_reads os (b, w) (replicate (Suc k) 0 @ [int (length p) + 2]) (b', w')"
        using rest(1) b1(1) by (auto simp: add.commute intro: net_reads.intros)
      moreover have "take (length p + 3) (ReadBuf b') = [0] @ le16 (of_nat (length p)) @ p"
        using rest(2) b1(7) by (simp add: add.commute numeral_3_eq_3)
      ultimately have "\<exists>k b' w'. net_reads os (b, w) (replicate k 0 @ [int (length p) + 2]) (b', w')
        \<and> take (length p + 3) (ReadBuf b') = [0] @ le16 (of_nat (length p)) @ p
        \<and> TcpRead b' = TCP_WAIT_ON_LENGTH \<and> incoming (dev w') = r"
        using rest(3,4) by blast
      then show ?thesis using rd2 False by simp
    qed
  qed
qed


section \<open>Reads that do not bring what is expected\<close>

text \<open>
  When only the first byte of a length has arrived, the bridge closes the connection, but still sends
  that byte on to the brick, as a packet of one byte.
\<close>

theorem bridge_forwards_half_length:
  assumes "TcpRead b = TCP_WAIT_ON_LENGTH" and "bridge_ok wl b"
    and "b_read os (TcpConnectionSocket b) 2 (dev w) = (1, [x], d1)" and "b_shutdown os (TcpConnectionSocket b) d1 = (0, d2)"
    and "io_write io d2 [0, x] = Some (res, d3)" and "2 \<le> res"
  shows "\<exists>b' w'. serve_read os io b w = ret (Some (False, b')) w' \<and> NetConnection b' = TCP_NOT_CONNECTED
    \<and> trace w' = trace w @ [Wr [0, x]]"
proof -
  have l: "length (ReadBuf b) = 65540" "ReadBuf b ! 0 = 0" using assms(2) by (simp_all add: bridge_ok_def)
  have "take 2 (put_at 1 [x] (ReadBuf b)) = take 1 (ReadBuf b) @ [x]"
    using take_put_after [of 1 "ReadBuf b" "[x]"] l by (simp add: numeral_2_eq_2)
  moreover have "take 1 (ReadBuf b) = [0]" using l by (cases "ReadBuf b") auto
  ultimately have "take 2 (put_at 1 [x] (ReadBuf b)) = [0, x]" by simp
  then show ?thesis
    using assms l by (simp add: serve_read_def cNetReadTcp_def read_length_def read_into_def cNetTcpClose_def ev3_write_def)
qed

text \<open>
  A failed read during the handshake, which a client causes by resetting the connection, is passed on
  as a length of four gigabytes, and the bridge reads beyond its buffer.
\<close>

theorem bridge_reset_overreads:
  assumes "TcpRead b = TCP_WAIT_ON_START" and "bridge_ok wl b"
    and "b_read os (TcpConnectionSocket b) 100 (dev w) = (- 1, [], d)"
  shows "serve_read os io b w = Some (Undef, w\<lparr>dev := d\<rparr>)"
proof -
  have "length (ReadBuf b) = 65540" using assms(2) by (simp add: bridge_ok_def)
  moreover have "\<not> unat (- 1 :: u32) \<le> 65539" unfolding unsigned_minus_1_eq_mask mask_eq_exp_minus_1 by simp
  ultimately show ?thesis
    using assms by (simp add: serve_read_def cNetReadTcp_def read_start_def read_into_def hexdump_def Let_def)
qed

section \<open>A bridge and the search for a brick\<close>

lemma beacon_scanned:
  "scan_broadcast beacon blank_handle
    = Some \<lparr>h_serial = Some ''31337'', h_ip = None, h_tcp_port = Some 5555, h_name = Some ''USB'', h_protocol = None\<rparr>"
  by code_simp

text \<open>
  The program cannot connect to its own bridge: the name in the beacon has a blank, so the search
  takes half of it for the name, never gets to the protocol, and sends a request made from a field
  that was not set.
\<close>

theorem beacon_not_understood:
  assumes "n_udp_socket net (dev w) = (True, n1)" and "n_bind net n1 UDP_PORT = (True, n2)"
    and "n_recvfrom net n2 (if timeout \<noteq> 0 then timeout else UDP_RECV_TIMEOUT) 128 = (Some (bytes beacon, addr), n3)"
    and "n_sendto net n3 addr [0] = (True, n4)" and "n_connect net (n_close net n4) addr 5555 = (0, n5)"
  shows "\<exists>w'. tcp_open net None timeout w = Some (Undef, w')"
proof -
  have z: "takeWhile (\<lambda>x. x \<noteq> 0) (bytes beacon) = bytes beacon"
    by (simp add: takeWhile_eq_all_conv beacon_def bytes_def)
  have l: "length (bytes beacon) < 128" by (simp add: beacon_def)
  have "n_recvfrom net (dev (w\<lparr>dev := n2\<rparr>)) (if timeout \<noteq> 0 then timeout else UDP_RECV_TIMEOUT) 128
    = (Some (bytes beacon, addr), n3)"
    using assms(3) by (simp split del: if_split)
  then have turn: "search_turn net None timeout blank_handle (w\<lparr>dev := n2\<rparr>)
    = ret (Inr (Some (\<lparr>h_serial = Some ''31337'', h_ip = None, h_tcp_port = Some 5555, h_name = Some ''USB'', h_protocol = None\<rparr>, addr)))
        (w\<lparr>dev := n3\<rparr>)"
    using l unfolding search_turn_def by (simp only: prod.case option.case Let_def z string_of_bytes beacon_scanned) simp
  show ?thesis
    using assms(1,2,4,5) turn by (auto simp: tcp_open_def tcp_meet_def Let_def loop_step split: prod.split)
qed


section \<open>Instances\<close>

text \<open>A client that has sent some bytes, of which a read brings at most three; and a brick that is silent.\<close>

definition pipe_os :: "u8 list bridge_os" where
  "pipe_os = \<lparr>b_time = (\<lambda>_. 0), b_udp_socket = (\<lambda>d. (3, d)), b_set_broadcast = (\<lambda>fd d. (0, d)),
    b_sendto = (\<lambda>fd bs d. (int (length bs), d)), b_tcp_socket = (\<lambda>d. (4, d)), b_bind = (\<lambda>fd d. (0, d)),
    b_listen = (\<lambda>fd d. (0, d)), b_accept = (\<lambda>fd d. (5, d)), b_select = (\<lambda>fd wr d. ((True, wr), d)),
    b_read = (\<lambda>fd n d. (int (length (take (min n 3) d)), take (min n 3) d, drop (min n 3) d)),
    b_write = (\<lambda>fd bs d. (int (length bs), d)), b_shutdown = (\<lambda>fd d. (0, d)), b_close = (\<lambda>fd d. d)\<rparr>"

definition silent_brick :: "'d ev3_io" where
  "silent_brick = \<lparr>io_write = (\<lambda>d bs. Some (int (length bs), d)), io_read = (\<lambda>d n ms. Some (0, [], d)), io_kind = HID\<rparr>"

lemma pipe_os_honest: "honest_os pipe_os" "streams pipe_os (\<lambda>d. d)"
  by (auto simp: honest_os_def streams_def pipe_os_def)

text \<open>A transport that stores one byte more than there is room for.\<close>

definition loud_brick :: "'d ev3_io" where
  "loud_brick = \<lparr>io_write = (\<lambda>d bs. Some (int (length bs), d)), io_read = (\<lambda>d n ms. Some (int (n + 1), replicate (n + 1) 0, d)), io_kind = SERIAL\<rparr>"


lemma bridge_ok_waiting: "bridge_ok 0 (bridge_init\<lparr>TcpRead := st\<rparr>)" if "st \<noteq> TCP_WAIT_ON_ONLY_CHUNK"
  using bridge_ok_init that by (simp add: bridge_ok_def)

theorem bridge_reads_frame_witness:
  "\<exists>k b' w'. net_reads pipe_os (bridge_init\<lparr>TcpRead := TCP_WAIT_ON_LENGTH\<rparr>, world0 [5, 0, 1, 2, 3, 4, 5, 6])
      (replicate k 0 @ [7]) (b', w')
    \<and> take 8 (ReadBuf b') = [0, 5, 0, 1, 2, 3, 4, 5] \<and> dev w' = [6]"
proof -
  let ?b = "bridge_init\<lparr>TcpRead := TCP_WAIT_ON_LENGTH\<rparr>" and ?w = "world0 [5, 0, 1, 2, 3, 4, 5, 6 :: u8]"
  have inc: "dev ?w = le16 (of_nat (length [1, 2, 3, 4, 5 :: u8])) @ [1, 2, 3, 4, 5] @ [6]" by (simp add: le16_def)
  have st: "bridge_ok 0 ?b" "TcpRead ?b = TCP_WAIT_ON_LENGTH" using bridge_ok_waiting by simp_all
  have "length [1, 2, 3, 4, 5 :: u8] < 65536" by simp
  moreover have "fst (b_read pipe_os (TcpConnectionSocket ?b) 2 (dev ?w)) = 2" by (simp add: pipe_os_def)
  ultimately show ?thesis using bridge_reads_frame [OF pipe_os_honest(2) st _ inc] by (auto simp: le16_def)
qed

text \<open>A client that has gone: its bytes so far, and then an error.\<close>

definition broken_os :: "u8 list bridge_os" where
  "broken_os = pipe_os\<lparr>b_read := (\<lambda>fd n d. if d = [] then (- 1, [], []) else (int (length (take n d)), take n d, drop n d))\<rparr>"

theorem bridge_forwards_half_length_witness:
  "\<exists>b' w'. serve_read broken_os silent_brick (bridge_init\<lparr>TcpRead := TCP_WAIT_ON_LENGTH\<rparr>) (world0 [9]) = ret (Some (False, b')) w'
    \<and> NetConnection b' = TCP_NOT_CONNECTED \<and> trace w' = trace (world0 [9 :: u8]) @ [Wr [0, 9]]"
  by (rule bridge_forwards_half_length [where res = 2])
     (rule bridge_ok_waiting | simp add: broken_os_def pipe_os_def silent_brick_def bridge_init_def)+

theorem bridge_reset_overreads_witness:
  "serve_read broken_os silent_brick (bridge_init\<lparr>TcpRead := TCP_WAIT_ON_START\<rparr>) (world0 []) = Some (Undef, (world0 [])\<lparr>dev := []\<rparr>)"
  by (rule bridge_reset_overreads) (rule bridge_ok_waiting | simp add: broken_os_def)+

theorem beacon_not_understood_witness:
  "\<exists>w'. tcp_open (small_net\<lparr>n_connect := (\<lambda>n addr port. (0, n))\<rparr>) None 0 (world0 ([(bytes beacon, 9)], [])) = Some (Undef, w')"
proof -
  let ?net = "small_net\<lparr>n_connect := (\<lambda>n addr port. (0, n))\<rparr>"
  have b: "length beacon \<le> 128" by (simp add: beacon_def)
  have r: "n_recvfrom ?net ([(bytes beacon, 9)], []) (if (0 :: nat) \<noteq> 0 then 0 else UDP_RECV_TIMEOUT) 128
    = (Some (bytes beacon, 9), [], [])"
    using b by simp
  show ?thesis
    by (rule beacon_not_understood [OF _ _ r]) simp_all
qed

end
