(* ===== verification/Info.thy ===== *)
theory Info
  imports Tcp
begin

text \<open>
  \<^verbatim>\<open>src/src/info.c\<close>: make the brick beep and print what is known about the connection. The strings of
  the USB device are those of the library, the release is that of the running kernel.
\<close>

record 'd usb_strings =
  manufacturer_string :: "'d \<Rightarrow> u8 list"
  product_string :: "'d \<Rightarrow> u8 list"
  serial_string :: "'d \<Rightarrow> u8 list"
  release :: string

text \<open>Full HID packet for causing a beep.\<close>

definition tone :: "u8 list" where
  "tone = [0x00, 0x0F, 0x00, 0x00, 0x00, 0x80, 0x00, 0x00, 0x94, 0x01, 0x81, 0x02, 0x82, 0xE8, 0x03, 0x82, 0xE8, 0x03]"

text \<open>The sign of \<^verbatim>\<open>strcmp\<close>: the characters compare as unsigned bytes, the terminator is below all.\<close>

fun str_less :: "string \<Rightarrow> string \<Rightarrow> bool" where
  "str_less [] [] = False"
| "str_less [] (_ # _) = True"
| "str_less (_ # _) [] = False"
| "str_less (a # s) (b # t) =
    (if a = b then str_less s t else (of_char a :: nat) < of_char b)"

definition tcp_field :: "string option \<Rightarrow> 'd world \<Rightarrow> (string \<Rightarrow> ('a, 'd) run) \<Rightarrow> ('a, 'd) run" where
  "tcp_field f w k = (case f of None \<Rightarrow> undef w | Some s \<Rightarrow> k s)"

text \<open>What is printed for a USB device; the beep in the rule is in the code.\<close>

definition print_usb :: "'d usb_strings \<Rightarrow> 'd world \<Rightarrow> 'd world" where
  "print_usb u w =
    (let isOld = str_less (release u) ''2.6.24'';
         w = put_out (bytes (''SUBSYSTEM=='' @ [CHR 0x22] @ (if isOld then ''usb_device'' else ''usb'') @ [CHR 0x22]
               @ '', ATTRS{idVendor}=='' @ [CHR 0x22] @ ''0694'' @ [CHR 0x22]
               @ '', ATTRS{idProduct}=='' @ [CHR 0x22] @ ''0005'' @ [CHR 0x07]
               @ '', MODE='' @ [CHR 0x22] @ ''0666'' @ [CHR 0x22] @ ''\<newline>'')) w;
         w = put_out (bytes ''Manufacturer String: '' @ manufacturer_string u (dev w) @ bytes ''\<newline>'') w;
         w = put_out (bytes ''Product String: '' @ product_string u (dev w) @ bytes ''\<newline>'') w
     in put_out (bytes ''Serial Number String: '' @ serial_string u (dev w) @ bytes ''\<newline>'') w)"

definition print_tcp :: "tcp_handle \<Rightarrow> 'd world \<Rightarrow> (ERR, 'd) run" where
  "print_tcp h w =
    tcp_field (h_serial h) w (\<lambda>serial.
    tcp_field (h_ip h) w (\<lambda>ip.
    case h_tcp_port h of None \<Rightarrow> undef w | Some port \<Rightarrow>
    tcp_field (h_name h) w (\<lambda>name.
    tcp_field (h_protocol h) w (\<lambda>protocol.
    ret ERR_UNK (put_out (bytes (''Serial: '' @ serial @ ''\<newline>'' @ ''Server:'' @ [CHR 0x09] @ ip @ '':'' @ dec (unat port) @ ''\<newline>''
      @ ''Name: '' @ name @ ''\<newline>'' @ ''Protocol: '' @ protocol @ ''\<newline>'')) w)))))"

text \<open>\<open>h\<close> is the handle of a TCP connection.\<close>

definition info :: "'d usb_strings \<Rightarrow> 'd ev3_io \<Rightarrow> tcp_handle \<Rightarrow> string option \<Rightarrow> 'd world \<Rightarrow> (ERR, 'd) run" where
  "info u io h arg w =
    (case arg of
       Some a \<Rightarrow>
         if io_kind io = HID \<and> a = ''serial'' then ret ERR_UNK (put_out (serial_string u (dev w)) w)
         else if io_kind io = TCP \<and> a = ''ip'' then
           tcp_field (h_ip h) w (\<lambda>ip. ret ERR_UNK (put_out (bytes ip) w))
         else ret ERR_ARG w
     | None \<Rightarrow>
         ev3_write io tone (length tone) w (\<lambda>res w.
         if res < 0 then ret ERR_COMM w
         else
           let w = w\<lparr>errmsg := Some (''\<newline>Attempting beep..'')\<rparr> in
           if io_kind io = HID then ret ERR_UNK (print_usb u w)
           else if io_kind io = TCP then print_tcp h w
           else ret ERR_UNK w))"

lemma length_tone: "length tone = 18"
  by (simp add: tone_def)

text \<open>The beep is a direct command whose length field fits the packet, without a reply.\<close>

lemma tone_frame: "get16 tone 1 = of_nat (length tone - 3)" and "tone ! 5 = 0x80"
  by (simp_all add: tone_def get16_def)

end
