(* ===== verification/Cmdline.thy ===== *)
theory Cmdline
  imports Files Info Tunnel
begin

text \<open>
  The first half of \<^verbatim>\<open>main\<close> in \<^verbatim>\<open>src/src/main.c\<close>, as it is built on Linux (with the bridge,
  without WPA2): the texts, the switches and parameters before the command, and opening a transport.
  The arguments are the strings of \<^verbatim>\<open>argv\<close> from \<^verbatim>\<open>argv[1]\<close> on; the null pointer after them is the
  end of the list.
\<close>

section \<open>Texts\<close>

definition ExecName :: string where
  "ExecName = ''/tmp/Executing shell cmd.rbf''"

definition usage :: string where
  "usage = concat (map (\<lambda>l. l @ ''\<newline>'') [
    ''USAGE: ev3duder [ --tcp[=ip] | --usb | --serial[=dev] | --serial[=inp,outp] ] '',
    ''                [ up loc rem | dl rem loc | rm rem | ls [rem] |'',
    ''                  mkdir rem | mkrbf rem loc | run rem | exec cmd |'',
    ''                  wpa2 SSID [pass] | info | tunnel | bridge | closehnd num ]'',
    '''',
    ''       ev3duder [ --tcp[=ip] | --usb | --serial[=dev] | --serial[=inp,outp] ]'',
    ''                vmexec <locals> <globals> <infile> <outfile> [noreply]'',
    '''',
    ''       ev3duder flash [ enter | install loc | info | reboot ] '',
    '''',
    ''       ev3duder uf2 pack   <archive.uf2> <brickdir> <file>...'',
    ''       ev3duder uf2 unpack <archive.uf2> <outdir> [--with-paths]'',
    '''',
    ''       rem = remote (EV3) path, loc = local path''])"

definition usage_desc :: string where
  "usage_desc = concat (map (\<lambda>l. l @ ''\<newline>'') [
    ''Info:'',
    ''--help | -h | /? Show this help'',
    ''--version       Print version number'',
    ''--printexits    Print a list of exit codes'',
    '''',
    ''Parameters:'',
    ''--tcp[=ip]      Connect to the EV3 over TCP. If no ip is specified,'',
    ''                the auto-detection feature will be used'',
    ''--usb           Connect to the EV3 over USB'',
    ''--serial[=dev]  Connect to the EV3 over a serial port'',
    ''--serial[=i,o]  Connect to the EV3 over a serial port,'',
    ''                with different files for input and output streams'',
    '''',
    ''Commands:'',
    '' up             upload local file to remote ev3 brick'',
    '' dl             download remote file to local system'',
    '' rm             remove file on ev3 brick'',
    '' ls             list files. Standard value is '/'' @ [CHR 0x27],
    '' info           attempt a beep and print information about the connection'',
    '' mkdir          create directory on the remote filesystem. Relative to path of VM.'',
    '' mkrbf          create rbf (menu entry) file locally. Sensible upload paths are:'',
    ''                ../prjs/BrkProg_SAVE/   Internal memory'',
    ''                ../prjs/BrkProg_DL/     Internal memory'',
    ''                ./apps/                 Internal memory - Applicatios (3rd tab)'',
    ''                /media/card/myapps/     Memory card'',
    ''                /media/usb/myappps/     USB stick'',
    ''run             instruct the VM to run a rbf file'',
    ''exec            pass cmd to root shell. Handle with caution'',
    ''vmexec          run given bytecode file as a direct command. Handle with caution'',
    ''closehnd        close given ev3 file handle. '' @ [CHR 0x22] @ ''all'' @ [CHR 0x22] @ '' will close all handles.'',
    ''tunnel          connects stdout/stdin to the ev3 VM'',
    ''bridge          simulates a WiFi-connected device bridged to a real ev3 VM'',
    ''flash enter     reboot from Linux to firmware update mode'',
    ''                (alternatively Escape+Enter+Right on the brick)'',
    ''flash install   install the given firmware file to the EV3'',
    ''flash info      show hardware and EEPROM versions'',
    ''flash exit      exit from the firmware update mode without installing new firmware'',
    ''uf2 pack        pack files into a Microsoft UF2 container'',
    ''                note: common brickdir options are: '',
    ''                'Projects' (internal flash, default), 'SD Card', 'USB Stick','',
    ''                'Temporary Logs', 'Permanent Logs'' @ [CHR 0x27],
    ''uf2 unpack      unpack files from a Microsoft UF2 container''])"

definition EXEC_SUFFIX :: string where
  "EXEC_SUFFIX = '' 2>&1 | awk 'BEGIN{RS='' @ [CHR 0x22] @ [CHR 0x5C] @ ''0'' @ [CHR 0x22] @ ''};{printf '' @ [CHR 0x22] @ [CHR 0x5C] @ ''t%08x'' @ [CHR 0x5C] @ ''n%s'' @ [CHR 0x22] @ '',length($0),$0}' | dd bs=1000 of=/dev/lms_usbdev''"

text \<open>\<^verbatim>\<open>puts\<close> adds a newline. What the build defines, and the name of the program.\<close>

definition puts :: "string \<Rightarrow> 'd world \<Rightarrow> 'd world" where
  "puts s w = put_out (bytes (s @ ''\<newline>'')) w"

record build =
  argv0 :: string
  CONFIGURATION :: string
  SYSTEM :: string
  VERSION :: string

definition args :: "string list" where
  "args = [''info'', ''up'', ''dl'', ''run'', ''ls'', ''rm'', ''mkdir'', ''closehnd'', ''mkrbf'', ''tunnel'', ''bridge'',
     ''listen'', ''send'', ''exec'', ''vmexec'', ''wpa2'', ''flash'', ''uf2'', ''nop'', ''end'']"

text \<open>The two names have no comma between them, so the array has one element.\<close>

definition offline_args :: "string list" where
  "offline_args = [''mkrbf'' @ ''uf2'']"

definition show_help :: "build \<Rightarrow> 'd world \<Rightarrow> 'd world" where
  "show_help b w =
    (let w = put_out (bytes (argv0 b @ '' ('' @ CONFIGURATION b @ ''; '' @ SYSTEM b @ '') v'' @ VERSION b @ ''\<newline>''
           @ ''Copyright (C) 2016 Ahmad Fatoum\<newline>''
           @ ''This is free software; see the source for copying conditions.   There is NO\<newline>''
           @ ''warranty; not even for MERCHANTABILITY or FITNESS FOR A PARTICULAR PURPOSE.\<newline>''
           @ ''Source is available under the GNU GPL v3.0 https://github.com/c4ev3/ev3duder/\<newline>\<newline>'')) w
     in puts usage_desc (puts usage w))"

definition show_exits :: "'d world \<Rightarrow> 'd world" where
  "show_exits w =
    put_out (bytes (''Exit status:\<newline>''
      @ dec_int (err_code ERR_ARG) @ ''  ERR_ARG     Wrong argument\<newline>''
      @ dec_int (err_code ERR_IO) @ ''  ERR_IO      IO operation failed\<newline>''
      @ dec_int (err_code ERR_FTOOBIG) @ ''  ERR_FTOOBIG File too big\<newline>''
      @ dec_int (err_code ERR_NOMEM) @ ''  ERR_NOMEM   No memory available\<newline>''
      @ dec_int (err_code ERR_COMM) @ ''  ERR_COMM    Communication failed\<newline>''
      @ dec_int (err_code ERR_VM) @ ''  ERR_VM      EV3 VM returned an error\<newline>''
      @ dec_int (err_code ERR_SYS) @ ''  ERR_SYS     System error\<newline>''
      @ dec_int (err_code ERR_USBLOOP) @ ''  ERR_USBLOOP Received own message instead of a reply\<newline>''
      @ dec_int (err_code ERR_END) @ ''  ERR_END     \<newline>'')) w"

text \<open>The switches that only print something; they must be the only argument.\<close>

definition print_switch :: "build \<Rightarrow> string list \<Rightarrow> 'd world \<Rightarrow> 'd world option" where
  "print_switch b argv w =
    (case argv of
       [a] \<Rightarrow>
         if a = ''-h'' \<or> a = ''--help'' \<or> a = ''/?'' then Some (show_help b w)
         else if a = ''--printexits'' then Some (show_exits w)
         else if a = ''--version'' then Some (put_out (bytes (VERSION b @ ''\<newline>'')) w)
         else None
     | _ \<Rightarrow> None)"

section \<open>Switches and parameters\<close>

record switches =
  select :: bool
  hid :: bool
  serial :: bool
  tcp :: bool

record params =
  tcp_id :: "string option"
  serial_id :: "string option \<times> string option"
  usb_id :: "string option"
  timeout :: u32

definition no_switches :: switches where
  "no_switches = \<lparr>select = False, hid = False, serial = False, tcp = False\<rparr>"

definition no_params :: params where
  "no_params = \<lparr>tcp_id = None, serial_id = (None, None), usb_id = None, timeout = 0\<rparr>"

text \<open>\<^verbatim>\<open>strtok\<close> on what is left of the string: the token, if any, and what is left after it.\<close>

definition strtok :: "string \<Rightarrow> string \<Rightarrow> string option \<times> string" where
  "strtok delims s =
    (let s = dropWhile (\<lambda>c. c \<in> set delims) s; t = takeWhile (\<lambda>c. c \<notin> set delims) s
     in if s = [] then (None, []) else (Some t, drop (length t + 1) s))"

text \<open>The string that is left at its start, where \<^verbatim>\<open>strtok\<close> has stored a terminator after the token.\<close>

definition strtok_cut :: "string \<Rightarrow> string \<Rightarrow> string" where
  "strtok_cut delims s =
    takeWhile (\<lambda>c. c \<in> set delims) s @ takeWhile (\<lambda>c. c \<notin> set delims) (dropWhile (\<lambda>c. c \<in> set delims) s)"

text \<open>
  A decimal number as \<^verbatim>\<open>strtol\<close> reads it: white space, a sign, digits; \<open>None\<close> without digits.
  \<^verbatim>\<open>strtol\<close> ends at the bounds of \<^verbatim>\<open>long\<close>; \<^verbatim>\<open>atoi\<close> of what is no \<^verbatim>\<open>int\<close> is undefined.
\<close>

definition read_int :: "string \<Rightarrow> int option" where
  "read_int s =
    (let s = dropWhile blank_char s;
         neg = (s \<noteq> [] \<and> hd s = CHR ''-'');
         s = (if s \<noteq> [] \<and> hd s \<in> {CHR ''-'', CHR ''+''} then tl s else s);
         t = takeWhile digit_char s
     in if t = [] then None else Some (if neg then - int (decimal t) else int (decimal t)))"

definition strtol :: "string \<Rightarrow> int option" where
  "strtol s = map_option (\<lambda>n. max (- (2 ^ 63)) (min (2 ^ 63 - 1) n)) (read_int s)"

definition atoi :: "string \<Rightarrow> int option" where
  "atoi s = (case read_int s of None \<Rightarrow> Some 0
     | Some n \<Rightarrow> if - (2 ^ 31) \<le> n \<and> n < 2 ^ 31 then Some n else None)"

text \<open>
  The loop over the arguments that begin with a hyphen: \<open>Inr\<close> the switches, the parameters and the
  arguments left, \<open>Inl\<close> the message with which \<^verbatim>\<open>main\<close> returns \<open>ERR_ARG\<close>; \<open>None\<close> where it reads
  beyond the arguments or a number that does not fit.
\<close>

definition double_switch ::
    "string \<Rightarrow> switches \<Rightarrow> params \<Rightarrow> string + switches \<times> params" where
  "double_switch arg sw ps =
    (let a = strtok_cut ''='' arg;
         (_, rest) = strtok ''='' arg;
         (device, rest) = strtok '','' rest;
         (device2, _) = strtok '''' rest
     in
     if a = ''usb'' \<or> a = ''hid'' then Inr (sw\<lparr>select := True, hid := True\<rparr>, ps\<lparr>usb_id := device\<rparr>)
     else if a = ''tcp'' \<or> a = ''inet'' then Inr (sw\<lparr>select := True, tcp := True\<rparr>, ps\<lparr>tcp_id := device\<rparr>)
     else if a = ''serial'' \<or> a = ''bt'' then
       Inr (sw\<lparr>select := True, serial := True\<rparr>, ps\<lparr>serial_id := (device, device2)\<rparr>)
     else if a = ''nop'' then Inr (sw, ps)
     else Inl (''Invalid switch '' @ [CHR 0x27] @ ''--'' @ a @ [CHR 0x27] @ ''\<newline>''))"

fun parse_switches ::
    "string list \<Rightarrow> switches \<Rightarrow> params \<Rightarrow> (string + switches \<times> params \<times> string list) option" where
  "parse_switches [] sw ps = Some (Inr (sw, ps, []))"
| "parse_switches (arg # argv) sw ps =
    (if take 1 arg \<noteq> ''-'' then Some (Inr (sw, ps, arg # argv))
     else if take 1 (drop 1 arg) = ''-'' then
       (if drop 2 arg = '''' then Some (Inr (sw, ps, argv))
        else case double_switch (drop 2 arg) sw ps of
          Inl msg \<Rightarrow> Some (Inl msg)
        | Inr (sw, ps) \<Rightarrow> parse_switches argv sw ps)
     else if take 1 (drop 1 arg) = ''t'' then
       (if take 1 (drop 2 arg) = ''='' then
          (case atoi (drop 3 arg) of
             None \<Rightarrow> None
           | Some n \<Rightarrow> parse_switches argv sw (ps\<lparr>timeout := word_of_int n\<rparr>))
        else case argv of
          [] \<Rightarrow> None
        | value # argv \<Rightarrow>
          (case atoi value of
             None \<Rightarrow> None
           | Some n \<Rightarrow> parse_switches argv sw (ps\<lparr>timeout := word_of_int n\<rparr>)))
     else Some (Inl (''Invalid parameter '' @ [CHR 0x27] @ arg @ [CHR 0x27] @ ''\<newline>'')))"

section \<open>Opening a transport\<close>

definition ProductID :: u16 where "ProductID = 0x005"
definition ProductID_FW :: u16 where "ProductID_FW = 0x006"

text \<open>
  What lies behind the function pointers: the functions of hidapi, of the serial port and of TCP, for
  a device \<open>'d\<close> that stands for all that can be connected.
\<close>

record 'd backends =
  hid_open :: "u16 \<Rightarrow> 'd \<Rightarrow> bool \<times> 'd"
  bt_opens :: "string option \<Rightarrow> string option \<Rightarrow> 'd \<Rightarrow> bool \<times> 'd"
  tcp_opens :: "string option \<Rightarrow> nat \<Rightarrow> 'd world \<Rightarrow> (tcp_handle option, 'd) run"
  io_of :: "transport_kind \<Rightarrow> 'd ev3_io"
  error_of :: "transport_kind \<Rightarrow> 'd \<Rightarrow> string option"
  close_of :: "transport_kind \<Rightarrow> 'd \<Rightarrow> 'd"

text \<open>
  The transports are tried in turn; without a switch, all of them. The result is the kind of the
  transport, if one was opened, and the handle of a TCP connection. The message after a serial port was
  found without a switch prints \<^verbatim>\<open>params.serial_id[0]\<close>, which is a null pointer then.
\<close>

definition try_tcp ::
    "'d backends \<Rightarrow> switches \<Rightarrow> params \<Rightarrow> 'd world \<Rightarrow> ((transport_kind \<times> tcp_handle) option, 'd) run" where
  "try_tcp be sw ps w =
    (if tcp sw \<or> \<not> select sw then
       call (tcp_opens be (tcp_id ps) (unat (timeout ps)) w) (\<lambda>h w.
       case h of
         None \<Rightarrow> ret None w
       | Some h \<Rightarrow>
         if \<not> select sw then
           tcp_field (h_name h) w (\<lambda>name.
           tcp_field (h_ip h) w (\<lambda>ip.
           case h_tcp_port h of None \<Rightarrow> undef w | Some port \<Rightarrow>
             ret (Some (TCP, h))
               (put_err (bytes (''TCP connection established ('' @ name @ ''@'' @ ip @ '':'' @ dec (unat port) @ '').\<newline>'')) w)))
         else ret (Some (TCP, h)) w)
     else ret None w)"

definition try_serial ::
    "'d backends \<Rightarrow> switches \<Rightarrow> params \<Rightarrow> 'd world \<Rightarrow> ((transport_kind \<times> tcp_handle) option, 'd) run" where
  "try_serial be sw ps w =
    (if serial sw \<or> \<not> select sw then
       (case bt_opens be (fst (serial_id ps)) (snd (serial_id ps)) (dev w) of
          (True, d) \<Rightarrow>
            let w = w\<lparr>dev := d\<rparr> in
            if \<not> select sw then
              tcp_field (fst (serial_id ps)) w (\<lambda>id.
              ret (Some (SERIAL, blank_handle))
                (put_err (bytes (''Bluetooth serial connection established ('' @ id @ '').\<newline>'')) w))
            else ret (Some (SERIAL, blank_handle)) w
        | (False, d) \<Rightarrow> try_tcp be sw ps (w\<lparr>dev := d\<rparr>))
     else try_tcp be sw ps w)"

definition connect ::
    "'d backends \<Rightarrow> switches \<Rightarrow> params \<Rightarrow> 'd world \<Rightarrow> ((transport_kind \<times> tcp_handle) option, 'd) run" where
  "connect be sw ps w =
    (if hid sw \<or> \<not> select sw then
       (case hid_open be ProductID (dev w) of
          (True, d) \<Rightarrow>
            let w = w\<lparr>dev := d\<rparr> in
            ret (Some (HID, blank_handle))
              (if \<not> select sw then put_err (bytes ''USB connection established.\<newline>'') w else w)
        | (False, d) \<Rightarrow> try_serial be sw ps (w\<lparr>dev := d\<rparr>))
     else try_serial be sw ps w)"

definition connect_fw ::
    "'d backends \<Rightarrow> 'd world \<Rightarrow> ((transport_kind \<times> tcp_handle) option, 'd) run" where
  "connect_fw be w =
    (case hid_open be ProductID_FW (dev w) of
       (True, d) \<Rightarrow> ret (Some (HID, blank_handle)) (put_err (bytes ''USB connection established.\<newline>'') (w\<lparr>dev := d\<rparr>))
     | (False, d) \<Rightarrow> ret None (w\<lparr>dev := d\<rparr>))"

end
