(* ===== verification/Program.thy ===== *)
theory Program
  imports Cmdline Bridge DirCmds Bootloader Handles Upload Download VmExec Uf2
begin

text \<open>
  The second half of \<^verbatim>\<open>main\<close> in \<^verbatim>\<open>src/src/main.c\<close>: the commands with the checks of their arguments, the
  local files they open, and how the program ends.
\<close>

section \<open>Local files\<close>

text \<open>\<^verbatim>\<open>fopen(p, "wb")\<close>: the place of the file, which is empty now.\<close>

definition fopen_wb :: "fsys \<Rightarrow> string \<Rightarrow> path option \<times> fsys" where
  "fopen_wb fs p =
    (case os_open_creat fs p of
       (Inl _, fs) \<Rightarrow> (None, fs)
     | (Inr q, fs) \<Rightarrow> (Some q, set_contents q [] fs))"

section \<open>Commands\<close>

text \<open>
  How the \<^verbatim>\<open>switch\<close> over the commands is left: \<open>Break\<close> goes on with \<^verbatim>\<open>ret\<close>, \<open>Return\<close> is a \<^verbatim>\<open>return\<close> of
  \<^verbatim>\<open>main\<close>, \<open>Failed\<close> an \<^verbatim>\<open>assert\<close> of \<^verbatim>\<open>main.c\<close> that does not hold, \<open>Abort\<close> one of the library.
\<close>

datatype leaving = Break int | Return int | Failed | Abort

type_synonym 'd command = "(leaving \<times> fsys, 'd) run"

definition Breaks :: "fsys \<Rightarrow> (ERR, 'd) run \<Rightarrow> 'd command" where
  "Breaks fs m = call m (\<lambda>e w. ret (Break (err_code e), fs) w)"

text \<open>What the process finds around it.\<close>

record 'd host =
  backends_of :: "'d backends"
  usb_of :: "'d usb_strings"
  sockets_of :: "'d bridge_os"
  build_of :: build
  versions_of :: "u32 \<Rightarrow> string"
  strerror_of :: "int \<Rightarrow> string"
  stdin_of :: FILE
  tmpfile_ok :: bool

definition cmd_up :: "'d ev3_io \<Rightarrow> string list \<Rightarrow> fsys \<Rightarrow> 'd world \<Rightarrow> 'd command" where
  "cmd_up io argv fs w =
    (case argv of
       [file, rem] \<Rightarrow>
         (case os_fopen_rb fs file of
            None \<Rightarrow> ret (Return (err_code ERR_IO), fs) (put_out (bytes (''File <'' @ file @ ''> doesn't exist.\<newline>'')) w)
          | Some bs \<Rightarrow> Breaks fs (up io (open_rb bs) rem w))
     | _ \<Rightarrow> ret (Failed, fs) w)"

text \<open>
  With one argument the local name is the part after the last slash; with none, the code reads
  beyond the null pointer that ends the arguments.
\<close>

definition cmd_dl :: "'d ev3_io \<Rightarrow> string list \<Rightarrow> fsys \<Rightarrow> 'd world \<Rightarrow> 'd command" where
  "cmd_dl io argv fs w =
    (case argv of
       [] \<Rightarrow> undef w
     | rem # rest \<Rightarrow>
       if length rest > 1 then ret (Failed, fs) w
       else
         let buf = (case rest of [] \<Rightarrow> last (names rem) | file # _ \<Rightarrow> file) in
         case fopen_wb fs buf of
           (None, fs) \<Rightarrow>
             ret (Return (err_code ERR_IO), fs) (put_out (bytes (''File <'' @ buf @ ''> couldn't be opened for writing.\<newline>'')) w)
         | (Some q, fs) \<Rightarrow>
             call (dl io rem [] w) (\<lambda>(e, bs) w. ret (Break (err_code e), set_contents q bs fs) w))"

definition cmd_run :: "'d ev3_io \<Rightarrow> params \<Rightarrow> string list \<Rightarrow> fsys \<Rightarrow> 'd world \<Rightarrow> 'd command" where
  "cmd_run io ps argv fs w =
    (case argv of [rem] \<Rightarrow> Breaks fs (VmExec.run io rem (unat (timeout ps)) w) | _ \<Rightarrow> ret (Failed, fs) w)"

definition cmd_ls :: "'d ev3_io \<Rightarrow> string list \<Rightarrow> fsys \<Rightarrow> 'd world \<Rightarrow> 'd command" where
  "cmd_ls io argv fs w =
    (case argv of
       [] \<Rightarrow> Breaks fs (ls io ''/'' w)
     | [rem] \<Rightarrow> Breaks fs (ls io rem w)
     | _ \<Rightarrow> ret (Failed, fs) w)"

text \<open>The conversion of \<^verbatim>\<open>strtol\<close>'s result to \<^verbatim>\<open>int\<close> wraps around.\<close>

definition cmd_closehnd :: "'d ev3_io \<Rightarrow> string list \<Rightarrow> fsys \<Rightarrow> 'd world \<Rightarrow> 'd command" where
  "cmd_closehnd io argv fs w =
    (case argv of
       [] \<Rightarrow> Breaks fs (closehnd io 0 256 w)
     | [hnd] \<Rightarrow>
         if hnd = ''all'' then Breaks fs (closehnd io 0 256 w)
         else
           let start = (case strtol hnd of None \<Rightarrow> 0 | Some n \<Rightarrow> to_int n); end_hnd = start + 1 in
           if strtol hnd = None \<or> start > 255 \<or> start < 0 then
             ret (Break (err_code ERR_ARG), fs) (put_out (bytes (''invalid handle <'' @ hnd @ ''>\<newline>'')) w)
           else Breaks fs (closehnd io start end_hnd w)
     | _ \<Rightarrow> ret (Failed, fs) w)"

definition cmd_mkdir :: "'d ev3_io \<Rightarrow> string list \<Rightarrow> fsys \<Rightarrow> 'd world \<Rightarrow> 'd command" where
  "cmd_mkdir io argv fs w = (case argv of [rem] \<Rightarrow> Breaks fs (mkdir io rem w) | _ \<Rightarrow> ret (Failed, fs) w)"

definition cmd_rm :: "'d ev3_io \<Rightarrow> string list \<Rightarrow> fsys \<Rightarrow> 'd world \<Rightarrow> 'd command" where
  "cmd_rm io argv fs w = (case argv of [rem] \<Rightarrow> Breaks fs (rm io rem w) | _ \<Rightarrow> ret (Failed, fs) w)"

definition cmd_mkrbf :: "string list \<Rightarrow> fsys \<Rightarrow> 'd world \<Rightarrow> 'd command" where
  "cmd_mkrbf argv fs w =
    (case argv of
       shell_cmd # file # _ \<Rightarrow>
         (case fopen_wb fs file of
            (None, fs) \<Rightarrow> ret (Return (err_code ERR_IO), fs) w
          | (Some q, fs) \<Rightarrow>
            (case mkrbf shell_cmd of
               None \<Rightarrow> undef w
             | Some (buf, len) \<Rightarrow> ret (Return (err_code ERR_UNK), set_contents q (take len buf) fs) w))
     | _ \<Rightarrow> ret (Failed, fs) w)"

text \<open>
  After a failed \<^verbatim>\<open>fopen\<close> of the output the code looks at \<^verbatim>\<open>fp\<close>, which is open, instead of \<^verbatim>\<open>fp2\<close>, so it
  goes on with a null pointer. The input is read after the output was opened, which may be the same file.
\<close>

definition vmexec_files ::
    "'d host \<Rightarrow> 'd ev3_io \<Rightarrow> int \<Rightarrow> int \<Rightarrow> string \<Rightarrow> string \<Rightarrow> string option \<Rightarrow> fsys \<Rightarrow> 'd world \<Rightarrow> 'd command" where
  "vmexec_files host io locals globals infile outfile reply fs w =
    (if infile \<noteq> ''-'' \<and> os_fopen_rb fs infile = None then
       ret (Break (err_code ERR_IO), fs) (put_err (bytes (''<'' @ infile @ ''> cannot be opened for bytecodes\<newline>'')) w)
     else
       let (out, q, fs) =
             (if outfile = ''-'' then (OutStdout, None, fs)
              else if outfile = ''none'' then (OutNull, None, fs)
              else case fopen_wb fs outfile of
                (None, fs) \<Rightarrow> (OutNull, None, fs)
              | (Some q, fs) \<Rightarrow> (OutFile, Some q, fs));
           fp = (if infile = ''-'' then stdin_of host
                 else open_rb (case os_fopen_rb fs infile of None \<Rightarrow> [] | Some bs \<Rightarrow> bs))
       in
       if reply \<noteq> None \<and> the reply \<noteq> ''noreply'' then
         ret (Break (err_code ERR_ARG), fs) (put_err (bytes (''<'' @ the reply @ ''> is invalid vmexec parameter\<newline>'')) w)
       else
         call (vmexec io fp out locals globals (reply = None) w) (\<lambda>(e, written) w.
         ret (Break (err_code e), case q of None \<Rightarrow> fs | Some q \<Rightarrow> set_contents q written fs) w))"

definition cmd_vmexec :: "'d host \<Rightarrow> 'd ev3_io \<Rightarrow> string list \<Rightarrow> fsys \<Rightarrow> 'd world \<Rightarrow> 'd command" where
  "cmd_vmexec host io argv fs w =
    (case argv of
       l # g # infile # outfile # rest \<Rightarrow>
         if length rest > 1 then ret (Failed, fs) w
         else (case strtol l of
           None \<Rightarrow> ret (Break (err_code ERR_ARG), fs) (put_err (bytes (''<'' @ l @ ''> is invalid local variable count\<newline>'')) w)
         | Some locals \<Rightarrow>
           (case strtol g of
              None \<Rightarrow> ret (Break (err_code ERR_ARG), fs) (put_err (bytes (''<'' @ g @ ''> is invalid global variable count\<newline>'')) w)
            | Some globals \<Rightarrow>
              vmexec_files host io (to_int locals) (to_int globals) infile outfile
                (case rest of [] \<Rightarrow> None | r # _ \<Rightarrow> Some r) fs w))
     | _ \<Rightarrow> ret (Failed, fs) w)"

text \<open>The temporary file has no name.\<close>

definition cmd_exec :: "'d host \<Rightarrow> 'd ev3_io \<Rightarrow> params \<Rightarrow> string list \<Rightarrow> fsys \<Rightarrow> 'd world \<Rightarrow> 'd command" where
  "cmd_exec host io ps argv fs w =
    (case argv of
       shell_cmd # _ \<Rightarrow>
         (case mkrbf (shell_cmd @ EXEC_SUFFIX) of
            None \<Rightarrow> undef w
          | Some (buf, len) \<Rightarrow>
            if \<not> tmpfile_ok host then ret (Return (err_code ERR_IO), fs) w
            else
              call (up io (rewind (open_rb (take len buf))) ExecName w) (\<lambda>e w.
              if e \<noteq> ERR_UNK then ret (Break (err_code e), fs) w
              else Breaks fs (VmExec.run io ExecName (unat (timeout ps)) w)))
     | [] \<Rightarrow> ret (Failed, fs) w)"

definition cmd_flash :: "'d host \<Rightarrow> 'd ev3_io \<Rightarrow> string list \<Rightarrow> fsys \<Rightarrow> 'd world \<Rightarrow> 'd command" where
  "cmd_flash host io argv fs w =
    (case argv of
       [] \<Rightarrow> ret (Failed, fs) w
     | sub # rest \<Rightarrow>
       if sub = ''enter'' then
         (if rest = [] then Breaks fs (bootloader_enter io w) else ret (Failed, fs) w)
       else if sub = ''install'' then
         (case rest of
            [file] \<Rightarrow>
              (case os_fopen_rb fs file of
                 None \<Rightarrow> ret (Return (err_code ERR_IO), fs) (put_out (bytes (''File <'' @ file @ ''> doesn't exist.\<newline>'')) w)
               | Some bs \<Rightarrow> Breaks fs (bootloader_install io (open_rb bs) w))
          | _ \<Rightarrow> ret (Failed, fs) w)
       else if sub = ''info'' then
         (if rest = [] then Breaks fs (bootloader_info (versions_of host) io w) else ret (Failed, fs) w)
       else if sub = ''exit'' then
         (if rest = [] then Breaks fs (bootloader_exit io w) else ret (Failed, fs) w)
       else
         ret (Break (err_code ERR_ARG), fs) (put_out (bytes (''<'' @ sub @ ''> is not a known flash command\<newline>.'')) w))"

text \<open>The archive is not among the files that are packed into it.\<close>

definition cmd_uf2 :: "'d host \<Rightarrow> string list \<Rightarrow> fsys \<Rightarrow> 'd world \<Rightarrow> 'd command" where
  "cmd_uf2 host argv fs w =
    (case argv of
       [] \<Rightarrow> ret (Failed, fs) w
     | sub # rest \<Rightarrow>
       if sub = ''pack'' then
         (case rest of
            archive # brickdir # file # files \<Rightarrow>
              (case fopen_wb fs archive of
                 (None, fs) \<Rightarrow>
                   ret (Break (err_code ERR_IO), fs) (w\<lparr>errmsg := Some ''error: cannot open UF2 file for writing''\<rparr>)
               | (Some q, fs) \<Rightarrow>
                   call (uf2_pack (strerror_of host) fs [] brickdir (file # files) w) (\<lambda>(r, bs) w.
                   ret (Break r, set_contents q bs fs) w))
          | _ \<Rightarrow> ret (Failed, fs) w)
       else if sub = ''unpack'' then
         (case rest of
            archive # outdir # opt \<Rightarrow>
              if length opt > 1 then ret (Failed, fs) w
              else if opt \<noteq> [] \<and> hd opt \<noteq> ''--with-paths'' then
                ret (Break (err_code ERR_ARG), fs) (put_out (bytes (''<'' @ hd opt @ ''> is not valid for `uf2 unpack`.\<newline>'')) w)
              else
                (case os_fopen_rb fs archive of
                   None \<Rightarrow> ret (Break (err_code ERR_IO), fs) (w\<lparr>errmsg := Some ''error: cannot open UF2 file for reading''\<rparr>)
                 | Some bs \<Rightarrow>
                     call (uf2_unpack (strerror_of host) (open_rb bs) outdir (opt \<noteq> []) fs w) (\<lambda>(e, fs) w.
                     ret (Break (err_code e), fs) w))
          | _ \<Rightarrow> ret (Failed, fs) w)
       else
         ret (Break (err_code ERR_ARG), fs) (put_out (bytes (''<uf2 '' @ sub @ ''> hasn't been implemented yet.\<newline>'')) w))"

definition cmd_bridge :: "'d host \<Rightarrow> 'd ev3_io \<Rightarrow> fsys \<Rightarrow> 'd world \<Rightarrow> 'd command" where
  "cmd_bridge host io fs w =
    call (bridge_mode (sockets_of host) io w) (\<lambda>r w.
    ret (case r of None \<Rightarrow> Abort | Some e \<Rightarrow> Break (err_code e), fs) w)"

text \<open>
  The \<^verbatim>\<open>switch\<close>. A name that is not in \<^verbatim>\<open>args\<close> gives the number of \<open>end\<close>, and so does that name. WPA2 is
  not built in, so its name is the default case, which prints the first argument, if there is one.
  \<^verbatim>\<open>listen\<close> hands the handle to hidapi, whatever it is.
\<close>

definition dispatch ::
    "'d host \<Rightarrow> 'd ev3_io \<Rightarrow> tcp_handle \<Rightarrow> params \<Rightarrow> string \<Rightarrow> string list \<Rightarrow> fsys \<Rightarrow> 'd world \<Rightarrow> 'd command" where
  "dispatch host io h ps name argv fs w =
    (if name = ''info'' then
       Breaks fs (info (usb_of host) io h (case argv of [] \<Rightarrow> None | a # _ \<Rightarrow> Some a) w)
     else if name = ''up'' then cmd_up io argv fs w
     else if name = ''dl'' then cmd_dl io argv fs w
     else if name = ''run'' then cmd_run io ps argv fs w
     else if name = ''nop'' then ret (Return (err_code ERR_UNK), fs) w
     else if name \<notin> set (butlast args) then ret (Return (err_code ERR_ARG), fs) (puts usage w)
     else if name = ''ls'' then cmd_ls io argv fs w
     else if name = ''closehnd'' then cmd_closehnd io argv fs w
     else if name = ''tunnel'' then Breaks fs (tunnel_mode io (stdin_of host) w)
     else if name = ''listen'' then
       (if io_kind io = HID then Breaks fs (listen_mode io w) else undef w)
     else if name = ''bridge'' then cmd_bridge host io fs w
     else if name = ''send'' then Breaks fs (sendout io (stdin_of host) w)
     else if name = ''mkdir'' then cmd_mkdir io argv fs w
     else if name = ''mkrbf'' then cmd_mkrbf argv fs w
     else if name = ''vmexec'' then cmd_vmexec host io argv fs w
     else if name = ''exec'' then cmd_exec host io ps argv fs w
     else if name = ''rm'' then cmd_rm io argv fs w
     else if name = ''flash'' then cmd_flash host io argv fs w
     else if name = ''uf2'' then cmd_uf2 host argv fs w
     else
       case argv of
         [] \<Rightarrow> undef w
       | a # _ \<Rightarrow> ret (Break (err_code ERR_ARG), fs) (put_out (bytes (''<'' @ a @ ''> hasn't been implemented yet.\<newline>'')) w))"


section \<open>The end of the program\<close>

text \<open>The message at the end; the result of the command decides where it goes.\<close>

definition report :: "'d backends \<Rightarrow> transport_kind option \<Rightarrow> int \<Rightarrow> 'd world \<Rightarrow> (unit, 'd) run" where
  "report be kind r w =
    (let say = (if r = err_code ERR_UNK then put_err else put_out);
         shown = (\<lambda>s. case s of None \<Rightarrow> ''-'' | Some t \<Rightarrow> t)
     in
     if r = err_code ERR_COMM then
       (case kind of
          None \<Rightarrow> undef w
        | Some k \<Rightarrow> ret () (say (bytes (shown (errmsg w) @ '' ('' @ shown (error_of be k (dev w)) @ '')\<newline>'')) w))
     else if r = err_code ERR_VM then
       (if errno w < 0 then undef w
        else
          let err = (if errno w < int (length ev3_error_msgs) then ev3_error_msgs ! nat (errno w)
                     else Some ''An unknown error occured'')
          in ret () (say (bytes (shown err @ '' ('' @ shown (errmsg w) @ '')\<newline>'')) w))
     else if r = err_code ERR_USBLOOP then
       ret () (put_err (bytes (''\<newline>Error: ev3duder received its own packet instead of a reply from the brick.\<newline>\<newline>''
         @ ''If you have plugged the EV3 into a USB 3.0 port (usually red or blue),\<newline>''
         @ ''try plugging it into a USB 2.0 only port (usually black or white).\<newline>'')) w)
     else ret () (case errmsg w of None \<Rightarrow> w | Some m \<Rightarrow> say (bytes (m @ ''\<newline>'')) w))"

definition close_handle :: "'d backends \<Rightarrow> transport_kind option \<Rightarrow> 'd world \<Rightarrow> 'd world" where
  "close_handle be kind w = (case kind of None \<Rightarrow> w | Some k \<Rightarrow> w\<lparr>dev := close_of be k (dev w)\<rparr>)"

datatype exit_status = Exit int | Killed

definition finish :: "'d backends \<Rightarrow> transport_kind option \<Rightarrow> leaving \<times> fsys \<Rightarrow> 'd world \<Rightarrow> (exit_status \<times> fsys, 'd) run" where
  "finish be kind = (\<lambda>(l, fs) w.
    (case l of
       Return r \<Rightarrow> ret (Exit r, fs) w
     | Failed \<Rightarrow> ret (Exit (err_code ERR_ARG), fs) (close_handle be kind w)
     | Abort \<Rightarrow> ret (Killed, fs) w
     | Break r \<Rightarrow> call (report be kind r w) (\<lambda>_ w. ret (Exit r, fs) (close_handle be kind w))))"

section \<open>main\<close>

definition is_fw :: "string list \<Rightarrow> bool" where
  "is_fw argv \<longleftrightarrow> take 1 argv = [''flash''] \<and> take 1 (drop 1 argv) \<noteq> [''enter'']"

text \<open>
  From the command on, with the arguments left. The message when nothing was found is the one of a
  Linux build. Only a name that is no command can be in \<^verbatim>\<open>offline_args\<close>, so nothing uses the transport
  then.
\<close>

definition main_command ::
    "'d host \<Rightarrow> switches \<Rightarrow> params \<Rightarrow> string list \<Rightarrow> fsys \<Rightarrow> 'd world \<Rightarrow> (exit_status \<times> fsys, 'd) run" where
  "main_command host sw ps argv fs w =
    (let be = backends_of host;
         retry = ''Insufficient access to the usb device might be a reason too, try sudo.''
     in
     if is_fw argv then
       call (connect_fw be w) (\<lambda>c w.
       case c of
         None \<Rightarrow>
           ret (Exit (err_code ERR_COMM), fs)
             (puts retry (puts ''No updateable EV3 found. Plug it into a USB port and switch it to firmware update mode.\<newline>'' w))
       | Some (k, h) \<Rightarrow>
           call (dispatch host (io_of be k) h ps (hd argv) (tl argv) fs w) (finish be (Some k)))
     else if hd argv \<in> set offline_args then
       call (dispatch host (io_of be HID) blank_handle ps (hd argv) (tl argv) fs w) (finish be None)
     else
       call (connect be sw ps w) (\<lambda>c w.
       case c of
         None \<Rightarrow>
           ret (Exit (err_code ERR_COMM), fs)
             (puts retry (puts ''EV3 not found. Either plug it into the USB port or pair over Bluetooth.\<newline>'' w))
       | Some (k, h) \<Rightarrow>
           call (dispatch host (io_of be k) h ps (hd argv) (tl argv) fs w) (finish be (Some k))))"

definition ev3duder :: "'d host \<Rightarrow> string list \<Rightarrow> fsys \<Rightarrow> 'd world \<Rightarrow> (exit_status \<times> fsys, 'd) run" where
  "ev3duder host argv fs w =
    (case print_switch (build_of host) argv w of
       Some w \<Rightarrow> ret (Exit (err_code ERR_UNK), fs) w
     | None \<Rightarrow>
       (case parse_switches argv no_switches no_params of
          None \<Rightarrow> undef w
        | Some (Inl msg) \<Rightarrow> ret (Exit (err_code ERR_ARG), fs) (put_err (bytes msg) w)
        | Some (Inr (sw, ps, argv)) \<Rightarrow>
          if argv = [] then ret (Exit (err_code ERR_ARG), fs) (puts usage_desc (puts usage w))
          else main_command host sw ps argv fs w))"

section \<open>Exit codes\<close>

text \<open>\<open>returns P m\<close>: what the run returns, if it does, satisfies \<open>P\<close>.\<close>

definition returns :: "('a \<Rightarrow> bool) \<Rightarrow> ('a, 'd) run \<Rightarrow> bool" where
  "returns P m \<longleftrightarrow> (\<forall>a w. m = ret a w \<longrightarrow> P a)"

lemma returns_ret [simp]: "returns P (ret a w) \<longleftrightarrow> P a" "returns P (undef w)" "returns P None"
  by (simp_all add: returns_def)

lemma returns_call: "(\<And>a w. returns Q (k a w)) \<Longrightarrow> returns Q (call m k)"
  by (auto simp: returns_def elim!: call_RetE)

lemma returns_call2: "returns P m \<Longrightarrow> (\<And>a w. P a \<Longrightarrow> returns Q (k a w)) \<Longrightarrow> returns Q (call m k)"
  unfolding returns_def by (blast elim!: call_RetE)

definition exit_code :: "int \<Rightarrow> bool" where
  "exit_code r \<longleftrightarrow> r \<in> range err_code"

lemma exit_code_err [simp]: "exit_code (err_code e)"
  by (simp add: exit_code_def)

lemma exit_code_bounds: "exit_code r \<Longrightarrow> 0 \<le> r \<and> r \<le> 9"
proof -
  have "0 \<le> err_code e \<and> err_code e \<le> 9" for e by (cases e) simp_all
  then show "exit_code r \<Longrightarrow> ?thesis" by (auto simp: exit_code_def)
qed

definition leaves_ok :: "leaving \<times> fsys \<Rightarrow> bool" where
  "leaves_ok l \<longleftrightarrow> (case fst l of Break r \<Rightarrow> exit_code r | Return r \<Rightarrow> exit_code r | _ \<Rightarrow> True)"

lemma leaves_ok_simps [simp]:
  "leaves_ok (Break r, fs) = exit_code r" "leaves_ok (Return r, fs) = exit_code r"
  "leaves_ok (Failed, fs)" "leaves_ok (Abort, fs)"
  by (simp_all add: leaves_ok_def)

lemma Breaks_ok: "returns leaves_ok (Breaks fs m)"
  unfolding Breaks_def by (rule returns_call) simp


lemma uf2_file_result:
  assumes "loop (uf2_file_turn block name st n mp nc) s w = ret (r, out) w'" and "0 \<le> fst (snd (snd s))"
  shows "0 \<le> r \<or> r = - err_code ERR_IO"
proof -
  have "0 \<le> fst (r, out) \<or> fst (r, out) = - err_code ERR_IO"
    by (rule loop_invariant [where I = "\<lambda>s _. 0 \<le> fst (snd (snd s))" and Q = "\<lambda>a _. 0 \<le> fst a \<or> fst a = - err_code ERR_IO",
          OF assms])
       (auto simp: uf2_file_turn_def Let_def split: prod.splits if_splits)
  then show ?thesis by simp
qed

lemma uf2_from_result:
  "uf2_write_from fs destdir st files blks dst w = ret (r, out) w' \<Longrightarrow> 0 \<le> blks \<Longrightarrow> 0 \<le> r \<or> r = - err_code ERR_IO"
proof (induction files arbitrary: blks dst w)
  case Nil
  then show ?case by (simp add: uf2_fixup_block_count_def)
next
  case (Cons f files)
  show ?case
  proof (cases "os_fopen_rb fs f")
    case None
    then show ?thesis using Cons.prems(1) by simp
  next
    case (Some bs)
    obtain r1 out1 w1 where 1: "uf2_write_file dst (open_rb bs) (take UF2_FILENAME_MAX (destdir @ ''/'' @ uf2_basename f False))
        blks (int (fsize (open_rb bs))) w = ret (r1, out1) w1"
      and rest: "(if r1 < 0 then ret (r1, out1) w1 else uf2_write_from fs destdir st files (blks + r1) out1 w1) = ret (r, out) w'"
      using Cons.prems(1) Some by (auto simp: Let_def elim!: call_RetE)
    have "0 \<le> r1 \<or> r1 = - err_code ERR_IO" using 1 unfolding uf2_write_file_def Let_def by (rule uf2_file_result) simp
    then show ?thesis using rest Cons.IH [of "blks + r1" out1 w1] Cons.prems(2) by (auto split: if_splits)
  qed
qed

lemma pack_ok: "returns (\<lambda>(r, _). exit_code r) (uf2_pack se fs dst brickdir files w)"
proof -
  have "exit_code r" if run: "uf2_pack se fs dst brickdir files w = ret (r, out) w'" for r out w'
  proof -
    obtain blocks d w1 where 1: "uf2_write_all fs dst (if length brickdir = 0 then ''Projects'' else brickdir) files w = ret (blocks, d) w1"
      and r: "r = (if blocks < 0 then - blocks else err_code ERR_UNK)"
      using run unfolding uf2_pack_def Let_def by (auto elim!: call_RetE split: if_splits)
    have "0 \<le> blocks \<or> blocks = - err_code ERR_IO"
      using 1 unfolding uf2_write_all_def Let_def by (rule uf2_from_result) simp
    then show ?thesis unfolding r by (metis add.inverse_inverse exit_code_err linorder_not_less)
  qed
  then show ?thesis by (auto simp: returns_def)
qed

lemma dispatch_ok: "returns leaves_ok (dispatch host io h ps name argv fs w)"
proof -
  have 1: "returns leaves_ok (cmd_up io argv fs w)" "returns leaves_ok (cmd_ls io argv fs w)"
    "returns leaves_ok (cmd_run io ps argv fs w)" "returns leaves_ok (cmd_mkdir io argv fs w)"
    "returns leaves_ok (cmd_rm io argv fs w)" "returns leaves_ok (cmd_closehnd io argv fs w)"
    "returns leaves_ok (cmd_mkrbf argv fs w)"
    by (simp_all add: cmd_up_def cmd_ls_def cmd_run_def cmd_mkdir_def cmd_rm_def cmd_closehnd_def cmd_mkrbf_def Breaks_ok Let_def
        split: list.split option.split prod.split del: err_code.simps)
  have 2: "returns leaves_ok (cmd_dl io argv fs w)" "returns leaves_ok (cmd_bridge host io fs w)"
    by (auto simp: cmd_dl_def cmd_bridge_def Let_def split: list.split option.split prod.split intro!: returns_call simp del: err_code.simps)
  have 3: "returns leaves_ok (cmd_vmexec host io argv fs w)"
    by (auto simp: cmd_vmexec_def vmexec_files_def Let_def split: list.split option.split prod.split intro!: returns_call simp del: err_code.simps)
  have 4: "returns leaves_ok (cmd_exec host io ps argv fs w)" "returns leaves_ok (cmd_flash host io argv fs w)"
    by (auto simp: cmd_exec_def cmd_flash_def Breaks_ok split: list.split option.split prod.split intro!: returns_call simp del: err_code.simps)
  have 5: "returns leaves_ok (cmd_uf2 host argv fs w)"
    by (auto simp: cmd_uf2_def split: list.split option.split prod.split intro!: returns_call returns_call2 [OF pack_ok] simp del: err_code.simps)
  show ?thesis unfolding dispatch_def
    by (auto simp: 1 2 3 4 5 Breaks_ok split: list.split simp del: err_code.simps)
qed

lemma finish_ok: "leaves_ok l \<Longrightarrow> returns (\<lambda>(s, _). case s of Exit r \<Rightarrow> exit_code r | Killed \<Rightarrow> True) (finish be kind l w)"
  by (auto simp: finish_def leaves_ok_def split: prod.split leaving.splits intro!: returns_call simp del: err_code.simps)

text \<open>However the program is called, its exit status is one of the ten error codes, when it ends by itself.\<close>

lemma exit_status_range:
  assumes "ev3duder host argv fs w = Some (Ret (Exit r, fs'), w')"
  shows "r \<in> range err_code \<and> 0 \<le> r \<and> r \<le> 9"
proof -
  let ?R = "\<lambda>(s :: exit_status, _ :: fsys). case s of Exit r \<Rightarrow> exit_code r | Killed \<Rightarrow> True"
  have run: "returns ?R (call (dispatch host io h ps name argv fs w) (finish be kind))" for io h ps name argv fs w be kind
    by (rule returns_call2 [OF dispatch_ok finish_ok])
  have "returns ?R (main_command host sw ps argv fs w)" for sw ps argv w
    unfolding main_command_def Let_def by (auto intro!: returns_call run split: option.split simp del: err_code.simps)
  then have "returns ?R (ev3duder host argv fs w)"
    unfolding ev3duder_def by (auto split: option.split sum.split simp del: err_code.simps)
  then have "exit_code r" using assms by (auto simp: returns_def)
  then show ?thesis using exit_code_bounds by (simp add: exit_code_def)
qed


section \<open>Commands that need no brick\<close>

lemma main_runs:
  assumes "parse_switches argv no_switches no_params = Some (Inr (sw, ps, a # rest))" and "a \<noteq> ''/?''"
  shows "ev3duder host argv fs w = main_command host sw ps (a # rest) fs w"
proof -
  have "print_switch (build_of host) argv w = None"
  proof (rule ccontr)
    assume "print_switch (build_of host) argv w \<noteq> None"
    then have "argv \<in> {[''-h''], [''--help''], [''/?''], [''--printexits''], [''--version'']}"
      by (auto simp: print_switch_def split: list.splits if_splits)
    then show False using assms(1,2) by (auto split: sum.splits prod.splits)
  qed
  then show ?thesis by (simp add: ev3duder_def assms(1))
qed

lemma switches_none: "take 1 a \<noteq> ''-'' \<Longrightarrow> parse_switches (a # argv) sw ps = Some (Inr (sw, ps, a # argv))"
  by simp

text \<open>
  \<^verbatim>\<open>mkrbf\<close> and \<^verbatim>\<open>uf2\<close> only work on local files, but the list that should say so has the two names run
  together: without a brick in reach both fail as a lost connection, and no file changes.
\<close>

theorem offline_commands_need_brick:
  assumes "name = ''mkrbf'' \<or> name = ''uf2''"
    and "hid_open (backends_of host) ProductID (dev w) = (False, d1)"
    and "bt_opens (backends_of host) None None d1 = (False, d2)"
    and "\<And>w. dev w = d2 \<Longrightarrow> \<exists>w'. tcp_opens (backends_of host) None 0 w = ret None w'"
  shows "\<exists>w'. ev3duder host (name # argv) fs w = ret (Exit (err_code ERR_COMM), fs) w'"
proof -
  have "parse_switches (name # argv) no_switches no_params = Some (Inr (no_switches, no_params, name # argv))"
    using assms(1) by (intro switches_none) auto
  then have "ev3duder host (name # argv) fs w = main_command host no_switches no_params (name # argv) fs w"
    using assms(1) by (intro main_runs) auto
  moreover have "\<not> is_fw (name # argv)" "name \<notin> set offline_args"
    using assms(1) by (auto simp: is_fw_def offline_args_def)
  moreover obtain w1 where "tcp_opens (backends_of host) None 0 (w\<lparr>dev := d2\<rparr>) = ret None w1"
    using assms(4) [of "w\<lparr>dev := d2\<rparr>"] by auto
  ultimately show ?thesis
    using assms(2,3) by (simp add: main_command_def connect_def try_serial_def try_tcp_def no_switches_def no_params_def)
qed

section \<open>From the local file to the brick\<close>

lemma call_ret_iff: "call m k = ret b w' \<longleftrightarrow> (\<exists>a w1. m = ret a w1 \<and> k a w1 = ret b w')"
  by (auto elim!: call_RetE)

lemma finish_keeps:
  assumes "finish be kind (l, fs) w = ret (Exit 0, fs') w'" and "\<And>r. l = Return r \<Longrightarrow> r \<noteq> 0"
  shows "l = Break 0 \<and> fs' = fs \<and> trace w' = trace w \<and> received w' = received w"
proof (cases l)
  case (Break r)
  then have "r = 0" using assms(1) by (auto simp: finish_def call_ret_iff)
  then show ?thesis using assms(1) Break
    by (auto simp: finish_def call_ret_iff report_def close_handle_def Let_def split: option.splits)
qed (use assms in \<open>auto simp: finish_def\<close>)

text \<open>
  C5: \<^verbatim>\<open>ev3duder up file name\<close>, after any switches, ends with status 0 only if the local file exists, a
  transport was opened, and all bytes of the file went out over it as \<open>up\<close> sends them: the size and the
  name, then the chunks in order, each under the handle of the reply before it. No local file changes.
\<close>

theorem up_command_delivers:
  assumes "ev3duder host argv fs w = Some (Ret (Exit 0, fs'), w')"
    and "parse_switches argv no_switches no_params = Some (Inr (sw, ps, [''up'', file, name]))"
    and "length name < 65523"
  shows "fs' = fs \<and> (\<exists>data k h wc b bs. os_fopen_rb fs file = Some data
    \<and> connect (backends_of host) sw ps w = ret (Some (k, h)) wc
    \<and> length bs = length (pieces 1000 data)
    \<and> trace w' = trace wc @ [Wr (begin_frame (length data) name), Rd 8 2000]
        @ chunk_events (handles_used (overlay (uninit wc 8) b) bs) (pieces 1000 data))"
proof -
  have off: "''up'' \<notin> set offline_args" "\<not> is_fw [''up'', file, name]" by (simp_all add: offline_args_def is_fw_def)
  have "main_command host sw ps [''up'', file, name] fs w = ret (Exit 0, fs') w'"
    using assms(1) by (simp add: main_runs [OF assms(2)])
  then obtain k h wc where c: "connect (backends_of host) sw ps w = ret (Some (k, h)) wc"
    and run: "call (cmd_up (io_of (backends_of host) k) [file, name] fs wc) (finish (backends_of host) (Some k)) = ret (Exit 0, fs') w'"
    using off by (auto simp: main_command_def dispatch_def Let_def call_ret_iff split: option.splits)
  obtain l fs1 w1 where l: "cmd_up (io_of (backends_of host) k) [file, name] fs wc = ret (l, fs1) w1"
    and f: "finish (backends_of host) (Some k) (l, fs1) w1 = ret (Exit 0, fs') w'"
    using run by (auto simp: call_ret_iff)
  obtain data where d: "os_fopen_rb fs file = Some data"
    using l f by (cases "os_fopen_rb fs file") (auto simp: cmd_up_def finish_def)
  then obtain e where u: "up (io_of (backends_of host) k) (open_rb data) name wc = ret e w1" "l = Break (err_code e)" "fs1 = fs"
    using l by (auto simp: cmd_up_def Breaks_def call_ret_iff)
  have k: "l = Break 0 \<and> fs' = fs1 \<and> trace w' = trace w1 \<and> received w' = received w1"
    by (rule finish_keeps [OF f]) (simp add: u)
  then have "e = ERR_UNK" using u(2) by (cases e) auto
  from up_ok [OF u(1) [unfolded this] assms(3)] k u(3) d c show ?thesis
    by (auto simp: open_rb_def fsize_def)
qed


section \<open>How a command ends\<close>

text \<open>The line that \<^verbatim>\<open>main\<close> prints about a result, for each kind of result; \<open>t\<close> is the error text of the transport.\<close>

definition verdict_line :: "ERR \<Rightarrow> string option \<Rightarrow> int \<Rightarrow> string option \<Rightarrow> string" where
  "verdict_line e msg n t =
    (let text = (case msg of None \<Rightarrow> ''-'' | Some m \<Rightarrow> m)
     in if e = ERR_COMM then text @ '' ('' @ (case t of None \<Rightarrow> ''-'' | Some x \<Rightarrow> x) @ '')\<newline>''
        else if e = ERR_VM then
          (if n = 13 then ''-'' else if n \<ge> 14 then ''An unknown error occured'' else the (ev3_error_msgs ! nat n)) @ '' ('' @ text @ '')\<newline>''
        else case msg of None \<Rightarrow> [] | Some m \<Rightarrow> m @ ''\<newline>'')"

lemma error_msg_known: "0 \<le> n \<Longrightarrow> n < 13 \<Longrightarrow> \<exists>d. ev3_error_msgs ! nat n = Some d"
proof -
  assume "0 \<le> n" "n < 13"
  then have "nat n < 13" by simp
  moreover have "list_all (\<lambda>i. ev3_error_msgs ! i \<noteq> None) [0..<13]" by code_simp
  ultimately show ?thesis by (simp add: list_all_iff)
qed

lemma dispatch_plain:
  "dispatch host io h ps ''mkdir'' [a] fs w = Breaks fs (mkdir io a w)"
  "dispatch host io h ps ''rm'' [a] fs w = Breaks fs (rm io a w)"
  "dispatch host io h ps ''ls'' [a] fs w = Breaks fs (ls io a w)"
  "dispatch host io h ps ''run'' [a] fs w = Breaks fs (VmExec.run io a (unat (timeout ps)) w)"
  by (simp_all add: dispatch_def args_def cmd_mkdir_def cmd_rm_def cmd_ls_def cmd_run_def)

lemma Breaks_ret: "Breaks fs (ret e w) = ret (Break (err_code e), fs) w"
  by (simp add: Breaks_def)

lemma report_line:
  fixes be :: "'d backends" and k :: transport_kind and w :: "'d world"
  assumes "e = ERR_VM \<Longrightarrow> 0 \<le> errno w" and "e \<noteq> ERR_USBLOOP"
  defines "line \<equiv> bytes (verdict_line e (errmsg w) (errno w) (error_of be k (dev w)))"
  shows "\<exists>w'. report be (Some k) (err_code e) w = ret () w' \<and> trace w' = trace w \<and> dev w' = dev w
    \<and> stdout_log w' = stdout_log w @ (if e = ERR_UNK then [] else line)
    \<and> stderr_log w' = stderr_log w @ (if e = ERR_UNK then line else [])"
proof (cases e)
  case ERR_VM
  have m: "length ev3_error_msgs = 14" "ev3_error_msgs ! 13 = None" by code_simp+
  have n: "0 \<le> errno w" using assms(1) ERR_VM by simp
  then consider "errno w < 13" "\<exists>d. ev3_error_msgs ! nat (errno w) = Some d" | "errno w = 13" | "14 \<le> errno w"
    using error_msg_known [OF n] by force
  then show ?thesis
    by cases (use ERR_VM m n in \<open>auto simp: report_def Let_def line_def verdict_line_def bytes_def split: option.split\<close>)
qed (use assms in \<open>auto simp: report_def Let_def line_def verdict_line_def bytes_def split: option.split\<close>)

text \<open>
  C8: How the program ends after a command that asks the brick for one thing (\<^verbatim>\<open>mkdir\<close>, \<^verbatim>\<open>rm\<close>, \<^verbatim>\<open>ls\<close> or \<^verbatim>\<open>run\<close> with its
  argument, after any switches): the result of the function for the command is the exit status, which is 0 for
  success only; the transport is closed and nothing more is sent. A success prints its message on the standard error,
  every failure on the standard output: a failure of the transport with the text of the transport in brackets, a
  refusal by the brick as the description of the status it returned with the message in brackets. The conditions:
  the status of a refusal is not negative, as it is a byte of the reply, and the result is not the one for a packet
  that was looped back, for which a fixed text is printed.
\<close>

theorem command_result_reported:
  assumes "parse_switches argv no_switches no_params = Some (Inr (sw, ps, [name, a]))"
    and "connect (backends_of host) sw ps w = ret (Some (k, h)) wc"
    and "name = ''mkdir'' \<and> mkdir (io_of (backends_of host) k) a wc = ret e w1
      \<or> name = ''rm'' \<and> rm (io_of (backends_of host) k) a wc = ret e w1
      \<or> name = ''ls'' \<and> ls (io_of (backends_of host) k) a wc = ret e w1
      \<or> name = ''run'' \<and> VmExec.run (io_of (backends_of host) k) a (unat (timeout ps)) wc = ret e w1"
    and "e = ERR_VM \<Longrightarrow> 0 \<le> errno w1" and "e \<noteq> ERR_USBLOOP"
  shows "\<exists>r w'. ev3duder host argv fs w = ret (Exit r, fs) w' \<and> r = err_code e \<and> (r = 0 \<longleftrightarrow> e = ERR_UNK)
    \<and> trace w' = trace w1 \<and> dev w' = close_of (backends_of host) k (dev w1)
    \<and> (let line = bytes (verdict_line e (errmsg w1) (errno w1) (error_of (backends_of host) k (dev w1)))
       in stdout_log w' = stdout_log w1 @ (if e = ERR_UNK then [] else line)
        \<and> stderr_log w' = stderr_log w1 @ (if e = ERR_UNK then line else []))"
proof -
  have name: "name \<noteq> ''/?''" "name \<notin> set offline_args" "\<not> is_fw [name, a]"
    using assms(3) by (auto simp: offline_args_def is_fw_def)
  have "dispatch host (io_of (backends_of host) k) h ps name [a] fs wc = ret (Break (err_code e), fs) w1"
    using assms(3) by (elim disjE conjE) (simp_all only: dispatch_plain Breaks_ret)
  then have "ev3duder host argv fs w = finish (backends_of host) (Some k) (Break (err_code e), fs) w1"
    using name assms(2) by (simp add: main_runs [OF assms(1) name(1)] main_command_def Let_def)
  moreover obtain w2 where w2: "report (backends_of host) (Some k) (err_code e) w1 = ret () w2" "trace w2 = trace w1" "dev w2 = dev w1"
      "stdout_log w2 = stdout_log w1 @ (if e = ERR_UNK then [] else bytes (verdict_line e (errmsg w1) (errno w1) (error_of (backends_of host) k (dev w1))))"
      "stderr_log w2 = stderr_log w1 @ (if e = ERR_UNK then bytes (verdict_line e (errmsg w1) (errno w1) (error_of (backends_of host) k (dev w1))) else [])"
    using report_line [OF assms(4,5), of "backends_of host" k] by blast
  ultimately have "ev3duder host argv fs w = ret (Exit (err_code e), fs) (close_handle (backends_of host) (Some k) w2)"
    by (simp add: finish_def)
  moreover have "err_code e = 0 \<longleftrightarrow> e = ERR_UNK" by (cases e) simp_all
  ultimately show ?thesis using w2(2-) by (simp add: close_handle_def Let_def)
qed

text \<open>
  When the file for the results of \<^verbatim>\<open>vmexec\<close> cannot be opened, the program notices nothing: it runs
  the bytecode as if no file had been asked for and ends with status 0; the results are gone.
\<close>

theorem vmexec_output_lost:
  assumes "connect (backends_of host) no_switches no_params w = ret (Some (k, h)) wc"
    and "strtol l = Some locals" and "strtol g = Some globals"
    and "infile \<noteq> ''-''" and "os_fopen_rb fs infile = Some code"
    and "outfile \<noteq> ''-''" and "os_open_creat fs outfile = (Inl e, fs)"
    and "vmexec (io_of (backends_of host) k) (open_rb code) OutNull (to_int locals) (to_int globals) True wc = ret (ERR_UNK, ob) w1"
  shows "\<exists>w'. ev3duder host [''vmexec'', l, g, infile, outfile] fs w = ret (Exit 0, fs) w' \<and> trace w' = trace w1"
proof -
  have out: "fopen_wb fs outfile = (None, fs)" using assms(7) by (simp add: fopen_wb_def)
  have files: "vmexec_files host (io_of (backends_of host) k) (to_int locals) (to_int globals) infile outfile None fs wc
      = ret (Break 0, fs) w1"
    using assms(4-6,8) out by (cases "outfile = ''none''") (simp_all add: vmexec_files_def)
  have "dispatch host (io_of (backends_of host) k) h no_params ''vmexec'' [l, g, infile, outfile] fs wc = ret (Break 0, fs) w1"
    using assms(2,3) files by (simp add: dispatch_def args_def cmd_vmexec_def no_params_def)
  moreover have "ev3duder host [''vmexec'', l, g, infile, outfile] fs w
      = main_command host no_switches no_params [''vmexec'', l, g, infile, outfile] fs w"
    by (intro main_runs switches_none) simp_all
  moreover have "\<exists>w'. finish (backends_of host) (Some k) (Break 0, fs) w1 = ret (Exit 0, fs) w' \<and> trace w' = trace w1"
    by (simp add: finish_def report_def close_handle_def split: option.split)
  moreover have "\<not> is_fw [''vmexec'', l, g, infile, outfile]" "''vmexec'' \<notin> set offline_args"
    by (simp_all add: is_fw_def offline_args_def)
  ultimately show ?thesis using assms(1) by (auto simp: main_command_def Let_def)
qed


section \<open>Instances\<close>

text \<open>A computer with a brick on USB, whose replies are scripted, or with none; and a disk with one file.\<close>

definition desk :: "bool \<Rightarrow> u8 list list host" where
  "desk plugged = \<lparr>
    backends_of = \<lparr>hid_open = (\<lambda>p d. (plugged \<and> p = ProductID, d)), bt_opens = (\<lambda>a b d. (False, d)),
      tcp_opens = (\<lambda>s t w. ret None w), io_of = (\<lambda>k. scripted), error_of = (\<lambda>k d. None), close_of = (\<lambda>k d. d)\<rparr>,
    usb_of = \<lparr>manufacturer_string = (\<lambda>d. []), product_string = (\<lambda>d. []), serial_string = (\<lambda>d. []), release = ''6.1''\<rparr>,
    sockets_of = \<lparr>b_time = (\<lambda>_. 0), b_udp_socket = (\<lambda>d. (- 1, d)), b_set_broadcast = (\<lambda>fd d. (0, d)),
      b_sendto = (\<lambda>fd bs d. (- 1, d)), b_tcp_socket = (\<lambda>d. (- 1, d)), b_bind = (\<lambda>fd d. (- 1, d)),
      b_listen = (\<lambda>fd d. (- 1, d)), b_accept = (\<lambda>fd d. (- 1, d)), b_select = (\<lambda>fd wr d. ((False, False), d)),
      b_read = (\<lambda>fd n d. (0, [], d)), b_write = (\<lambda>fd bs d. (- 1, d)), b_shutdown = (\<lambda>fd d. (0, d)), b_close = (\<lambda>fd d. d)\<rparr>,
    build_of = \<lparr>argv0 = ''ev3duder'', CONFIGURATION = ''HIDAPI/hidraw'', SYSTEM = ''Linux'', VERSION = ''0.4.0''\<rparr>,
    versions_of = (\<lambda>_. ''''), strerror_of = (\<lambda>_. ''''), stdin_of = open_rb [], tmpfile_ok = True\<rparr>"

definition one_file :: "u8 list \<Rightarrow> fsys" where
  "one_file bs = \<lparr>tree = [[''f''] \<mapsto> Regular bs], cwd = [], locked = (\<lambda>q. q = [])\<rparr>"

lemma one_file_open: "os_fopen_rb (one_file bs) ''f'' = Some bs" "os_open_creat (one_file bs) ''out'' = (Inl EACCES, one_file bs)"
  by (simp_all add: os_fopen_rb_def os_open_creat_def locate_def origin_def one_file_def dot_name_def)

lemma desk_connect:
  "connect (backends_of (desk True)) \<lparr>select = True, hid = True, serial = False, tcp = False\<rparr> ps (world0 rs)
    = ret (Some (HID, blank_handle)) (world0 rs)"
  by (simp add: connect_def desk_def world0_def)

theorem command_result_reported_witness:
  "\<exists>w'. ev3duder (desk True) [''--usb'', ''mkdir'', ''a''] (one_file []) (world0 [[5, 0, 0, 0, 5, 0x9B, 7]])
      = ret (Exit 6, one_file []) w' \<and> stdout_log w' = bytes (''FILE_EXITS (`CREATE_DIR` was denied.)\<newline>'')"
proof -
  let ?w = "world0 [[5, 0, 0, 0, 5, 0x9B, 7]] :: u8 list list world"
  have p: "parse_switches [''--usb'', ''mkdir'', ''a''] no_switches no_params
      = Some (Inr (\<lparr>select = True, hid = True, serial = False, tcp = False\<rparr>, no_params, [''mkdir'', ''a'']))"
    by code_simp
  have "\<exists>w1. mkdir scripted ''a'' ?w = ret ERR_VM w1 \<and> errno w1 = 7 \<and> errmsg w1 = Some ''`CREATE_DIR` was denied.'' \<and> stdout_log w1 = []"
    by (simp add: mkdir_def packet_alloc_def sizeof_commands wire_len_def CREATE_DIR_INIT_def ev3_write_def ev3_read_timeout_def
        mem_defs mem_command_def mem_packet_def print_bytes_def as_SYSTEM_REPLY_def VM_ERROR_def sizeof_SYSTEM_REPLY_def get16_def Let_def)
  then obtain w1 where m: "mkdir scripted ''a'' ?w = ret ERR_VM w1" "errno w1 = 7" "errmsg w1 = Some ''`CREATE_DIR` was denied.''" "stdout_log w1 = []"
    by blast
  have io: "io_of (backends_of (desk True)) k = scripted" for k by (simp add: desk_def)
  have "verdict_line ERR_VM (Some ''`CREATE_DIR` was denied.'') 7 None = ''FILE_EXITS (`CREATE_DIR` was denied.)\<newline>''" by code_simp
  moreover have "mkdir (io_of (backends_of (desk True)) HID) ''a'' ?w = ret ERR_VM w1" using m(1) by (simp only: io)
  ultimately show ?thesis
    using command_result_reported [OF p desk_connect, where e = ERR_VM and ?w1.0 = w1 and fs = "one_file []"] m(2-4) by (auto simp: desk_def)
qed

theorem offline_commands_need_brick_witness:
  "\<exists>w'. ev3duder (desk False) [''mkrbf'', ''echo'', ''f''] (one_file []) (world0 []) = ret (Exit (err_code ERR_COMM), one_file []) w'"
  by (rule offline_commands_need_brick) (simp_all add: desk_def)

theorem up_command_delivers_witness:
  "\<exists>w' (wc :: u8 list list world) b bs. ev3duder (desk True) [''--usb'', ''up'', ''f'', ''g''] (one_file [1, 2, 3])
      (world0 [[6, 0, 0, 0, 3, 0x92, 0, 4], [6, 0, 0, 0, 3, 0x93, 8, 4]]) = ret (Exit 0, one_file [1, 2, 3]) w'
    \<and> trace w' = trace wc @ [Wr (begin_frame 3 ''g''), Rd 8 2000]
        @ chunk_events (handles_used (overlay (uninit wc 8) b) bs) (pieces 1000 [1, 2, 3])"
proof -
  let ?w = "world0 [[6, 0, 0, 0, 3, 0x92, 0, 4], [6, 0, 0, 0, 3, 0x93, 8, 4]] :: u8 list list world"
  let ?argv = "[''--usb'', ''up'', ''f'', ''g'']"
  have p: "parse_switches ?argv no_switches no_params
      = Some (Inr (\<lparr>select = True, hid = True, serial = False, tcp = False\<rparr>, no_params, [''up'', ''f'', ''g'']))"
    by code_simp
  have one: "pieces 1000 [1, 2, 3 :: u8] = [[1, 2, 3]]" by (simp add: pieces_step)
  have "\<exists>w'. up scripted (open_rb [1, 2, 3]) ''g'' ?w = Some (Ret ERR_UNK, w')"
    by (rule up_scripted) (auto simp: open_rb_def fsize_def one VM_ERROR_def)
  then obtain w1 where u: "up scripted (open_rb [1, 2, 3]) ''g'' ?w = Some (Ret ERR_UNK, w1)" by blast
  have io: "io_of (backends_of (desk True)) k = scripted" for k by (simp add: desk_def)
  have "\<exists>w'. ev3duder (desk True) ?argv (one_file [1, 2, 3]) ?w = ret (Exit 0, one_file [1, 2, 3]) w'"
    by (simp add: main_runs [OF p] main_command_def is_fw_def offline_args_def desk_connect dispatch_def
        cmd_up_def one_file_open Breaks_def u io finish_def report_def Let_def split: option.split)
  then obtain w' where r: "ev3duder (desk True) ?argv (one_file [1, 2, 3]) ?w = ret (Exit 0, one_file [1, 2, 3]) w'" by blast
  have name: "length ''g'' < 65523" by simp
  from up_command_delivers [OF r p name] obtain data b bs and wc :: "u8 list list world" where "os_fopen_rb (one_file [1, 2, 3]) ''f'' = Some data"
    and "trace w' = trace wc @ [Wr (begin_frame (length data) ''g''), Rd 8 2000]
        @ chunk_events (handles_used (overlay (uninit wc 8) b) bs) (pieces 1000 data)"
    by blast
  moreover from this(1) have d: "data = [1, 2, 3]" by (simp add: one_file_open)
  moreover have "length data = 3" unfolding d by simp
  ultimately show ?thesis using r by metis
qed

theorem vmexec_output_lost_witness:
  "\<exists>w'. ev3duder (desk True) [''vmexec'', ''0'', ''2'', ''f'', ''out''] (one_file [1]) (world0 [[5, 0, 0, 0, 2, 7, 8]])
    = ret (Exit 0, one_file [1]) w'"
proof -
  let ?w = "put_err (bytes ''USB connection established.\<newline>'') (world0 [[5, 0, 0, 0, 2, 7, 8]]) :: u8 list list world"
  have code: "length [1 :: u8] \<le> max_bytecodes" by (simp add: max_bytecodes_eq)
  have "\<exists>w1. vmexec scripted (open_rb [1]) OutNull 0 2 True ?w = ret (ERR_UNK, []) w1"
    by (simp add: vmexec_unfold [of "[1]" _ 0 _ 2] open_rb_def vm_globals_max_def
        ev3_write_fits [OF vm_wire(1) [OF code]] ev3_read_timeout_def vm_finish_def VM_DIRECT_OK_def)
  then obtain w1 where v: "vmexec scripted (open_rb [1]) OutNull 0 2 True ?w = ret (ERR_UNK, []) w1" by blast
  have num: "strtol ''0'' = Some 0" "strtol ''2'' = Some 2" "to_int 0 = 0" "to_int 2 = 2" by code_simp+
  have c: "connect (backends_of (desk True)) no_switches no_params (world0 [[5, 0, 0, 0, 2, 7, 8]]) = ret (Some (HID, blank_handle)) ?w"
    by (simp add: connect_def desk_def no_switches_def put_err_def world0_def)
  have io: "io_of (backends_of (desk True)) HID = scripted" by (simp add: desk_def)
  have "\<exists>w'. ev3duder (desk True) [''vmexec'', ''0'', ''2'', ''f'', ''out''] (one_file [1]) (world0 [[5, 0, 0, 0, 2, 7, 8]])
      = ret (Exit 0, one_file [1]) w' \<and> trace w' = trace w1"
    by (rule vmexec_output_lost [OF c num(1,2) _ one_file_open(1) _ one_file_open(2)]) (simp_all add: io num v)
  then show ?thesis by blast
qed

end
