(* ===== verification/Timers.thy ===== *)
theory Timers
  imports Prelude
begin

text \<open>
  The timers of the brick-side library, \<^verbatim>\<open>src/util/cat/ev3_timer.c\<close>, and \<^verbatim>\<open>Wait\<close> of
  \<^verbatim>\<open>ev3_command.c\<close>. The library is cross-compiled for the 32-bit ARM of the brick
  (\<^verbatim>\<open>src/util/cat/Makefile\<close>), where \<^verbatim>\<open>unsigned long\<close> has 32 bits and \<^verbatim>\<open>unsigned long long\<close> 64.
  What \<^verbatim>\<open>gettimeofday\<close> returns is an argument of the operations that ask for the time. A callback is
  a value of type \<open>'c\<close>; the signal handler yields the callbacks it calls, in order.
\<close>

type_synonym u64 = "64 word"

section \<open>The clock\<close>

record timeval =
  tv_sec :: int
  tv_usec :: nat

definition TimerGetUS :: "timeval \<Rightarrow> u64" where
  "TimerGetUS tv = word_of_int (tv_sec tv) * 1000000 + word_of_nat (tv_usec tv)"

definition TimerGetMS :: "timeval \<Rightarrow> u64" where
  "TimerGetMS tv = word_of_int (tv_sec tv) * 1000 + word_of_nat (tv_usec tv div 1000)"

definition TimerGetCS :: "timeval \<Rightarrow> u64" where
  "TimerGetCS tv = TimerGetMS tv div 10"

section \<open>The state\<close>

datatype TimerInterval = ti10ms | ti50ms | ti100ms | ti250ms | ti500ms | ti1sec

text \<open>
  The six callback arrays with their counts are the lists of the registered callbacks; \<open>counter\<close> is
  the static variable of the signal handler.
\<close>

record 'c timers =
  msTimers :: "u64 list"
  usTimers :: "u64 list"
  csTimers :: "u64 list"
  callBacks :: "TimerInterval \<Rightarrow> 'c list"
  counter :: u32

definition NUM_TIMERS :: nat where "NUM_TIMERS = 4"
definition MAX_CALLBACKS :: nat where "MAX_CALLBACKS = 4"

section \<open>Reading and setting the timers\<close>

definition FastTimer :: "'c timers \<Rightarrow> timeval \<Rightarrow> u8 \<Rightarrow> u32" where
  "FastTimer s now t =
    (if unat t < NUM_TIMERS then ucast (TimerGetCS now - csTimers s ! unat t) else 0)"

definition Timer :: "'c timers \<Rightarrow> timeval \<Rightarrow> u8 \<Rightarrow> u32" where
  "Timer s now t = FastTimer s now t div 10"

definition ClearTimer :: "'c timers \<Rightarrow> timeval \<Rightarrow> u8 \<Rightarrow> 'c timers" where
  "ClearTimer s now t =
    (if unat t < NUM_TIMERS then s\<lparr>csTimers := (csTimers s)[unat t := TimerGetCS now]\<rparr> else s)"

definition SetTimer :: "'c timers \<Rightarrow> timeval \<Rightarrow> u8 \<Rightarrow> u32 \<Rightarrow> 'c timers" where
  "SetTimer s now t v =
    (if unat t < NUM_TIMERS then s\<lparr>csTimers := (csTimers s)[unat t := TimerGetCS now - ucast v]\<rparr> else s)"

definition TimerMS :: "'c timers \<Rightarrow> timeval \<Rightarrow> u8 \<Rightarrow> u32" where
  "TimerMS s now t =
    (if unat t < NUM_TIMERS then ucast (TimerGetMS now - msTimers s ! unat t) else 0)"

definition ClearTimerMS :: "'c timers \<Rightarrow> timeval \<Rightarrow> u8 \<Rightarrow> 'c timers" where
  "ClearTimerMS s now t =
    (if unat t < NUM_TIMERS then s\<lparr>msTimers := (msTimers s)[unat t := TimerGetMS now]\<rparr> else s)"

definition SetTimerMS :: "'c timers \<Rightarrow> timeval \<Rightarrow> u8 \<Rightarrow> u32 \<Rightarrow> 'c timers" where
  "SetTimerMS s now t v =
    (if unat t < NUM_TIMERS then s\<lparr>msTimers := (msTimers s)[unat t := TimerGetMS now - ucast v]\<rparr> else s)"

definition TimerUS :: "'c timers \<Rightarrow> timeval \<Rightarrow> u8 \<Rightarrow> u32" where
  "TimerUS s now t =
    (if unat t < NUM_TIMERS then ucast (TimerGetUS now - usTimers s ! unat t) else 0)"

definition ClearTimerUS :: "'c timers \<Rightarrow> timeval \<Rightarrow> u8 \<Rightarrow> 'c timers" where
  "ClearTimerUS s now t =
    (if unat t < NUM_TIMERS then s\<lparr>usTimers := (usTimers s)[unat t := TimerGetUS now]\<rparr> else s)"

definition SetTimerUS :: "'c timers \<Rightarrow> timeval \<Rightarrow> u8 \<Rightarrow> u32 \<Rightarrow> 'c timers" where
  "SetTimerUS s now t v =
    (if unat t < NUM_TIMERS then s\<lparr>usTimers := (usTimers s)[unat t := TimerGetUS now - ucast v]\<rparr> else s)"

section \<open>Waiting\<close>

definition TimerWait :: "timeval \<Rightarrow> u32 \<Rightarrow> u32" where
  "TimerWait now time = ucast (TimerGetMS now + ucast time)"

text \<open>
  \<open>clock i\<close> is what the clock shows at the \<open>i\<close>-th look; \<open>Some i\<close> says that the loop ended after
  sleeping \<open>i\<close> times, \<open>None\<close> that it does not end.
\<close>

partial_function (option) TimerReady :: "(nat \<Rightarrow> timeval) \<Rightarrow> u32 \<Rightarrow> nat \<Rightarrow> nat option" where
  "TimerReady clock timer i =
    (if TimerGetMS (clock i) < ucast timer then TimerReady clock timer (Suc i) else Some i)"

text \<open>\<^verbatim>\<open>Wait\<close> sleeps again for what is left while a signal interrupts it; the script says what is left.\<close>

definition ms2ts :: "u32 \<Rightarrow> u32 \<times> u32" where
  "ms2ts ms = (ms div 1000, (ms mod 1000) * 1000000)"

fun Wait_from :: "u32 \<times> u32 \<Rightarrow> (u32 \<times> u32) list \<Rightarrow> (u32 \<times> u32) list" where
  "Wait_from delay [] = [delay]"
| "Wait_from delay (left # interrupts) = delay # Wait_from left interrupts"

definition Wait :: "u32 \<Rightarrow> (u32 \<times> u32) list \<Rightarrow> (u32 \<times> u32) list" where
  "Wait ms interrupts = Wait_from (ms2ts ms) interrupts"

section \<open>Callbacks\<close>

fun TIMER_PERIOD :: "TimerInterval \<Rightarrow> nat" where
  "TIMER_PERIOD ti10ms = 1"
| "TIMER_PERIOD ti50ms = 5"
| "TIMER_PERIOD ti100ms = 10"
| "TIMER_PERIOD ti250ms = 25"
| "TIMER_PERIOD ti500ms = 50"
| "TIMER_PERIOD ti1sec = 100"

definition intervals :: "TimerInterval list" where
  "intervals = [ti10ms, ti50ms, ti100ms, ti250ms, ti500ms, ti1sec]"

definition timerSigHandler :: "'c timers \<Rightarrow> 'c list \<times> 'c timers" where
  "timerSigHandler s =
    (concat (map (\<lambda>i. if counter s mod word_of_nat (TIMER_PERIOD i) = 0 then callBacks s i else []) intervals),
     s\<lparr>counter := counter s + 1\<rparr>)"

definition timerCallbackInit :: "'c timers \<Rightarrow> 'c timers" where
  "timerCallbackInit s = s\<lparr>callBacks := (\<lambda>_. [])\<rparr>"

text \<open>\<open>None\<close>: the store is behind the last element of the array of callbacks.\<close>

definition SetTimerCallback :: "'c timers \<Rightarrow> TimerInterval \<Rightarrow> 'c option \<Rightarrow> 'c timers option" where
  "SetTimerCallback s i callback =
    (case callback of
       None \<Rightarrow> Some s
     | Some f \<Rightarrow>
       if length (callBacks s i) < MAX_CALLBACKS
       then Some (s\<lparr>callBacks := (callBacks s)(i := callBacks s i @ [f])\<rparr>) else None)"

definition TimerInit :: "'c timers \<Rightarrow> timeval \<Rightarrow> 'c timers" where
  "TimerInit s now =
    (let usTick = TimerGetUS now; msTick = usTick div 1000; csTick = msTick div 10
     in timerCallbackInit (s\<lparr>usTimers := replicate NUM_TIMERS usTick,
          msTimers := replicate NUM_TIMERS msTick, csTimers := replicate NUM_TIMERS csTick\<rparr>))"

section \<open>The timers as stop watches\<close>

lemma take_bit_add_inner: "n \<le> m \<Longrightarrow> take_bit n (take_bit m x + take_bit m y) = take_bit n (x + y)" for x y :: int
  by (metis min.absorb1 take_bit_add take_bit_take_bit)

lemma ucast_add: "ucast (x + y :: u64) = (ucast x + ucast y :: u32)"
  by transfer (simp add: take_bit_add_inner)

lemma ucast_ucast_u32 [simp]: "ucast (ucast (v :: u32) :: u64) = v"
  by transfer simp

lemma ucast_elapsed: "ucast (a - (b - ucast (v :: u32)) :: u64) = v + (ucast (a - b) :: u32)"
proof -
  have "a - (b - ucast v) = ucast v + (a - b)" by simp
  then show ?thesis by (simp only: ucast_add ucast_ucast_u32)
qed

text \<open>The three kinds of timers obey one contract: reading after setting gives the value set plus the time gone by.\<close>

locale stop_watch =
  fixes read_timer :: "'s \<Rightarrow> timeval \<Rightarrow> u8 \<Rightarrow> u32"
    and set_timer :: "'s \<Rightarrow> timeval \<Rightarrow> u8 \<Rightarrow> u32 \<Rightarrow> 's"
    and clear_timer :: "'s \<Rightarrow> timeval \<Rightarrow> u8 \<Rightarrow> 's"
    and ticks :: "timeval \<Rightarrow> u64"
    and ok :: "'s \<Rightarrow> bool"
  assumes read_set: "ok s \<Longrightarrow> unat t < NUM_TIMERS \<Longrightarrow>
      read_timer (set_timer s t0 t v) now t = v + ucast (ticks now - ticks t0)"
    and read_other: "u \<noteq> t \<Longrightarrow> read_timer (set_timer s t0 t v) now u = read_timer s now u"
    and set_ok: "ok s \<Longrightarrow> ok (set_timer s t0 t v)"
    and clear_is_set: "clear_timer s t0 t = set_timer s t0 t 0"
begin

lemma read_cleared:
  "ok s \<Longrightarrow> unat t < NUM_TIMERS \<Longrightarrow> read_timer (clear_timer s t0 t) now t = ucast (ticks now - ticks t0)"
  by (simp add: clear_is_set read_set)

text \<open>Timers are independent of each other.\<close>

lemma read_interleaved:
  assumes "ok s" and "u \<noteq> t" and "unat t < NUM_TIMERS"
  shows "read_timer (clear_timer (set_timer (set_timer s t0 t v) t1 u v1) t2 u) now t = v + ucast (ticks now - ticks t0)"
  using assms by (simp add: set_ok read_set read_other clear_is_set)

end

definition timers_ok :: "'c timers \<Rightarrow> bool" where
  "timers_ok s \<longleftrightarrow> length (csTimers s) = NUM_TIMERS \<and> length (msTimers s) = NUM_TIMERS
     \<and> length (usTimers s) = NUM_TIMERS"

lemma other_timer [simp]: "u \<noteq> t \<Longrightarrow> xs[unat (t :: u8) := x] ! unat u = xs ! unat u"
  by (metis nth_list_update_neq unsigned_word_eqI)

interpretation cs: stop_watch FastTimer SetTimer ClearTimer TimerGetCS timers_ok
  by unfold_locales (simp_all add: FastTimer_def SetTimer_def ClearTimer_def timers_ok_def ucast_elapsed)

interpretation ms: stop_watch TimerMS SetTimerMS ClearTimerMS TimerGetMS timers_ok
  by unfold_locales (simp_all add: TimerMS_def SetTimerMS_def ClearTimerMS_def timers_ok_def ucast_elapsed)

interpretation us: stop_watch TimerUS SetTimerUS ClearTimerUS TimerGetUS timers_ok
  by unfold_locales (simp_all add: TimerUS_def SetTimerUS_def ClearTimerUS_def timers_ok_def ucast_elapsed)

lemma TimerInit_ok: "timers_ok (TimerInit s now)"
  by (simp add: TimerInit_def Let_def timers_ok_def timerCallbackInit_def)

section \<open>How often a callback runs\<close>

fun run_ticks :: "nat \<Rightarrow> 'c timers \<Rightarrow> 'c list" where
  "run_ticks 0 s = []"
| "run_ticks (Suc n) s = (let (calls, s') = timerSigHandler s in calls @ run_ticks n s')"

definition due :: "nat \<Rightarrow> nat \<Rightarrow> nat \<Rightarrow> nat" where
  "due p c n = length (filter (\<lambda>k. p dvd k) [c..<c + n])"

lemma due_Suc: "due p c (Suc n) = (if p dvd c then 1 else 0) + due p (Suc c) n"
  by (simp add: due_def upt_conv_Cons del: upt_Suc)

lemma due_end: "due p c (Suc n) = due p c n + (if p dvd (c + n) then 1 else 0)"
  by (simp add: due_def)

text \<open>Any hundred ticks in a row contain the same number of multiples of each period.\<close>

lemma due_eq: "0 < p \<Longrightarrow> due p c n + (c + p - 1) div p = (c + n + p - 1) div p"
proof (induction n)
  case 0
  then show ?case by (simp add: due_def)
next
  case (Suc n)
  have "(c + Suc n + p - 1) div p = (if p dvd (c + n) then 1 else 0) + (c + n + p - 1) div p"
    using Suc.prems div_Suc [of "c + n + p - 1" p] by (simp add: dvd_eq_mod_eq_0)
  then show ?case using Suc unfolding due_end by simp
qed

lemma due_periods: "0 < p \<Longrightarrow> due p c (p * k) = k"
  using due_eq [of p c "p * k"] div_mult_self2 [of p "c + p - 1" k] by (simp add: algebra_simps)

lemma TIMER_PERIOD_second: "\<exists>k. 100 = TIMER_PERIOD i * k" and TIMER_PERIOD_pos: "0 < TIMER_PERIOD i"
  by (cases i; simp; presburger) (cases i; simp)

lemma due_seconds: "due (TIMER_PERIOD i) c (100 * m) = 100 * m div TIMER_PERIOD i"
proof -
  obtain k where k: "100 * m = TIMER_PERIOD i * (k * m)"
    using TIMER_PERIOD_second [of i] by (metis mult.assoc)
  show ?thesis unfolding k using TIMER_PERIOD_pos [of i] by (simp add: due_periods)
qed

lemma period_word: "counter s mod word_of_nat (TIMER_PERIOD i) = 0 \<longleftrightarrow> TIMER_PERIOD i dvd unat (counter s)"
proof -
  have "unat (counter s mod word_of_nat (TIMER_PERIOD i)) = unat (counter s) mod TIMER_PERIOD i"
    by (cases i) (simp_all add: unat_mod_distrib)
  then show ?thesis by (metis dvd_eq_mod_eq_0 unsigned_0 unat_eq_zero)
qed

lemma count_handler:
  "count_list (fst (timerSigHandler s)) f
    = (\<Sum>i\<leftarrow>intervals. count_list (callBacks s i) f * (if TIMER_PERIOD i dvd unat (counter s) then 1 else 0))"
  by (simp add: timerSigHandler_def intervals_def period_word del: TIMER_PERIOD.simps)

lemma count_run_ticks:
  assumes "unat (counter s) + n < 2 ^ 32"
  shows "count_list (run_ticks n s) f
    = (\<Sum>i\<leftarrow>intervals. count_list (callBacks s i) f * due (TIMER_PERIOD i) (unat (counter s)) n)"
  using assms
proof (induction n arbitrary: s)
  case 0
  then show ?case by (simp add: due_def intervals_def)
next
  case (Suc n)
  have c: "unat (counter s + 1) = Suc (unat (counter s))"
    using Suc.prems by (simp add: unat_word_ariths)
  have "count_list (run_ticks n (s\<lparr>counter := counter s + 1\<rparr>)) f
    = (\<Sum>i\<leftarrow>intervals. count_list (callBacks s i) f * due (TIMER_PERIOD i) (Suc (unat (counter s))) n)"
    using Suc.IH [of "s\<lparr>counter := counter s + 1\<rparr>"] Suc.prems c by simp
  moreover have "run_ticks (Suc n) s = fst (timerSigHandler s) @ run_ticks n (s\<lparr>counter := counter s + 1\<rparr>)"
    by (simp add: timerSigHandler_def)
  ultimately show ?case
    by (simp add: count_handler intervals_def due_Suc algebra_simps del: TIMER_PERIOD.simps)
qed

text \<open>
  C32: The signal handler, which is called every ten milliseconds (\<^verbatim>\<open>TIMER_INTERVAL\<close>), runs each callback at the
  rate the name of its interval promises: in any \<open>m\<close> seconds, that is \<open>100 * m\<close> calls of the handler, wherever
  its counter stands, a callback is called 100 times a second for each registration for 10 ms, 20 times for 50 ms,
  10 times for 100 ms, 4 times for 250 ms, twice for 500 ms and once for a second. The counter must not wrap around
  in that time, which it does once in 497 days.
\<close>

theorem callback_rate:
  assumes "unat (counter s) + 100 * m < 2 ^ 32"
  shows "count_list (run_ticks (100 * m) s) f
    = 100 * m * count_list (callBacks s ti10ms) f + 20 * m * count_list (callBacks s ti50ms) f
      + 10 * m * count_list (callBacks s ti100ms) f + 4 * m * count_list (callBacks s ti250ms) f
      + 2 * m * count_list (callBacks s ti500ms) f + m * count_list (callBacks s ti1sec) f"
proof -
  have "100 * m div TIMER_PERIOD i = (case i of ti10ms \<Rightarrow> 100 | ti50ms \<Rightarrow> 20 | ti100ms \<Rightarrow> 10 | ti250ms \<Rightarrow> 4 | ti500ms \<Rightarrow> 2 | ti1sec \<Rightarrow> 1) * m" for i
    by (cases i) simp_all
  then show ?thesis
    using count_run_ticks [OF assms, of f] by (simp only: due_seconds) (simp add: intervals_def)
qed

definition four_hz :: "nat timers" where
  "four_hz = \<lparr>msTimers = [0, 0, 0, 0], usTimers = [0, 0, 0, 0], csTimers = [0, 0, 0, 0],
     callBacks = (\<lambda>i. if i = ti250ms then [7] else []), counter = 3\<rparr>"

theorem callback_rate_witness: "count_list (run_ticks 200 four_hz) 7 = 8"
  using callback_rate [of four_hz 2 7] by (simp add: four_hz_def)

section \<open>Waiting does not wait\<close>

text \<open>
  \<^verbatim>\<open>TimerReady\<close> compares the 32 bits that \<^verbatim>\<open>TimerWait\<close> returns with the 64-bit time in milliseconds
  since 1970, which no longer fits into 32 bits since 19 February 1970. Hence waiting with
  \<^verbatim>\<open>TimerReady(TimerWait(ms))\<close> returns at once, without sleeping, for every \<open>ms\<close>.
\<close>

theorem timer_ready_never_waits:
  assumes "4294968 \<le> tv_sec (clock i)" and "tv_sec (clock i) < 2 ^ 31" and "tv_usec (clock i) < 1000000"
  shows "TimerReady clock (TimerWait now ms) i = Some i"
proof -
  have u: "uint (TimerGetMS (clock i)) = tv_sec (clock i) * 1000 + int (tv_usec (clock i) div 1000)"
    using assms by (simp add: TimerGetMS_def uint_word_ariths uint_word_of_int unsigned_of_nat take_bit_eq_mod zmod_int)
  have "uint (ucast (TimerWait now ms) :: u64) < 2 ^ 32"
    using uint_lt2p [of "TimerWait now ms"] by (simp add: unsigned_ucast_eq take_bit_eq_mod)
  then have "\<not> TimerGetMS (clock i) < ucast (TimerWait now ms)"
    using assms(1) u by (simp add: word_less_def)
  then show ?thesis by (simp add: TimerReady.simps)
qed

theorem timer_ready_never_waits_witness:
  "TimerReady (\<lambda>_. \<lparr>tv_sec = 1500000000, tv_usec = 0\<rparr>) (TimerWait \<lparr>tv_sec = 1500000000, tv_usec = 0\<rparr> 5000) 0 = Some 0"
  by (rule timer_ready_never_waits) simp_all

text \<open>The fifth callback for one interval is stored behind the array.\<close>

theorem fifth_callback_overruns:
  "length (callBacks s i) = 4 \<Longrightarrow> SetTimerCallback s i (Some f) = None"
  by (simp add: SetTimerCallback_def MAX_CALLBACKS_def)

end
