(* ===== verification/Lcd.thy ===== *)
theory Lcd
  imports Timers
begin

text \<open>
  The display buffer of the brick-side library and the functions that draw into it byte by byte and
  pixel by pixel, from \<^verbatim>\<open>src/util/cat/ev3_lcd.c\<close>. The display has 178 by 128 pixels; a row takes 23
  bytes, bit \<open>i\<close> of a byte is the \<open>i\<close>-th pixel from the left. The hardware wants three pixels per
  byte. A load or store outside a buffer gives \<open>None\<close>. \<^verbatim>\<open>short\<close> and \<^verbatim>\<open>int\<close> variables are integers;
  storing into a \<^verbatim>\<open>short\<close> wraps around as gcc defines it. The bits of the fonts and icons, the data of
  the \<^verbatim>\<open>.xbm\<close> files, are arguments.
\<close>

section \<open>C integers and buffers\<close>

definition short :: "int \<Rightarrow> int" where
  "short x = (x + 32768) mod 65536 - 32768"

lemma short_id [simp]: "- 32768 \<le> x \<Longrightarrow> x < 32768 \<Longrightarrow> short x = x"
  by (simp add: short_def)

lemma short_range: "- 32768 \<le> short x" "short x < 32768"
  by (simp_all add: short_def)

text \<open>The value of an \<^verbatim>\<open>int\<close> expression, \<open>None\<close> if it overflows, which C leaves undefined.\<close>

definition int32 :: "int \<Rightarrow> int option" where
  "int32 x = (if - 2147483648 \<le> x \<and> x \<le> 2147483647 then Some x else None)"

type_synonym image = "u8 list"

definition peek :: "u8 list \<Rightarrow> int \<Rightarrow> u8 option" where
  "peek m i = (if 0 \<le> i \<and> i < int (length m) then Some (m ! nat i) else None)"

definition poke :: "u8 list \<Rightarrow> int \<Rightarrow> u8 \<Rightarrow> u8 list option" where
  "poke m i b = (if 0 \<le> i \<and> i < int (length m) then Some (m[nat i := b]) else None)"

definition mem_set :: "u8 list \<Rightarrow> int \<Rightarrow> u8 \<Rightarrow> int \<Rightarrow> u8 list option" where
  "mem_set m i b n =
    (if 0 \<le> i \<and> 0 \<le> n \<and> i + n \<le> int (length m) then Some (put_at (nat i) (replicate (nat n) b) m) else None)"

definition mem_move :: "u8 list \<Rightarrow> int \<Rightarrow> int \<Rightarrow> int \<Rightarrow> u8 list option" where
  "mem_move m to from n =
    (if 0 \<le> to \<and> 0 \<le> from \<and> 0 \<le> n \<and> to + n \<le> int (length m) \<and> from + n \<le> int (length m)
     then Some (put_at (nat to) (take (nat n) (drop (nat from) m)) m) else None)"

lemma length_poke: "poke m i b = Some m' \<Longrightarrow> length m' = length m"
  by (auto simp: poke_def split: if_splits)

lemma length_mem_set: "mem_set m i b n = Some m' \<Longrightarrow> length m' = length m"
  by (auto simp: mem_set_def split: if_splits)

lemma length_mem_move: "mem_move m to from n = Some m' \<Longrightarrow> length m' = length m"
  by (auto simp: mem_move_def split: if_splits)

section \<open>The display\<close>

definition LCD_WIDTH :: int where [simp]: "LCD_WIDTH = 178"
definition LCD_HEIGHT :: int where [simp]: "LCD_HEIGHT = 128"
definition LCD_BYTE_WIDTH :: int where [simp]: "LCD_BYTE_WIDTH = 23"
definition LCD_BUFFER_SIZE :: int where [simp]: "LCD_BUFFER_SIZE = 2944"
definition LCD_MEM_WIDTH :: int where [simp]: "LCD_MEM_WIDTH = 60"
definition LCD_BUFFER_LENGTH :: int where [simp]: "LCD_BUFFER_LENGTH = 7680"

definition display :: "image \<Rightarrow> bool" where
  "display img \<longleftrightarrow> int (length img) = LCD_BUFFER_SIZE"

definition dLcdDrawPixel :: "image \<Rightarrow> bool \<Rightarrow> int \<Rightarrow> int \<Rightarrow> image option" where
  "dLcdDrawPixel pImage Color X0 Y0 =
    (if X0 \<ge> 0 \<and> X0 < LCD_WIDTH \<and> Y0 \<ge> 0 \<and> Y0 < LCD_HEIGHT then
       do {
         old \<leftarrow> peek pImage (X0 div 8 + Y0 * LCD_BYTE_WIDTH);
         poke pImage (X0 div 8 + Y0 * LCD_BYTE_WIDTH)
           (if Color then old OR push_bit (nat (X0 mod 8)) 1 else old AND NOT (push_bit (nat (X0 mod 8)) 1))
       }
     else Some pImage)"

definition dLcdReadPixel :: "image \<Rightarrow> int \<Rightarrow> int \<Rightarrow> u8 option" where
  "dLcdReadPixel pImage X0 Y0 =
    (if X0 \<ge> 0 \<and> X0 < LCD_WIDTH \<and> Y0 \<ge> 0 \<and> Y0 < LCD_HEIGHT then
       do {
         b \<leftarrow> peek pImage (X0 div 8 + Y0 * LCD_BYTE_WIDTH);
         Some (if b AND push_bit (nat (X0 mod 8)) 1 \<noteq> 0 then 1 else 0)
       }
     else Some 0)"

text \<open>
  The inner loops of the drawing functions: at most eight pixels of one byte, drawn in \<open>Color\<close> where
  the bit is set and in the other colour elsewhere, up to the column \<open>MaxX\<close>; and a row of bytes.
\<close>

fun draw_bits :: "nat \<Rightarrow> u8 \<Rightarrow> bool \<Rightarrow> int \<Rightarrow> int \<Rightarrow> int \<Rightarrow> image \<Rightarrow> (int \<times> image) option" where
  "draw_bits 0 b Color TmpX MaxX Y0 pImage = Some (TmpX, pImage)"
| "draw_bits (Suc n) b Color TmpX MaxX Y0 pImage =
    (if TmpX < MaxX then
       do {
         pImage \<leftarrow> dLcdDrawPixel pImage (if b AND 1 \<noteq> 0 then Color else \<not> Color) TmpX Y0;
         draw_bits n (drop_bit 1 b) Color (short (TmpX + 1)) MaxX Y0 pImage
       }
     else Some (TmpX, pImage))"

fun draw_row :: "u8 list \<Rightarrow> int list \<Rightarrow> bool \<Rightarrow> int \<Rightarrow> int \<Rightarrow> int \<Rightarrow> image \<Rightarrow> image option" where
  "draw_row bits [] Color TmpX MaxX Y0 pImage = Some pImage"
| "draw_row bits (i # is) Color TmpX MaxX Y0 pImage =
    do {
      b \<leftarrow> peek bits i;
      (TmpX, pImage) \<leftarrow> draw_bits 8 b Color TmpX MaxX Y0 pImage;
      draw_row bits is Color TmpX MaxX Y0 pImage
    }"

section \<open>Pictures, icons and bitmaps\<close>

fun copy_bytes :: "u8 list \<Rightarrow> int \<Rightarrow> bool \<Rightarrow> int \<Rightarrow> int list \<Rightarrow> image \<Rightarrow> image option" where
  "copy_bytes bits from Color to [] pImage = Some pImage"
| "copy_bytes bits from Color to (i # is) pImage =
    do {
      b \<leftarrow> peek bits (from + i);
      pImage \<leftarrow> poke pImage (to + i) (if Color then b else NOT b);
      copy_bytes bits from Color to is pImage
    }"

fun picture_rows :: "nat \<Rightarrow> u8 list \<Rightarrow> int \<Rightarrow> bool \<Rightarrow> int \<Rightarrow> int \<Rightarrow> image \<Rightarrow> image option" where
  "picture_rows 0 bits IconByteIndex Color LcdByteIndex IconWidth pImage = Some pImage"
| "picture_rows (Suc h) bits IconByteIndex Color LcdByteIndex IconWidth pImage =
    do {
      pImage \<leftarrow> copy_bytes bits IconByteIndex Color LcdByteIndex [0..IconWidth div 8 - 1] pImage;
      picture_rows h bits (short (IconByteIndex + IconWidth div 8)) Color
        (short (LcdByteIndex + LCD_BYTE_WIDTH)) IconWidth pImage
    }"

definition dLcdDrawPicture ::
    "image \<Rightarrow> bool \<Rightarrow> int \<Rightarrow> int \<Rightarrow> int \<Rightarrow> nat \<Rightarrow> u8 list \<Rightarrow> image option" where
  "dLcdDrawPicture pImage Color X0 Y0 IconWidth IconHeight pIconBits =
    picture_rows IconHeight pIconBits 0 Color (short (X0 div 8 + Y0 * LCD_BYTE_WIDTH)) IconWidth pImage"

record ICONINFO =
  pIconBits :: "u8 list"
  IconSize :: int
  IconHeight :: nat
  IconWidth :: int

text \<open>\<open>icon_bits\<close> are the arrays of the five \<^verbatim>\<open>_icons.xbm\<close> files; \<open>None\<close> for a type outside the table.\<close>

definition IconInfo :: "(u8 \<Rightarrow> u8 list) \<Rightarrow> u8 \<Rightarrow> ICONINFO option" where
  "IconInfo icon_bits t =
    (if t = 0 then Some \<lparr>pIconBits = icon_bits t, IconSize = 420, IconHeight = 12, IconWidth = 24\<rparr>
     else if t = 1 then Some \<lparr>pIconBits = icon_bits t, IconSize = 176, IconHeight = 8, IconWidth = 16\<rparr>
     else if t = 2 then Some \<lparr>pIconBits = icon_bits t, IconSize = 616, IconHeight = 22, IconWidth = 24\<rparr>
     else if t = 3 then Some \<lparr>pIconBits = icon_bits t, IconSize = 132, IconHeight = 12, IconWidth = 16\<rparr>
     else if t = 4 then Some \<lparr>pIconBits = icon_bits t, IconSize = 36, IconHeight = 12, IconWidth = 8\<rparr>
     else None)"

definition dLcdGetNumIcons :: "ICONINFO \<Rightarrow> int" where
  "dLcdGetNumIcons ii = IconSize ii div int (IconHeight ii)"

definition dLcdDrawIcon ::
    "(u8 \<Rightarrow> u8 list) \<Rightarrow> image \<Rightarrow> bool \<Rightarrow> int \<Rightarrow> int \<Rightarrow> u8 \<Rightarrow> u8 \<Rightarrow> image option" where
  "dLcdDrawIcon icon_bits pImage Color X0 Y0 Icon Num =
    do {
      ii \<leftarrow> IconInfo icon_bits Icon;
      if uint Num \<le> dLcdGetNumIcons ii
      then dLcdDrawPicture pImage Color X0 Y0 (IconWidth ii) (IconHeight ii)
        (drop (nat (short (uint Num * IconWidth ii * int (IconHeight ii) div 8))) (pIconBits ii))
      else Some pImage
    }"

definition dLcdGetBitmapSize :: "u8 list option \<Rightarrow> (int \<times> int) option" where
  "dLcdGetBitmapSize pBitmap =
    (case pBitmap of
       None \<Rightarrow> Some (0, 0)
     | Some bm \<Rightarrow> do { w \<leftarrow> peek bm 0; h \<leftarrow> peek bm 1; Some (uint w, uint h) })"

text \<open>The rows of a bitmap that does not start or end at a byte, and of one that does.\<close>

fun bitmap_rows :: "nat \<Rightarrow> int \<Rightarrow> u8 list \<Rightarrow> int \<Rightarrow> bool \<Rightarrow> int \<Rightarrow> int \<Rightarrow> int \<Rightarrow> image \<Rightarrow> image option" where
  "bitmap_rows 0 Y bits w Color X0 MaxX Y0 pImage = Some pImage"
| "bitmap_rows (Suc h) Y bits w Color X0 MaxX Y0 pImage =
    do {
      pImage \<leftarrow> draw_row bits (map (\<lambda>x. short (Y * w div 8) + x) [0..w div 8 - 1]) Color X0 MaxX Y0 pImage;
      bitmap_rows h (Y + 1) bits w Color X0 MaxX (short (Y0 + 1)) pImage
    }"

fun bitmap_bytes :: "u8 list \<Rightarrow> int \<Rightarrow> bool \<Rightarrow> int \<Rightarrow> int \<Rightarrow> int list \<Rightarrow> image \<Rightarrow> image option" where
  "bitmap_bytes bits from Color to X [] pImage = Some pImage"
| "bitmap_bytes bits from Color to X (i # is) pImage =
    do {
      pImage \<leftarrow>
        (if to + i < LCD_BUFFER_SIZE \<and> X < LCD_WIDTH \<and> X \<ge> 0
         then do { b \<leftarrow> peek bits (from + i); poke pImage (to + i) (if Color then b else NOT b) }
         else Some pImage);
      bitmap_bytes bits from Color to (short (X + 8)) is pImage
    }"

fun bitmap_aligned :: "nat \<Rightarrow> u8 list \<Rightarrow> int \<Rightarrow> bool \<Rightarrow> int \<Rightarrow> int \<Rightarrow> int \<Rightarrow> image \<Rightarrow> image option" where
  "bitmap_aligned 0 bits from Color to X0 w pImage = Some pImage"
| "bitmap_aligned (Suc h) bits from Color to X0 w pImage =
    do {
      pImage \<leftarrow> bitmap_bytes bits from Color to X0 [0..w div 8 - 1] pImage;
      bitmap_aligned h bits (short (from + w div 8)) Color (short (to + LCD_BYTE_WIDTH)) X0 w pImage
    }"

definition dLcdDrawBitmap :: "image \<Rightarrow> bool \<Rightarrow> int \<Rightarrow> int \<Rightarrow> u8 list option \<Rightarrow> image option" where
  "dLcdDrawBitmap pImage Color X0 Y0 pBitmap =
    (case pBitmap of
       None \<Rightarrow> Some pImage
     | Some bm \<Rightarrow> do {
         w \<leftarrow> peek bm 0;
         h \<leftarrow> peek bm 1;
         let bits = drop 2 bm;
         if X0 mod 8 \<noteq> 0 \<or> uint w mod 8 \<noteq> 0
         then bitmap_rows (unat h) 0 bits ((uint w + 7) div 8 * 8) Color X0 (short (X0 + uint w)) Y0 pImage
         else bitmap_aligned (unat h) bits 0 Color (short (X0 div 8 + Y0 * LCD_BYTE_WIDTH)) X0 (uint w) pImage
       })"

section \<open>The layout of the hardware\<close>

definition PixelTab :: "u8 list" where
  "PixelTab = [0x00, 0xE0, 0x1C, 0xFC, 0x03, 0xE3, 0x1F, 0xFF]"

definition UnPixelTab :: "u8 list" where
  "UnPixelTab = (replicate 256 0)[0x03 := 4, 0x1C := 2, 0x1F := 6, 0xE0 := 1, 0xE3 := 5, 0xFC := 3, 0xFF := 7]"

text \<open>Some bytes of the hardware buffer from the low bits of \<open>Pixels\<close>, three each, and back.\<close>

fun put_pixels :: "nat \<Rightarrow> u32 \<Rightarrow> u8 list" where
  "put_pixels 0 Pixels = []"
| "put_pixels (Suc n) Pixels = PixelTab ! unat (Pixels AND 7) # put_pixels n (drop_bit 3 Pixels)"

fun get_pixels :: "nat \<Rightarrow> u8 list \<Rightarrow> u32" where
  "get_pixels k [] = 0"
| "get_pixels k (b # bs) = push_bit k (ucast (UnPixelTab ! unat b)) OR get_pixels (k + 3) bs"

text \<open>One row: seven times three bytes of the display and the last two; \<open>Y\<close> rows.\<close>

fun row_to_fb :: "nat \<Rightarrow> u8 list \<Rightarrow> (u8 list \<times> u8 list) option" where
  "row_to_fb 0 (a # b # pSrc) = Some (put_pixels 4 (ucast a OR push_bit 8 (ucast b)), pSrc)"
| "row_to_fb (Suc X) (a # b # c # pSrc) =
    do {
      (dst, pSrc) \<leftarrow> row_to_fb X pSrc;
      Some (put_pixels 8 (ucast a OR push_bit 8 (ucast b) OR push_bit 16 (ucast c)) @ dst, pSrc)
    }"
| "row_to_fb _ _ = None"

fun rows_to_fb :: "nat \<Rightarrow> u8 list \<Rightarrow> u8 list option" where
  "rows_to_fb 0 pSrc = Some []"
| "rows_to_fb (Suc Y) pSrc =
    do { (dst, pSrc) \<leftarrow> row_to_fb 7 pSrc; rest \<leftarrow> rows_to_fb Y pSrc; Some (dst @ rest) }"

definition lcdToFrameBuffer :: "image \<Rightarrow> u8 list option" where
  "lcdToFrameBuffer pSrc = rows_to_fb (nat LCD_HEIGHT) pSrc"

fun row_of_fb :: "nat \<Rightarrow> u8 list \<Rightarrow> (u8 list \<times> u8 list) option" where
  "row_of_fb 0 (a # b # c # d # pSrc) =
    (let Pixels = get_pixels 0 [a, b, c, d] in Some ([ucast Pixels, ucast (drop_bit 8 Pixels)], pSrc))"
| "row_of_fb (Suc X) (a # b # c # d # e # f # g # h # pSrc) =
    (let Pixels = get_pixels 0 [a, b, c, d, e, f, g, h]
     in do {
          (dst, pSrc) \<leftarrow> row_of_fb X pSrc;
          Some ([ucast Pixels, ucast (drop_bit 8 Pixels), ucast (drop_bit 16 Pixels)] @ dst, pSrc)
        })"
| "row_of_fb _ _ = None"

fun rows_of_fb :: "nat \<Rightarrow> u8 list \<Rightarrow> u8 list option" where
  "rows_of_fb 0 pSrc = Some []"
| "rows_of_fb (Suc Y) pSrc =
    do { (dst, pSrc) \<leftarrow> row_of_fb 7 pSrc; rest \<leftarrow> rows_of_fb Y pSrc; Some (dst @ rest) }"

definition frameBufferToLcd :: "u8 list \<Rightarrow> image option" where
  "frameBufferToLcd pSrc = rows_of_fb (nat LCD_HEIGHT) pSrc"

section \<open>Pixels\<close>

text \<open>The pixel in column \<open>x\<close> and row \<open>y\<close>, counted from the top left corner.\<close>

definition on_screen :: "int \<times> int \<Rightarrow> bool" where
  "on_screen p \<longleftrightarrow> 0 \<le> fst p \<and> fst p < LCD_WIDTH \<and> 0 \<le> snd p \<and> snd p < LCD_HEIGHT"

definition byte_at :: "int \<times> int \<Rightarrow> nat" where
  "byte_at p = nat (fst p div 8 + snd p * LCD_BYTE_WIDTH)"

text \<open>The abstraction of a display buffer: the set of its dark pixels, as a predicate.\<close>

definition canvas :: "image \<Rightarrow> int \<times> int \<Rightarrow> bool" where
  "canvas img p \<longleftrightarrow> on_screen p \<and> bit (img ! byte_at p) (nat (fst p mod 8))"

lemma byte_at_less: "on_screen p \<Longrightarrow> display img \<Longrightarrow> byte_at p < length img"
  by (auto simp: on_screen_def byte_at_def display_def)

lemma two_digits:
  "0 \<le> a \<Longrightarrow> a < 23 \<Longrightarrow> 0 \<le> b \<Longrightarrow> b < 23 \<Longrightarrow> 0 \<le> y \<Longrightarrow> 0 \<le> z
    \<Longrightarrow> nat (a + y * 23) = nat (b + z * 23) \<longleftrightarrow> y = z \<and> a = b" for a b y z :: int
proof -
  assume *: "0 \<le> a" "a < 23" "0 \<le> b" "b < 23" "0 \<le> y" "0 \<le> z"
  then have "(a + y * 23) div 23 = y" "(b + z * 23) div 23 = z" by simp_all
  then have "a + y * 23 = b + z * 23 \<longleftrightarrow> y = z \<and> a = b" by (metis add_right_imp_eq)
  then show ?thesis using * by (simp add: nat_eq_iff)
qed

lemma byte_at_eq:
  "on_screen p \<Longrightarrow> on_screen q \<Longrightarrow> byte_at p = byte_at q \<longleftrightarrow> snd p = snd q \<and> fst p div 8 = fst q div 8"
  unfolding on_screen_def byte_at_def LCD_BYTE_WIDTH_def LCD_WIDTH_def LCD_HEIGHT_def
  using two_digits [of "fst p div 8" "fst q div 8" "snd p" "snd q"] by auto

lemma canvas_update:
  assumes "display img" and "on_screen q"
  shows "canvas (img[byte_at q := b]) p =
    (if on_screen p \<and> snd p = snd q \<and> fst p div 8 = fst q div 8 then bit b (nat (fst p mod 8)) else canvas img p)"
proof (cases "on_screen p")
  case True
  then show ?thesis
    using byte_at_less [OF assms(2,1)] byte_at_eq [OF True assms(2)] by (auto simp: canvas_def nth_list_update)
qed (simp add: canvas_def)

lemma display_update [simp]: "display (img[i := b]) = display img"
  by (simp add: display_def)

lemma same_pixel: "fst p div 8 = fst q div 8 \<Longrightarrow> snd p = snd q \<Longrightarrow> fst p mod 8 = fst q mod 8 \<longleftrightarrow> p = q"
  for p q :: "int \<times> int"
  by (metis div_mult_mod_eq prod.collapse)

definition recolour :: "bool \<Rightarrow> nat \<Rightarrow> u8 \<Rightarrow> u8" where
  "recolour c i b = (if c then b OR push_bit i 1 else b AND NOT (push_bit i 1))"

lemma bit_recolour: "j < 8 \<Longrightarrow> bit (recolour c i b) j \<longleftrightarrow> (if i = j then c else bit b j)"
  by (auto simp: recolour_def bit_simps)

text \<open>Drawing a pixel changes that pixel and no other; outside of the screen it changes nothing.\<close>

lemma dLcdDrawPixel_eq:
  assumes "display img"
  shows "dLcdDrawPixel img c x y =
    (if on_screen (x, y)
     then Some (img[byte_at (x, y) := recolour c (nat (x mod 8)) (img ! byte_at (x, y))])
     else Some img)"
  using assms byte_at_less [of "(x, y)" img]
  by (auto simp: dLcdDrawPixel_def peek_def poke_def on_screen_def byte_at_def display_def recolour_def)

lemma dLcdDrawPixel_canvas:
  assumes "display img"
  obtains img' where "dLcdDrawPixel img c x y = Some img'" "display img'"
    "canvas img' = (\<lambda>p. if p = (x, y) \<and> on_screen p then c else canvas img p)"
proof (cases "on_screen (x, y)")
  case False
  then have "canvas img = (\<lambda>p. if p = (x, y) \<and> on_screen p then c else canvas img p)" by auto
  then show ?thesis using that [of img] assms False by (simp add: dLcdDrawPixel_eq)
next
  case True
  let ?b = "recolour c (nat (x mod 8)) (img ! byte_at (x, y))"
  have "canvas (img[byte_at (x, y) := ?b]) p = (if p = (x, y) \<and> on_screen p then c else canvas img p)" for p
  proof (cases "on_screen p \<and> snd p = y \<and> fst p div 8 = x div 8")
    case same: True
    then have "byte_at p = byte_at (x, y)" by (simp add: byte_at_def)
    then have old: "canvas img p = bit (img ! byte_at (x, y)) (nat (fst p mod 8))"
      using same by (simp add: canvas_def)
    have "nat (x mod 8) = nat (fst p mod 8) \<longleftrightarrow> p = (x, y)"
      using same same_pixel [of p "(x, y)"] by (auto simp: nat_eq_iff)
    then show ?thesis
      using same old by (simp add: canvas_update [OF assms True] bit_recolour nat_less_iff)
  next
    case False
    then show ?thesis by (auto simp: canvas_update [OF assms True])
  qed
  then have "canvas (img[byte_at (x, y) := ?b]) = (\<lambda>p. if p = (x, y) \<and> on_screen p then c else canvas img p)"
    by (rule ext)
  then show ?thesis using that [of "img[byte_at (x, y) := ?b]"] True assms by (simp add: dLcdDrawPixel_eq)
qed

lemma dLcdReadPixel_canvas:
  "display img \<Longrightarrow> dLcdReadPixel img x y = Some (if canvas img (x, y) then 1 else 0)"
  by (auto simp: dLcdReadPixel_def peek_def canvas_def on_screen_def byte_at_def display_def
      bit_iff_and_push_bit_not_eq_0)

section \<open>Contracts of drawing operations\<close>

text \<open>
  Drawing operations work on a display buffer or on the state of the library that holds one. For a
  state type with good states \<open>ok\<close> and a picture \<open>pic\<close>, \<open>paints ok pic m f\<close> says that from a good
  state \<open>m\<close> touches no memory outside of the buffers, ends in a good state, and turns the picture
  into \<open>f\<close> of it; \<open>confined ok pic A m\<close> says that it changes pixels in \<open>A\<close> only.
\<close>

type_synonym picture = "int \<times> int \<Rightarrow> bool"

definition paints ::
    "('s \<Rightarrow> bool) \<Rightarrow> ('s \<Rightarrow> picture) \<Rightarrow> ('s \<Rightarrow> 's option) \<Rightarrow> (picture \<Rightarrow> picture) \<Rightarrow> bool" where
  "paints ok pic m f \<longleftrightarrow> (\<forall>s. ok s \<longrightarrow> (\<exists>s'. m s = Some s' \<and> ok s' \<and> pic s' = f (pic s)))"

definition confined ::
    "('s \<Rightarrow> bool) \<Rightarrow> ('s \<Rightarrow> picture) \<Rightarrow> (int \<times> int) set \<Rightarrow> ('s \<Rightarrow> 's option) \<Rightarrow> bool" where
  "confined ok pic A m \<longleftrightarrow>
    (\<forall>s. ok s \<longrightarrow> (\<exists>s'. m s = Some s' \<and> ok s' \<and> (\<forall>p. p \<notin> A \<longrightarrow> pic s' p = pic s p)))"

abbreviation draws :: "(image \<Rightarrow> image option) \<Rightarrow> (picture \<Rightarrow> picture) \<Rightarrow> bool" where
  "draws \<equiv> paints display canvas"

abbreviation only_in :: "(int \<times> int) set \<Rightarrow> (image \<Rightarrow> image option) \<Rightarrow> bool" where
  "only_in \<equiv> confined display canvas"

definition plot :: "bool \<Rightarrow> int \<times> int \<Rightarrow> picture \<Rightarrow> picture" where
  "plot c q f = (\<lambda>p. if p = q \<and> on_screen p then c else f p)"

lemma paintsI:
  "(\<And>s. ok s \<Longrightarrow> \<exists>s'. m s = Some s' \<and> ok s' \<and> pic s' = f (pic s)) \<Longrightarrow> paints ok pic m f"
  by (simp add: paints_def)

lemma paintsE:
  assumes "paints ok pic m f" and "ok s"
  obtains s' where "m s = Some s'" "ok s'" "pic s' = f (pic s)"
  using assms unfolding paints_def by blast

lemma confinedI:
  "(\<And>s. ok s \<Longrightarrow> \<exists>s'. m s = Some s' \<and> ok s' \<and> (\<forall>p. p \<notin> A \<longrightarrow> pic s' p = pic s p)) \<Longrightarrow> confined ok pic A m"
  by (simp add: confined_def)

lemma confinedE:
  assumes "confined ok pic A m" and "ok s"
  obtains s' where "m s = Some s'" "ok s'" "\<forall>p. p \<notin> A \<longrightarrow> pic s' p = pic s p"
  using assms unfolding confined_def by blast

lemma paints_Some [simp]: "paints ok pic Some (\<lambda>f. f)"
  by (simp add: paints_def)

lemma paints_bind:
  assumes "paints ok pic m f" and "paints ok pic m' g"
  shows "paints ok pic (\<lambda>s. Option.bind (m s) m') (\<lambda>c. g (f c))"
proof (rule paintsI)
  fix s
  assume "ok s"
  with assms(1) obtain s1 where 1: "m s = Some s1" "ok s1" "pic s1 = f (pic s)" by (rule paintsE)
  from assms(2) 1(2) obtain s2 where "m' s1 = Some s2" "ok s2" "pic s2 = g (pic s1)" by (rule paintsE)
  with 1 show "\<exists>s'. Option.bind (m s) m' = Some s' \<and> ok s' \<and> pic s' = g (f (pic s))" by simp
qed

lemma draws_pixel: "draws (\<lambda>img. dLcdDrawPixel img c x y) (plot c (x, y))"
proof (rule paintsI)
  fix img
  assume "display img"
  then obtain img' where "dLcdDrawPixel img c x y = Some img'" "display img'"
    "canvas img' = (\<lambda>p. if p = (x, y) \<and> on_screen p then c else canvas img p)"
    by (rule dLcdDrawPixel_canvas)
  then show "\<exists>img'. dLcdDrawPixel img c x y = Some img' \<and> display img' \<and> canvas img' = plot c (x, y) (canvas img)"
    unfolding plot_def by blast
qed

lemma confined_Some [simp]: "confined ok pic A Some"
  by (simp add: confined_def)

lemma confined_bind:
  assumes "confined ok pic A m" and "confined ok pic A m'"
  shows "confined ok pic A (\<lambda>s. Option.bind (m s) m')"
proof (rule confinedI)
  fix s
  assume "ok s"
  with assms(1) obtain s1 where 1: "m s = Some s1" "ok s1" "\<forall>p. p \<notin> A \<longrightarrow> pic s1 p = pic s p" by (rule confinedE)
  from assms(2) 1(2) obtain s2 where "m' s1 = Some s2" "ok s2" "\<forall>p. p \<notin> A \<longrightarrow> pic s2 p = pic s1 p" by (rule confinedE)
  with 1 show "\<exists>s'. Option.bind (m s) m' = Some s' \<and> ok s' \<and> (\<forall>p. p \<notin> A \<longrightarrow> pic s' p = pic s p)" by simp
qed

lemma confined_mono: "confined ok pic A m \<Longrightarrow> A \<subseteq> B \<Longrightarrow> confined ok pic B m"
  unfolding confined_def by blast

lemma paints_confined:
  assumes "paints ok pic m f" and "\<And>c p. p \<notin> A \<Longrightarrow> f c p = c p"
  shows "confined ok pic A m"
proof (rule confinedI)
  fix s
  assume "ok s"
  with assms(1) obtain s' where "m s = Some s'" "ok s'" "pic s' = f (pic s)" by (rule paintsE)
  then show "\<exists>s'. m s = Some s' \<and> ok s' \<and> (\<forall>p. p \<notin> A \<longrightarrow> pic s' p = pic s p)"
    using assms(2) by simp
qed

lemma confined_if:
  "(b \<Longrightarrow> confined ok pic A m) \<Longrightarrow> (\<not> b \<Longrightarrow> confined ok pic A m') \<Longrightarrow> confined ok pic A (\<lambda>s. if b then m s else m' s)"
  by (cases b) simp_all

lemma only_in_pixel: "(x, y) \<in> A \<Longrightarrow> only_in A (\<lambda>img. dLcdDrawPixel img c x y)"
  using draws_pixel [of c x y] by (rule paints_confined) (auto simp: plot_def)

section \<open>The frame buffer holds the picture\<close>

lemma UnPixelTab_PixelTab: "ucast (UnPixelTab ! unat (PixelTab ! unat (p AND 7 :: u32))) = p AND 7"
proof -
  have "unat (p AND 7) < 8"
    using word_and_le1 [of p 7] by (simp add: word_le_nat_alt and.commute)
  then have "unat (p AND 7) \<in> {0, 1, 2, 3, 4, 5, 6, 7}" by auto
  moreover have "p AND 7 = word_of_nat (unat (p AND 7))" by simp
  ultimately have "p AND 7 \<in> {0, 1, 2, 3, 4, 5, 6, 7}" by (elim insertE emptyE) simp_all
  then show ?thesis by (elim insertE emptyE) (simp_all add: PixelTab_def UnPixelTab_def)
qed

lemma get_put_pixels:
  "n \<le> 8 \<Longrightarrow> k + 3 * n \<le> 24 \<Longrightarrow> get_pixels k (put_pixels n p) = push_bit k (take_bit (3 * n) p)"
proof (induction n arbitrary: k p)
  case (Suc n)
  have 7: "(7 :: u32) = mask 3" by (simp add: mask_eq_exp_minus_1)
  have "get_pixels k (put_pixels (Suc n) p)
    = push_bit k (p AND 7) OR push_bit (k + 3) (take_bit (3 * n) (drop_bit 3 p))"
    using Suc by (simp add: UnPixelTab_PixelTab del: push_bit_and)
  also have "\<dots> = push_bit k (take_bit (3 * Suc n) p)"
  proof (rule bit_word_eqI)
    fix i
    assume "i < LENGTH(32)"
    have "3 + (i - (k + 3)) = i - k" if "\<not> i < k + 3" using that by simp
    then show "bit (push_bit k (p AND 7) OR push_bit (k + 3) (take_bit (3 * n) (drop_bit 3 p))) i
        = bit (push_bit k (take_bit (3 * Suc n) p)) i"
      by (cases "i < k + 3") (auto simp: bit_simps 7)
  qed
  finally show ?case .
qed simp

lemma length_put_pixels [simp]: "length (put_pixels n p) = n"
  by (induction n arbitrary: p) simp_all

lemma row_of_fb_0: "length g = 4 \<Longrightarrow> row_of_fb 0 (g @ src) =
    Some ([ucast (get_pixels 0 g), ucast (drop_bit 8 (get_pixels 0 g))], src)"
  by (auto simp: length_Suc_conv eval_nat_numeral Let_def)

lemma row_of_fb_Suc: "length g = 8 \<Longrightarrow> row_of_fb (Suc X) (g @ src) =
    map_option (\<lambda>(dst, src). ([ucast (get_pixels 0 g), ucast (drop_bit 8 (get_pixels 0 g)),
      ucast (drop_bit 16 (get_pixels 0 g))] @ dst, src)) (row_of_fb X src)"
  by (auto simp: length_Suc_conv eval_nat_numeral Let_def map_option_bind split: Option.bind_splits)

text \<open>A row without the four bits of its last byte for which the hardware has no pixel.\<close>

definition visible_row :: "u8 list \<Rightarrow> u8 list" where
  "visible_row r = butlast r @ [take_bit 4 (last r)]"

lemma bit_beyond_u8: "8 \<le> n \<Longrightarrow> \<not> bit (a :: u8) n"
  by (auto dest: bit_imp_le_length)

lemma three_bytes:
  fixes a b c :: u8
  defines "P \<equiv> ucast a OR push_bit 8 (ucast b) OR push_bit 16 (ucast c) :: u32"
  shows "ucast (take_bit 24 P) = a" "ucast (drop_bit 8 (take_bit 24 P)) = b"
    and "ucast (drop_bit 16 (take_bit 24 P)) = c"
  unfolding P_def by (rule bit_word_eqI, auto simp: bit_simps bit_beyond_u8)+

lemma two_bytes:
  fixes a b :: u8
  defines "P \<equiv> ucast a OR push_bit 8 (ucast b) :: u32"
  shows "ucast (take_bit 12 P) = a" "ucast (drop_bit 8 (take_bit 12 P)) = take_bit 4 b"
  unfolding P_def by (rule bit_word_eqI, auto simp: bit_simps bit_beyond_u8)+

lemma row_roundtrip:
  assumes "length r = 3 * n + 2"
  obtains fb where "row_to_fb n (r @ src) = Some (fb, src)" "length fb = 8 * n + 4"
    "\<And>rest. row_of_fb n (fb @ rest) = Some (visible_row r, rest)"
  using assms
proof (induction n arbitrary: r thesis)
  case 0
  then obtain a b where r: "r = [a, b]" by (auto simp: length_Suc_conv eval_nat_numeral)
  show ?case
    by (rule "0.prems"(1) [of "put_pixels 4 (ucast a OR push_bit 8 (ucast b))"])
      (simp_all add: r row_of_fb_0 get_put_pixels two_bytes visible_row_def del: take_bit_or drop_bit_or)
next
  case (Suc n)
  then obtain a b c r' where r: "r = a # b # c # r'" "length r' = 3 * n + 2"
    by (auto simp: length_Suc_conv eval_nat_numeral)
  obtain fb where fb: "row_to_fb n (r' @ src) = Some (fb, src)" "length fb = 8 * n + 4"
    "\<And>rest. row_of_fb n (fb @ rest) = Some (visible_row r', rest)"
    using Suc.IH r(2) by metis
  have "r' \<noteq> []" using r(2) by auto
  then have "visible_row r = [a, b, c] @ visible_row r'" by (simp add: r(1) visible_row_def)
  then show ?case
    by (intro Suc.prems(1) [of "put_pixels 8 (ucast a OR push_bit 8 (ucast b) OR push_bit 16 (ucast c)) @ fb"])
      (simp_all add: r(1) fb row_of_fb_Suc get_put_pixels three_bytes del: take_bit_or drop_bit_or)
qed

text \<open>A display buffer as its rows.\<close>

definition visible :: "image \<Rightarrow> image" where
  "visible img = concat (map visible_row (pieces 23 img))"

lemma rows_roundtrip:
  assumes "length img = 23 * n"
  shows "\<exists>fb. rows_to_fb n img = Some fb \<and> length fb = 60 * n
    \<and> rows_of_fb n fb = Some (concat (map visible_row (pieces 23 img)))"
  using assms
proof (induction n arbitrary: img)
  case (Suc n)
  obtain fb where fb: "row_to_fb 7 (take 23 img @ drop 23 img) = Some (fb, drop 23 img)" "length fb = 8 * 7 + 4"
    "\<And>rest. row_of_fb 7 (fb @ rest) = Some (visible_row (take 23 img), rest)"
    by (rule row_roundtrip [of "take 23 img" 7 "drop 23 img"]) (use Suc.prems in simp_all)
  obtain rest where rest: "rows_to_fb n (drop 23 img) = Some rest" "length rest = 60 * n"
    "rows_of_fb n rest = Some (concat (map visible_row (pieces 23 (drop 23 img))))"
    using Suc.IH [of "drop 23 img"] Suc.prems by auto
  have "img \<noteq> []" using Suc.prems by auto
  then have "pieces 23 img = take 23 img # pieces 23 (drop 23 img)" by (simp add: pieces_step)
  then show ?case using fb rest by simp
qed simp

lemma pieces_visible:
  "length img = 23 * n \<Longrightarrow> length (concat (map visible_row (pieces 23 img))) = 23 * n
    \<and> (\<forall>i k. i < 23 \<longrightarrow> k < n \<longrightarrow> concat (map visible_row (pieces 23 img)) ! (i + 23 * k)
        = (if i = 22 then take_bit 4 (img ! (i + 23 * k)) else img ! (i + 23 * k)))"
proof (induction n arbitrary: img)
  case (Suc n)
  define r where "r = visible_row (take 23 img)"
  define t where "t = concat (map visible_row (pieces 23 (drop 23 img)))"
  have "img \<noteq> []" using Suc.prems by auto
  then have split: "concat (map visible_row (pieces 23 img)) = r @ t" by (simp add: pieces_step r_def t_def)
  have r: "length r = 23" using Suc.prems by (simp add: r_def visible_row_def)
  have r_nth: "r ! i = (if i = 22 then take_bit 4 (img ! i) else img ! i)" if "i < 23" for i
    using that Suc.prems last_conv_nth [of "take 23 img"] \<open>img \<noteq> []\<close>
    by (auto simp: r_def visible_row_def nth_append nth_butlast)
  have IH: "length t = 23 * n" "\<And>i k. i < 23 \<Longrightarrow> k < n \<Longrightarrow> t ! (i + 23 * k)
      = (if i = 22 then take_bit 4 (img ! (23 + (i + 23 * k))) else img ! (23 + (i + 23 * k)))"
    using Suc.IH [of "drop 23 img"] Suc.prems by (simp_all add: t_def)
  show ?case unfolding split
  proof (intro conjI allI impI)
    show "length (r @ t) = 23 * Suc n" using r IH(1) by simp
    fix i k :: nat
    assume *: "i < 23" "k < Suc n"
    show "(r @ t) ! (i + 23 * k) = (if i = 22 then take_bit 4 (img ! (i + 23 * k)) else img ! (i + 23 * k))"
    proof (cases k)
      case 0
      then show ?thesis using * r r_nth by (simp add: nth_append)
    next
      case (Suc k')
      then have "i + 23 * k = 23 + (i + 23 * k')" by simp
      then show ?thesis using * r IH(2) [of i k'] Suc by (simp add: nth_append add.left_commute)
    qed
  qed
qed simp

lemma length_visible: "display img \<Longrightarrow> length (visible img) = length img"
  using pieces_visible [of img 128] by (simp add: display_def visible_def)

lemma visible_canvas:
  assumes "display img"
  shows "canvas (visible img) = canvas img"
proof
  fix p :: "int \<times> int"
  show "canvas (visible img) p = canvas img p"
  proof (cases "on_screen p")
    case True
    define i k where "i = nat (fst p div 8)" and "k = nat (snd p)"
    have ik: "i < 23" "k < 128" "byte_at p = i + 23 * k"
      using True by (auto simp: on_screen_def i_def k_def byte_at_def nat_add_distrib nat_mult_distrib)
    have x: "fst p mod 8 < 4" if "i = 22"
    proof -
      have "fst p div 8 = 22" "fst p < 178" using that True by (auto simp: i_def on_screen_def)
      then show ?thesis by presburger
    qed
    have "visible img ! (i + 23 * k) = (if i = 22 then take_bit 4 (img ! (i + 23 * k)) else img ! (i + 23 * k))"
      using pieces_visible [of img 128] assms ik by (simp add: visible_def display_def)
    then show ?thesis using True ik x by (auto simp: canvas_def bit_take_bit_iff)
  qed (simp add: canvas_def)
qed

text \<open>
  C19: What the display shows can be read back from the frame buffer of the hardware: converting a
  display buffer to the hardware's three pixels per byte fills the 7680 bytes of the frame buffer,
  and converting that back gives every visible pixel again.
\<close>

theorem framebuffer_roundtrip:
  assumes "display img"
  shows "\<exists>fb img'. lcdToFrameBuffer img = Some fb \<and> int (length fb) = LCD_BUFFER_LENGTH
    \<and> frameBufferToLcd fb = Some img' \<and> display img' \<and> canvas img' = canvas img"
proof -
  have len: "length img = 23 * 128" using assms by (simp add: display_def)
  obtain fb where fb: "rows_to_fb 128 img = Some fb" "length fb = 60 * 128"
    "rows_of_fb 128 fb = Some (visible img)"
    using rows_roundtrip [OF len] by (auto simp: visible_def)
  have "canvas (visible img) = canvas img" using visible_canvas [OF assms] by blast
  then show ?thesis using fb len by (simp add: lcdToFrameBuffer_def frameBufferToLcd_def display_def length_visible)
qed

theorem framebuffer_roundtrip_witness:
  "\<exists>fb img'. lcdToFrameBuffer (replicate 2944 5) = Some fb \<and> frameBufferToLcd fb = Some img'
    \<and> canvas img' (176, 127) \<and> \<not> canvas img' (177, 127)"
proof -
  have "display (replicate 2944 5)" by (simp only: display_def length_replicate LCD_BUFFER_SIZE_def of_nat_numeral)
  moreover have "canvas (replicate 2944 5) (176, 127)" "\<not> canvas (replicate 2944 5) (177, 127)"
    by (simp_all add: canvas_def on_screen_def byte_at_def)
  ultimately show ?thesis using framebuffer_roundtrip [of "replicate 2944 5"] by metis
qed

end
