(* ===== verification/LcdDev.thy ===== *)
theory LcdDev
  imports Lcd
begin

text \<open>
  The state of the display module of \<^verbatim>\<open>src/util/cat/ev3_lcd.c\<close>, its life cycle, and the operations on
  the whole display buffer: opening and closing the device, the refresh by the timer, clearing,
  scrolling, filling, and writing the picture to an image file. The results of \<^verbatim>\<open>open\<close>, \<^verbatim>\<open>mmap\<close>,
  \<^verbatim>\<open>read\<close> and \<^verbatim>\<open>write\<close> are arguments.
\<close>

section \<open>The state\<close>

text \<open>
  \<open>pFB0\<close> is what the mapped frame buffer holds, \<open>None\<close> for the null pointer; \<open>pLcd\<close> says that the
  pointer of that name is set, then it points to \<open>displayBuf\<close>. The field \<^verbatim>\<open>font\<close> is never used.
\<close>

record LCDGlobals =
  Dirty :: bool
  DispFile :: int
  pFB0 :: "u8 list option"
  displayBuf :: image
  pLcd :: bool
  currentFont :: u8
  autoRefresh :: bool
  hwBuffer :: "u8 list"

definition FONTTYPE_NORMAL :: u8 where [simp]: "FONTTYPE_NORMAL = 0"
definition NUM_FONTTYPES :: u8 where [simp]: "NUM_FONTTYPES = 4"

definition LcdInitialized :: "LCDGlobals \<Rightarrow> bool" where
  "LcdInitialized s \<longleftrightarrow> DispFile s \<noteq> - 1 \<and> pFB0 s \<noteq> None"

text \<open>An operation on what \<^verbatim>\<open>pLcd\<close> points to.\<close>

definition on_display :: "(image \<Rightarrow> image option) \<Rightarrow> LCDGlobals \<Rightarrow> LCDGlobals option" where
  "on_display f s =
    (if pLcd s then map_option (\<lambda>img. s\<lparr>displayBuf := img\<rparr>) (f (displayBuf s)) else None)"

definition set_dirty :: "LCDGlobals \<Rightarrow> LCDGlobals" where
  "set_dirty s = s\<lparr>Dirty := True\<rparr>"

section \<open>The device\<close>

definition WriteToLcdDevice :: "LCDGlobals \<Rightarrow> int \<Rightarrow> int \<Rightarrow> int" where
  "WriteToLcdDevice s written num_bytes =
    (if DispFile s \<ge> 0 then if written \<ge> 0 then num_bytes else written else - 1)"

definition doUpdateScreen :: "LCDGlobals \<Rightarrow> LCDGlobals option" where
  "doUpdateScreen s =
    (if Dirty s \<and> pFB0 s \<noteq> None \<and> pLcd s then
       do {
         hw \<leftarrow> lcdToFrameBuffer (displayBuf s);
         Some (s\<lparr>hwBuffer := hw, pFB0 := Some hw, Dirty := False\<rparr>)
       }
     else Some s)"

definition LcdUpdateHandler :: "LCDGlobals \<Rightarrow> LCDGlobals option" where
  "LcdUpdateHandler s = (if autoRefresh s then doUpdateScreen s else Some s)"

definition LcdCloseDevices :: "LCDGlobals \<Rightarrow> LCDGlobals" where
  "LcdCloseDevices s =
    (if \<not> LcdInitialized s then s
     else if DispFile s \<ge> 0 then s\<lparr>pFB0 := None, DispFile := - 1\<rparr> else s)"

text \<open>
  The callbacks of this library. \<^verbatim>\<open>LcdInit\<close> does not return a value when \<^verbatim>\<open>open\<close> fails: the result is
  \<open>None\<close> then.
\<close>

datatype callback = CbLcdUpdate | CbUser nat

definition LcdInit ::
    "LCDGlobals \<Rightarrow> callback timers \<Rightarrow> int \<Rightarrow> u8 list option \<Rightarrow> timeval
      \<Rightarrow> (bool option \<times> LCDGlobals \<times> callback timers) option" where
  "LcdInit s t opened mapped now =
    (if LcdInitialized s then Some (Some True, s, t)
     else
       let s = s\<lparr>autoRefresh := True, Dirty := False, pFB0 := None, DispFile := - 1, pLcd := False,
             currentFont := FONTTYPE_NORMAL, DispFile := opened\<rparr>
       in
       if DispFile s \<noteq> - 1 then
         case mapped of
           None \<Rightarrow> Some (Some False, LcdCloseDevices s, t)
         | Some pTmp \<Rightarrow>
             let s = s\<lparr>pFB0 := Some pTmp, pLcd := True\<rparr>;
                 t = TimerInit t now
             in do { t \<leftarrow> SetTimerCallback t ti250ms (Some CbLcdUpdate); Some (Some True, s, t) }
       else Some (None, s, t))"

definition LcdOpen :: bool where "LcdOpen = True"
definition LcdClose :: bool where "LcdClose = True"

definition LcdExit :: "LCDGlobals \<Rightarrow> bool \<times> LCDGlobals" where
  "LcdExit s =
    (if \<not> LcdInitialized s then (True, s) else (True, (LcdCloseDevices s)\<lparr>pLcd := False\<rparr>))"

section \<open>The display as a whole\<close>

definition LcdRefresh :: "LCDGlobals \<Rightarrow> LCDGlobals option" where
  "LcdRefresh s = (if \<not> LcdInitialized s then Some s else doUpdateScreen s)"

definition LcdSetAutoRefresh :: "LCDGlobals \<Rightarrow> bool \<Rightarrow> LCDGlobals" where
  "LcdSetAutoRefresh s bOn = s\<lparr>autoRefresh := bOn\<rparr>"

definition LcdUpdate :: "LCDGlobals \<Rightarrow> (bool \<times> LCDGlobals) option" where
  "LcdUpdate s =
    (if \<not> LcdInitialized s then Some (False, s)
     else do { s \<leftarrow> doUpdateScreen s; Some (True, s\<lparr>Dirty := False\<rparr>) })"

definition LcdClean :: "LCDGlobals \<Rightarrow> (bool \<times> LCDGlobals) option" where
  "LcdClean s =
    (if \<not> LcdInitialized s then Some (False, s)
     else do {
       s \<leftarrow> on_display (\<lambda>img. mem_set img 0 0 LCD_BUFFER_SIZE) (s\<lparr>currentFont := FONTTYPE_NORMAL\<rparr>);
       Some (True, set_dirty s)
     })"

definition LcdClearDisplay :: "LCDGlobals \<Rightarrow> LCDGlobals option" where
  "LcdClearDisplay s = do { (_, s) \<leftarrow> LcdClean s; Some (set_dirty s) }"

definition LcdScroll :: "LCDGlobals \<Rightarrow> int \<Rightarrow> (bool \<times> LCDGlobals) option" where
  "LcdScroll s Y =
    (if LcdInitialized s then
       do {
         s \<leftarrow>
           (if Y > 0 \<and> Y < LCD_HEIGHT then
              do {
                s \<leftarrow> on_display (\<lambda>img. mem_move img 0 (LCD_BYTE_WIDTH * Y) ((LCD_HEIGHT - Y) * LCD_BYTE_WIDTH)) s;
                on_display (\<lambda>img. mem_set img ((LCD_HEIGHT - Y) * LCD_BYTE_WIDTH) 0 (LCD_BYTE_WIDTH * Y)) s
              }
            else if Y < 0 \<and> Y > - LCD_HEIGHT then
              do {
                s \<leftarrow> on_display (\<lambda>img. mem_move img (LCD_BYTE_WIDTH * - Y) 0 ((LCD_HEIGHT - - Y) * LCD_BYTE_WIDTH)) s;
                on_display (\<lambda>img. mem_set img 0 0 (LCD_BYTE_WIDTH * - Y)) s
              }
            else Some s);
         Some (True, s)
       }
     else Some (False, s))"

definition LcdSelectFont :: "LCDGlobals \<Rightarrow> u8 \<Rightarrow> bool \<times> LCDGlobals" where
  "LcdSelectFont s FontType =
    (if \<not> LcdInitialized s then (False, s)
     else if FontType \<ge> NUM_FONTTYPES then (True, s\<lparr>currentFont := FONTTYPE_NORMAL\<rparr>)
     else (True, s\<lparr>currentFont := FontType\<rparr>))"

text \<open>The outer option is for a store outside the buffers, the inner one for the null pointer.\<close>

definition LcdGetDisplay :: "LCDGlobals \<Rightarrow> image option" where
  "LcdGetDisplay s = (if \<not> LcdInitialized s \<or> \<not> pLcd s then None else Some (displayBuf s))"

definition LcdGetFrameBuffer :: "LCDGlobals \<Rightarrow> (image option \<times> LCDGlobals) option" where
  "LcdGetFrameBuffer s =
    (case pFB0 s of
       None \<Rightarrow> Some (None, s)
     | Some fb \<Rightarrow>
       if \<not> LcdInitialized s then Some (None, s)
       else do {
         s \<leftarrow> on_display (\<lambda>_. frameBufferToLcd fb) (s\<lparr>hwBuffer := fb\<rparr>);
         Some (LcdGetDisplay s, s)
       })"

text \<open>The loop of \<^verbatim>\<open>LcdFillWindow\<close> for patterns: rows alternate between \<open>Color\<close> and its complement.\<close>

fun fill_rows :: "int list \<Rightarrow> u8 \<Rightarrow> image \<Rightarrow> image option" where
  "fill_rows [] Color img = Some img"
| "fill_rows (Tmp # Tmps) Color img =
    do {
      img \<leftarrow> mem_set img (short (Tmp * LCD_BYTE_WIDTH)) Color LCD_BYTE_WIDTH;
      fill_rows Tmps (NOT Color) img
    }"

definition LcdFillWindow :: "LCDGlobals \<Rightarrow> u8 \<Rightarrow> int \<Rightarrow> int \<Rightarrow> (bool \<times> LCDGlobals) option" where
  "LcdFillWindow s Color Y Y1 =
    (if \<not> LcdInitialized s then Some (False, s)
     else
       do {
         let s = s\<lparr>currentFont := FONTTYPE_NORMAL\<rparr>;
         s \<leftarrow>
           (if Y + Y1 < LCD_HEIGHT then
              if Color = 0 \<or> Color = 1 then
                let Y = short (Y * LCD_BYTE_WIDTH);
                    Y1 = (if Y1 \<noteq> 0 then short (Y1 * LCD_BYTE_WIDTH) else short (LCD_BUFFER_SIZE - Y));
                    Color = (if Color \<noteq> 0 then - 1 else Color)
                in on_display (\<lambda>img. mem_set img Y Color Y1) s
              else
                let Y1 = (if Y1 = 0 then LCD_HEIGHT else Y1)
                in on_display (fill_rows [Y..Y1 - 1] Color) s
            else Some s);
         Some (True, set_dirty s)
       })"

definition LcdIcon ::
    "(u8 \<Rightarrow> u8 list) \<Rightarrow> LCDGlobals \<Rightarrow> bool \<Rightarrow> int \<Rightarrow> int \<Rightarrow> u8 \<Rightarrow> u8 \<Rightarrow> (bool \<times> LCDGlobals) option" where
  "LcdIcon icon_bits s Color X Y IconType IconNum =
    (if \<not> LcdInitialized s then Some (False, s)
     else do {
       s \<leftarrow> on_display (\<lambda>img. dLcdDrawIcon icon_bits img Color X Y IconType IconNum) s;
       Some (True, set_dirty s)
     })"

text \<open>
  \<open>file\<close> is what the file holds, \<open>None\<close> when it cannot be opened; \<open>junk\<close> what the buffer of
  2944 bytes, which is not initialised, holds before the read.
\<close>

definition LcdBmpFile ::
    "LCDGlobals \<Rightarrow> bool \<Rightarrow> int \<Rightarrow> int \<Rightarrow> u8 list option \<Rightarrow> u8 list \<Rightarrow> (bool \<times> LCDGlobals) option" where
  "LcdBmpFile s Color X Y file junk =
    (if LcdInitialized s then
       case file of
         None \<Rightarrow> Some (False, s)
       | Some bs \<Rightarrow> do {
           s \<leftarrow> on_display (\<lambda>img. dLcdDrawBitmap img Color X Y (Some (overlay junk (take (nat LCD_BUFFER_SIZE) bs)))) s;
           Some (True, set_dirty s)
         }
     else Some (False, s))"

definition LcdPicture ::
    "LCDGlobals \<Rightarrow> bool \<Rightarrow> int \<Rightarrow> int \<Rightarrow> u8 list option \<Rightarrow> (bool \<times> LCDGlobals) option" where
  "LcdPicture s Color X Y pBitmap =
    (if \<not> LcdInitialized s then Some (False, s)
     else do {
       s \<leftarrow> on_display (\<lambda>img. dLcdDrawBitmap img Color X Y pBitmap) s;
       Some (True, set_dirty s)
     })"



section \<open>Image files\<close>

datatype ImageFormat = ifRAW_FB0 | ifRAW_BUF | ifXBM | ifP1 | ifP4 | ifBMP | ifPNG

definition reverse_bits_table :: "u8 list" where
  "reverse_bits_table = [
    0x00, 0x80, 0x40, 0xc0, 0x20, 0xa0, 0x60, 0xe0, 0x10, 0x90, 0x50, 0xd0, 0x30, 0xb0, 0x70, 0xf0,
    0x08, 0x88, 0x48, 0xc8, 0x28, 0xa8, 0x68, 0xe8, 0x18, 0x98, 0x58, 0xd8, 0x38, 0xb8, 0x78, 0xf8,
    0x04, 0x84, 0x44, 0xc4, 0x24, 0xa4, 0x64, 0xe4, 0x14, 0x94, 0x54, 0xd4, 0x34, 0xb4, 0x74, 0xf4,
    0x0c, 0x8c, 0x4c, 0xcc, 0x2c, 0xac, 0x6c, 0xec, 0x1c, 0x9c, 0x5c, 0xdc, 0x3c, 0xbc, 0x7c, 0xfc,
    0x02, 0x82, 0x42, 0xc2, 0x22, 0xa2, 0x62, 0xe2, 0x12, 0x92, 0x52, 0xd2, 0x32, 0xb2, 0x72, 0xf2,
    0x0a, 0x8a, 0x4a, 0xca, 0x2a, 0xaa, 0x6a, 0xea, 0x1a, 0x9a, 0x5a, 0xda, 0x3a, 0xba, 0x7a, 0xfa,
    0x06, 0x86, 0x46, 0xc6, 0x26, 0xa6, 0x66, 0xe6, 0x16, 0x96, 0x56, 0xd6, 0x36, 0xb6, 0x76, 0xf6,
    0x0e, 0x8e, 0x4e, 0xce, 0x2e, 0xae, 0x6e, 0xee, 0x1e, 0x9e, 0x5e, 0xde, 0x3e, 0xbe, 0x7e, 0xfe,
    0x01, 0x81, 0x41, 0xc1, 0x21, 0xa1, 0x61, 0xe1, 0x11, 0x91, 0x51, 0xd1, 0x31, 0xb1, 0x71, 0xf1,
    0x09, 0x89, 0x49, 0xc9, 0x29, 0xa9, 0x69, 0xe9, 0x19, 0x99, 0x59, 0xd9, 0x39, 0xb9, 0x79, 0xf9,
    0x05, 0x85, 0x45, 0xc5, 0x25, 0xa5, 0x65, 0xe5, 0x15, 0x95, 0x55, 0xd5, 0x35, 0xb5, 0x75, 0xf5,
    0x0d, 0x8d, 0x4d, 0xcd, 0x2d, 0xad, 0x6d, 0xed, 0x1d, 0x9d, 0x5d, 0xdd, 0x3d, 0xbd, 0x7d, 0xfd,
    0x03, 0x83, 0x43, 0xc3, 0x23, 0xa3, 0x63, 0xe3, 0x13, 0x93, 0x53, 0xd3, 0x33, 0xb3, 0x73, 0xf3,
    0x0b, 0x8b, 0x4b, 0xcb, 0x2b, 0xab, 0x6b, 0xeb, 0x1b, 0x9b, 0x5b, 0xdb, 0x3b, 0xbb, 0x7b, 0xfb,
    0x07, 0x87, 0x47, 0xc7, 0x27, 0xa7, 0x67, 0xe7, 0x17, 0x97, 0x57, 0xd7, 0x37, 0xb7, 0x77, 0xf7,
    0x0f, 0x8f, 0x4f, 0xcf, 0x2f, 0xaf, 0x6f, 0xef, 0x1f, 0x9f, 0x5f, 0xdf, 0x3f, 0xbf, 0x7f, 0xff]"

definition reverse_bits :: "u8 \<Rightarrow> u8" where
  "reverse_bits b = reverse_bits_table ! unat b"

text \<open>
  The name of the file: \<open>path\<close> and \<open>base\<close> are what \<^verbatim>\<open>dirname\<close> and \<^verbatim>\<open>basename\<close> make of the name asked
  for; the length of the name without its extension is kept in a byte, and the whole is put together
  in 128 bytes.
\<close>

fun image_ext :: "ImageFormat \<Rightarrow> string" where
  "image_ext ifP1 = ''.pbm''"
| "image_ext ifP4 = ''.pbm''"
| "image_ext ifBMP = ''.bmp''"
| "image_ext ifPNG = ''.png''"
| "image_ext _ = ''.xbm''"

definition image_name :: "ImageFormat \<Rightarrow> string \<Rightarrow> string \<Rightarrow> string option" where
  "image_name fmt path base =
    (let dots = filter (\<lambda>i. base ! i = CHR ''.'') [0..<length base];
         len = (if dots = [] then length base else last dots) mod 256;
         fullname = path @ ''/'' @ take len base @ image_ext fmt
     in if length fullname < 128 then Some fullname else None)"

text \<open>The text of a row in the format P1: the bits of one byte down to bit \<open>cnt\<close>, each with a blank.\<close>

definition p1_bits :: "u8 \<Rightarrow> nat \<Rightarrow> string" where
  "p1_bits b cnt =
    concat (map (\<lambda>k. [if b AND push_bit k 1 \<noteq> 0 then CHR ''1'' else CHR ''0'', CHR '' '']) (rev [cnt..<8]))"

fun p1_row :: "u8 list \<Rightarrow> nat \<Rightarrow> nat \<Rightarrow> nat \<Rightarrow> string option" where
  "p1_row data i 0 cnt =
    do { b \<leftarrow> peek data (int i); Some (p1_bits (reverse_bits b) cnt @ ''\<newline>'') }"
| "p1_row data i (Suc n) cnt =
    do { b \<leftarrow> peek data (int i); rest \<leftarrow> p1_row data (i + 1) n cnt; Some (p1_bits (reverse_bits b) 0 @ rest) }"

fun p1_rows :: "u8 list \<Rightarrow> nat \<Rightarrow> nat list \<Rightarrow> nat \<Rightarrow> string option" where
  "p1_rows data bw [] cnt = Some []"
| "p1_rows data bw (i # is) cnt =
    do { r \<leftarrow> p1_row data (i * bw) (bw - 1) cnt; rest \<leftarrow> p1_rows data bw is cnt; Some (r @ rest) }"

fun each_byte :: "(nat \<Rightarrow> u8 \<Rightarrow> u8 list) \<Rightarrow> u8 list \<Rightarrow> nat list \<Rightarrow> u8 list option" where
  "each_byte f data [] = Some []"
| "each_byte f data (i # is) =
    do { b \<leftarrow> peek data (int i); rest \<leftarrow> each_byte f data is; Some (f i b @ rest) }"

definition xbm_byte :: "nat \<Rightarrow> u8 \<Rightarrow> u8 list" where
  "xbm_byte i b = bytes (''0x'' @ [digit (unat b div 16), digit (unat b mod 16)] @ '',''
     @ (if (i + 1) mod 12 = 0 then ''\<newline>'' else []))"

text \<open>
  What is written to the open file; for BMP and PNG nothing, and a message on the standard output instead, which is
  left out. The disk takes all that is written.
\<close>

definition image_contents :: "ImageFormat \<Rightarrow> u8 list \<Rightarrow> string \<Rightarrow> nat \<Rightarrow> nat \<Rightarrow> u8 list option" where
  "image_contents fmt data base width height =
    (let bw = (width + 7) div 8 in
     if fmt = ifP1 then
       do {
         t \<leftarrow> p1_rows data bw [0..<height] (bw * 8 - width);
         Some (bytes (''P1\<newline>'' @ dec width @ '' '' @ dec height @ ''\<newline>'' @ t))
       }
     else if fmt = ifP4 then
       do {
         t \<leftarrow> each_byte (\<lambda>_ b. [reverse_bits b]) data [0..<bw * height];
         Some (bytes (''P4\<newline>'' @ dec width @ '' '' @ dec height @ ''\<newline>'') @ t)
       }
     else if fmt = ifBMP \<or> fmt = ifPNG then Some []
     else
       do {
         t \<leftarrow> each_byte xbm_byte data [0..<bw * height];
         Some (bytes (''#define '' @ base @ ''_width '' @ dec width @ ''\<newline>''
           @ ''#define '' @ base @ ''_height '' @ dec height @ ''\<newline>''
           @ ''static char '' @ base @ ''_bits[] = {\<newline>'') @ t @ bytes '' };\<newline>'')
       })"

text \<open>
  Name and contents of the file written; \<open>None\<close> inside when nothing is written, since the display is not open
  or the file cannot be opened for writing (\<open>opens\<close> says for which names \<^verbatim>\<open>fopen\<close> succeeds); \<open>None\<close> outside for an
  access outside the buffers. A null pointer for the data is a buffer of length 0: nothing can be read from it.
\<close>

definition lcdWriteBytesToFile ::
    "(string \<Rightarrow> bool) \<Rightarrow> ImageFormat \<Rightarrow> image option \<Rightarrow> string \<Rightarrow> string \<Rightarrow> nat \<Rightarrow> nat \<Rightarrow> (string \<times> u8 list) option option" where
  "lcdWriteBytesToFile opens fmt data path base width height =
    do {
      fullname \<leftarrow> image_name fmt path base;
      if opens fullname then
        do {
          contents \<leftarrow> image_contents fmt (case data of None \<Rightarrow> [] | Some bs \<Rightarrow> bs) base width height;
          Some (Some (fullname, contents))
        }
      else Some None
    }"

definition LcdWriteDisplayToFile ::
    "(string \<Rightarrow> bool) \<Rightarrow> LCDGlobals \<Rightarrow> string \<Rightarrow> string \<Rightarrow> ImageFormat \<Rightarrow> (string \<times> u8 list) option option" where
  "LcdWriteDisplayToFile opens s path base fmt =
    (if \<not> LcdInitialized s then Some None else lcdWriteBytesToFile opens fmt (LcdGetDisplay s) path base 178 128)"

definition LcdWriteFrameBufferToFile ::
    "(string \<Rightarrow> bool) \<Rightarrow> LCDGlobals \<Rightarrow> string \<Rightarrow> string \<Rightarrow> ImageFormat \<Rightarrow> ((string \<times> u8 list) option \<times> LCDGlobals) option" where
  "LcdWriteFrameBufferToFile opens s path base fmt =
    (if \<not> LcdInitialized s then Some (None, s)
     else do {
       (pSrc, s) \<leftarrow> LcdGetFrameBuffer s;
       r \<leftarrow> lcdWriteBytesToFile opens fmt pSrc path base 178 128;
       Some (r, s)
     })"

section \<open>The table of reversed bytes\<close>

text \<open>The table grows by doubling: the second half of \<open>2 * n\<close> entries sets one more bit in the first.\<close>

fun reversed :: "nat \<Rightarrow> u8 list" where
  "reversed 0 = [0]"
| "reversed (Suc n) = reversed n @ map (\<lambda>x. x OR push_bit (7 - n) 1) (reversed n)"

lemma reverse_bits_table_eq: "reverse_bits_table = reversed 8"
  by (simp add: eval_nat_numeral reverse_bits_table_def)

lemma bit_second_half: "j < 2 ^ n \<Longrightarrow> bit (2 ^ n + j) m \<longleftrightarrow> m = n \<or> bit j m" for j :: nat
proof -
  assume j: "j < 2 ^ n"
  then have low: "bit j i \<Longrightarrow> i < n" for i
    by (metis bit_nat_iff bit_take_bit_iff take_bit_nat_eq_self)
  have "2 ^ n + j = 2 ^ n OR j"
    by (rule disjunctive_add) (auto simp: bit_exp_iff dest: low)
  then show ?thesis by (auto simp: bit_or_iff bit_exp_iff)
qed

lemma reversed_bits:
  "n \<le> 8 \<Longrightarrow> length (reversed n) = 2 ^ n
    \<and> (\<forall>i k. i < 2 ^ n \<longrightarrow> k < 8 \<longrightarrow> bit (reversed n ! i) k = bit i (7 - k))"
proof (induction n)
  case (Suc n)
  then have len: "length (reversed n) = 2 ^ n"
    and IH: "\<And>i k. i < 2 ^ n \<Longrightarrow> k < 8 \<Longrightarrow> bit (reversed n ! i) k = bit i (7 - k)" by auto
  show ?case
  proof (intro conjI allI impI)
    fix i k :: nat
    assume *: "i < 2 ^ Suc n" "k < 8"
    show "bit (reversed (Suc n) ! i) k = bit i (7 - k)"
    proof (cases "i < 2 ^ n")
      case True
      then show ?thesis using * len IH by (simp add: nth_append)
    next
      case False
      then obtain j where j: "i = 2 ^ n + j" "j < 2 ^ n" using * by (metis add_less_cancel_left le_Suc_ex mult_2 not_less power_Suc)
      then have "bit (reversed (Suc n) ! i) k \<longleftrightarrow> k = 7 - n \<or> bit j (7 - k)"
        using * len IH Suc.prems by (auto simp: nth_append bit_or_iff bit_exp_iff)
      then show ?thesis using j * Suc.prems bit_second_half [OF j(2), of "7 - k"] by auto
    qed
  qed (use len in simp)
qed simp

lemma reverse_bits_bit: "k < 8 \<Longrightarrow> bit (reverse_bits b) k = bit b (7 - k)"
  using reversed_bits [of 8] by (simp add: reverse_bits_def reverse_bits_table_eq bit_simps)

lemma each_byte_single:
  "\<forall>i\<in>set is. i < length data \<Longrightarrow> each_byte (\<lambda>_ b. [f b]) data is = Some (map (\<lambda>i. f (data ! i)) is)"
  by (induction "is") (simp_all add: peek_def)

lemma dec_size: "dec 178 = ''178''" "dec 128 = ''128''"
  by (simp_all add: dec.simps digit_def)

text \<open>
  C21: Writing the display in the format P4 writes nothing where the file cannot be opened for writing; otherwise
  the file is the one asked for with the extension \<^verbatim>\<open>.pbm\<close>, and it shows what the display shows: behind the header
  it holds 128 rows of 23 bytes, and in the order of the format, most significant bit first, its bits are the pixels.
  The display must be open, and the name of the file fit the buffer for it.
\<close>

theorem p4_shows_display:
  assumes "LcdInitialized s" and "pLcd s" and "display (displayBuf s)"
    and "image_name ifP4 path base = Some name"
  shows "if opens name then
    \<exists>raster. LcdWriteDisplayToFile opens s path base ifP4
      = Some (Some (name, bytes ''P4\<newline>178 128\<newline>'' @ raster))
    \<and> length raster = 23 * 128
    \<and> (\<forall>x y. on_screen (x, y) \<longrightarrow>
         bit (raster ! nat (x div 8 + y * 23)) (7 - nat (x mod 8)) = canvas (displayBuf s) (x, y))
    else LcdWriteDisplayToFile opens s path base ifP4 = Some None"
proof -
  let ?img = "displayBuf s"
  have len: "length ?img = 2944" using assms(3) by (simp add: display_def)
  have "each_byte (\<lambda>_ b. [reverse_bits b]) ?img [0..<23 * 128] = Some (map (\<lambda>i. reverse_bits (?img ! i)) [0..<23 * 128])"
    by (rule each_byte_single) (simp add: len)
  also have "map (\<lambda>i. reverse_bits (?img ! i)) [0..<23 * 128] = map reverse_bits ?img"
    by (rule nth_equalityI) (simp_all add: len)
  finally have c: "image_contents ifP4 ?img base 178 128 = Some (bytes ''P4\<newline>178 128\<newline>'' @ map reverse_bits ?img)"
    by (simp add: image_contents_def Let_def dec_size bytes_def)
  have px: "bit (map reverse_bits ?img ! nat (x div 8 + y * 23)) (7 - nat (x mod 8)) = canvas ?img (x, y)"
    if "on_screen (x, y)" for x y
  proof -
    have "nat (x div 8 + y * 23) = byte_at (x, y)" by (simp add: byte_at_def)
    moreover have "byte_at (x, y) < length ?img" using byte_at_less [OF that assms(3)] .
    moreover have "7 - (7 - nat (x mod 8)) = nat (x mod 8)" by (simp add: nat_le_iff)
    ultimately show ?thesis using that by (simp add: canvas_def reverse_bits_bit)
  qed
  show ?thesis
  proof (cases "opens name")
    case True
    then have "LcdWriteDisplayToFile opens s path base ifP4 = Some (Some (name, bytes ''P4\<newline>178 128\<newline>'' @ map reverse_bits ?img))"
      using assms c by (simp add: LcdWriteDisplayToFile_def lcdWriteBytesToFile_def LcdGetDisplay_def)
    then show ?thesis using True px len by (intro if_bool_eq_conj [THEN iffD2] conjI impI exI [of _ "map reverse_bits ?img"]) simp_all
  qed (use assms in \<open>simp add: LcdWriteDisplayToFile_def lcdWriteBytesToFile_def LcdGetDisplay_def\<close>)
qed

section \<open>Scrolling\<close>

lemma on_display_bind:
  "Option.bind (on_display f s) (\<lambda>s. Option.bind (on_display g s) k)
    = Option.bind (on_display (\<lambda>img. Option.bind (f img) g) s) k"
  by (cases "pLcd s"; cases "f (displayBuf s)") (simp_all add: on_display_def map_option_case split: option.split)

lemma on_display_eq: "pLcd s \<Longrightarrow> f (displayBuf s) = Some img \<Longrightarrow> on_display f s = Some (s\<lparr>displayBuf := img\<rparr>)"
  by (simp add: on_display_def)

lemma scroll_up_bytes:
  assumes "display img" and "0 < Y" and "Y < 128"
  shows "Option.bind (mem_move img 0 (23 * Y) ((128 - Y) * 23)) (\<lambda>img. mem_set img ((128 - Y) * 23) 0 (23 * Y))
    = Some (drop (nat (23 * Y)) img @ replicate (nat (23 * Y)) 0)"
proof -
  obtain n where n: "Y = int n" "0 < n" "n < 128" using assms(2,3) 
    by (metis nat_0_le of_nat_0_less_iff of_nat_less_iff of_nat_numeral order_less_imp_le)
  have len: "length img = 2944" using assms(1) by (simp add: display_def)
  have 1: "nat ((128 - int n) * 23) = 2944 - 23 * n" "nat (23 * int n) = 23 * n"
      "nat (2944 - int n * 23) = 2944 - 23 * n" using n by (simp_all add: nat_diff_distrib nat_mult_distrib algebra_simps)
  have "mem_move img 0 (23 * Y) ((128 - Y) * 23) = Some (drop (23 * n) img @ drop (2944 - 23 * n) img)"
    using n len by (simp add: mem_move_def put_at_def 1 len)
  moreover have "mem_set (drop (23 * n) img @ drop (2944 - 23 * n) img) ((128 - Y) * 23) 0 (23 * Y)
      = Some (drop (23 * n) img @ replicate (23 * n) 0)"
    using n len by (simp add: mem_set_def put_at_def 1 len)
  ultimately show ?thesis using 1 n by simp
qed

lemma scroll_down_bytes:
  assumes "display img" and "0 < Y" and "Y < 128"
  shows "Option.bind (mem_move img (23 * Y) 0 ((128 - Y) * 23)) (\<lambda>img. mem_set img 0 0 (23 * Y))
    = Some (replicate (nat (23 * Y)) 0 @ take (nat ((128 - Y) * 23)) img)"
proof -
  obtain n where n: "Y = int n" "0 < n" "n < 128" using assms(2,3) 
    by (metis nat_0_le of_nat_0_less_iff of_nat_less_iff of_nat_numeral order_less_imp_le)
  have len: "length img = 2944" using assms(1) by (simp add: display_def)
  have 1: "nat ((128 - int n) * 23) = 2944 - 23 * n" "nat (23 * int n) = 23 * n"
      "nat (2944 - int n * 23) = 2944 - 23 * n" using n by (simp_all add: nat_diff_distrib nat_mult_distrib algebra_simps)
  have "mem_move img (23 * Y) 0 ((128 - Y) * 23) = Some (take (23 * n) img @ take (2944 - 23 * n) img)"
    using n len by (simp add: mem_move_def put_at_def 1 len)
  moreover have "mem_set (take (23 * n) img @ take (2944 - 23 * n) img) 0 0 (23 * Y)
      = Some (replicate (23 * n) 0 @ take (2944 - 23 * n) img)"
    using n len by (simp add: mem_set_def put_at_def 1 len)
  ultimately show ?thesis using 1 n by simp
qed

lemma byte_at_shift:
  assumes "on_screen (x, y)" and "0 \<le> k"
  shows "byte_at (x, y + k) = byte_at (x, y) + nat (23 * k)"
proof -
  have "0 \<le> x div 8 + y * 23"
    using assms(1) by (intro add_nonneg_nonneg) (simp_all add: on_screen_def pos_imp_zdiv_nonneg_iff)
  then have "nat ((x div 8 + y * 23) + 23 * k) = nat (x div 8 + y * 23) + nat (23 * k)"
    using assms(2) by (intro nat_add_distrib) simp_all
  then show ?thesis by (simp add: byte_at_def algebra_simps)
qed

lemma canvas_down:
  assumes "display img" and "0 < Y" and "Y < 128"
    and "img' = drop (nat (23 * Y)) img @ replicate (nat (23 * Y)) 0"
  shows "canvas img' (x, y) \<longleftrightarrow> on_screen (x, y) \<and> canvas img (x, y + Y)"
proof (cases "on_screen (x, y)")
  case True
  have len: "length img = 2944" using assms(1) by (simp add: display_def)
  have b: "byte_at (x, y + Y) = byte_at (x, y) + nat (23 * Y)"
    using True assms(2) by (intro byte_at_shift) simp_all
  have "byte_at (x, y) < 2944" using byte_at_less [OF True assms(1)] len by simp
  moreover have "on_screen (x, y + Y) \<longleftrightarrow> byte_at (x, y) + nat (23 * Y) < 2944"
    using True assms(2,3) by (auto simp: on_screen_def byte_at_def)
  ultimately show ?thesis
    using True len b assms(2,3) by (auto simp: assms(4) canvas_def nth_append add.commute)
qed (simp add: canvas_def)

lemma canvas_up:
  assumes "display img" and "0 < Y" and "Y < 128"
    and "img' = replicate (nat (23 * Y)) 0 @ take (nat ((128 - Y) * 23)) img"
  shows "canvas img' (x, y) \<longleftrightarrow> on_screen (x, y) \<and> canvas img (x, y - Y)"
proof (cases "on_screen (x, y)")
  case True
  have len: "length img = 2944" using assms(1) by (simp add: display_def)
  show ?thesis
  proof (cases "Y \<le> y")
    case above: True
    then have on: "on_screen (x, y - Y)" using True assms(2) by (simp add: on_screen_def)
    have b: "byte_at (x, y) = byte_at (x, y - Y) + nat (23 * Y)"
      using byte_at_shift [OF on, of Y] assms(2) by simp
    have "byte_at (x, y - Y) < nat ((128 - Y) * 23)"
      using True above by (auto simp: on_screen_def byte_at_def)
    then show ?thesis using True on b by (simp add: assms(4) canvas_def nth_append)
  next
    case False
    then have "byte_at (x, y) < nat (23 * Y)" using True by (auto simp: on_screen_def byte_at_def)
    then show ?thesis using False True by (simp add: assms(4) canvas_def nth_append on_screen_def)
  qed
qed (simp add: canvas_def)

text \<open>
  Scrolling by \<open>Y\<close> rows moves the picture: each pixel takes the value of the pixel \<open>Y\<close> rows below
  it (above it for a negative \<open>Y\<close>) and the rows that come into view are blank; by the height of the
  display or more nothing moves. The display is not marked as changed, so a clean display keeps
  showing the old picture.
\<close>

theorem scroll_moves:
  assumes "LcdInitialized s" and "pLcd s" and "display (displayBuf s)"
  shows "\<exists>s'. LcdScroll s Y = Some (True, s') \<and> display (displayBuf s')
    \<and> canvas (displayBuf s') = (\<lambda>(x, y). if \<bar>Y\<bar> < 128
         then on_screen (x, y) \<and> canvas (displayBuf s) (x, y + Y) else canvas (displayBuf s) (x, y))
    \<and> (\<not> Dirty s \<longrightarrow> doUpdateScreen s' = Some s')"
proof -
  consider "0 < Y" "Y < 128" | "Y < 0" "- 128 < Y" | "Y = 0 \<or> 128 \<le> \<bar>Y\<bar>" by linarith
  then show ?thesis
  proof cases
    case 1
    let ?img = "drop (nat (23 * Y)) (displayBuf s) @ replicate (nat (23 * Y)) 0"
    have "LcdScroll s Y = Some (True, s\<lparr>displayBuf := ?img\<rparr>)"
      using 1 assms scroll_up_bytes [OF assms(3) 1] 
      by (simp add: LcdScroll_def on_display_bind on_display_eq)
    moreover have "display ?img" using assms(3) 1 by (simp add: display_def)
    ultimately show ?thesis
      using canvas_down [OF assms(3) 1 refl] 1 by (auto simp: doUpdateScreen_def)
  next
    case 2
    let ?img = "replicate (nat (23 * - Y)) 0 @ take (nat ((128 - - Y) * 23)) (displayBuf s)"
    have Y: "0 < - Y" "- Y < 128" using 2 by simp_all
    have "LcdScroll s Y = Some (True, s\<lparr>displayBuf := ?img\<rparr>)"
      using 2 assms scroll_down_bytes [OF assms(3) Y] 
      by (simp add: LcdScroll_def on_display_bind on_display_eq)
    moreover have "display ?img" using assms(3) 2 by (simp add: display_def)
    ultimately show ?thesis
      using canvas_up [OF assms(3) Y refl] 2 by (auto simp: doUpdateScreen_def)
  next
    case 3
    then have "LcdScroll s Y = Some (True, s)" using assms by (auto simp: LcdScroll_def)
    moreover have "canvas (displayBuf s) (x, y) \<Longrightarrow> on_screen (x, y)" for x y by (simp add: canvas_def)
    ultimately show ?thesis using 3 assms by (auto simp: fun_eq_iff doUpdateScreen_def)
  qed
qed

definition blank_lcd :: LCDGlobals where
  "blank_lcd = \<lparr>Dirty = False, DispFile = 3, pFB0 = Some [], displayBuf = replicate 2944 0, pLcd = True,
     currentFont = 0, autoRefresh = True, hwBuffer = []\<rparr>"

lemma display_replicate [simp]: "display (replicate 2944 b)"
  by (simp only: display_def length_replicate LCD_BUFFER_SIZE_def of_nat_numeral)

theorem p4_shows_display_witness:
  "\<exists>raster. LcdWriteDisplayToFile (\<lambda>name. take 5 name = ''/tmp/'') blank_lcd ''/tmp'' ''shot.png'' ifP4
      = Some (Some (''/tmp/shot.pbm'', bytes ''P4\<newline>178 128\<newline>'' @ raster)) \<and> length raster = 2944"
proof -
  have "image_name ifP4 ''/tmp'' ''shot.png'' = Some ''/tmp/shot.pbm''"
    by (simp add: image_name_def Let_def upt_rec)
  moreover have "LcdInitialized blank_lcd" "pLcd blank_lcd" "display (displayBuf blank_lcd)"
    by (simp_all add: blank_lcd_def LcdInitialized_def)
  ultimately show ?thesis
    using p4_shows_display [of blank_lcd "''/tmp''" "''shot.png''" "''/tmp/shot.pbm''" "\<lambda>name. take 5 name = ''/tmp/''"] by auto
qed

theorem scroll_moves_witness:
  "\<exists>s'. LcdScroll (blank_lcd\<lparr>displayBuf := replicate 2944 255\<rparr>) 9 = Some (True, s')
    \<and> canvas (displayBuf s') (0, 0) \<and> \<not> canvas (displayBuf s') (0, 120)"
proof -
  let ?s = "blank_lcd\<lparr>displayBuf := replicate 2944 255\<rparr>"
  have "LcdInitialized ?s" "pLcd ?s" "display (displayBuf ?s)"
    by (simp_all add: blank_lcd_def LcdInitialized_def)
  from scroll_moves [OF this, of 9] obtain s' where s': "LcdScroll ?s 9 = Some (True, s')"
    "canvas (displayBuf s') = (\<lambda>(x, y). on_screen (x, y) \<and> canvas (replicate 2944 255) (x, y + 9))" by auto
  have "canvas (replicate 2944 255) (0, 9)" "\<not> canvas (replicate 2944 255) (0, 129)"
    by (simp_all add: canvas_def on_screen_def byte_at_def)
  then show ?thesis using s' by (auto simp: on_screen_def)
qed

section \<open>What is drawn reaches the hardware\<close>

text \<open>The kernel's signals: each runs the callbacks that are due. Callbacks of users leave the display alone.\<close>

fun run_callbacks :: "callback list \<Rightarrow> LCDGlobals \<Rightarrow> LCDGlobals option" where
  "run_callbacks [] s = Some s"
| "run_callbacks (CbLcdUpdate # cs) s = do { s \<leftarrow> LcdUpdateHandler s; run_callbacks cs s }"
| "run_callbacks (CbUser _ # cs) s = run_callbacks cs s"

fun lcd_ticks :: "nat \<Rightarrow> LCDGlobals \<Rightarrow> callback timers \<Rightarrow> (LCDGlobals \<times> callback timers) option" where
  "lcd_ticks 0 s t = Some (s, t)"
| "lcd_ticks (Suc n) s t =
    (let (calls, t) = timerSigHandler t in do { s \<leftarrow> run_callbacks calls s; lcd_ticks n s t })"

definition showing :: "image \<Rightarrow> LCDGlobals \<Rightarrow> bool" where
  "showing img s \<longleftrightarrow> displayBuf s = img \<and> autoRefresh s \<and> pLcd s \<and> pFB0 s \<noteq> None
     \<and> (\<not> Dirty s \<longrightarrow> pFB0 s = lcdToFrameBuffer img)"

definition refreshing :: "callback timers \<Rightarrow> bool" where
  "refreshing t \<longleftrightarrow> callBacks t = (\<lambda>_. [])(ti250ms := [CbLcdUpdate])"

lemma LcdUpdateHandler_showing:
  assumes "display img" and "showing img s"
  obtains s' where "LcdUpdateHandler s = Some s'" "showing img s'" "\<not> Dirty s'"
proof (cases "Dirty s")
  case True
  obtain fb where "lcdToFrameBuffer img = Some fb" using framebuffer_roundtrip [OF assms(1)] by blast
  then show ?thesis
    using that True assms(2) by (auto simp: LcdUpdateHandler_def doUpdateScreen_def showing_def)
next
  case False
  then have "LcdUpdateHandler s = Some s" by (simp add: LcdUpdateHandler_def doUpdateScreen_def)
  then show ?thesis using that False assms(2) by blast
qed

lemma handler_refreshing:
  "refreshing t \<Longrightarrow> timerSigHandler t
    = (if 25 dvd unat (counter t) then [CbLcdUpdate] else [], t\<lparr>counter := counter t + 1\<rparr>)"
  using period_word [of t ti250ms] by (simp add: timerSigHandler_def refreshing_def intervals_def)

lemma lcd_ticks_showing:
  assumes "display img" and "showing img s" and "refreshing t" and "unat (counter t) + n < 2 ^ 32"
  shows "\<exists>s' t'. lcd_ticks n s t = Some (s', t') \<and> showing img s'
    \<and> (\<not> Dirty s \<or> (\<exists>k < n. 25 dvd unat (counter t) + k) \<longrightarrow> \<not> Dirty s')"
  using assms(2-)
proof (induction n arbitrary: s t)
  case (Suc n)
  let ?t = "t\<lparr>counter := counter t + 1\<rparr>"
  have c: "unat (counter ?t) = Suc (unat (counter t))" using Suc.prems(3) by (simp add: unat_word_ariths)
  have t: "refreshing ?t" using Suc.prems(2) by (simp add: refreshing_def)
  obtain s1 where s1: "run_callbacks (fst (timerSigHandler t)) s = Some s1" "showing img s1"
    "\<not> Dirty s \<or> 25 dvd unat (counter t) \<longrightarrow> \<not> Dirty s1"
  proof (cases "25 dvd unat (counter t)")
    case True
    obtain s1 where "LcdUpdateHandler s = Some s1" "showing img s1" "\<not> Dirty s1"
      by (rule LcdUpdateHandler_showing [OF assms(1) Suc.prems(1)])
    then show ?thesis using that [of s1] True Suc.prems(2) by (simp add: handler_refreshing)
  next
    case False
    then show ?thesis using that [of s] Suc.prems(1,2) by (simp add: handler_refreshing)
  qed
  obtain s' t' where IH: "lcd_ticks n s1 ?t = Some (s', t')" "showing img s'"
    "\<not> Dirty s1 \<or> (\<exists>k < n. 25 dvd unat (counter ?t) + k) \<longrightarrow> \<not> Dirty s'"
    using Suc.IH [OF s1(2) t] Suc.prems(3) c by auto
  have "lcd_ticks (Suc n) s t = Some (s', t')"
    using s1(1) IH(1) by (simp add: handler_refreshing [OF Suc.prems(2)])
  moreover have "\<not> Dirty s1 \<or> (\<exists>k < n. 25 dvd unat (counter ?t) + k)"
    if "\<not> Dirty s \<or> (\<exists>k < Suc n. 25 dvd unat (counter t) + k)"
    using that s1(3) c by (auto simp: less_Suc_eq_0_disj)
  ultimately show ?case using IH by blast
qed auto

text \<open>
  C18: Whatever is drawn reaches the screen by itself: once the display was opened, and a picture is in the
  display buffer and marked as changed, the signals of the next quarter of a second (25 ticks, wherever
  the tick counter stands) copy it to the frame buffer of the hardware, which then holds every pixel.
\<close>

theorem display_refreshes:
  assumes "\<not> LcdInitialized s" and "LcdInit s t fd (Some fb) now = Some (Some True, s1, t1)"
    and "s2 = s1\<lparr>displayBuf := img, Dirty := True\<rparr>" and "display img" and "unat (counter t) + 25 < 2 ^ 32"
  shows "\<exists>s3 t3 fb' img'. lcd_ticks 25 s2 t1 = Some (s3, t3) \<and> \<not> Dirty s3
    \<and> pFB0 s3 = Some fb' \<and> frameBufferToLcd fb' = Some img' \<and> canvas img' = canvas img"
proof -
  have init: "s1 = s\<lparr>autoRefresh := True, Dirty := False, pFB0 := Some fb, DispFile := fd, pLcd := True,
      currentFont := 0\<rparr>" and t1: "refreshing t1" "counter t1 = counter t"
    using assms(1,2) by (auto simp: LcdInit_def Let_def SetTimerCallback_def TimerInit_def timerCallbackInit_def
        refreshing_def split: if_splits)
  have "showing img s2" by (simp add: assms(3) init showing_def)
  moreover have "\<exists>k < 25. 25 dvd unat (counter t) + k" by presburger
  ultimately obtain s3 t3 where s3: "lcd_ticks 25 s2 t1 = Some (s3, t3)" "showing img s3" "\<not> Dirty s3"
    using lcd_ticks_showing [OF assms(4) _ t1(1), of s2 25] assms(5) unfolding t1(2) by blast
  obtain fb' img' where "lcdToFrameBuffer img = Some fb'" "frameBufferToLcd fb' = Some img'" "canvas img' = canvas img"
    using framebuffer_roundtrip [OF assms(4)] by blast
  then show ?thesis using s3 by (auto simp: showing_def)
qed

definition idle_timers :: "callback timers" where
  "idle_timers = \<lparr>msTimers = [], usTimers = [], csTimers = [], callBacks = (\<lambda>_. [CbUser 1]), counter = 7\<rparr>"

theorem display_refreshes_witness:
  "\<exists>s1 t1 s3 t3. LcdInit (blank_lcd\<lparr>pFB0 := None\<rparr>) idle_timers 3 (Some [1]) \<lparr>tv_sec = 0, tv_usec = 0\<rparr> = Some (Some True, s1, t1)
    \<and> lcd_ticks 25 (s1\<lparr>displayBuf := replicate 2944 9, Dirty := True\<rparr>) t1 = Some (s3, t3) \<and> \<not> Dirty s3"
proof -
  have "\<not> LcdInitialized (blank_lcd\<lparr>pFB0 := None\<rparr>)" by (simp add: LcdInitialized_def)
  moreover obtain s1 t1 where
    "LcdInit (blank_lcd\<lparr>pFB0 := None\<rparr>) idle_timers 3 (Some [1]) \<lparr>tv_sec = 0, tv_usec = 0\<rparr> = Some (Some True, s1, t1)"
    by (simp add: LcdInit_def Let_def LcdInitialized_def SetTimerCallback_def TimerInit_def timerCallbackInit_def MAX_CALLBACKS_def)
  moreover have "unat (counter idle_timers) + 25 < 2 ^ 32" by (simp add: idle_timers_def)
  ultimately show ?thesis using display_refreshes [OF _ _ refl display_replicate] by blast
qed

text \<open>
  When the frame buffer cannot be mapped, \<^verbatim>\<open>LcdCloseDevices\<close> does nothing, because the display does not
  count as initialized: the descriptor stays open, and each further attempt opens another one.
\<close>

theorem failed_init_leaks:
  assumes "\<not> LcdInitialized s" and "fd \<noteq> - 1"
  obtains s1 where "LcdInit s t fd None now = Some (Some False, s1, t)" "DispFile s1 = fd" "\<not> LcdInitialized s1"
  using assms by (simp add: LcdInit_def Let_def LcdCloseDevices_def LcdInitialized_def)

end
