(* ===== verification/LcdText.thy ===== *)
theory LcdText
  imports LcdDev
begin

text \<open>
  Text on the display: the fonts, characters and strings of \<^verbatim>\<open>src/util/cat/ev3_lcd.c\<close>, the printing
  with a cursor of \<^verbatim>\<open>LcdPrintf\<close>, and the program \<^verbatim>\<open>src/util/cat/cat.c\<close> that copies its input to the
  display. The arrays of the four \<^verbatim>\<open>_font.xbm\<close> files are an argument. What \<^verbatim>\<open>vasprintf\<close> makes of format
  and arguments is the text to print; it ends at the first NUL.
\<close>

section \<open>Fonts\<close>

record FONTINFO =
  pFontBits :: "u8 list"
  FontHeight :: nat
  FontWidth :: int
  FontHorz :: int
  FontFirst :: u8
  FontLast :: u8

definition FontInfo :: "(u8 \<Rightarrow> u8 list) \<Rightarrow> u8 \<Rightarrow> FONTINFO option" where
  "FontInfo font_bits t =
    (if t = 0 then Some \<lparr>pFontBits = font_bits t, FontHeight = 9, FontWidth = 8, FontHorz = 16, FontFirst = 0x20, FontLast = 0x7F\<rparr>
     else if t = 1 then Some \<lparr>pFontBits = font_bits t, FontHeight = 8, FontWidth = 8, FontHorz = 16, FontFirst = 0x20, FontLast = 0x7F\<rparr>
     else if t = 2 then Some \<lparr>pFontBits = font_bits t, FontHeight = 16, FontWidth = 16, FontHorz = 16, FontFirst = 0x20, FontLast = 0x7F\<rparr>
     else if t = 3 then Some \<lparr>pFontBits = font_bits t, FontHeight = 7, FontWidth = 5, FontHorz = 16, FontFirst = 0x20, FontLast = 0x7F\<rparr>
     else None)"

section \<open>Characters\<close>

text \<open>A character that starts at a byte: one row of bytes, and the rows.\<close>

fun char_bytes :: "u8 list \<Rightarrow> int \<Rightarrow> bool \<Rightarrow> int \<Rightarrow> int list \<Rightarrow> image \<Rightarrow> image option" where
  "char_bytes bits CharByteIndex Color LcdByteIndex [] pImage = Some pImage"
| "char_bytes bits CharByteIndex Color LcdByteIndex (Tmp # Tmps) pImage =
    do {
      pImage \<leftarrow>
        (if LcdByteIndex < LCD_BUFFER_SIZE
         then do {
           b \<leftarrow> peek bits (CharByteIndex + Tmp);
           poke pImage (LcdByteIndex + Tmp) (if Color then b else NOT b)
         }
         else Some pImage);
      char_bytes bits CharByteIndex Color LcdByteIndex Tmps pImage
    }"

fun char_aligned :: "nat \<Rightarrow> FONTINFO \<Rightarrow> int \<Rightarrow> bool \<Rightarrow> int \<Rightarrow> image \<Rightarrow> image option" where
  "char_aligned 0 fi CharByteIndex Color LcdByteIndex pImage = Some pImage"
| "char_aligned (Suc h) fi CharByteIndex Color LcdByteIndex pImage =
    do {
      pImage \<leftarrow> char_bytes (pFontBits fi) CharByteIndex Color LcdByteIndex [0..max 1 (FontWidth fi div 8) - 1] pImage;
      char_aligned h fi (short (CharByteIndex + FontWidth fi * FontHorz fi div 8)) Color
        (short (LcdByteIndex + LCD_BYTE_WIDTH)) pImage
    }"

fun char_unaligned :: "nat \<Rightarrow> FONTINFO \<Rightarrow> int \<Rightarrow> bool \<Rightarrow> int \<Rightarrow> int \<Rightarrow> int \<Rightarrow> image \<Rightarrow> image option" where
  "char_unaligned 0 fi CharByteIndex Color X0 MaxX Y0 pImage = Some pImage"
| "char_unaligned (Suc h) fi CharByteIndex Color X0 MaxX Y0 pImage =
    do {
      pImage \<leftarrow> draw_row (pFontBits fi) (map (\<lambda>x. CharByteIndex + x) [0..(FontWidth fi + 7) div 8 - 1]) Color X0 MaxX Y0 pImage;
      char_unaligned h fi (short (CharByteIndex + (FontWidth fi + 7) div 8 * FontHorz fi)) Color X0 MaxX
        (short (Y0 + 1)) pImage
    }"

definition dLcdDrawChar ::
    "(u8 \<Rightarrow> u8 list) \<Rightarrow> image \<Rightarrow> bool \<Rightarrow> int \<Rightarrow> int \<Rightarrow> u8 \<Rightarrow> u8 \<Rightarrow> image option" where
  "dLcdDrawChar font_bits pImage Color X0 Y0 Font Chr =
    do {
      fi \<leftarrow> FontInfo font_bits Font;
      if FontFirst fi \<le> Chr \<and> Chr \<le> FontLast fi then
        let c = uint (Chr - FontFirst fi);
            bw = (FontWidth fi + 7) div 8;
            CharByteIndex = short (short (c mod FontHorz fi * bw) + c div FontHorz fi * bw * int (FontHeight fi) * FontHorz fi)
        in
        if FontWidth fi mod 8 = 0 \<and> X0 mod 8 = 0
        then char_aligned (FontHeight fi) fi CharByteIndex Color (short (X0 div 8 + Y0 * LCD_BYTE_WIDTH)) pImage
        else char_unaligned (FontHeight fi) fi CharByteIndex Color X0 (short (X0 + FontWidth fi)) Y0 pImage
      else Some pImage
    }"

fun dLcdDrawText ::
    "(u8 \<Rightarrow> u8 list) \<Rightarrow> image \<Rightarrow> bool \<Rightarrow> int \<Rightarrow> int \<Rightarrow> u8 \<Rightarrow> u8 list \<Rightarrow> image option" where
  "dLcdDrawText font_bits pImage Color X0 Y0 Font [] = Some pImage"
| "dLcdDrawText font_bits pImage Color X0 Y0 Font (c # pText) =
    do {
      fi \<leftarrow> FontInfo font_bits Font;
      if X0 < LCD_WIDTH - FontWidth fi then
        do {
          pImage \<leftarrow> dLcdDrawChar font_bits pImage Color X0 Y0 Font c;
          dLcdDrawText font_bits pImage Color (short (X0 + FontWidth fi)) Y0 Font pText
        }
      else dLcdDrawText font_bits pImage Color X0 Y0 Font pText
    }"

definition LcdText ::
    "(u8 \<Rightarrow> u8 list) \<Rightarrow> LCDGlobals \<Rightarrow> bool \<Rightarrow> int \<Rightarrow> int \<Rightarrow> u8 list \<Rightarrow> (bool \<times> LCDGlobals) option" where
  "LcdText font_bits s Color X Y Text =
    (if \<not> LcdInitialized s then Some (False, s)
     else do {
       s \<leftarrow> on_display (\<lambda>img. dLcdDrawText font_bits img Color X Y (currentFont s) Text) s;
       Some (True, set_dirty s)
     })"

section \<open>Printing with a cursor\<close>

text \<open>The static variables of \<^verbatim>\<open>LcdPrintf\<close>.\<close>

record cursor =
  X0 :: int
  Y0 :: int
  indent :: int

definition TAB_SIZE :: int where [simp]: "TAB_SIZE = 2"

text \<open>One character: the line is broken first when the next character does not fit.\<close>

definition wrap_line :: "FONTINFO \<Rightarrow> cursor \<Rightarrow> cursor" where
  "wrap_line fi k =
    (let k = (if indent k = TAB_SIZE then k\<lparr>indent := 0\<rparr> else k)
     in if \<not> (0 \<le> X0 k \<and> X0 k < LCD_WIDTH - FontWidth fi)
        then k\<lparr>Y0 := short (Y0 k + int (FontHeight fi)), X0 := 0\<rparr> else k)"

definition print_char ::
    "(u8 \<Rightarrow> u8 list) \<Rightarrow> FONTINFO \<Rightarrow> u8 \<Rightarrow> bool \<Rightarrow> u8 \<Rightarrow> cursor \<Rightarrow> image \<Rightarrow> (cursor \<times> image) option" where
  "print_char font_bits fi font Color c k pImage =
    (let k = wrap_line fi k;
         done = (\<lambda>k. k\<lparr>indent := short (indent k + 1)\<rparr>)
     in
     if c = 10 then Some (done (k\<lparr>Y0 := short (Y0 k + int (FontHeight fi) + 2), X0 := 0\<rparr>), pImage)
     else if c = 13 then Some (done (k\<lparr>X0 := 0\<rparr>), pImage)
     else if c = 8 then Some (done (k\<lparr>X0 := short (X0 k - FontWidth fi)\<rparr>), pImage)
     else if c = 11 then Some (done (k\<lparr>Y0 := short (Y0 k + int (FontHeight fi) + 1)\<rparr>), pImage)
     else if c = 12 then Some (done (k\<lparr>X0 := 0, Y0 := 0\<rparr>), pImage)
     else if c = 9 then Some (done (k\<lparr>X0 := short (X0 k + FontWidth fi * (TAB_SIZE - indent k))\<rparr>), pImage)
     else
       do {
         let k = k\<lparr>indent := short (indent k + 1)\<rparr>;
         pImage \<leftarrow> dLcdDrawChar font_bits pImage Color (X0 k) (Y0 k) font c;
         Some (done (k\<lparr>X0 := short (X0 k + FontWidth fi)\<rparr>), pImage)
       })"

fun print_chars ::
    "(u8 \<Rightarrow> u8 list) \<Rightarrow> FONTINFO \<Rightarrow> u8 \<Rightarrow> bool \<Rightarrow> u8 list \<Rightarrow> cursor \<Rightarrow> image \<Rightarrow> (cursor \<times> image) option" where
  "print_chars font_bits fi font Color [] k pImage = Some (k, pImage)"
| "print_chars font_bits fi font Color (c # cs) k pImage =
    do {
      (k, pImage) \<leftarrow> print_char font_bits fi font Color c k pImage;
      print_chars font_bits fi font Color cs k pImage
    }"

definition LcdPrintf ::
    "(u8 \<Rightarrow> u8 list) \<Rightarrow> bool \<Rightarrow> u8 list \<Rightarrow> LCDGlobals \<times> cursor \<Rightarrow> (int \<times> LCDGlobals \<times> cursor) option" where
  "LcdPrintf font_bits color buf = (\<lambda>(s, k).
    (if \<not> LcdInitialized s then Some (- 1, s, k)
     else if \<not> pLcd s then None
     else do {
       fi \<leftarrow> FontInfo font_bits (currentFont s);
       (k, img) \<leftarrow> print_chars font_bits fi (currentFont s) color buf k (displayBuf s);
       Some (int (length buf), set_dirty (s\<lparr>displayBuf := img\<rparr>), k)
     }))"

section \<open>cat.c\<close>

text \<open>
  The input as what the calls of \<^verbatim>\<open>fgets\<close> give: a piece of at most 79 bytes, or an interruption by a
  signal, after which the program calls again; then the end of the input. The output is what \<^verbatim>\<open>printf\<close>
  writes to the standard output.
\<close>

datatype fgets_result = Line "u8 list" | Interrupted

definition c_text :: "u8 list \<Rightarrow> u8 list" where
  "c_text buffer = takeWhile (\<lambda>c. c \<noteq> 0) buffer"

fun cat_loop ::
    "(u8 \<Rightarrow> u8 list) \<Rightarrow> fgets_result list \<Rightarrow> LCDGlobals \<times> cursor \<Rightarrow> (u8 list \<times> LCDGlobals \<times> cursor) option" where
  "cat_loop font_bits [] s = Some ([], s)"
| "cat_loop font_bits (Interrupted # input) s = cat_loop font_bits input s"
| "cat_loop font_bits (Line buffer # input) s =
    do {
      (_, s) \<leftarrow> LcdPrintf font_bits True (c_text buffer) s;
      (out, s) \<leftarrow> cat_loop font_bits input s;
      Some (c_text buffer @ out, s)
    }"

text \<open>The output, and the state before \<^verbatim>\<open>LcdExit\<close> and after it.\<close>

definition cat_main ::
    "(u8 \<Rightarrow> u8 list) \<Rightarrow> LCDGlobals \<Rightarrow> callback timers \<Rightarrow> int \<Rightarrow> u8 list option \<Rightarrow> timeval \<Rightarrow> fgets_result list
      \<Rightarrow> (u8 list \<times> LCDGlobals \<times> LCDGlobals) option" where
  "cat_main font_bits s t opened mapped now input =
    do {
      (_, s, t) \<leftarrow> LcdInit s t opened mapped now;
      (_, s) \<leftarrow> LcdClean s;
      (_, s) \<leftarrow> LcdPrintf font_bits True (bytes '':)'') (s, \<lparr>X0 = 0, Y0 = 0, indent = 0\<rparr>);
      (_, s) \<leftarrow> LcdPrintf font_bits True (bytes '':)'') s;
      (out, s) \<leftarrow> cat_loop font_bits input s;
      (_, s, k) \<leftarrow> LcdPrintf font_bits True (bytes ''-----'') s;
      Some (out @ bytes ''-----'', s, snd (LcdExit s))
    }"

section \<open>Drawing text stays in the buffer\<close>


lemma draw_bits_defined:
  "display img \<Longrightarrow> \<exists>x' img'. draw_bits n b c x mx y img = Some (x', img') \<and> display img'"
proof (induction n arbitrary: b x img)
  case (Suc n)
  obtain img1 where "dLcdDrawPixel img (if b AND 1 \<noteq> 0 then c else \<not> c) x y = Some img1" "display img1"
    by (rule dLcdDrawPixel_canvas [OF Suc.prems])
  then show ?case using Suc.IH [of img1 "drop_bit 1 b" "short (x + 1)"] Suc.prems by (cases "x < mx") simp_all
qed simp

lemma draw_row_defined:
  "display img \<Longrightarrow> \<forall>i\<in>set is. 0 \<le> i \<and> i < int (length bits)
    \<Longrightarrow> \<exists>img'. draw_row bits is c x mx y img = Some img' \<and> display img'"
proof (induction "is" arbitrary: x img)
  case (Cons i "is")
  obtain x1 img1 where "draw_bits 8 (bits ! nat i) c x mx y img = Some (x1, img1)" "display img1"
    using draw_bits_defined [OF Cons.prems(1)] by metis
  then show ?case using Cons.IH [of img1 x1] Cons.prems(2) by (auto simp: peek_def)
qed simp

text \<open>The normal font: all rows of a character are in its bits.\<close>

definition normal :: "FONTINFO \<Rightarrow> bool" where
  "normal fi \<longleftrightarrow> FontHeight fi = 9 \<and> FontWidth fi = 8 \<and> FontHorz fi = 16 \<and> FontFirst fi = 0x20
     \<and> FontLast fi = 0x7F \<and> 864 \<le> length (pFontBits fi)"

lemma FontInfo_normal:
  "864 \<le> length (font_bits 0) \<Longrightarrow> \<exists>fi. FontInfo font_bits 0 = Some fi \<and> normal fi"
  by (simp add: FontInfo_def normal_def)

lemma char_aligned_defined:
  assumes "normal fi"
  shows "display img \<Longrightarrow> 0 \<le> cbi \<Longrightarrow> cbi + 16 * int h - 16 < 864 \<Longrightarrow> 0 \<le> lbi \<Longrightarrow> lbi + 23 * int h \<le> 32767
    \<Longrightarrow> \<exists>img'. char_aligned h fi cbi c lbi img = Some img' \<and> display img'"
proof (induction h arbitrary: cbi lbi img)
  case (Suc h)
  have "\<exists>img1. char_bytes (pFontBits fi) cbi c lbi [0..max 1 (FontWidth fi div 8) - 1] img = Some img1 \<and> display img1"
    using assms Suc.prems by (auto simp: normal_def peek_def poke_def display_def upto.simps)
  then obtain img1 where 1: "char_bytes (pFontBits fi) cbi c lbi [0..max 1 (FontWidth fi div 8) - 1] img = Some img1"
    "display img1" by blast
  have "short (cbi + FontWidth fi * FontHorz fi div 8) = cbi + 16" "short (lbi + LCD_BYTE_WIDTH) = lbi + 23"
    using assms Suc.prems by (simp_all add: normal_def)
  then show ?case using 1(1) Suc.IH [OF 1(2), of "cbi + 16" "lbi + 23"] Suc.prems by simp
qed simp

lemma char_unaligned_defined:
  assumes "normal fi"
  shows "display img \<Longrightarrow> 0 \<le> cbi \<Longrightarrow> cbi + 16 * int h - 16 < 864
    \<Longrightarrow> \<exists>img'. char_unaligned h fi cbi c x mx y img = Some img' \<and> display img'"
proof (induction h arbitrary: cbi y img)
  case (Suc h)
  have "\<forall>i\<in>set (map (\<lambda>x. cbi + x) [0..(FontWidth fi + 7) div 8 - 1]). 0 \<le> i \<and> i < int (length (pFontBits fi))"
    using assms Suc.prems by (auto simp: normal_def)
  from draw_row_defined [OF Suc.prems(1) this] obtain img1 where
    1: "draw_row (pFontBits fi) (map (\<lambda>x. cbi + x) [0..(FontWidth fi + 7) div 8 - 1]) c x mx y img = Some img1"
    "display img1" by blast
  have "short (cbi + (FontWidth fi + 7) div 8 * FontHorz fi) = cbi + 16"
    using assms Suc.prems by (simp add: normal_def)
  then show ?case using 1(1) Suc.IH [OF 1(2), of "cbi + 16"] Suc.prems by simp
qed simp

lemma dLcdDrawChar_defined:
  assumes "FontInfo font_bits font = Some fi" and "normal fi" and "display img"
    and "0 \<le> x" and "x < 176" and "0 \<le> y" and "y \<le> 1414"
  shows "\<exists>img'. dLcdDrawChar font_bits img c x y font ch = Some img' \<and> display img'"
proof (cases "FontFirst fi \<le> ch \<and> ch \<le> FontLast fi")
  case True
  define n where "n = uint (ch - 0x20)"
  have "uint ch - 32 = n"
    using True assms(2) by (simp add: n_def normal_def word_le_def uint_word_ariths mod_pos_pos_trivial)
  then have n: "0 \<le> n" "n < 96" using True assms(2) by (auto simp: normal_def word_le_def)
  define cbi where "cbi = short (n mod 16 + 144 * (n div 16))"
  have cbi: "0 \<le> cbi" "cbi \<le> 735"
  proof -
    have "0 \<le> n div 16" "n div 16 \<le> 5" "0 \<le> n mod 16" "n mod 16 \<le> 15" using n by auto
    then show "0 \<le> cbi" "cbi \<le> 735" by (simp_all add: cbi_def)
  qed
  have lbi: "short (x div 8 + y * LCD_BYTE_WIDTH) = x div 8 + y * 23" "0 \<le> x div 8" "x div 8 \<le> 21"
    using assms(4-7) by (simp_all add: pos_imp_zdiv_nonneg_iff)
  show ?thesis
    using True assms(1,2,6,7) lbi cbi
      char_aligned_defined [OF assms(2,3), of cbi 9 "x div 8 + y * 23" c]
      char_unaligned_defined [OF assms(2,3), of cbi 9 c x _ y]
    by (auto simp: dLcdDrawChar_def Let_def normal_def n_def [symmetric] cbi_def [symmetric])
qed (use assms in \<open>auto simp: dLcdDrawChar_def\<close>)

section \<open>How far down the cursor gets\<close>

text \<open>
  Text without tabs, backspaces and feeds keeps the cursor at a byte within the line. \<open>depth\<close> counts
  a row of pixels as 176 and a column as 9, so that breaking a full line does not raise it; a
  character raises it by its \<open>cost\<close>.
\<close>

definition plain :: "u8 \<Rightarrow> bool" where
  "plain c \<longleftrightarrow> c \<noteq> 8 \<and> c \<noteq> 9 \<and> c \<noteq> 11 \<and> c \<noteq> 12"

definition cost :: "u8 \<Rightarrow> int" where
  "cost c = (if c = 10 then 1936 else 72)"

definition depth :: "cursor \<Rightarrow> int" where
  "depth k = 176 * Y0 k + 9 * X0 k"

definition tidy :: "cursor \<Rightarrow> bool" where
  "tidy k \<longleftrightarrow> 8 dvd X0 k \<and> 0 \<le> X0 k \<and> X0 k \<le> 176 \<and> 0 \<le> Y0 k"

definition max_depth :: int where "max_depth = 248864"

lemma cost_pos: "0 < cost c"
  by (simp add: cost_def)

lemma sum_cost_nonneg: "0 \<le> (\<Sum>c\<leftarrow>cs. cost c)"
  by (induction cs) (use cost_pos in \<open>auto simp: less_imp_le add_nonneg_nonneg\<close>)

lemma wrap_line_tidy:
  assumes "normal fi" and "tidy k" and "depth k \<le> max_depth"
  shows "tidy (wrap_line fi k) \<and> depth (wrap_line fi k) \<le> depth k \<and> X0 (wrap_line fi k) \<le> 168
    \<and> Y0 (wrap_line fi k) \<le> 1414"
proof (cases "X0 k < 170")
  case True
  moreover have "X0 k \<le> 168" using True assms(2) by (auto simp: tidy_def dvd_def)
  ultimately show ?thesis
    using assms by (auto simp: wrap_line_def Let_def normal_def tidy_def depth_def max_depth_def)
next
  case False
  then have "X0 k = 176" using assms(2) by (auto simp: tidy_def dvd_def)
  then show ?thesis
    using assms by (auto simp: wrap_line_def Let_def normal_def tidy_def depth_def max_depth_def)
qed

lemma print_char_plain:
  assumes "FontInfo font_bits font = Some fi" and "normal fi" and "display img"
    and "tidy k" and "depth k \<le> max_depth" and "plain c"
  shows "\<exists>k' img'. print_char font_bits fi font col c k img = Some (k', img')
    \<and> display img' \<and> tidy k' \<and> depth k' \<le> depth k + cost c"
proof -
  define k1 where "k1 = wrap_line fi k"
  have k1: "tidy k1" "depth k1 \<le> depth k" "X0 k1 \<le> 168" "Y0 k1 \<le> 1414"
    using wrap_line_tidy [OF assms(2,4,5)] by (simp_all add: k1_def)
  obtain img' where draw: "dLcdDrawChar font_bits img col (X0 k1) (Y0 k1) font c = Some img'" "display img'"
    using dLcdDrawChar_defined [OF assms(1-3), of "X0 k1" "Y0 k1" col c] k1 by (auto simp: tidy_def)
  consider "c = 10" | "c = 13" | "c \<noteq> 10" "c \<noteq> 13" by blast
  then show ?thesis
  proof cases
    case 1
    then show ?thesis using k1 assms(2,3)
      by (auto simp: print_char_def Let_def k1_def [symmetric] tidy_def depth_def cost_def normal_def)
  next
    case 2
    then show ?thesis using k1 assms(2,3)
      by (auto simp: print_char_def Let_def k1_def [symmetric] tidy_def depth_def cost_def normal_def)
  next
    case 3
    then show ?thesis using k1 assms(2,6) draw
      by (auto simp: print_char_def Let_def k1_def [symmetric] tidy_def depth_def cost_def normal_def plain_def)
  qed
qed

lemma print_chars_plain:
  assumes "FontInfo font_bits font = Some fi" and "normal fi"
  shows "display img \<Longrightarrow> tidy k \<Longrightarrow> depth k + (\<Sum>c\<leftarrow>cs. cost c) \<le> max_depth \<Longrightarrow> list_all plain cs
    \<Longrightarrow> \<exists>k' img'. print_chars font_bits fi font col cs k img = Some (k', img')
      \<and> display img' \<and> tidy k' \<and> depth k' \<le> depth k + (\<Sum>c\<leftarrow>cs. cost c)"
proof (induction cs arbitrary: k img)
  case (Cons c cs)
  have "depth k \<le> max_depth" using Cons.prems(3) cost_pos [of c] sum_cost_nonneg [of cs] by simp
  then obtain k1 img1 where 1: "print_char font_bits fi font col c k img = Some (k1, img1)" "display img1"
    "tidy k1" "depth k1 \<le> depth k + cost c"
    using print_char_plain [OF assms Cons.prems(1,2)] Cons.prems(4) by fastforce
  have "depth k1 + (\<Sum>c\<leftarrow>cs. cost c) \<le> max_depth" using 1(4) Cons.prems(3) by simp
  then show ?case using 1 Cons.IH [OF 1(2,3)] Cons.prems(4) by fastforce
qed simp

text \<open>The display is open and shows the normal font, as after \<^verbatim>\<open>LcdClean\<close>.\<close>

definition printing :: "LCDGlobals \<times> cursor \<Rightarrow> bool" where
  "printing sk \<longleftrightarrow> LcdInitialized (fst sk) \<and> 0 \<le> DispFile (fst sk) \<and> pLcd (fst sk) \<and> display (displayBuf (fst sk))
     \<and> currentFont (fst sk) = 0 \<and> tidy (snd sk)"

lemma LcdPrintf_plain:
  assumes "864 \<le> length (font_bits 0)" and "printing sk" and "list_all plain cs"
    and "depth (snd sk) + (\<Sum>c\<leftarrow>cs. cost c) \<le> max_depth"
  obtains s' k' where "LcdPrintf font_bits col cs sk = Some (int (length cs), s', k')" "printing (s', k')"
    "depth k' \<le> depth (snd sk) + (\<Sum>c\<leftarrow>cs. cost c)"
proof -
  obtain s k where sk: "sk = (s, k)" by (cases sk)
  obtain fi where fi: "FontInfo font_bits 0 = Some fi" "normal fi" using FontInfo_normal [where font_bits = font_bits, OF assms(1)] by blast
  obtain k' img' where p: "print_chars font_bits fi 0 col cs k (displayBuf s) = Some (k', img')" "display img'"
    "tidy k'" "depth k' \<le> depth k + (\<Sum>c\<leftarrow>cs. cost c)"
    using print_chars_plain [OF fi, of "displayBuf s" k cs col] assms by (auto simp: sk printing_def)
  show ?thesis
  proof (rule that [of "set_dirty (s\<lparr>displayBuf := img'\<rparr>)" k'])
    show "LcdPrintf font_bits col cs sk = Some (int (length cs), set_dirty (s\<lparr>displayBuf := img'\<rparr>), k')"
      using assms(2) fi(1) p(1) by (simp add: LcdPrintf_def sk printing_def)
    show "printing (set_dirty (s\<lparr>displayBuf := img'\<rparr>), k')"
      using assms(2) p by (simp add: sk printing_def set_dirty_def LcdInitialized_def)
  qed (use p(4) in \<open>simp add: sk\<close>)
qed

section \<open>cat copies its input\<close>

fun lines_of :: "fgets_result list \<Rightarrow> u8 list" where
  "lines_of [] = []"
| "lines_of (Line b # input) = c_text b @ lines_of input"
| "lines_of (Interrupted # input) = lines_of input"

lemma cat_loop_plain:
  assumes "864 \<le> length (font_bits 0)"
  shows "printing sk \<Longrightarrow> list_all plain (lines_of input)
    \<Longrightarrow> depth (snd sk) + (\<Sum>c\<leftarrow>lines_of input. cost c) \<le> max_depth
    \<Longrightarrow> \<exists>sk'. cat_loop font_bits input sk = Some (lines_of input, sk') \<and> printing sk'
      \<and> depth (snd sk') \<le> depth (snd sk) + (\<Sum>c\<leftarrow>lines_of input. cost c)"
proof (induction input arbitrary: sk rule: lines_of.induct)
  case (2 b input)
  have "depth (snd sk) + (\<Sum>c\<leftarrow>c_text b. cost c) \<le> max_depth"
    using "2.prems"(3) sum_cost_nonneg [of "lines_of input"] by simp
  then obtain s1 k1 where 1: "LcdPrintf font_bits True (c_text b) sk = Some (int (length (c_text b)), s1, k1)"
    "printing (s1, k1)" "depth k1 \<le> depth (snd sk) + (\<Sum>c\<leftarrow>c_text b. cost c)"
    using LcdPrintf_plain [where font_bits = font_bits, OF assms "2.prems"(1), of "c_text b" True] "2.prems"(2) by auto
  obtain sk' where "cat_loop font_bits input (s1, k1) = Some (lines_of input, sk')" "printing sk'"
    "depth (snd sk') \<le> depth k1 + (\<Sum>c\<leftarrow>lines_of input. cost c)"
    using "2.IH" [OF 1(2)] "2.prems"(2,3) 1(3) by auto
  then show ?case using 1 by simp
qed auto

lemma LcdPrintf_closed: "\<not> LcdInitialized s \<Longrightarrow> LcdPrintf font_bits col cs (s, k) = Some (- 1, s, k)"
  by (simp add: LcdPrintf_def)

lemma cat_loop_closed:
  "\<not> LcdInitialized s \<Longrightarrow> cat_loop font_bits input (s, k) = Some (lines_of input, s, k)"
  by (induction input rule: lines_of.induct) (simp_all add: LcdPrintf_closed)

lemma LcdPrintf_text:
  assumes "864 \<le> length (font_bits 0)" and "printing sk" and "list_all plain (bytes t)"
    and "depth (snd sk) + (\<Sum>c\<leftarrow>bytes t. cost c) \<le> d" and "d \<le> max_depth"
  shows "\<exists>sk'. LcdPrintf font_bits col (bytes t) sk = Some (int (length t), sk') \<and> printing sk' \<and> depth (snd sk') \<le> d"
proof -
  obtain s' k' where "LcdPrintf font_bits col (bytes t) sk = Some (int (length (bytes t)), s', k')" "printing (s', k')"
    "depth k' \<le> depth (snd sk) + (\<Sum>c\<leftarrow>bytes t. cost c)"
    using assms by (elim LcdPrintf_plain [where font_bits = font_bits]) auto
  then show ?thesis using assms(4) by auto
qed

text \<open>The two smiles at the start, and the opened and cleared display.\<close>

lemma smiles:
  assumes "printing (s, \<lparr>X0 = 0, Y0 = 0, indent = 0\<rparr>)" and "864 \<le> length (font_bits 0)"
  obtains sk1 sk2 where
    "LcdPrintf font_bits True (bytes '':)'') (s, \<lparr>X0 = 0, Y0 = 0, indent = 0\<rparr>) = Some (2, sk1)"
    "LcdPrintf font_bits True (bytes '':)'') sk1 = Some (2, sk2)" "printing sk2" "depth (snd sk2) \<le> 288"
proof -
  have smile: "list_all plain (bytes '':)'')" "(\<Sum>c\<leftarrow>bytes '':)''. cost c) = 144"
    by (simp_all add: bytes_def plain_def cost_def)
  obtain sk1 where 1: "LcdPrintf font_bits True (bytes '':)'') (s, \<lparr>X0 = 0, Y0 = 0, indent = 0\<rparr>) = Some (2, sk1)"
    "printing sk1" "depth (snd sk1) \<le> 144"
    using LcdPrintf_text [where font_bits = font_bits, OF assms(2,1) smile(1), of 144 True]
    by (auto simp: smile depth_def max_depth_def)
  obtain sk2 where "LcdPrintf font_bits True (bytes '':)'') sk1 = Some (2, sk2)"
    "printing sk2" "depth (snd sk2) \<le> 288"
    using LcdPrintf_text [where font_bits = font_bits, OF assms(2) 1(2) smile(1), of 288 True] 1(3)
    by (auto simp: smile max_depth_def)
  then show ?thesis using 1(1) that by blast
qed

lemma opened_display:
  assumes "\<not> LcdInitialized s" and "display (displayBuf s)" and "0 \<le> fd" and "mapped = Some fb"
  obtains s1 t1 s2 where "LcdInit s t fd mapped now = Some (Some True, s1, t1)" "LcdClean s1 = Some (True, s2)"
    "printing (s2, \<lparr>X0 = 0, Y0 = 0, indent = 0\<rparr>)"
proof -
  obtain s1 t1 where 1: "LcdInit s t fd mapped now = Some (Some True, s1, t1)" "DispFile s1 = fd" "pFB0 s1 = Some fb"
    "pLcd s1" "displayBuf s1 = displayBuf s"
    using assms by (auto simp: LcdInit_def Let_def SetTimerCallback_def TimerInit_def
        timerCallbackInit_def MAX_CALLBACKS_def)
  obtain s2 where "LcdClean s1 = Some (True, s2)" "printing (s2, \<lparr>X0 = 0, Y0 = 0, indent = 0\<rparr>)"
    using 1 assms(2,3)
    by (auto simp: LcdClean_def LcdInitialized_def on_display_def mem_set_def put_at_def display_def set_dirty_def
        printing_def tidy_def)
  then show ?thesis using 1(1) that by blast
qed

lemma cat_main_opened:
  assumes "printing (s, \<lparr>X0 = 0, Y0 = 0, indent = 0\<rparr>)" and "864 \<le> length (font_bits 0)"
    and "list_all plain (lines_of input)" and "(\<Sum>c\<leftarrow>lines_of input. cost c) \<le> 248000"
  shows "\<exists>s1. do {
      (_, s) \<leftarrow> LcdPrintf font_bits True (bytes '':)'') (s, \<lparr>X0 = 0, Y0 = 0, indent = 0\<rparr>);
      (_, s) \<leftarrow> LcdPrintf font_bits True (bytes '':)'') s;
      (out, s) \<leftarrow> cat_loop font_bits input s;
      (_, s, k) \<leftarrow> LcdPrintf font_bits True (bytes ''-----'') s;
      Some (out @ bytes ''-----'', s, snd (LcdExit s))
    } = Some (lines_of input @ bytes ''-----'', s1, snd (LcdExit s1)) \<and> display (displayBuf s1) \<and> 0 \<le> DispFile s1"
proof -
  have dashes: "list_all plain (bytes ''-----'')" "(\<Sum>c\<leftarrow>bytes ''-----''. cost c) = 360"
    by (simp_all add: bytes_def plain_def cost_def)
  obtain sk1 sk2 where 1: "LcdPrintf font_bits True (bytes '':)'') (s, \<lparr>X0 = 0, Y0 = 0, indent = 0\<rparr>) = Some (2, sk1)"
    and 2: "LcdPrintf font_bits True (bytes '':)'') sk1 = Some (2, sk2)"  "printing sk2" "depth (snd sk2) \<le> 288"
    by (rule smiles [where font_bits = font_bits, OF assms(1,2)])
  obtain sk3 where 3: "cat_loop font_bits input sk2 = Some (lines_of input, sk3)"
    "printing sk3" "depth (snd sk3) \<le> 288 + 248000"
    using cat_loop_plain [where font_bits = font_bits, OF assms(2) 2(2) assms(3)] 2(3) assms(4)
    by (fastforce simp: max_depth_def)
  obtain sk4 where 4: "LcdPrintf font_bits True (bytes ''-----'') sk3 = Some (5, sk4)" "printing sk4"
    using LcdPrintf_text [where font_bits = font_bits, OF assms(2) 3(2) dashes(1), of 248648 True] 3(3)
    by (auto simp: dashes max_depth_def)
  show ?thesis using 1 2 3 4 by (cases sk4) (auto simp: printing_def)
qed

lemma LcdInit_closed:
  assumes "\<not> LcdInitialized s" and "fd = - 1 \<or> mapped = None"
  shows "LcdInit s t fd mapped now = Some (if fd = - 1 then None else Some False,
    s\<lparr>autoRefresh := True, Dirty := False, pFB0 := None, DispFile := fd, pLcd := False, currentFont := 0\<rparr>, t)"
  using assms by (auto simp: LcdInit_def Let_def LcdCloseDevices_def LcdInitialized_def split: option.split)

lemma LcdExit_closed: "DispFile s \<ge> 0 \<or> \<not> LcdInitialized s \<Longrightarrow> \<not> LcdInitialized (snd (LcdExit s))"
  by (auto simp: LcdExit_def LcdCloseDevices_def LcdInitialized_def)

text \<open>
  C20: \<^verbatim>\<open>cat\<close> copies its input to the standard output: it prints exactly the lines it reads, also when
  reads are interrupted by the timer signals, and the final dashes. Without a display it does so for any
  input. With a display it does so, and stores nothing outside of the display buffer, for text without
  tabs, backspaces and feeds as long as the cursor, which only moves down, cannot get below row 1414:
  a line break counts 1936, any other character 72, together at most 248000.
\<close>

theorem cat_copies:
  assumes "\<not> LcdInitialized s" and "display (displayBuf s)" and "864 \<le> length (font_bits 0)" and "- 1 \<le> fd"
    and "fd = - 1 \<or> mapped = None
      \<or> list_all plain (lines_of input) \<and> (\<Sum>c\<leftarrow>lines_of input. cost c) \<le> 248000"
  shows "\<exists>s1 s2. cat_main font_bits s t fd mapped now input = Some (lines_of input @ bytes ''-----'', s1, s2)
    \<and> display (displayBuf s1) \<and> \<not> LcdInitialized s2"
proof (cases "fd = - 1 \<or> mapped = None")
  case True
  obtain r s1 where "LcdInit s t fd mapped now = Some (r, s1, t)" "\<not> LcdInitialized s1" "displayBuf s1 = displayBuf s"
    using LcdInit_closed [OF assms(1) True, of t now] True by (auto simp: LcdInitialized_def)
  then show ?thesis
    using assms(2) by (auto simp: cat_main_def LcdClean_def LcdPrintf_closed cat_loop_closed LcdExit_closed)
next
  case False
  then obtain fb where fb: "mapped = Some fb" and plain_text: "list_all plain (lines_of input)"
    "(\<Sum>c\<leftarrow>lines_of input. cost c) \<le> 248000" using assms(5) by auto
  obtain s1 t1 s2 where 1: "LcdInit s t fd mapped now = Some (Some True, s1, t1)"
    and 2: "LcdClean s1 = Some (True, s2)" "printing (s2, \<lparr>X0 = 0, Y0 = 0, indent = 0\<rparr>)"
    by (rule opened_display [OF assms(1,2), of fd mapped fb t now]) (use assms(4) False in \<open>auto simp: fb\<close>)
  obtain s3 where 3: "do {
      (_, s) \<leftarrow> LcdPrintf font_bits True (bytes '':)'') (s2, \<lparr>X0 = 0, Y0 = 0, indent = 0\<rparr>);
      (_, s) \<leftarrow> LcdPrintf font_bits True (bytes '':)'') s;
      (out, s) \<leftarrow> cat_loop font_bits input s;
      (_, s, k) \<leftarrow> LcdPrintf font_bits True (bytes ''-----'') s;
      Some (out @ bytes ''-----'', s, snd (LcdExit s))
    } = Some (lines_of input @ bytes ''-----'', s3, snd (LcdExit s3))" "display (displayBuf s3)" "0 \<le> DispFile s3"
    using cat_main_opened [where font_bits = font_bits, OF 2(2) assms(3) plain_text] by blast
  then show ?thesis using 1 2(1) by (simp add: cat_main_def LcdExit_closed)
qed

definition no_fonts :: "u8 \<Rightarrow> u8 list" where
  "no_fonts t = replicate 864 0"

definition unopened_lcd :: LCDGlobals where
  "unopened_lcd = \<lparr>Dirty = False, DispFile = 0, pFB0 = None, displayBuf = replicate 2944 0, pLcd = False,
     currentFont = 0, autoRefresh = True, hwBuffer = []\<rparr>"

theorem cat_copies_witness:
  "\<exists>s1 s2. cat_main no_fonts unopened_lcd idle_timers 3 (Some []) \<lparr>tv_sec = 0, tv_usec = 0\<rparr>
      [Line (bytes ''Hello\<newline>''), Interrupted, Line (bytes ''EV3'')]
    = Some (bytes ''Hello\<newline>EV3'' @ bytes ''-----'', s1, s2) \<and> \<not> LcdInitialized s2"
proof -
  have "lines_of [Line (bytes ''Hello\<newline>''), Interrupted, Line (bytes ''EV3'')] = bytes ''Hello\<newline>EV3''"
    by (simp add: c_text_def bytes_def)
  moreover have "list_all plain (bytes ''Hello\<newline>EV3'')" "(\<Sum>c\<leftarrow>bytes ''Hello\<newline>EV3''. cost c) \<le> 248000"
    by (simp_all add: bytes_def plain_def cost_def)
  moreover have "864 \<le> length (no_fonts 0)" by (simp only: no_fonts_def length_replicate)
  ultimately show ?thesis
    using cat_copies [of unopened_lcd no_fonts 3 "Some []" "[Line (bytes ''Hello\<newline>''), Interrupted, Line (bytes ''EV3'')]"
        idle_timers "\<lparr>tv_sec = 0, tv_usec = 0\<rparr>"]
    by (auto simp: unopened_lcd_def LcdInitialized_def)
qed

section \<open>A longer text is written before the display\<close>

lemma print_newline:
  assumes "normal fi" and "0 \<le> X0 k" and "X0 k < 170"
  obtains k' where "print_char font_bits fi 0 True 10 k img = Some (k', img)" "X0 k' = 0" "Y0 k' = short (Y0 k + 11)"
  using assms by (cases "indent k = 2") (simp_all add: print_char_def wrap_line_def Let_def normal_def add.commute)

lemma LcdPrintf_newline:
  assumes "864 \<le> length (font_bits 0)" and "printing sk" and "X0 (snd sk) < 170" and "Y0 (snd sk) \<le> 30000"
  obtains sk' where "LcdPrintf font_bits True [10] sk = Some (1, sk')" "printing sk'" "X0 (snd sk') = 0"
    "Y0 (snd sk') = Y0 (snd sk) + 11"
proof -
  obtain s k where sk: "sk = (s, k)" by (cases sk)
  obtain fi where fi: "FontInfo font_bits 0 = Some fi" "normal fi"
    using FontInfo_normal [where font_bits = font_bits, OF assms(1)] by blast
  obtain k' where k': "print_char font_bits fi 0 True 10 k (displayBuf s) = Some (k', displayBuf s)" "X0 k' = 0"
    "Y0 k' = short (Y0 k + 11)"
    by (rule print_newline [where k = k and img = "displayBuf s", OF fi(2)])
      (use assms(2,3) in \<open>auto simp: sk printing_def tidy_def\<close>)
  have "0 \<le> Y0 k" using assms(2) by (simp add: sk printing_def tidy_def)
  then have "Y0 k' = Y0 k + 11" using k'(3) assms(4) by (simp add: sk)
  then show ?thesis
    using assms(2) fi(1) k' \<open>0 \<le> Y0 k\<close>
    by (intro that [of "(set_dirty (s\<lparr>displayBuf := displayBuf s\<rparr>), k')"])
      (simp_all add: LcdPrintf_def sk printing_def set_dirty_def LcdInitialized_def tidy_def)
qed

lemma cat_loop_newlines:
  assumes "864 \<le> length (font_bits 0)"
  shows "printing sk \<Longrightarrow> X0 (snd sk) < 170 \<Longrightarrow> 0 < m \<Longrightarrow> Y0 (snd sk) + 11 * int m \<le> 30000
    \<Longrightarrow> \<exists>sk'. cat_loop font_bits (replicate m (Line [10]) @ rest) sk
        = map_option (\<lambda>(out, s). (replicate m 10 @ out, s)) (cat_loop font_bits rest sk')
      \<and> printing sk' \<and> X0 (snd sk') = 0 \<and> Y0 (snd sk') = Y0 (snd sk) + 11 * int m"
proof (induction m arbitrary: sk)
  case (Suc m)
  obtain sk1 where 1: "LcdPrintf font_bits True [10] sk = Some (1, sk1)" "printing sk1" "X0 (snd sk1) = 0"
    "Y0 (snd sk1) = Y0 (snd sk) + 11"
    by (rule LcdPrintf_newline [where font_bits = font_bits, OF assms Suc.prems(1,2)]) (use Suc.prems in auto)
  have c: "c_text [10] = [10]" by (simp add: c_text_def)
  show ?case
  proof (cases "m = 0")
    case True
    then show ?thesis using 1 c by (intro exI [of _ sk1]) (auto simp: map_option_case split: option.split)
  next
    case False
    with Suc.IH [OF 1(2)] 1(3,4) Suc.prems(4) obtain sk' where "printing sk'" "X0 (snd sk') = 0"
      "cat_loop font_bits (replicate m (Line [10]) @ rest) sk1
        = map_option (\<lambda>(out, s). (replicate m 10 @ out, s)) (cat_loop font_bits rest sk')"
      "Y0 (snd sk') = Y0 (snd sk1) + 11 * int m" by auto
    then show ?thesis using 1 c by (intro exI [of _ sk']) (auto simp: map_option_case split: option.split)
  qed
qed simp

lemma char_aligned_before:
  assumes "normal fi" and "lbi < 0"
  shows "char_aligned (Suc h) fi cbi c lbi img = None"
proof -
  have "[0..max 1 (FontWidth fi div 8) - 1] = [0]" using assms(1) by (simp add: normal_def)
  then show ?thesis using assms(2) by (cases "peek (pFontBits fi) (cbi + 0)") (simp_all add: poke_def)
qed

lemma draw_char_far_down:
  assumes "FontInfo font_bits 0 = Some fi" and "normal fi" and "display img" and "FontFirst fi \<le> c" and "c \<le> FontLast fi"
    and "1430 \<le> y" and "y \<le> 2849"
  shows "dLcdDrawChar font_bits img True 0 y 0 c = None"
proof -
  have "(y * 23 - 32768 + 65536) mod 65536 = y * 23 - 32768" using assms(6,7) by (subst mod_add_self2) simp
  then have "short (y * 23) < 0" using assms(6,7) by (simp add: short_def algebra_simps)
  then have "char_aligned 9 fi cbi True (short (y * 23)) img = None" for cbi
    using char_aligned_before [OF assms(2), of "short (y * 23)" 8] by simp
  then show ?thesis
    using assms(1,2,4,5) by (simp add: dLcdDrawChar_def Let_def normal_def)
qed

text \<open>
  The index of a character's first byte is kept in a \<^verbatim>\<open>short\<close>, and only its upper bound is checked. After
  130 line breaks it has wrapped around to a negative number, and the next character is written up to
  32 kilobytes before the display buffer: \<^verbatim>\<open>cat\<close> destroys memory when it is given a text of 130 or
  more lines.
\<close>

theorem cat_overruns:
  assumes "\<not> LcdInitialized s" and "display (displayBuf s)" and "864 \<le> length (font_bits 0)" and "0 \<le> fd"
    and "mapped = Some fb" and "130 \<le> m" and "m \<le> 250" and "33 \<le> c" and "c \<le> 126"
  shows "cat_main font_bits s t fd mapped now (replicate m (Line [10]) @ [Line [c]]) = None"
proof -
  obtain s1 t1 s2 where 1: "LcdInit s t fd mapped now = Some (Some True, s1, t1)" "LcdClean s1 = Some (True, s2)"
    "printing (s2, \<lparr>X0 = 0, Y0 = 0, indent = 0\<rparr>)"
    by (rule opened_display [OF assms(1,2,4,5)])
  obtain sk1 sk2 where 2: "LcdPrintf font_bits True (bytes '':)'') (s2, \<lparr>X0 = 0, Y0 = 0, indent = 0\<rparr>) = Some (2, sk1)"
    "LcdPrintf font_bits True (bytes '':)'') sk1 = Some (2, sk2)" "printing sk2" "depth (snd sk2) \<le> 288"
    by (rule smiles [where font_bits = font_bits, OF 1(3) assms(3)])
  then have start: "X0 (snd sk2) < 170" "0 \<le> Y0 (snd sk2)" "Y0 (snd sk2) \<le> 1"
    by (auto simp: printing_def tidy_def depth_def)
  then obtain sk3 where 3: "cat_loop font_bits (replicate m (Line [10]) @ [Line [c]]) sk2
      = map_option (\<lambda>(out, s). (replicate m 10 @ out, s)) (cat_loop font_bits [Line [c]] sk3)"
    "printing sk3" "X0 (snd sk3) = 0" "Y0 (snd sk3) = Y0 (snd sk2) + 11 * int m"
    using cat_loop_newlines [where font_bits = font_bits, OF assms(3) 2(3), of m "[Line [c]]"] assms(6,7) by auto
  have "LcdPrintf font_bits True (c_text [c]) sk3 = None"
  proof -
    obtain s3 k3 where sk3: "sk3 = (s3, k3)" by (cases sk3)
    obtain fi where fi: "FontInfo font_bits 0 = Some fi" "normal fi"
      using FontInfo_normal [where font_bits = font_bits, OF assms(3)] by blast
    have "X0 (wrap_line fi k3) = 0" "Y0 (wrap_line fi k3) = Y0 k3"
      using 3(3) fi(2) by (auto simp: wrap_line_def Let_def sk3 normal_def)
    moreover have "c_text [c] = [c]" "c \<noteq> 8" "c \<noteq> 9" "c \<noteq> 10" "c \<noteq> 11" "c \<noteq> 12" "c \<noteq> 13"
      using assms(8) by (auto simp: c_text_def)
    moreover have "dLcdDrawChar font_bits (displayBuf s3) True 0 (Y0 k3) 0 c = None"
    proof (rule draw_char_far_down [OF fi])
      show "display (displayBuf s3)" using 3(2) by (simp add: sk3 printing_def)
      show "FontFirst fi \<le> c" "c \<le> FontLast fi"
        using fi(2) order_trans [OF _ assms(8), of 32] order_trans [OF assms(9), of 127] by (simp_all add: normal_def)
      show "1430 \<le> Y0 k3" "Y0 k3 \<le> 2849" using 3(4) start assms(6,7) by (simp_all add: sk3)
    qed
    ultimately show ?thesis
      using 3(2) fi(1) by (simp add: LcdPrintf_def sk3 printing_def print_char_def Let_def)
  qed
  then show ?thesis using 1(1,2) 2(1,2) 3(1) by (simp add: cat_main_def)
qed

theorem cat_overruns_witness:
  "cat_main no_fonts unopened_lcd idle_timers 3 (Some []) \<lparr>tv_sec = 0, tv_usec = 0\<rparr>
     (replicate 130 (Line [10]) @ [Line [65]]) = None"
proof (rule cat_overruns)
  show "864 \<le> length (no_fonts 0)" by (simp only: no_fonts_def length_replicate)
qed (simp_all add: unopened_lcd_def LcdInitialized_def)

end
