(* ===== verification/Draw.thy ===== *)
theory Draw
  imports LcdDev "HOL-Library.Signed_Division"
begin

text \<open>
  Lines, rectangles and ellipses, from \<^verbatim>\<open>src/util/cat/ev3_lcd.c\<close>: the functions \<^verbatim>\<open>Display...\<close>, which take
  bytes and work on the buffer, and the functions \<^verbatim>\<open>Cmd...\<close> and \<^verbatim>\<open>...OutEx\<close>, which take integers
  with the origin at the bottom left, clip and call the former. A step of \<^verbatim>\<open>int\<close> arithmetic that
  overflows is undefined in C: \<open>int32\<close> is \<open>None\<close> for it, as a store outside the buffer is.
\<close>

section \<open>Modes\<close>

definition DRAW_PIXELS_SET :: u8 where "DRAW_PIXELS_SET = 0"
definition DRAW_PIXELS_CLEAR :: u8 where "DRAW_PIXELS_CLEAR = 1"
definition DRAW_PIXELS_INVERT :: u8 where "DRAW_PIXELS_INVERT = 2"
definition DRAW_SHAPE_HOLLOW :: u8 where "DRAW_SHAPE_HOLLOW = 0"
definition DRAW_SHAPE_FILLED :: u8 where "DRAW_SHAPE_FILLED = 1"

lemmas draw_modes = DRAW_PIXELS_SET_def DRAW_PIXELS_CLEAR_def DRAW_PIXELS_INVERT_def
  DRAW_SHAPE_HOLLOW_def DRAW_SHAPE_FILLED_def

text \<open>The \<^verbatim>\<open>switch (PixelMode)\<close> of the drawing functions: what it makes of a byte, for the bits in \<open>M\<close>.\<close>

definition apply_mode :: "u8 \<Rightarrow> u8 \<Rightarrow> u8 \<Rightarrow> u8" where
  "apply_mode PixelMode M b =
    (if PixelMode = DRAW_PIXELS_INVERT then b XOR M
     else if PixelMode = DRAW_PIXELS_CLEAR then b AND NOT M
     else b OR M)"

text \<open>\<^verbatim>\<open>DISPLAY_ERASE_ALL\<close> to \<^verbatim>\<open>DISPLAY_FRAME\<close> are 0 to 7.\<close>

definition change_byte :: "u8 \<Rightarrow> u8 \<Rightarrow> int \<Rightarrow> image \<Rightarrow> image option" where
  "change_byte PixelMode M i img = do { b \<leftarrow> peek img i; poke img i (apply_mode PixelMode M b) }"

section \<open>The display commands\<close>

definition DisplayErase :: "LCDGlobals \<Rightarrow> LCDGlobals option" where
  "DisplayErase s = map_option set_dirty (on_display (\<lambda>img. mem_set img 0 0 LCD_BUFFER_SIZE) s)"

text \<open>The height of a line is that of the current font; \<open>None\<close> when the font is not in the table.\<close>

definition DisplayLineHeight :: "LCDGlobals \<Rightarrow> int option" where
  "DisplayLineHeight s =
    (if currentFont s = 0 then Some 9 else if currentFont s = 1 then Some 8
     else if currentFont s = 2 then Some 16 else if currentFont s = 3 then Some 7 else None)"

definition DisplayEraseLine :: "u8 \<Rightarrow> LCDGlobals \<Rightarrow> LCDGlobals option" where
  "DisplayEraseLine Line s =
    do {
      h \<leftarrow> DisplayLineHeight s;
      let cnt = h * LCD_BYTE_WIDTH;
      s \<leftarrow> on_display (\<lambda>img. mem_set img (uint Line * cnt) 0 cnt) s;
      Some (set_dirty s)
    }"

definition display_pixel :: "u8 \<Rightarrow> u8 \<Rightarrow> u8 \<Rightarrow> LCDGlobals \<Rightarrow> LCDGlobals option" where
  "display_pixel PixelMode X Y s =
    (if uint X < LCD_WIDTH \<and> uint Y < LCD_HEIGHT then
       map_option set_dirty
         (on_display (change_byte PixelMode (push_bit (unat X mod 8) 1) (uint X div 8 + LCD_BYTE_WIDTH * uint Y)) s)
     else Some s)"

definition DisplaySetPixel :: "u8 \<Rightarrow> u8 \<Rightarrow> LCDGlobals \<Rightarrow> LCDGlobals option" where
  "DisplaySetPixel = display_pixel DRAW_PIXELS_SET"

definition DisplayClrPixel :: "u8 \<Rightarrow> u8 \<Rightarrow> LCDGlobals \<Rightarrow> LCDGlobals option" where
  "DisplayClrPixel = display_pixel DRAW_PIXELS_CLEAR"

definition DisplayXorPixel :: "u8 \<Rightarrow> u8 \<Rightarrow> LCDGlobals \<Rightarrow> LCDGlobals option" where
  "DisplayXorPixel = display_pixel DRAW_PIXELS_INVERT"

definition Masks :: "u8 list" where
  "Masks = [0x00, 0x01, 0x03, 0x07, 0x0f, 0x1f, 0x3f, 0x7f, 0xff]"

text \<open>The bits of the byte at column \<open>X\<close> that lie between \<open>X1\<close> and \<open>X2\<close>.\<close>

definition column_mask :: "int \<Rightarrow> int \<Rightarrow> int \<Rightarrow> u8" where
  "column_mask X X1 X2 =
    (let M = 0xff;
         M = (if X < X1 then M AND NOT (Masks ! nat (X1 mod 8)) else M)
     in if X2 - X < 8 then M AND Masks ! nat (X2 mod 8 + 1) else M)"

text \<open>The loop over the rows \<open>Y1\<close> to \<open>Y2\<close> in one column of bytes, and the loop over the columns.\<close>

fun fill_column :: "u8 \<Rightarrow> u8 \<Rightarrow> int \<Rightarrow> int list \<Rightarrow> image \<Rightarrow> image option" where
  "fill_column PixelMode M pDst [] img = Some img"
| "fill_column PixelMode M pDst (_ # Ys) img =
    do {
      img \<leftarrow> change_byte PixelMode M pDst img;
      fill_column PixelMode M (pDst + LCD_BYTE_WIDTH) Ys img
    }"

function fill_columns :: "u8 \<Rightarrow> int \<Rightarrow> int \<Rightarrow> int \<Rightarrow> int \<Rightarrow> int \<Rightarrow> image \<Rightarrow> image option" where
  "fill_columns PixelMode X X1 X2 Y1 Y2 img =
    (if X \<le> X2 then
       do {
         img \<leftarrow> fill_column PixelMode (column_mask X X1 X2) (X div 8 + LCD_BYTE_WIDTH * Y1) [Y1..Y2] img;
         fill_columns PixelMode (X + 8) X1 X2 Y1 Y2 img
       }
     else Some img)"
  by pat_completeness auto
termination
  by (relation "measure (\<lambda>(m, X, X1, X2, Y1, Y2, img). nat (X2 + 1 - X))") auto

declare fill_columns.simps [simp del]

definition DisplayFillScreen :: "u8 \<Rightarrow> u8 \<Rightarrow> u8 \<Rightarrow> u8 \<Rightarrow> u8 \<Rightarrow> LCDGlobals \<Rightarrow> LCDGlobals option" where
  "DisplayFillScreen StartX StartY PixelsX PixelsY PixelMode s =
    (let X1 = uint StartX;
         Y1 = uint StartY;
         X2 = uint (StartX + PixelsX - 1);
         Y2 = uint (StartY + PixelsY - 1);
         X2 = (if X2 > LCD_WIDTH - 1 then LCD_WIDTH - 1 else X2);
         Y2 = (if Y2 > LCD_HEIGHT - 1 then LCD_HEIGHT - 1 else Y2)
     in map_option set_dirty (on_display (fill_columns PixelMode (X1 div 8 * 8) X1 X2 Y1 Y2) s))"

definition DisplayLineX :: "u8 \<Rightarrow> u8 \<Rightarrow> u8 \<Rightarrow> u8 \<Rightarrow> LCDGlobals \<Rightarrow> LCDGlobals option" where
  "DisplayLineX X1 X2 Y PixelMode s =
    (if uint Y > LCD_HEIGHT then Some s
     else
       let (X1, X2) = (if X1 > X2 then (uint X2, uint X1) else (uint X1, uint X2));
           X2 = (if X2 > LCD_WIDTH - 1 then LCD_WIDTH - 1 else X2)
       in map_option set_dirty (on_display (fill_columns PixelMode (X1 div 8 * 8) X1 X2 (uint Y) (uint Y)) s))"

definition DisplayLineY :: "u8 \<Rightarrow> u8 \<Rightarrow> u8 \<Rightarrow> u8 \<Rightarrow> LCDGlobals \<Rightarrow> LCDGlobals option" where
  "DisplayLineY X Y1 Y2 PixelMode s =
    (if uint X > LCD_WIDTH then Some s
     else
       let (Y1, Y2) = (if Y1 > Y2 then (uint Y2, uint Y1) else (uint Y1, uint Y2));
           Y2 = (if Y2 > LCD_HEIGHT - 1 then LCD_HEIGHT - 1 else Y2)
       in map_option set_dirty
         (on_display (fill_column PixelMode (push_bit (unat X mod 8) 1) (uint X div 8 + LCD_BYTE_WIDTH * Y1) [Y1..Y2]) s))"

definition DisplayFrame :: "u8 \<Rightarrow> u8 \<Rightarrow> u8 \<Rightarrow> u8 \<Rightarrow> u8 \<Rightarrow> LCDGlobals \<Rightarrow> LCDGlobals option" where
  "DisplayFrame StartX StartY PixelsX PixelsY PixelMode s =
    do {
      s \<leftarrow> DisplayLineX StartX (StartX + PixelsX - 1) StartY PixelMode s;
      s \<leftarrow>
        (if PixelsY > 1 then
           do {
             s \<leftarrow> DisplayLineY StartX (StartY + 1) (StartY + PixelsY - 1) PixelMode s;
             DisplayLineY (StartX + PixelsX - 1) (StartY + 1) (StartY + PixelsY - 1) PixelMode s
           }
         else Some s);
      Some (set_dirty s)
    }"

definition DisplayDraw :: "u8 \<Rightarrow> u8 \<Rightarrow> u8 \<Rightarrow> u8 \<Rightarrow> u8 \<Rightarrow> u8 \<Rightarrow> LCDGlobals \<Rightarrow> LCDGlobals option" where
  "DisplayDraw Cmd PixelMode X1 Y1 X2 Y2 s =
    (if \<not> LcdInitialized s then Some s
     else if Cmd = 0 then DisplayErase s
     else if Cmd = 1 then
       (if PixelMode = DRAW_PIXELS_INVERT then DisplayXorPixel X1 Y1 s
        else if PixelMode = DRAW_PIXELS_CLEAR then DisplayClrPixel X1 Y1 s
        else DisplaySetPixel X1 Y1 s)
     else if Cmd = 2 then DisplayLineX X1 X2 Y1 PixelMode s
     else if Cmd = 3 then DisplayLineY X1 Y1 Y2 PixelMode s
     else if Cmd = 4 then Some s
     else if Cmd = 5 then DisplayEraseLine X1 s
     else if Cmd = 6 then DisplayFillScreen X1 Y1 X2 Y2 PixelMode s
     else if Cmd = 7 then DisplayFrame X1 Y1 X2 Y2 PixelMode s
     else Some s)"

section \<open>The drawing commands\<close>

definition TRANSLATE_Y :: "int \<Rightarrow> int" where
  "TRANSLATE_Y Y = LCD_HEIGHT - 1 - Y"

text \<open>Whether there is anything to draw, the pixel mode, and the fill mode.\<close>

definition CmdResolveDrawingMode :: "u16 \<Rightarrow> bool \<times> u8 \<times> u8" where
  "CmdResolveDrawingMode DrawingOptions =
    (let pFillMode = (if DrawingOptions AND 0x20 \<noteq> 0 then DRAW_SHAPE_FILLED else DRAW_SHAPE_HOLLOW);
         op = DrawingOptions AND 0x18
     in
     if DrawingOptions AND 0x04 \<noteq> 0 then
       if op = 0x00 \<or> op = 0x08 then (True, DRAW_PIXELS_CLEAR, pFillMode)
       else (False, DRAW_PIXELS_SET, DRAW_SHAPE_HOLLOW)
     else
       if op = 0x00 \<or> op = 0x10 then (True, DRAW_PIXELS_SET, pFillMode)
       else if op = 0x18 then (True, DRAW_PIXELS_INVERT, pFillMode)
       else (False, DRAW_PIXELS_SET, DRAW_SHAPE_HOLLOW))"

definition CmdSetPixel :: "int \<Rightarrow> int \<Rightarrow> u8 \<Rightarrow> LCDGlobals \<Rightarrow> LCDGlobals option" where
  "CmdSetPixel X Y PixelMode s =
    do {
      Y \<leftarrow> int32 (TRANSLATE_Y Y);
      if X \<ge> 0 \<and> X < LCD_WIDTH \<and> Y \<ge> 0 \<and> Y < LCD_HEIGHT
      then DisplayDraw 1 PixelMode (word_of_int X) (word_of_int Y) 0 0 s else Some s
    }"

text \<open>How far an end of the line moves in one coordinate when the other one is cut by \<open>e\<close>.\<close>

definition trim :: "int \<Rightarrow> int \<Rightarrow> int \<Rightarrow> int option" where
  "trim e n d =
    (if n \<noteq> 0 \<and> d \<noteq> 0 then do { e \<leftarrow> int32 e; p \<leftarrow> int32 (e * n); int32 (p sdiv d) } else Some 0)"

definition line_pixel :: "u8 \<Rightarrow> int \<Rightarrow> int \<Rightarrow> LCDGlobals \<Rightarrow> LCDGlobals option" where
  "line_pixel PixelMode x y s =
    do { ty \<leftarrow> int32 (TRANSLATE_Y y); DisplayDraw 1 PixelMode (word_of_int x) (word_of_int ty) 0 0 s }"

text \<open>The loops \<^verbatim>\<open>while (true)\<close> that draw a line along the longer axis.\<close>

partial_function (option) line_x_dominant ::
    "u8 \<Rightarrow> int \<Rightarrow> int \<Rightarrow> int \<Rightarrow> int \<Rightarrow> int \<Rightarrow> int \<Rightarrow> int \<Rightarrow> int \<Rightarrow> LCDGlobals \<Rightarrow> LCDGlobals option" where
  "line_x_dominant PixelMode ax ay sx sy x2 x y d s =
    do {
      s \<leftarrow> line_pixel PixelMode x y s;
      if x = x2 then Some s
      else
        let (y, d) = (if d \<ge> 0 then (y + sy, d - ax) else (y, d))
        in line_x_dominant PixelMode ax ay sx sy x2 (x + sx) y (d + ay) s
    }"

partial_function (option) line_y_dominant ::
    "u8 \<Rightarrow> int \<Rightarrow> int \<Rightarrow> int \<Rightarrow> int \<Rightarrow> int \<Rightarrow> int \<Rightarrow> int \<Rightarrow> int \<Rightarrow> LCDGlobals \<Rightarrow> LCDGlobals option" where
  "line_y_dominant PixelMode ax ay sx sy y2 x y d s =
    do {
      s \<leftarrow> line_pixel PixelMode x y s;
      if y = y2 then Some s
      else
        let (x, d) = (if d \<ge> 0 then (x + sx, d - ay) else (x, d))
        in line_y_dominant PixelMode ax ay sx sy y2 x (y + sy) (d + ax) s
    }"

definition SGN :: "int \<Rightarrow> int" where
  "SGN a = (if a < 0 then - 1 else 1)"

text \<open>The line between two points on the screen, after clipping.\<close>

definition draw_clipped :: "int \<Rightarrow> int \<Rightarrow> int \<Rightarrow> int \<Rightarrow> u8 \<Rightarrow> LCDGlobals \<Rightarrow> LCDGlobals option" where
  "draw_clipped x1 y1 x2 y2 PixelMode s =
    (if x1 = x2 then
       if y1 = y2 then line_pixel PixelMode x1 y1 s
       else do {
         ty1 \<leftarrow> int32 (TRANSLATE_Y y1);
         ty2 \<leftarrow> int32 (TRANSLATE_Y y2);
         DisplayDraw 3 PixelMode (word_of_int x1) (word_of_int ty1) 0 (word_of_int ty2) s
       }
     else if y1 = y2 then
       do {
         ty \<leftarrow> int32 (TRANSLATE_Y y1);
         DisplayDraw 2 PixelMode (word_of_int x1) (word_of_int ty) (word_of_int x2) 0 s
       }
     else do {
       dx \<leftarrow> int32 (x2 - x1);
       ax \<leftarrow> int32 (2 * \<bar>dx\<bar>);
       dy \<leftarrow> int32 (y2 - y1);
       ay \<leftarrow> int32 (2 * \<bar>dy\<bar>);
       if ax > ay then line_x_dominant PixelMode ax ay (SGN dx) (SGN dy) x2 x1 y1 (ay - ax div 2) s
       else line_y_dominant PixelMode ax ay (SGN dx) (SGN dy) y2 x1 y1 (ax - ay div 2) s
     })"

definition CmdDrawLine :: "int \<Rightarrow> int \<Rightarrow> int \<Rightarrow> int \<Rightarrow> u8 \<Rightarrow> LCDGlobals \<Rightarrow> LCDGlobals option" where
  "CmdDrawLine x1 y1 x2 y2 PixelMode s =
    do {
      dx \<leftarrow> int32 (x2 - x1);
      dy \<leftarrow> int32 (y2 - y1);
      let (x1, y1, x2, y2) = (if y1 > y2 then (x2, y2, x1, y1) else (x1, y1, x2, y2));
      if y2 < 0 \<or> y1 \<ge> LCD_HEIGHT then Some s
      else do {
        (x1, y1) \<leftarrow>
          (if y1 < 0 then do { m \<leftarrow> trim (0 - y1) dx dy; x1 \<leftarrow> int32 (x1 + m); Some (x1, 0) } else Some (x1, y1));
        (x2, y2) \<leftarrow>
          (if y2 > LCD_HEIGHT - 1
           then do { m \<leftarrow> trim (y2 - (LCD_HEIGHT - 1)) dx dy; x2 \<leftarrow> int32 (x2 - m); Some (x2, LCD_HEIGHT - 1) }
           else Some (x2, y2));
        let (x1, y1, x2, y2) = (if x1 > x2 then (x2, y2, x1, y1) else (x1, y1, x2, y2));
        if x2 < 0 \<or> x1 \<ge> LCD_WIDTH then Some s
        else do {
          (x1, y1) \<leftarrow>
            (if x1 < 0 then do { m \<leftarrow> trim (0 - x1) dy dx; y1 \<leftarrow> int32 (y1 + m); Some (0, y1) } else Some (x1, y1));
          (x2, y2) \<leftarrow>
            (if x2 > LCD_WIDTH - 1
             then do { m \<leftarrow> trim (x2 - (LCD_WIDTH - 1)) dy dx; y2 \<leftarrow> int32 (y2 - m); Some (LCD_WIDTH - 1, y2) }
             else Some (x2, y2));
          draw_clipped x1 y1 x2 y2 PixelMode s
        }
      }
    }"

definition CmdDrawRect :: "int \<Rightarrow> int \<Rightarrow> int \<Rightarrow> int \<Rightarrow> u8 \<Rightarrow> u8 \<Rightarrow> LCDGlobals \<Rightarrow> LCDGlobals option" where
  "CmdDrawRect left bottom width height PixelMode FillMode s =
    do {
      x2 \<leftarrow> int32 (left + width);
      y2 \<leftarrow> int32 (bottom + height);
      let (x1, x2) = (if left > x2 then (x2, left) else (left, x2));
      let (y1, y2) = (if bottom > y2 then (y2, bottom) else (bottom, y2));
      if y2 = y1 \<or> x2 = x1 then CmdDrawLine x1 y1 x2 y2 PixelMode s
      else if FillMode = DRAW_SHAPE_FILLED then
        if x2 < 0 \<or> y2 < 0 \<or> x1 > LCD_WIDTH - 1 \<or> y1 > LCD_HEIGHT - 1 then Some s
        else
          let x1 = (if x1 < 0 then 0 else x1);
              y1 = (if y1 < 0 then 0 else y1);
              x2 = (if x2 > LCD_WIDTH - 1 then LCD_WIDTH - 1 else x2);
              y2 = (if y2 > LCD_HEIGHT - 1 then LCD_HEIGHT - 1 else y2)
          in DisplayDraw 6 PixelMode (word_of_int x1) (word_of_int (TRANSLATE_Y y2))
               (word_of_int (x2 - x1 + 1)) (word_of_int (y2 - y1 + 1)) s
      else do {
        s \<leftarrow> CmdDrawLine x1 y1 x2 y1 PixelMode s;
        if y2 > y1 then do {
          s \<leftarrow> CmdDrawLine x1 y2 x2 y2 PixelMode s;
          if y2 > y1 + 1 then do {
            s \<leftarrow> CmdDrawLine x2 (y1 + 1) x2 (y2 - 1) PixelMode s;
            if x2 > x1 then CmdDrawLine x1 (y1 + 1) x1 (y2 - 1) PixelMode s else Some s
          } else Some s
        } else Some s
      }
    }"

section \<open>Ellipses\<close>

text \<open>The variables of the loop of \<^verbatim>\<open>CmdDrawEllipse\<close>, and the constants it uses.\<close>

record ellipse =
  ex :: int
  ey :: int
  erx :: int
  ery :: int
  ewidth :: int
  eheight :: int
  et :: int
  edxt :: int
  edyt :: int

record ellipse_args =
  exc :: int
  eyc :: int
  ea :: int
  eb :: int
  emode :: u8
  efill :: u8

definition unsigned_short :: "int \<Rightarrow> int" where
  "unsigned_short x = x mod 65536"

text \<open>The four reflections of a point of the arc.\<close>

definition ellipse_plot :: "ellipse_args \<Rightarrow> int \<Rightarrow> int \<Rightarrow> LCDGlobals \<Rightarrow> LCDGlobals option" where
  "ellipse_plot g x y s =
    do {
      s \<leftarrow> CmdSetPixel (exc g + x) (eyc g + y) (emode g) s;
      s \<leftarrow> (if x \<noteq> 0 \<or> y \<noteq> 0 then CmdSetPixel (exc g - x) (eyc g - y) (emode g) s else Some s);
      if x \<noteq> 0 \<and> y \<noteq> 0 then do {
        s \<leftarrow> CmdSetPixel (exc g + x) (eyc g - y) (emode g) s;
        CmdSetPixel (exc g - x) (eyc g + y) (emode g) s
      } else Some s
    }"

text \<open>The rectangles above and below the centre, and the one across it.\<close>

definition ellipse_caps :: "ellipse_args \<Rightarrow> ellipse \<Rightarrow> LCDGlobals \<Rightarrow> LCDGlobals option" where
  "ellipse_caps g e s =
    do {
      s \<leftarrow> CmdDrawRect (exc g - erx e) (eyc g - ery e) (ewidth e - 1) (eheight e - 1) (emode g) (efill g) s;
      CmdDrawRect (exc g - erx e) (eyc g + ery e) (ewidth e - 1) (- (eheight e - 1)) (emode g) (efill g) s
    }"

definition ellipse_band :: "ellipse_args \<Rightarrow> ellipse \<Rightarrow> LCDGlobals \<Rightarrow> LCDGlobals option" where
  "ellipse_band g e s =
    CmdDrawRect (exc g - erx e) (eyc g - ery e) (ewidth e - 1) (ery e * 2) (emode g) (efill g) s"

definition x_step :: "int \<Rightarrow> ellipse \<Rightarrow> ellipse option" where
  "x_step b2 e =
    do {
      dxt \<leftarrow> int32 (edxt e + 2 * b2);
      t \<leftarrow> int32 (et e + dxt);
      Some (e\<lparr>ex := short (ex e + 1), edxt := dxt, et := t\<rparr>)
    }"

definition y_step :: "int \<Rightarrow> ellipse \<Rightarrow> ellipse option" where
  "y_step a2 e =
    do {
      dyt \<leftarrow> int32 (edyt e + 2 * a2);
      t \<leftarrow> int32 (et e + dyt);
      Some (e\<lparr>ey := short (ey e - 1), edyt := dyt, et := t\<rparr>)
    }"

text \<open>One turn of the loop.\<close>

definition ellipse_turn :: "ellipse_args \<Rightarrow> ellipse \<Rightarrow> LCDGlobals \<Rightarrow> (ellipse \<times> LCDGlobals) option" where
  "ellipse_turn g e s =
    (let a = ea g; b = eb g; a2 = a * a; b2 = b * b;
         crit1 = - (a2 div 4 + a smod 2 + b2);
         crit2 = - (b2 div 4 + b smod 2 + a2);
         crit3 = - (b2 div 4 + b smod 2);
         filled = (efill g = DRAW_SHAPE_FILLED)
     in do {
       s \<leftarrow> (if \<not> filled then ellipse_plot g (ex e) (ey e) s else Some s);
       b2x \<leftarrow> int32 (b2 * ex e);
       c1 \<leftarrow> int32 (et e + b2x);
       right \<leftarrow>
         (if c1 \<le> crit1 then Some True
          else do { a2y \<leftarrow> int32 (a2 * ey e); c3 \<leftarrow> int32 (et e + a2y); Some (c3 \<le> crit3) });
       if right then
         do {
           (e, s) \<leftarrow>
             (if filled then
                do {
                  (e, s) \<leftarrow>
                    (if eheight e = 1 then Some (e, s)
                     else if ery e * 2 + 1 > (eheight e - 1) * 2
                     then do { s \<leftarrow> ellipse_caps g e s;
                               Some (e\<lparr>ery := short (ery e - (eheight e - 1)), eheight := 1\<rparr>, s) }
                     else do { s \<leftarrow> ellipse_band g e s; Some (e\<lparr>ery := 0, eheight := 1\<rparr>, s) });
                  Some (e\<lparr>erx := short (erx e + 1), ewidth := unsigned_short (ewidth e + 2)\<rparr>, s)
                }
              else Some (e, s));
           e \<leftarrow> x_step b2 e;
           Some (e, s)
         }
       else do {
         a2y \<leftarrow> int32 (a2 * ey e);
         c2 \<leftarrow> int32 (et e - a2y);
         if c2 > crit2 then
           do {
             e \<leftarrow> y_step a2 e;
             Some (if filled then e\<lparr>eheight := unsigned_short (eheight e + 1)\<rparr> else e, s)
           }
         else
           do {
             (e, s) \<leftarrow>
               (if filled then
                  do {
                    s \<leftarrow> (if ery e * 2 + 1 > eheight e * 2 then ellipse_caps g e s else ellipse_band g e s);
                    Some (e\<lparr>ewidth := unsigned_short (ewidth e + 2), ery := short (ery e - eheight e), eheight := 1,
                      erx := short (erx e + 1)\<rparr>, s)
                  }
                else Some (e, s));
             e \<leftarrow> x_step b2 e;
             e \<leftarrow> y_step a2 e;
             Some (e, s)
           }
       }
     })"

text \<open>The loop may leave the range of \<^verbatim>\<open>short\<close>, so its end is not built into the definition.\<close>

partial_function (option) ellipse_loop ::
    "ellipse_args \<Rightarrow> ellipse \<Rightarrow> LCDGlobals \<Rightarrow> (ellipse \<times> LCDGlobals) option" where
  "ellipse_loop g e s =
    (if ey e \<ge> 0 \<and> ex e \<le> ea g
     then do { (e, s) \<leftarrow> ellipse_turn g e s; ellipse_loop g e s }
     else Some (e, s))"

definition CmdDrawEllipse :: "int \<Rightarrow> int \<Rightarrow> int \<Rightarrow> int \<Rightarrow> u8 \<Rightarrow> u8 \<Rightarrow> LCDGlobals \<Rightarrow> LCDGlobals option" where
  "CmdDrawEllipse xc yc a b PixelMode FillMode s =
    (let xc = short xc; yc = short yc; a = short a; b = short b;
         g = \<lparr>exc = xc, eyc = yc, ea = a, eb = b, emode = PixelMode, efill = FillMode\<rparr>
     in do {
       t \<leftarrow> int32 (- (a * a) * b);
       dyt \<leftarrow> int32 (- 2 * (a * a) * b);
       d2xt \<leftarrow> int32 (2 * (b * b));
       d2yt \<leftarrow> int32 (2 * (a * a));
       if b = 0 then CmdDrawRect (xc - a) yc (2 * a) 0 PixelMode FillMode s
       else if a = 0 then CmdDrawRect xc (yc - b) 0 (2 * b) PixelMode FillMode s
       else do {
         (e, s) \<leftarrow> ellipse_loop g \<lparr>ex = 0, ey = b, erx = 0, ery = b, ewidth = 1, eheight = 1,
           et = t, edxt = 0, edyt = dyt\<rparr> s;
         if FillMode = DRAW_SHAPE_FILLED then
           (if ery e > eheight e then ellipse_caps g e s else ellipse_band g e s)
         else Some s
       }
     })"

definition CmdDrawCircle :: "int \<Rightarrow> int \<Rightarrow> int \<Rightarrow> u8 \<Rightarrow> u8 \<Rightarrow> LCDGlobals \<Rightarrow> LCDGlobals option" where
  "CmdDrawCircle cx cy radius PixelMode FillMode s = CmdDrawEllipse cx cy radius radius PixelMode FillMode s"

section \<open>The interface\<close>

text \<open>
  Each function fails when the display is not open, and otherwise draws if the options say how; the
  options are an \<^verbatim>\<open>unsigned long\<close>, of which \<^verbatim>\<open>CmdResolveDrawingMode\<close> takes the low 16 bits.
\<close>

definition with_mode ::
    "u32 \<Rightarrow> (u8 \<Rightarrow> u8 \<Rightarrow> LCDGlobals \<Rightarrow> LCDGlobals option) \<Rightarrow> LCDGlobals \<Rightarrow> (int \<times> LCDGlobals) option" where
  "with_mode options draw s =
    (if \<not> LcdInitialized s then Some (1, s)
     else
       let (ok, pixelMode, fillMode) = CmdResolveDrawingMode (ucast options)
       in if ok then do { s \<leftarrow> draw pixelMode fillMode s; Some (0, s) } else Some (0, s))"

definition CircleOutEx :: "int \<Rightarrow> int \<Rightarrow> u8 \<Rightarrow> u32 \<Rightarrow> LCDGlobals \<Rightarrow> (int \<times> LCDGlobals) option" where
  "CircleOutEx x y radius options = with_mode options (CmdDrawCircle x y (uint radius))"

definition LineOutEx :: "int \<Rightarrow> int \<Rightarrow> int \<Rightarrow> int \<Rightarrow> u32 \<Rightarrow> LCDGlobals \<Rightarrow> (int \<times> LCDGlobals) option" where
  "LineOutEx x1 y1 x2 y2 options = with_mode options (\<lambda>pixelMode _. CmdDrawLine x1 y1 x2 y2 pixelMode)"

definition PointOutEx :: "int \<Rightarrow> int \<Rightarrow> u32 \<Rightarrow> LCDGlobals \<Rightarrow> (int \<times> LCDGlobals) option" where
  "PointOutEx x y options = with_mode options (\<lambda>pixelMode _. CmdSetPixel x y pixelMode)"

definition RectOutEx :: "int \<Rightarrow> int \<Rightarrow> int \<Rightarrow> int \<Rightarrow> u32 \<Rightarrow> LCDGlobals \<Rightarrow> (int \<times> LCDGlobals) option" where
  "RectOutEx x y width height options = with_mode options (CmdDrawRect x y width height)"

definition EllipseOutEx :: "int \<Rightarrow> int \<Rightarrow> u8 \<Rightarrow> u8 \<Rightarrow> u32 \<Rightarrow> LCDGlobals \<Rightarrow> (int \<times> LCDGlobals) option" where
  "EllipseOutEx x y radiusX radiusY options = with_mode options (CmdDrawEllipse x y (uint radiusX) (uint radiusY))"

text \<open>The macro of \<^verbatim>\<open>ev3_lcd.h\<close> passes \<^verbatim>\<open>_y\<close> where the height belongs.\<close>

definition RectOut :: "int \<Rightarrow> int \<Rightarrow> int \<Rightarrow> int \<Rightarrow> LCDGlobals \<Rightarrow> (int \<times> LCDGlobals) option" where
  "RectOut x y w h = RectOutEx x y w y 0"

text \<open>
  The options documented to clear the screen before drawing (\<^verbatim>\<open>DRAW_OPT_CLEAR_WHOLE_SCREEN\<close> and
  \<^verbatim>\<open>DRAW_OPT_CLEAR_EXCEPT_STATUS_SCREEN\<close>, bits 0 and 1) have no effect in any of these functions.
\<close>

lemma mode_without_clear: "CmdResolveDrawingMode (ucast (options OR clear)) = CmdResolveDrawingMode (ucast options)"
  if "clear AND 3 = clear" for options clear :: u32
proof -
  have c: "clear = clear AND 3" using that by simp
  have "ucast clear AND m = (0 :: u16)" if "3 AND m = 0" for m
  proof -
    have "ucast clear = (ucast clear AND 3 :: u16)" by (subst c) (simp add: unsigned_and_eq)
    then have "ucast clear AND m = ucast clear AND (3 AND m)" by (metis and.assoc)
    then show ?thesis using that by simp
  qed
  then have "ucast (options OR clear) AND m = (ucast options AND m :: u16)" if "3 AND m = 0" for m
    using that by (simp add: unsigned_or_eq bit.conj_disj_distrib2)
  then show ?thesis by (simp add: CmdResolveDrawingMode_def)
qed

lemma clear_options_ignored:
  assumes "clear AND 3 = clear"
  shows "CircleOutEx x y r (options OR clear) = CircleOutEx x y r options"
    and "LineOutEx x1 y1 x2 y2 (options OR clear) = LineOutEx x1 y1 x2 y2 options"
    and "PointOutEx x y (options OR clear) = PointOutEx x y options"
    and "RectOutEx x y w h (options OR clear) = RectOutEx x y w h options"
    and "EllipseOutEx x y rx ry (options OR clear) = EllipseOutEx x y rx ry options"
  by (simp_all add: CircleOutEx_def LineOutEx_def PointOutEx_def RectOutEx_def EllipseOutEx_def with_mode_def
    mode_without_clear [OF assms] fun_eq_iff)

text \<open>Functions without an effect.\<close>

definition TextOutEx :: "LCDGlobals \<Rightarrow> int \<times> LCDGlobals" where
  "TextOutEx s = (if \<not> LcdInitialized s then (1, s) else (0, s))"

definition NumOutEx :: "LCDGlobals \<Rightarrow> int \<times> LCDGlobals" where
  "NumOutEx s = (if \<not> LcdInitialized s then (1, s) else (0, s))"

definition PolyOutEx :: "LCDGlobals \<Rightarrow> int \<times> LCDGlobals" where "PolyOutEx s = (0, s)"
definition GraphicOutEx :: "LCDGlobals \<Rightarrow> int \<times> LCDGlobals" where "GraphicOutEx s = (0, s)"
definition GraphicArrayOutEx :: "LCDGlobals \<Rightarrow> int \<times> LCDGlobals" where "GraphicArrayOutEx s = (0, s)"

end
