(* ===== verification/Paint.thy ===== *)
theory Paint
  imports Draw
begin

text \<open>
  What the commands of \<open>Draw\<close> paint. The picture on the display is a predicate on pixels, and a command
  is described by the set of the pixels it paints, each of them once, which matters when it inverts them:
  single pixels, filled regions, horizontal and vertical lines, and rectangles.
\<close>

section \<open>What the display commands paint\<close>

definition lcd_ok :: "LCDGlobals \<Rightarrow> bool" where
  "lcd_ok s \<longleftrightarrow> LcdInitialized s \<and> pLcd s \<and> display (displayBuf s)"

definition screen :: "LCDGlobals \<Rightarrow> picture" where
  "screen s = canvas (displayBuf s)"

text \<open>A pixel in a mode, and a set of pixels of the screen.\<close>

definition paint :: "u8 \<Rightarrow> bool \<Rightarrow> bool" where
  "paint m c = (if m = DRAW_PIXELS_INVERT then \<not> c else m \<noteq> DRAW_PIXELS_CLEAR)"

definition paint_at :: "u8 \<Rightarrow> (int \<times> int) set \<Rightarrow> picture \<Rightarrow> picture" where
  "paint_at m A f = (\<lambda>p. if p \<in> A \<and> on_screen p then paint m (f p) else f p)"

lemma paint_at_empty: "A \<inter> Collect on_screen = {} \<Longrightarrow> paint_at m A = (\<lambda>f. f)"
  by (auto simp: paint_at_def fun_eq_iff)

lemma paint_at_Un: "A \<inter> B \<inter> Collect on_screen = {} \<Longrightarrow> paint_at m A (paint_at m B f) = paint_at m (A \<union> B) f"
  by (auto simp: paint_at_def fun_eq_iff)

lemma paint_at_cong: "(\<And>p. on_screen p \<Longrightarrow> p \<in> A \<longleftrightarrow> p \<in> B) \<Longrightarrow> paint_at m A = paint_at m B"
  by (auto simp: paint_at_def fun_eq_iff)

lemma bit_apply_mode: "j < 8 \<Longrightarrow> bit (apply_mode m M b) j \<longleftrightarrow> (if bit M j then paint m (bit b j) else bit b j)"
  by (auto simp: apply_mode_def paint_def bit_or_iff bit_and_iff bit_xor_iff bit_not_iff draw_modes)

text \<open>The pixels of byte \<open>c\<close> of row \<open>y\<close> whose bits are in \<open>M\<close>.\<close>

definition masked :: "u8 \<Rightarrow> int \<Rightarrow> int \<Rightarrow> (int \<times> int) set" where
  "masked M c y = {p. snd p = y \<and> fst p div 8 = c \<and> bit M (nat (fst p mod 8))}"

lemma draws_change_byte:
  assumes "0 \<le> c" and "c < 23" and "0 \<le> y" and "y < 128"
  shows "draws (change_byte m M (c + 23 * y)) (paint_at m (masked M c y))"
proof (rule paintsI)
  fix img
  assume img: "display img"
  have on: "on_screen (8 * c, y)" using assms by (simp add: on_screen_def)
  have at: "byte_at (8 * c, y) = nat (c + 23 * y)" by (simp add: byte_at_def algebra_simps)
  let ?img' = "img[byte_at (8 * c, y) := apply_mode m M (img ! byte_at (8 * c, y))]"
  have "change_byte m M (c + 23 * y) img = Some ?img'"
    using assms byte_at_less [OF on img] by (simp add: change_byte_def peek_def poke_def at)
  moreover have "canvas ?img' p = paint_at m (masked M c y) (canvas img) p" for p
  proof (cases "on_screen p \<and> snd p = y \<and> fst p div 8 = c")
    case True
    then have "byte_at p = byte_at (8 * c, y)" by (simp add: byte_at_def)
    then show ?thesis
      using True
      by (simp add: canvas_update [OF img on] bit_apply_mode nat_less_iff paint_at_def masked_def) (simp add: canvas_def)
  next
    case False
    then show ?thesis by (auto simp: canvas_update [OF img on] paint_at_def masked_def)
  qed
  ultimately show "\<exists>img'. change_byte m M (c + 23 * y) img = Some img' \<and> display img'
      \<and> canvas img' = paint_at m (masked M c y) (canvas img)"
    using img by auto
qed

lemma draws_fill_column:
  assumes "0 \<le> c" and "c < 23"
  shows "0 \<le> y \<Longrightarrow> y + int (length ys) \<le> 128
    \<Longrightarrow> draws (fill_column m M (c + 23 * y) ys) (paint_at m (\<Union>r\<in>{y..<y + int (length ys)}. masked M c r))"
proof (induction ys arbitrary: y)
  case Nil
  then show ?case using paints_Some by (simp add: paint_at_empty fun_eq_iff)
next
  case (Cons a ys)
  have shift: "c + 23 * y + LCD_BYTE_WIDTH = c + 23 * (y + 1)" by simp
  have "draws (\<lambda>img. Option.bind (change_byte m M (c + 23 * y) img) (fill_column m M (c + 23 * (y + 1)) ys))
    (\<lambda>f. paint_at m (\<Union>r\<in>{y + 1..<y + 1 + int (length ys)}. masked M c r) (paint_at m (masked M c y) f))"
    using Cons assms by (intro paints_bind draws_change_byte Cons.IH) simp_all
  moreover have "paint_at m (\<Union>r\<in>{y + 1..<y + 1 + int (length ys)}. masked M c r) (paint_at m (masked M c y) f)
      = paint_at m (\<Union>r\<in>{y..<y + int (length (a # ys))}. masked M c r) f" for f
    by (subst paint_at_Un) (auto simp: masked_def paint_at_def fun_eq_iff)
  ultimately show ?case by (simp add: shift [simplified] algebra_simps)
qed

lemma Masks_nth: "n \<le> 8 \<Longrightarrow> Masks ! n = mask n"
proof -
  assume "n \<le> 8"
  then have "n \<in> {0, 1, 2, 3, 4, 5, 6, 7, 8}" by auto
  then show ?thesis by (elim insertE emptyE) (simp_all add: Masks_def mask_eq_exp_minus_1)
qed

lemma bit_column_mask:
  assumes "X = 8 * c" and "0 \<le> X1" and "X1 div 8 \<le> c" and "X \<le> X2" and "0 \<le> j" and "j < 8"
  shows "bit (column_mask X X1 X2) (nat j) \<longleftrightarrow> X1 \<le> X + j \<and> X + j \<le> X2"
proof -
  have 8: "(0xff :: u8) = mask 8" by (simp add: mask_eq_exp_minus_1)
  have low: "X < X1 \<Longrightarrow> X1 mod 8 = X1 - X" and high: "X2 - X < 8 \<Longrightarrow> X2 mod 8 = X2 - X"
    using assms by presburger+
  show ?thesis
    using assms low high
    by (auto simp: column_mask_def Let_def 8 Masks_nth bit_simps nat_less_iff less_diff_eq nat_le_iff)
qed

text \<open>The pixels of a rectangle, its edges included, and what the loop over the columns has left of them.\<close>

definition region :: "int \<Rightarrow> int \<Rightarrow> int \<Rightarrow> int \<Rightarrow> (int \<times> int) set" where
  "region X1 X2 Y1 Y2 = {X1..X2} \<times> {Y1..Y2}"

lemma draws_column:
  assumes "0 \<le> c" and "c < 23" and "0 \<le> Y1" and "Y2 < 128"
  shows "draws (fill_column m M (c + 23 * Y1) [Y1..Y2]) (paint_at m (\<Union>r\<in>{Y1..Y2}. masked M c r))"
proof (cases "Y1 \<le> Y2")
  case True
  then have "{Y1..<Y1 + int (length [Y1..Y2])} = {Y1..Y2}" by auto
  then show ?thesis using draws_fill_column [of c Y1 "[Y1..Y2]" m M] True assms by simp
next
  case False
  then have "fill_column m M (c + 23 * Y1) [Y1..Y2] = Some" by (simp add: fun_eq_iff)
  then show ?thesis using False by (simp add: paint_at_empty)
qed

lemma column_region:
  assumes "X = 8 * c" and "0 \<le> X1" and "X1 div 8 \<le> c" and "X \<le> X2"
  shows "(\<Union>r\<in>{Y1..Y2}. masked (column_mask X X1 X2) c r)
    = region X1 X2 Y1 Y2 \<inter> ({X..X + 7} \<times> UNIV)"
proof -
  have "(fst p div 8 = c \<and> bit (column_mask X X1 X2) (nat (fst p mod 8)))
      \<longleftrightarrow> X1 \<le> fst p \<and> fst p \<le> X2 \<and> X \<le> fst p \<and> fst p \<le> X + 7" for p :: "int \<times> int"
  proof (cases "fst p div 8 = c")
    case True
    then have "fst p = X + fst p mod 8" using assms(1) by presburger
    moreover have "0 \<le> fst p mod 8" "fst p mod 8 < 8" by simp_all
    ultimately show ?thesis using bit_column_mask [OF assms, of "fst p mod 8"] True by auto
  next
    case False
    then have "\<not> (X \<le> fst p \<and> fst p \<le> X + 7)" using assms(1) by presburger
    then show ?thesis using False by simp
  qed
  then show ?thesis by (auto simp: masked_def region_def)
qed

lemma draws_fill_columns:
  assumes "X = 8 * c" and "0 \<le> X1" and "X1 div 8 \<le> c" and "X2 < 178" and "0 \<le> Y1" and "Y2 < 128"
  shows "draws (fill_columns m X X1 X2 Y1 Y2) (paint_at m (region X1 X2 Y1 Y2 \<inter> ({X..} \<times> UNIV)))"
  using assms
proof (induction "nat (X2 + 1 - X)" arbitrary: X c rule: less_induct)
  case less
  show ?case
  proof (cases "X \<le> X2")
    case False
    then have "fill_columns m X X1 X2 Y1 Y2 = Some" by (simp add: fill_columns.simps fun_eq_iff)
    moreover have "region X1 X2 Y1 Y2 \<inter> ({X..} \<times> UNIV) = {}" using False by (auto simp: region_def)
    ultimately show ?thesis by (simp add: paint_at_empty)
  next
    case True
    have c: "0 \<le> c" "c < 23" using less.prems True by presburger+
    have "draws (fill_columns m (X + 8) X1 X2 Y1 Y2) (paint_at m (region X1 X2 Y1 Y2 \<inter> ({X + 8..} \<times> UNIV)))"
      using less.prems True by (intro less.hyps [of "X + 8" "c + 1"]) auto
    moreover have "draws (fill_column m (column_mask X X1 X2) (X div 8 + 23 * Y1) [Y1..Y2])
      (paint_at m (region X1 X2 Y1 Y2 \<inter> ({X..X + 7} \<times> UNIV)))"
      using draws_column [OF c less.prems(5,6), of m "column_mask X X1 X2"]
        column_region [OF less.prems(1-3) True, of Y1 Y2] less.prems(1) by simp
    ultimately have "draws (\<lambda>img. Option.bind (fill_column m (column_mask X X1 X2) (X div 8 + 23 * Y1) [Y1..Y2] img)
      (fill_columns m (X + 8) X1 X2 Y1 Y2))
      (\<lambda>f. paint_at m (region X1 X2 Y1 Y2 \<inter> ({X + 8..} \<times> UNIV)) (paint_at m (region X1 X2 Y1 Y2 \<inter> ({X..X + 7} \<times> UNIV)) f))"
      by (intro paints_bind)
    moreover have "paint_at m (region X1 X2 Y1 Y2 \<inter> ({X + 8..} \<times> UNIV)) (paint_at m (region X1 X2 Y1 Y2 \<inter> ({X..X + 7} \<times> UNIV)) f)
      = paint_at m (region X1 X2 Y1 Y2 \<inter> ({X..} \<times> UNIV)) f" for f
      by (subst paint_at_Un) (auto simp: paint_at_def fun_eq_iff)
    moreover have "fill_columns m X X1 X2 Y1 Y2 =
      (\<lambda>img. Option.bind (fill_column m (column_mask X X1 X2) (X div 8 + 23 * Y1) [Y1..Y2] img)
      (fill_columns m (X + 8) X1 X2 Y1 Y2))"
      using True by (intro ext) (simp add: fill_columns.simps [of m X])
    ultimately show ?thesis by simp
  qed
qed

lemma fill_region_draws:
  assumes "0 \<le> X1" and "X2 < 178" and "0 \<le> Y1" and "Y2 < 128"
  shows "draws (fill_columns m (X1 div 8 * 8) X1 X2 Y1 Y2) (paint_at m (region X1 X2 Y1 Y2))"
proof -
  have "draws (fill_columns m (X1 div 8 * 8) X1 X2 Y1 Y2) (paint_at m (region X1 X2 Y1 Y2 \<inter> ({X1 div 8 * 8..} \<times> UNIV)))"
    using assms by (intro draws_fill_columns [of _ "X1 div 8"]) auto
  moreover have "region X1 X2 Y1 Y2 \<inter> ({X1 div 8 * 8..} \<times> UNIV) = region X1 X2 Y1 Y2"
  proof -
    have "X1 div 8 * 8 \<le> X1" by presburger
    then show ?thesis by (auto simp: region_def)
  qed
  ultimately show ?thesis by simp
qed

section \<open>The display commands on the state of the library\<close>

lemma on_display_paints:
  assumes "draws f g" and "lcd_ok s"
  obtains img where "on_display f s = Some (s\<lparr>displayBuf := img\<rparr>)" "display img" "canvas img = g (screen s)"
proof -
  from assms(2) have "display (displayBuf s)" by (simp add: lcd_ok_def)
  with assms(1) obtain img where "f (displayBuf s) = Some img" "display img" "canvas img = g (canvas (displayBuf s))"
    by (rule paintsE)
  then show ?thesis using that [of img] assms(2) by (simp add: on_display_def lcd_ok_def screen_def)
qed

lemma lcd_ok_update [simp]: "lcd_ok (s\<lparr>displayBuf := img, Dirty := d\<rparr>) \<longleftrightarrow> LcdInitialized s \<and> pLcd s \<and> display img"
  by (simp add: lcd_ok_def LcdInitialized_def)

lemma screen_update [simp]: "screen (s\<lparr>displayBuf := img, Dirty := d\<rparr>) = canvas img"
  by (simp add: screen_def)

lemma dirty_update: "set_dirty (s\<lparr>displayBuf := img\<rparr>) = s\<lparr>displayBuf := img, Dirty := True\<rparr>"
  by (simp add: set_dirty_def)

lemma paints_on_display:
  assumes "draws f g"
  shows "paints lcd_ok screen (\<lambda>s. map_option set_dirty (on_display f s)) g"
proof (rule paintsI)
  fix s
  assume ok: "lcd_ok s"
  from assms ok obtain img where "on_display f s = Some (s\<lparr>displayBuf := img\<rparr>)" "display img" "canvas img = g (screen s)"
    by (rule on_display_paints)
  then show "\<exists>s'. map_option set_dirty (on_display f s) = Some s' \<and> lcd_ok s' \<and> screen s' = g (screen s)"
    using ok by (simp add: dirty_update) (simp add: lcd_ok_def)
qed

lemma cut_region: "paint_at m (region X1 (min X2 177) Y1 (min Y2 127)) = paint_at m (region X1 X2 Y1 Y2)"
  by (rule paint_at_cong) (auto simp: region_def on_screen_def)

lemma cut_min: "(if X > LCD_WIDTH - 1 then LCD_WIDTH - 1 else X) = min X 177"
  "(if Y > LCD_HEIGHT - 1 then LCD_HEIGHT - 1 else Y) = min Y 127"
  by (simp_all add: min_def)

lemma DisplayFillScreen_paints:
  "paints lcd_ok screen (DisplayFillScreen X Y W H m)
    (paint_at m (region (uint X) (uint (X + W - 1)) (uint Y) (uint (Y + H - 1))))"
proof -
  have "draws (fill_columns m (uint X div 8 * 8) (uint X) (min (uint (X + W - 1)) 177) (uint Y) (min (uint (Y + H - 1)) 127))
      (paint_at m (region (uint X) (min (uint (X + W - 1)) 177) (uint Y) (min (uint (Y + H - 1)) 127)))"
    by (rule fill_region_draws) (auto simp: min_less_iff_disj)
  from paints_on_display [OF this] show ?thesis
    unfolding cut_region DisplayFillScreen_def Let_def by (simp add: cut_min [simplified])
qed

lemma DisplayLineX_paints:
  assumes "uint Y < 128"
  shows "paints lcd_ok screen (DisplayLineX X1 X2 Y m)
    (paint_at m (region (min (uint X1) (uint X2)) (max (uint X1) (uint X2)) (uint Y) (uint Y)))"
proof -
  define a b where "a = min (uint X1) (uint X2)" and "b = max (uint X1) (uint X2)"
  have ends: "(if X1 > X2 then (uint X2, uint X1) else (uint X1, uint X2)) = (a, b)"
    by (auto simp: a_def b_def word_less_def)
  have "0 \<le> a" by (simp add: a_def)
  then have "draws (fill_columns m (a div 8 * 8) a (min b 177) (uint Y) (min (uint Y) 127))
      (paint_at m (region a (min b 177) (uint Y) (min (uint Y) 127)))"
    using assms by (intro fill_region_draws) auto
  from paints_on_display [OF this] have "paints lcd_ok screen
      (\<lambda>s. map_option set_dirty (on_display (fill_columns m (a div 8 * 8) a (min b 177) (uint Y) (uint Y)) s))
      (paint_at m (region a b (uint Y) (uint Y)))"
    unfolding cut_region using assms by simp
  moreover have "DisplayLineX X1 X2 Y m =
      (\<lambda>s. map_option set_dirty (on_display (fill_columns m (a div 8 * 8) a (min b 177) (uint Y) (uint Y)) s))"
    using assms unfolding DisplayLineX_def Let_def ends by (simp add: cut_min [simplified])
  ultimately show ?thesis by (simp add: a_def b_def)
qed

lemma bit_column: "i < 8 \<Longrightarrow> j < 8 \<Longrightarrow> bit (push_bit i 1 :: u8) j \<longleftrightarrow> j = i"
  by (auto simp: bit_simps)

lemma DisplayLineY_paints:
  assumes "uint X < 178"
  shows "paints lcd_ok screen (DisplayLineY X Y1 Y2 m)
    (paint_at m (region (uint X) (uint X) (min (uint Y1) (uint Y2)) (max (uint Y1) (uint Y2))))"
proof -
  define a b where "a = min (uint Y1) (uint Y2)" and "b = max (uint Y1) (uint Y2)"
  have ends: "(if Y1 > Y2 then (uint Y2, uint Y1) else (uint Y1, uint Y2)) = (a, b)"
    by (auto simp: a_def b_def word_less_def)
  have "0 \<le> a" by (simp add: a_def)
  let ?M = "push_bit (unat X mod 8) 1 :: u8"
  have "draws (fill_column m ?M (uint X div 8 + 23 * a) [a..min b 127]) (paint_at m (\<Union>r\<in>{a..min b 127}. masked ?M (uint X div 8) r))"
    using assms \<open>0 \<le> a\<close> by (intro draws_column) (auto simp: pos_imp_zdiv_nonneg_iff)
  moreover have "(\<Union>r\<in>{a..min b 127}. masked ?M (uint X div 8) r) = region (uint X) (uint X) a (min b 127)"
  proof -
    have "fst p div 8 = uint X div 8 \<and> bit ?M (nat (fst p mod 8)) \<longleftrightarrow> fst p = uint X" for p :: "int \<times> int"
    proof -
      have "unat X mod 8 = nat (uint X mod 8)" by (simp add: nat_mod_distrib nat_uint_eq)
      then have "bit ?M (nat (fst p mod 8)) \<longleftrightarrow> fst p mod 8 = uint X mod 8"
        by (subst bit_column) (auto simp: nat_less_iff)
      then show ?thesis by (metis div_mult_mod_eq)
    qed
    then show ?thesis by (auto simp: masked_def region_def)
  qed
  moreover have "paint_at m (region (uint X) (uint X) a (min b 127)) = paint_at m (region (uint X) (uint X) a b)"
    by (rule paint_at_cong) (auto simp: region_def on_screen_def)
  ultimately have "paints lcd_ok screen
      (\<lambda>s. map_option set_dirty (on_display (fill_column m ?M (uint X div 8 + 23 * a) [a..min b 127]) s))
      (paint_at m (region (uint X) (uint X) a b))"
    using paints_on_display by metis
  moreover have "DisplayLineY X Y1 Y2 m =
      (\<lambda>s. map_option set_dirty (on_display (fill_column m ?M (uint X div 8 + 23 * a) [a..min b 127]) s))"
    using assms unfolding DisplayLineY_def Let_def ends by (simp add: cut_min [simplified])
  ultimately show ?thesis by (simp add: a_def b_def)
qed

section \<open>Straight lines and rectangles\<close>

lemma uint_u8: "0 \<le> v \<Longrightarrow> v < 256 \<Longrightarrow> uint (word_of_int v :: u8) = v"
  by (simp add: uint_word_of_int take_bit_eq_mod)

lemma paints_if_ok:
  assumes "paints ok pic m f" and "\<And>s. ok s \<Longrightarrow> m' s = m s"
  shows "paints ok pic m' f"
  using assms unfolding paints_def by simp

lemma paint_other: "m \<noteq> DRAW_PIXELS_INVERT \<Longrightarrow> m \<noteq> DRAW_PIXELS_CLEAR \<Longrightarrow> paint m = paint DRAW_PIXELS_SET"
  by (simp add: paint_def fun_eq_iff draw_modes)

lemma paint_at_other: "paint m = paint m' \<Longrightarrow> paint_at m = paint_at m'"
  by (simp add: paint_at_def fun_eq_iff)

lemma display_pixel_paints:
  "uint X < 178 \<Longrightarrow> uint Y < 128 \<Longrightarrow> paints lcd_ok screen (display_pixel m X Y) (paint_at m {(uint X, uint Y)})"
proof -
  assume on: "uint X < 178" "uint Y < 128"
  have "draws (change_byte m (push_bit (unat X mod 8) 1) (uint X div 8 + 23 * uint Y))
      (paint_at m (masked (push_bit (unat X mod 8) 1) (uint X div 8) (uint Y)))"
    using on by (intro draws_change_byte) (auto simp: pos_imp_zdiv_nonneg_iff)
  moreover have "masked (push_bit (unat X mod 8) 1) (uint X div 8) (uint Y) = {(uint X, uint Y)}"
  proof -
    have X: "unat X mod 8 = nat (uint X mod 8)" by (simp add: nat_mod_distrib nat_uint_eq)
    have "fst p div 8 = uint X div 8 \<and> bit (push_bit (unat X mod 8) 1 :: u8) (nat (fst p mod 8)) \<longleftrightarrow> fst p = uint X"
      for p :: "int \<times> int"
    proof -
      have "bit (push_bit (unat X mod 8) 1 :: u8) (nat (fst p mod 8)) \<longleftrightarrow> fst p mod 8 = uint X mod 8"
        using X by (subst bit_column) (auto simp: nat_less_iff)
      then show ?thesis by (metis div_mult_mod_eq)
    qed
    then show ?thesis by (auto simp: masked_def)
  qed
  ultimately show ?thesis
    using paints_on_display on by (auto simp: display_pixel_def [abs_def])
qed

lemma line_pixel_paints:
  assumes "0 \<le> x" and "x < 178" and "0 \<le> y" and "y < 128"
  shows "paints lcd_ok screen (line_pixel m x y) (paint_at m {(x, 127 - y)})"
proof -
  let ?X = "word_of_int x :: u8" and ?Y = "word_of_int (127 - y) :: u8"
  have X: "uint ?X = x" and Y: "uint ?Y = 127 - y" by (rule uint_u8; use assms in simp)+
  have pixel: "paints lcd_ok screen (display_pixel m' ?X ?Y) (paint_at m' {(x, 127 - y)})" for m'
    using display_pixel_paints [of ?X ?Y m'] assms unfolding X Y by simp
  let ?m = "if m = DRAW_PIXELS_INVERT \<or> m = DRAW_PIXELS_CLEAR then m else DRAW_PIXELS_SET"
  have same: "paint_at m = paint_at ?m" by (rule paint_at_other) (simp add: paint_other)
  have "line_pixel m x y s = display_pixel ?m ?X ?Y s" if "lcd_ok s" for s
    using that assms
    by (simp add: line_pixel_def int32_def TRANSLATE_Y_def DisplayDraw_def lcd_ok_def draw_modes
        DisplaySetPixel_def DisplayClrPixel_def DisplayXorPixel_def)
  with pixel [of ?m] show ?thesis unfolding same by (rule paints_if_ok)
qed

text \<open>A rectangle in the coordinates of the commands, whose rows count from the bottom.\<close>

definition area :: "int \<Rightarrow> int \<Rightarrow> int \<Rightarrow> int \<Rightarrow> (int \<times> int) set" where
  "area x1 x2 y1 y2 = {p. x1 \<le> fst p \<and> fst p \<le> x2 \<and> y1 \<le> TRANSLATE_Y (snd p) \<and> TRANSLATE_Y (snd p) \<le> y2}"

lemma region_area: "region x1 x2 (127 - y2) (127 - y1) = area x1 x2 y1 y2"
  by (auto simp: region_def area_def TRANSLATE_Y_def)

lemma min_max_minus: "min (127 - a) (127 - b) = 127 - max a b" "max (127 - a) (127 - b) = 127 - min a b" for a b :: int
  by auto

lemma draw_clipped_straight:
  assumes "x1 = x2 \<or> y1 = y2" and x: "0 \<le> x1" "x1 \<le> x2" "x2 < 178" and y: "0 \<le> y1" "y1 < 128" "0 \<le> y2" "y2 < 128"
  shows "paints lcd_ok screen (draw_clipped x1 y1 x2 y2 m) (paint_at m (area x1 x2 (min y1 y2) (max y1 y2)))"
proof -
  let ?X1 = "word_of_int x1 :: u8" and ?X2 = "word_of_int x2 :: u8"
  let ?Y1 = "word_of_int (127 - y1) :: u8" and ?Y2 = "word_of_int (127 - y2) :: u8"
  have uints: "uint ?X1 = x1" "uint ?X2 = x2" "uint ?Y1 = 127 - y1" "uint ?Y2 = 127 - y2"
    by (rule uint_u8; use x y in simp)+
  consider (point) "x1 = x2" "y1 = y2" | (vertical) "x1 = x2" "y1 \<noteq> y2" | (horizontal) "x1 \<noteq> x2" "y1 = y2"
    using assms(1) by blast
  then show ?thesis
  proof cases
    case point
    have "area x1 x2 (min y1 y2) (max y1 y2) = {(x1, 127 - y1)}"
      using point by (auto simp: area_def TRANSLATE_Y_def)
    then show ?thesis using line_pixel_paints [of x1 y1 m] point x y by (simp add: draw_clipped_def [abs_def])
  next
    case vertical
    have "paints lcd_ok screen (DisplayLineY ?X1 ?Y1 ?Y2 m) (paint_at m (area x1 x2 (min y1 y2) (max y1 y2)))"
      using DisplayLineY_paints [of ?X1 ?Y1 ?Y2 m] x vertical
      unfolding uints min_max_minus region_area by simp
    then show ?thesis
      by (rule paints_if_ok)
        (use vertical y in \<open>simp add: draw_clipped_def int32_def TRANSLATE_Y_def DisplayDraw_def lcd_ok_def\<close>)
  next
    case horizontal
    have "paints lcd_ok screen (DisplayLineX ?X1 ?X2 ?Y1 m) (paint_at m (area x1 x2 (min y1 y2) (max y1 y2)))"
      using DisplayLineX_paints [of ?Y1 ?X1 ?X2 m] x y horizontal
      unfolding uints by (simp add: region_area min_absorb1 max_absorb2)
    then show ?thesis
      by (rule paints_if_ok)
        (use horizontal y in \<open>simp add: draw_clipped_def int32_def TRANSLATE_Y_def DisplayDraw_def lcd_ok_def\<close>)
  qed
qed

lemma paint_at_area_cut:
  "paint_at m (area (max x1 0) (min x2 177) (max y1 0) (min y2 127)) = paint_at m (area x1 x2 y1 y2)"
  by (rule paint_at_cong) (auto simp: area_def on_screen_def TRANSLATE_Y_def)

text \<open>
  Cutting a horizontal or vertical line at the edges of the screen only moves an end along the line.
\<close>

definition small :: "int \<Rightarrow> bool" where
  "small v \<longleftrightarrow> \<bar>v\<bar> \<le> 1073741823"

lemma int32_small:
  "small v \<Longrightarrow> int32 v = Some v" "small v \<Longrightarrow> small w \<Longrightarrow> int32 (v - w) = Some (v - w)"
  "small v \<Longrightarrow> small w \<Longrightarrow> int32 (v + w) = Some (v + w)"
  by (simp_all add: small_def int32_def abs_le_iff)

lemma int32_0 [simp]: "int32 0 = Some 0"
  by (simp add: int32_def)

lemma trim_0 [simp]: "trim e 0 d = Some 0" "trim e n 0 = Some 0"
  by (simp_all add: trim_def)

lemma CmdDrawLine_vertical:
  assumes "small x" "small y1" "small y2"
  shows "CmdDrawLine x y1 x y2 m s =
    (if max y1 y2 < 0 \<or> 128 \<le> min y1 y2 \<or> x < 0 \<or> 178 \<le> x then Some s
     else draw_clipped x (max (min y1 y2) 0) x (min (max y1 y2) 127) m s)"
  using assms
  by (cases "y1 > y2") (simp_all add: CmdDrawLine_def int32_small Let_def max_def min_def)

lemma CmdDrawLine_horizontal:
  assumes "small x1" "small x2" "small y"
  shows "CmdDrawLine x1 y x2 y m s =
    (if y < 0 \<or> 128 \<le> y \<or> max x1 x2 < 0 \<or> 178 \<le> min x1 x2 then Some s
     else draw_clipped (max (min x1 x2) 0) y (min (max x1 x2) 177) y m s)"
  using assms
  by (cases "x1 > x2") (simp_all add: CmdDrawLine_def int32_small Let_def max_def min_def)

lemma paints_off_screen:
  assumes "b < 0 \<or> 178 \<le> a \<or> d < 0 \<or> 128 \<le> c"
  shows "paints ok pic Some (paint_at m (area a b c d))"
proof -
  have "area a b c d \<inter> Collect on_screen = {}" using assms by (auto simp: area_def on_screen_def TRANSLATE_Y_def)
  then show ?thesis by (simp add: paint_at_empty)
qed

lemma CmdDrawLine_straight:
  assumes "x1 = x2 \<or> y1 = y2" and "small x1" "small x2" "small y1" "small y2"
  shows "paints lcd_ok screen (CmdDrawLine x1 y1 x2 y2 m)
    (paint_at m (area (min x1 x2) (max x1 x2) (min y1 y2) (max y1 y2)))"
proof -
  define a b c d where "a = min x1 x2" and "b = max x1 x2" and "c = min y1 y2" and "d = max y1 y2"
  have ord: "a \<le> b" "c \<le> d" and "a = b \<or> c = d" using assms(1) by (auto simp: a_def b_def c_def d_def)
  have "CmdDrawLine x1 y1 x2 y2 m = (\<lambda>s. if d < 0 \<or> 128 \<le> c \<or> b < 0 \<or> 178 \<le> a then Some s
      else draw_clipped (max a 0) (max c 0) (min b 177) (min d 127) m s)"
    using assms CmdDrawLine_vertical [of x1 y1 y2 m] CmdDrawLine_horizontal [of x1 x2 y1 m]
    by (intro ext) (auto simp: a_def b_def c_def d_def)
  moreover have "paints lcd_ok screen (draw_clipped (max a 0) (max c 0) (min b 177) (min d 127) m) (paint_at m (area a b c d))"
    if "\<not> (d < 0 \<or> 128 \<le> c \<or> b < 0 \<or> 178 \<le> a)"
  proof -
    have "max c 0 \<le> min d 127" using ord that by auto
    moreover have "max a 0 = min b 177 \<or> max c 0 = min d 127" using \<open>a = b \<or> c = d\<close> ord that by auto
    ultimately show ?thesis
      using draw_clipped_straight [of "max a 0" "min b 177" "max c 0" "min d 127" m] \<open>a = b \<or> c = d\<close> ord that
      by (simp add: paint_at_area_cut min_absorb1 max_absorb2)
  qed
  moreover have "paints lcd_ok screen Some (paint_at m (area a b c d))" if "d < 0 \<or> 128 \<le> c \<or> b < 0 \<or> 178 \<le> a"
    by (rule paints_off_screen) (use that in blast)
  ultimately show ?thesis
    unfolding a_def [symmetric] b_def [symmetric] c_def [symmetric] d_def [symmetric]
    by (cases "d < 0 \<or> 128 \<le> c \<or> b < 0 \<or> 178 \<le> a") simp_all
qed

text \<open>The pixels of a rectangle: all of them, or the ones of its border.\<close>

definition rectangle :: "u8 \<Rightarrow> int \<Rightarrow> int \<Rightarrow> int \<Rightarrow> int \<Rightarrow> (int \<times> int) set" where
  "rectangle FillMode x1 x2 y1 y2 =
    area x1 x2 y1 y2 - (if FillMode = DRAW_SHAPE_FILLED then {} else area (x1 + 1) (x2 - 1) (y1 + 1) (y2 - 1))"

lemma filled_paints:
  assumes "x1 \<le> x2" "y1 \<le> y2" "0 \<le> x1" "x2 < 178" "0 \<le> y1" "y2 < 128"
  shows "paints lcd_ok screen
    (DisplayDraw 6 m (word_of_int x1) (word_of_int (TRANSLATE_Y y2)) (word_of_int (x2 - x1 + 1)) (word_of_int (y2 - y1 + 1)))
    (paint_at m (area x1 x2 y1 y2))"
proof -
  let ?X = "word_of_int x1 :: u8" and ?W = "word_of_int (x2 - x1 + 1) :: u8"
  let ?Y = "word_of_int (127 - y2) :: u8" and ?H = "word_of_int (y2 - y1 + 1) :: u8"
  have at: "uint ?X = x1" "uint ?Y = 127 - y2" by (rule uint_u8; use assms in simp)+
  have "?X + ?W - 1 = word_of_int x2" "?Y + ?H - 1 = word_of_int (127 - y1)" by simp_all
  then have ends: "uint (?X + ?W - 1) = x2" "uint (?Y + ?H - 1) = 127 - y1"
    using uint_u8 [of x2] uint_u8 [of "127 - y1"] assms by presburger+
  have "paints lcd_ok screen (DisplayFillScreen ?X ?Y ?W ?H m) (paint_at m (area x1 x2 y1 y2))"
    using DisplayFillScreen_paints [of ?X ?Y ?W ?H m] unfolding at ends region_area .
  then show ?thesis by (rule paints_if_ok) (simp add: DisplayDraw_def TRANSLATE_Y_def lcd_ok_def)
qed

lemma paints_eq: "paints ok pic m f \<Longrightarrow> f = g \<Longrightarrow> paints ok pic m g"
  by simp

lemma border_lines:
  assumes "x1 < x2" and "y1 < y2"
  shows "paint_at m (area x1 x1 (y1 + 1) (y2 - 1)) (paint_at m (area x2 x2 (y1 + 1) (y2 - 1))
      (paint_at m (area x1 x2 y2 y2) (paint_at m (area x1 x2 y1 y1) f)))
    = paint_at m (area x1 x2 y1 y2 - area (x1 + 1) (x2 - 1) (y1 + 1) (y2 - 1)) f"
  using assms by (auto simp: paint_at_def area_def fun_eq_iff)

lemma hollow_paints:
  assumes "x1 < x2" "y1 < y2" "small x1" "small x2" "small y1" "small y2"
  shows "paints lcd_ok screen
    (\<lambda>s. do {
        s \<leftarrow> CmdDrawLine x1 y1 x2 y1 m s;
        s \<leftarrow> CmdDrawLine x1 y2 x2 y2 m s;
        if y2 > y1 + 1 then do {
          s \<leftarrow> CmdDrawLine x2 (y1 + 1) x2 (y2 - 1) m s;
          CmdDrawLine x1 (y1 + 1) x1 (y2 - 1) m s
        } else Some s
      })
    (paint_at m (area x1 x2 y1 y2 - area (x1 + 1) (x2 - 1) (y1 + 1) (y2 - 1)))"
proof -
  have line: "paints lcd_ok screen (CmdDrawLine a c b d m) (paint_at m (area a b c d))"
    if "a = b \<or> c = d" "a \<le> b" "c \<le> d" "small a" "small b" "small c" "small d" for a b c d
    using CmdDrawLine_straight [OF that(1,4-7), of m] that(2,3) by (simp add: min_absorb1 max_absorb2)
  have sides: "paints lcd_ok screen
      (\<lambda>s. if y2 > y1 + 1 then do {
          s \<leftarrow> CmdDrawLine x2 (y1 + 1) x2 (y2 - 1) m s;
          CmdDrawLine x1 (y1 + 1) x1 (y2 - 1) m s
        } else Some s)
      (\<lambda>f. paint_at m (area x1 x1 (y1 + 1) (y2 - 1)) (paint_at m (area x2 x2 (y1 + 1) (y2 - 1)) f))"
  proof (cases "y2 > y1 + 1")
    case True
    then have "small (y1 + 1)" "small (y2 - 1)" using assms by (auto simp: small_def abs_le_iff)
    with True assms have "paints lcd_ok screen
        (\<lambda>s. Option.bind (CmdDrawLine x2 (y1 + 1) x2 (y2 - 1) m s) (CmdDrawLine x1 (y1 + 1) x1 (y2 - 1) m))
        (\<lambda>f. paint_at m (area x1 x1 (y1 + 1) (y2 - 1)) (paint_at m (area x2 x2 (y1 + 1) (y2 - 1)) f))"
      by (intro paints_bind line) auto
    with True show ?thesis by simp
  next
    case False
    then have "area a b (y1 + 1) (y2 - 1) = {}" for a b by (auto simp: area_def)
    with False show ?thesis by (simp add: paint_at_empty)
  qed
  have "paints lcd_ok screen (\<lambda>s. Option.bind (CmdDrawLine x1 y1 x2 y1 m s)
      (\<lambda>s. Option.bind (CmdDrawLine x1 y2 x2 y2 m s)
        (\<lambda>s. if y2 > y1 + 1 then do {
          s \<leftarrow> CmdDrawLine x2 (y1 + 1) x2 (y2 - 1) m s;
          CmdDrawLine x1 (y1 + 1) x1 (y2 - 1) m s
        } else Some s)))
    (\<lambda>f. paint_at m (area x1 x1 (y1 + 1) (y2 - 1)) (paint_at m (area x2 x2 (y1 + 1) (y2 - 1))
      (paint_at m (area x1 x2 y2 y2) (paint_at m (area x1 x2 y1 y1) f))))"
    using assms by (intro paints_bind line paints_bind [OF _ sides]) auto
  then show ?thesis by (rule paints_eq) (simp add: border_lines [OF assms(1,2)] fun_eq_iff)
qed

lemma CmdDrawRect_paints:
  assumes "\<bar>left\<bar> < 2 ^ 29" "\<bar>bottom\<bar> < 2 ^ 29" "\<bar>width\<bar> < 2 ^ 29" "\<bar>height\<bar> < 2 ^ 29"
  shows "paints lcd_ok screen (CmdDrawRect left bottom width height m F)
    (paint_at m (rectangle F (min left (left + width)) (max left (left + width))
      (min bottom (bottom + height)) (max bottom (bottom + height))))"
proof -
  define x1 x2 y1 y2 where "x1 = min left (left + width)" and "x2 = max left (left + width)"
    and "y1 = min bottom (bottom + height)" and "y2 = max bottom (bottom + height)"
  have small: "small left" "small bottom" "small width" "small height" "small x1" "small x2" "small y1" "small y2"
    using assms by (auto simp: small_def x1_def x2_def y1_def y2_def)
  have ord: "x1 \<le> x2" "y1 \<le> y2" by (auto simp: x1_def x2_def y1_def y2_def)
  have swap: "(if left > left + width then (left + width, left) else (left, left + width)) = (x1, x2)"
    "(if bottom > bottom + height then (bottom + height, bottom) else (bottom, bottom + height)) = (y1, y2)"
    by (auto simp: x1_def x2_def y1_def y2_def)
  note unfolded = CmdDrawRect_def [of left bottom width height m F, unfolded int32_small(3) [OF small(1,3)]
    int32_small(3) [OF small(2,4)] bind.bind_lunit Let_def swap split]
  consider (thin) "y2 = y1 \<or> x2 = x1"
    | (filled) "y2 \<noteq> y1" "x2 \<noteq> x1" "F = DRAW_SHAPE_FILLED"
    | (hollow) "y2 \<noteq> y1" "x2 \<noteq> x1" "F \<noteq> DRAW_SHAPE_FILLED"
    by blast
  then have "paints lcd_ok screen (CmdDrawRect left bottom width height m F) (paint_at m (rectangle F x1 x2 y1 y2))"
  proof cases
    case thin
    then have "area (x1 + 1) (x2 - 1) (y1 + 1) (y2 - 1) = {}" using ord by (auto simp: area_def)
    then have "rectangle F x1 x2 y1 y2 = area x1 x2 y1 y2" by (simp add: rectangle_def)
    moreover have "paints lcd_ok screen (CmdDrawLine x1 y1 x2 y2 m) (paint_at m (area x1 x2 y1 y2))"
      using CmdDrawLine_straight [of x1 x2 y1 y2 m] thin small ord by (auto simp: min_absorb1 max_absorb2)
    moreover from this have "paints lcd_ok screen (CmdDrawRect left bottom width height m F) (paint_at m (area x1 x2 y1 y2))"
      by (rule paints_if_ok) (subst unfolded, use thin in simp)
    ultimately show ?thesis by simp
  next
    case filled
    then have whole: "rectangle F x1 x2 y1 y2 = area x1 x2 y1 y2" by (simp add: rectangle_def)
    show ?thesis
    proof (cases "x2 < 0 \<or> y2 < 0 \<or> x1 > 177 \<or> y1 > 127")
      case True
      then have "paints lcd_ok screen Some (paint_at m (area x1 x2 y1 y2))" by (intro paints_off_screen) auto
      then show ?thesis unfolding whole by (rule paints_if_ok) (subst unfolded, use filled True in simp)
    next
      case False
      have edges: "(if x1 < 0 then 0 else x1) = max x1 0" "(if y1 < 0 then 0 else y1) = max y1 0"
        "(if x2 > LCD_WIDTH - 1 then LCD_WIDTH - 1 else x2) = min x2 177"
        "(if y2 > LCD_HEIGHT - 1 then LCD_HEIGHT - 1 else y2) = min y2 127"
        by auto
      have off: "(x2 < 0 \<or> y2 < 0 \<or> x1 > LCD_WIDTH - 1 \<or> y1 > LCD_HEIGHT - 1) = False" using False by simp
      have "paints lcd_ok screen
        (DisplayDraw 6 m (word_of_int (max x1 0)) (word_of_int (TRANSLATE_Y (min y2 127)))
          (word_of_int (min x2 177 - max x1 0 + 1)) (word_of_int (min y2 127 - max y1 0 + 1)))
        (paint_at m (area (max x1 0) (min x2 177) (max y1 0) (min y2 127)))"
        by (rule filled_paints) (use False ord in auto)
      then show ?thesis
        unfolding whole paint_at_area_cut
        by (rule paints_if_ok) (subst unfolded, unfold edges off, simp only: filled simp_thms if_True if_False)
    qed
  next
    case hollow
    then have "x1 < x2" "y1 < y2" "rectangle F x1 x2 y1 y2 = area x1 x2 y1 y2 - area (x1 + 1) (x2 - 1) (y1 + 1) (y2 - 1)"
      using ord by (auto simp: rectangle_def)
    moreover from this(1,2) have "paints lcd_ok screen (CmdDrawRect left bottom width height m F)
        (paint_at m (area x1 x2 y1 y2 - area (x1 + 1) (x2 - 1) (y1 + 1) (y2 - 1)))"
      by (intro paints_if_ok [OF hollow_paints [of x1 x2 y1 y2 m]])
        (use small in simp_all, subst unfolded, use hollow in \<open>simp cong: if_cong\<close>)
    ultimately show ?thesis by simp
  qed
  then show ?thesis by (simp add: x1_def x2_def y1_def y2_def)
qed

section \<open>Rectangles through the interface\<close>

lemma paints_Ex: "paints ok pic m f \<Longrightarrow> ok s \<Longrightarrow> \<exists>s'. m s = Some s' \<and> ok s' \<and> pic s' = f (pic s)"
  by (simp add: paints_def)

lemma with_mode_paints:
  assumes "lcd_ok s" and "CmdResolveDrawingMode (ucast options) = (True, m, F)" and "paints lcd_ok screen (draw m F) f"
  shows "\<exists>s'. with_mode options draw s = Some (0, s') \<and> lcd_ok s' \<and> screen s' = f (screen s)"
proof -
  from assms(3,1) obtain s' where "draw m F s = Some s'" "lcd_ok s'" "screen s' = f (screen s)" by (rule paintsE)
  then show ?thesis using assms(1,2) by (simp add: with_mode_def lcd_ok_def)
qed

text \<open>
  C14: \<^verbatim>\<open>RectOutEx\<close> paints exactly the rectangle between the corners \<^verbatim>\<open>(left, bottom)\<close> and
  \<^verbatim>\<open>(left + width, bottom + height)\<close>, both included, whatever the signs of width and height are and wherever
  the corners lie on or off the screen, as long as the four arguments are less than \<^verbatim>\<open>2^29\<close> in absolute
  value: for a filled shape all its pixels, for a hollow one its border; no pixel twice, so that inverting
  works, and no byte outside the buffer. The row 0 is the lowest of the screen. So for positive sizes the
  point given is the bottom left corner, and the rectangle has \<^verbatim>\<open>width + 1\<close> columns and \<^verbatim>\<open>height + 1\<close> rows;
  \<^verbatim>\<open>ev3_lcd.h\<close> documents a top left corner and \<^verbatim>\<open>width\<close> times \<^verbatim>\<open>height\<close>. The options resolve to a mode of
  drawing and have none of the bits 0 and 1, which are documented to clear the screen first and which the
  code ignores (\<^verbatim>\<open>clear_options_ignored\<close>).
\<close>

theorem rect_painted:
  assumes "lcd_ok s"
    and "\<bar>left\<bar> < 2 ^ 29" "\<bar>bottom\<bar> < 2 ^ 29" "\<bar>width\<bar> < 2 ^ 29" "\<bar>height\<bar> < 2 ^ 29"
    and "CmdResolveDrawingMode (ucast options) = (True, m, F)" and "options AND 3 = 0"
  shows "\<exists>s'. RectOutEx left bottom width height options s = Some (0, s') \<and> lcd_ok s'
    \<and> screen s' = paint_at m (rectangle F (min left (left + width)) (max left (left + width))
        (min bottom (bottom + height)) (max bottom (bottom + height))) (screen s)"
  unfolding RectOutEx_def
  by (rule with_mode_paints [OF assms(1,6) CmdDrawRect_paints [OF assms(2-5)]])

lemma lcd_ok_blank: "lcd_ok blank_lcd"
  by (simp add: lcd_ok_def blank_lcd_def LcdInitialized_def)

lemma screen_blank: "screen blank_lcd = (\<lambda>_. False)"
proof -
  have "replicate 2944 0 ! byte_at p = (0 :: u8)" if "on_screen p" for p
    using byte_at_less [OF that display_replicate [of 0]] by (simp only: length_replicate nth_replicate)
  then show ?thesis by (auto simp: screen_def canvas_def blank_lcd_def fun_eq_iff)
qed

theorem rect_painted_witness:
  "\<exists>s'. RectOutEx 170 5 (- 9) 1000 0x18 blank_lcd = Some (0, s')
    \<and> screen s' (161, 0) \<and> screen s' (170, 122) \<and> \<not> screen s' (165, 100) \<and> \<not> screen s' (171, 0)"
proof -
  have mode: "CmdResolveDrawingMode (ucast (0x18 :: u32)) = (True, DRAW_PIXELS_INVERT, DRAW_SHAPE_HOLLOW)"
    by (simp add: CmdResolveDrawingMode_def Let_def)
  obtain s' where "RectOutEx 170 5 (- 9) 1000 0x18 blank_lcd = Some (0, s')"
    "screen s' = paint_at DRAW_PIXELS_INVERT (rectangle DRAW_SHAPE_HOLLOW 161 170 5 1005) (\<lambda>_. False)"
    using rect_painted [OF lcd_ok_blank _ _ _ _ mode, of 170 5 "- 9" 1000] by (auto simp: screen_blank)
  moreover have "paint_at DRAW_PIXELS_INVERT (rectangle DRAW_SHAPE_HOLLOW 161 170 5 1005) (\<lambda>_. False) p
      \<longleftrightarrow> on_screen p \<and> p \<in> rectangle DRAW_SHAPE_HOLLOW 161 170 5 1005" for p
    by (auto simp: paint_at_def paint_def)
  ultimately show ?thesis
    by (intro exI [of _ s']) (simp add: on_screen_def rectangle_def area_def TRANSLATE_Y_def draw_modes)
qed

end
