(* ===== verification/Bresenham.thy ===== *)
theory Bresenham
  imports Paint
begin

text \<open>
  The lines of \<^verbatim>\<open>CmdDrawLine\<close> that are neither horizontal nor vertical: the loop along the longer axis
  paints, in every column or row, the pixel nearest to the ideal line, and ends.
\<close>

section \<open>The nearest pixel\<close>

text \<open>
  On a line that goes \<open>B\<close> across while it goes \<open>A\<close> along, \<open>n\<close> is the whole number nearest to the true
  distance across after \<open>k\<close> steps along.
\<close>

definition near :: "int \<Rightarrow> int \<Rightarrow> int \<Rightarrow> int \<Rightarrow> bool" where
  "near A B k n \<longleftrightarrow> - A \<le> 2 * (B * k - n * A) \<and> 2 * (B * k - n * A) < A"

lemma nearD: "near A B k n \<Longrightarrow> - A \<le> 2 * (B * k - n * A)" "near A B k n \<Longrightarrow> 2 * (B * k - n * A) < A"
  by (simp_all add: near_def)

lemma near_0: "0 < A \<Longrightarrow> near A B 0 0"
  by (simp add: near_def)

lemma near_unique:
  assumes "near A B k n" and "near A B k n'"
  shows "n = n'"
proof -
  have "2 * (B * k - n * A) - 2 * (B * k - n' * A) = 2 * A * (n' - n)" by (simp add: algebra_simps)
  then have "\<bar>2 * A * (n' - n)\<bar> < 2 * A" using assms unfolding near_def by linarith
  then have "\<bar>2 * A\<bar> * \<bar>n' - n\<bar> < \<bar>2 * A\<bar> * 1" by (simp add: abs_mult)
  then have "\<bar>n' - n\<bar> < 1" by (rule mult_left_less_imp_less) simp
  then show ?thesis by simp
qed

lemma near_step:
  assumes "near A B k n" and "0 \<le> B" and "B \<le> A"
  shows "near A B (k + 1) (if 2 * (B * (k + 1) - n * A) - A \<ge> 0 then n + 1 else n)"
proof -
  have "B * (k + 1) - n * A = B * k - n * A + B" "B * (k + 1) - (n + 1) * A = B * k - n * A + B - A"
    by (simp_all add: algebra_simps)
  then show ?thesis using assms unfolding near_def by simp
qed

lemma near_bounds:
  assumes "near A B k n" and "0 \<le> k" and "k \<le> A" and "0 \<le> B"
  shows "0 \<le> n" and "n \<le> B"
proof -
  have A: "0 < A" using nearD [OF assms(1)] by linarith
  have k: "0 \<le> B * k" "B * k \<le> B * A" using assms by (simp_all add: mult_left_mono)
  have "- A < 2 * v \<and> 2 * v \<le> 2 * w + A" if "- A \<le> 2 * (u - v)" "2 * (u - v) < A" "0 \<le> u" "u \<le> w" for u v w
    using that by simp
  note this [OF nearD [OF assms(1)] k]
  then have "(- 1) * A < (2 * n) * A" and over: "(2 * n) * A \<le> (2 * B + 1) * A" by (simp_all add: algebra_simps)
  from this(1) have "- 1 < 2 * n" by (rule mult_right_less_imp_less) (use A in simp)
  then show "0 \<le> n" by simp
  have "2 * n \<le> 2 * B + 1" using over A by (simp add: mult_le_cancel_right)
  then show "n \<le> B" by simp
qed

section \<open>The loops\<close>

text \<open>The pixels of the rest of a line that goes to the right, by column and by row.\<close>

definition columns_from :: "int \<Rightarrow> int \<Rightarrow> int \<Rightarrow> int \<Rightarrow> int \<Rightarrow> int \<Rightarrow> int \<Rightarrow> (int \<times> int) set" where
  "columns_from x x1 y1 x2 dx dy sy =
    {p. x \<le> fst p \<and> fst p \<le> x2 \<and> near dx dy (fst p - x1) (sy * (TRANSLATE_Y (snd p) - y1))}"

definition rows_from :: "int \<Rightarrow> int \<Rightarrow> int \<Rightarrow> int \<Rightarrow> int \<Rightarrow> int \<Rightarrow> (int \<times> int) set" where
  "rows_from k x1 y1 dx dy sy =
    {p. k \<le> sy * (TRANSLATE_Y (snd p) - y1) \<and> sy * (TRANSLATE_Y (snd p) - y1) \<le> dy
      \<and> near dy dx (sy * (TRANSLATE_Y (snd p) - y1)) (fst p - x1)}"

lemma columns_step:
  assumes "near dx dy (x - x1) (sy * (y - y1))" and "x \<le> x2" and sy: "sy = 1 \<or> sy = - 1"
  shows "columns_from x x1 y1 x2 dx dy sy = columns_from (x + 1) x1 y1 x2 dx dy sy \<union> {(x, 127 - y)}"
proof -
  have at: "near dx dy (x - x1) (sy * (y' - y1)) \<longleftrightarrow> y' = y" for y'
  proof
    assume "near dx dy (x - x1) (sy * (y' - y1))"
    with assms(1) have "sy * (y - y1) = sy * (y' - y1)" by (rule near_unique)
    then show "y' = y" using sy by auto
  qed (use assms(1) in simp)
  have "p \<in> columns_from x x1 y1 x2 dx dy sy \<longleftrightarrow> p \<in> columns_from (x + 1) x1 y1 x2 dx dy sy \<union> {(x, 127 - y)}" for p
    using assms(2) by (cases p; cases "fst p = x") (auto simp: columns_from_def TRANSLATE_Y_def at assms(1))
  then show ?thesis by blast
qed

lemma rows_step:
  assumes "near dy dx (sy * (y - y1)) (x - x1)" and "sy * (y - y1) \<le> dy" and sy: "sy = 1 \<or> sy = - 1"
  shows "rows_from (sy * (y - y1)) x1 y1 dx dy sy
    = rows_from (sy * (y - y1) + 1) x1 y1 dx dy sy \<union> {(x, 127 - y)}"
proof -
  have "near dy dx (sy * (y - y1)) (x' - x1) \<longleftrightarrow> x' = x" for x'
  proof
    assume "near dy dx (sy * (y - y1)) (x' - x1)"
    with assms(1) have "x - x1 = x' - x1" by (rule near_unique)
    then show "x' = x" by simp
  qed (use assms(1) in simp)
  then have "p \<in> rows_from (sy * (y - y1)) x1 y1 dx dy sy
      \<longleftrightarrow> p \<in> rows_from (sy * (y - y1) + 1) x1 y1 dx dy sy \<union> {(x, 127 - y)}" for p
    using assms(2) sy by (cases p; cases "TRANSLATE_Y (snd p) = y"; elim disjE) (auto simp: rows_from_def TRANSLATE_Y_def)
  then show ?thesis by blast
qed

lemma paints_pixel_bind:
  assumes "paints lcd_ok screen m' (paint_at m B)" and "A = B \<union> {(x, 127 - y)}" and "(x, 127 - y) \<notin> B"
    and "0 \<le> x" "x < 178" "0 \<le> y" "y < 128"
  shows "paints lcd_ok screen (\<lambda>s. Option.bind (line_pixel m x y s) m') (paint_at m A)"
proof -
  have "paints lcd_ok screen (\<lambda>s. Option.bind (line_pixel m x y s) m')
      (\<lambda>f. paint_at m B (paint_at m {(x, 127 - y)} f))"
    by (intro paints_bind line_pixel_paints assms)
  moreover have "paint_at m B (paint_at m {(x, 127 - y)} f) = paint_at m A f" for f
    using assms(2,3) by (subst paint_at_Un) auto
  ultimately show ?thesis by simp
qed

lemma line_x_dominant_paints:
  assumes E: "0 \<le> dy" "dy \<le> dx" and sy: "sy = 1 \<or> sy = - 1"
    and x: "0 \<le> x1" "x1 + dx = x2" "x2 < 178"
    and y: "0 \<le> y1" "y1 < 128" "0 \<le> y1 + sy * dy" "y1 + sy * dy < 128"
  shows "x1 \<le> x \<Longrightarrow> x \<le> x2 \<Longrightarrow> near dx dy (x - x1) (sy * (y - y1))
    \<Longrightarrow> d = 2 * (dy * (x - x1 + 1) - sy * (y - y1) * dx) - dx
    \<Longrightarrow> paints lcd_ok screen (line_x_dominant m (2 * dx) (2 * dy) 1 sy x2 x y d)
      (paint_at m (columns_from x x1 y1 x2 dx dy sy))"
proof (induction "nat (x2 - x)" arbitrary: x y d)
  case (0 x y d)
  note bounds = near_bounds [OF 0(4)]
  have "0 \<le> y \<and> y < 128" using bounds sy x y E 0 by auto
  moreover have "columns_from (x + 1) x1 y1 x2 dx dy sy = {}" using 0 by (auto simp: columns_from_def)
  then have "columns_from x x1 y1 x2 dx dy sy = {} \<union> {(x, 127 - y)}" using columns_step [OF 0(4,3) sy] by simp
  ultimately have "paints lcd_ok screen (\<lambda>s. Option.bind (line_pixel m x y s) Some)
      (paint_at m (columns_from x x1 y1 x2 dx dy sy))"
    using 0 x by (intro paints_pixel_bind [where B = "{}"]) (auto simp: paint_at_empty)
  moreover have "x = x2" using 0 by simp
  ultimately show ?case by (rule_tac paints_if_ok) (simp_all add: line_x_dominant.simps [of m _ _ _ _ x2])
next
  case (Suc j x y d)
  note bounds = near_bounds [OF Suc(5)]
  have on: "0 \<le> y \<and> y < 128" using bounds sy x y E Suc by auto
  define y' d' where "y' = (if d \<ge> 0 then y + sy else y)" and "d' = (if d \<ge> 0 then d - 2 * dx else d) + 2 * dy"
  have n: "sy * (y' - y1) = (if d \<ge> 0 then sy * (y - y1) + 1 else sy * (y - y1))"
    using sy by (auto simp: y'_def)
  have "near dx dy (x - x1 + 1) (sy * (y' - y1))"
    using near_step [OF Suc(5) E] unfolding n Suc(6) .
  moreover have "d' = 2 * (dy * (x + 1 - x1 + 1) - sy * (y' - y1) * dx) - dx"
    unfolding n d'_def Suc(6) by (simp add: algebra_simps)
  moreover have "j = nat (x2 - (x + 1))" using Suc by simp
  ultimately have "paints lcd_ok screen (line_x_dominant m (2 * dx) (2 * dy) 1 sy x2 (x + 1) y' d')
      (paint_at m (columns_from (x + 1) x1 y1 x2 dx dy sy))"
    using Suc by (intro Suc(1)) (auto simp: algebra_simps)
  then have "paints lcd_ok screen (\<lambda>s. Option.bind (line_pixel m x y s) (line_x_dominant m (2 * dx) (2 * dy) 1 sy x2 (x + 1) y' d'))
      (paint_at m (columns_from x x1 y1 x2 dx dy sy))"
    by (rule paints_pixel_bind) (use columns_step [OF Suc(5,4) sy] on x Suc in \<open>auto simp: columns_from_def\<close>)
  moreover have "line_x_dominant m (2 * dx) (2 * dy) 1 sy x2 x y d s
      = Option.bind (line_pixel m x y s) (line_x_dominant m (2 * dx) (2 * dy) 1 sy x2 (x + 1) y' d')" for s
  proof -
    have "x \<noteq> x2" using Suc(2) by auto
    then show ?thesis by (cases "d \<ge> 0") (simp_all add: line_x_dominant.simps [of m _ _ _ _ x2 x] y'_def d'_def)
  qed
  ultimately show ?case by (rule paints_if_ok)
qed

lemma line_y_dominant_paints:
  assumes E: "0 \<le> dx" "dx \<le> dy" and sy: "sy = 1 \<or> sy = - 1"
    and x: "0 \<le> x1" "x1 + dx < 178"
    and y: "0 \<le> y1" "y1 < 128" "y1 + sy * dy = y2" "0 \<le> y2" "y2 < 128"
  shows "0 \<le> sy * (y - y1) \<Longrightarrow> sy * (y - y1) \<le> dy \<Longrightarrow> near dy dx (sy * (y - y1)) (x - x1)
    \<Longrightarrow> d = 2 * (dx * (sy * (y - y1) + 1) - (x - x1) * dy) - dy
    \<Longrightarrow> paints lcd_ok screen (line_y_dominant m (2 * dx) (2 * dy) 1 sy y2 x y d)
      (paint_at m (rows_from (sy * (y - y1)) x1 y1 dx dy sy))"
proof (induction "nat (dy - sy * (y - y1))" arbitrary: x y d)
  case (0 y x d)
  note bounds = near_bounds [OF 0(4)]
  have on: "0 \<le> x \<and> x < 178" "0 \<le> y \<and> y < 128" using bounds sy x y E 0 by auto
  have "rows_from (sy * (y - y1) + 1) x1 y1 dx dy sy = {}" using 0 by (auto simp: rows_from_def)
  then have "rows_from (sy * (y - y1)) x1 y1 dx dy sy = {} \<union> {(x, 127 - y)}" using rows_step [OF 0(4,3) sy] by simp
  then have "paints lcd_ok screen (\<lambda>s. Option.bind (line_pixel m x y s) Some)
      (paint_at m (rows_from (sy * (y - y1)) x1 y1 dx dy sy))"
    using on by (intro paints_pixel_bind [where B = "{}"]) (auto simp: paint_at_empty)
  moreover have "y = y2" using 0 sy y by auto
  ultimately show ?case by (rule_tac paints_if_ok) (simp_all add: line_y_dominant.simps [of m _ _ _ _ y2])
next
  case (Suc j y x d)
  note bounds = near_bounds [OF Suc(5)]
  have on: "0 \<le> x \<and> x < 178" "0 \<le> y \<and> y < 128" using bounds sy x y E Suc by auto
  define x' d' where "x' = (if d \<ge> 0 then x + 1 else x)" and "d' = (if d \<ge> 0 then d - 2 * dy else d) + 2 * dx"
  have n: "x' - x1 = (if d \<ge> 0 then x - x1 + 1 else x - x1)" by (simp add: x'_def)
  have k: "sy * (y + sy - y1) = sy * (y - y1) + 1" using sy by auto
  have "near dy dx (sy * (y + sy - y1)) (x' - x1)"
    using near_step [OF Suc(5) E] unfolding n k Suc(6) .
  moreover have "d' = 2 * (dx * (sy * (y + sy - y1) + 1) - (x' - x1) * dy) - dy"
    unfolding n k d'_def Suc(6) by (simp add: algebra_simps)
  moreover have "j = nat (dy - sy * (y + sy - y1))" using Suc k by simp
  ultimately have "paints lcd_ok screen (line_y_dominant m (2 * dx) (2 * dy) 1 sy y2 x' (y + sy) d')
      (paint_at m (rows_from (sy * (y + sy - y1)) x1 y1 dx dy sy))"
    by (intro Suc(1)) (use Suc k in auto)
  then have "paints lcd_ok screen (\<lambda>s. Option.bind (line_pixel m x y s) (line_y_dominant m (2 * dx) (2 * dy) 1 sy y2 x' (y + sy) d'))
      (paint_at m (rows_from (sy * (y - y1)) x1 y1 dx dy sy))"
    unfolding k
    by (rule paints_pixel_bind) (use rows_step [OF Suc(5,4) sy] on in \<open>auto simp: rows_from_def TRANSLATE_Y_def\<close>)
  moreover have "line_y_dominant m (2 * dx) (2 * dy) 1 sy y2 x y d s
      = Option.bind (line_pixel m x y s) (line_y_dominant m (2 * dx) (2 * dy) 1 sy y2 x' (y + sy) d')" for s
  proof -
    have "y \<noteq> y2" using Suc(2) sy y by auto
    then show ?thesis by (cases "d \<ge> 0") (simp_all add: line_y_dominant.simps [of m _ _ _ _ y2 x y] x'_def d'_def)
  qed
  ultimately show ?case by (rule paints_if_ok)
qed

section \<open>Lines on the screen\<close>

text \<open>
  The pixels of a line between two points, the left one first: in every column, or in every row if it
  is at least as high as wide, the one nearest to the ideal line.
\<close>

definition line_points :: "int \<Rightarrow> int \<Rightarrow> int \<Rightarrow> int \<Rightarrow> (int \<times> int) set" where
  "line_points x1 y1 x2 y2 =
    (let dx = x2 - x1; dy = \<bar>y2 - y1\<bar>; sy = SGN (y2 - y1)
     in if dx = 0 \<and> dy = 0 then {(x1, 127 - y1)}
        else if dx > dy then columns_from x1 x1 y1 x2 dx dy sy
        else rows_from 0 x1 y1 dx dy sy)"

lemma SGN_cases: "SGN a = 1 \<or> SGN a = - 1"
  by (simp add: SGN_def)

lemma SGN_abs: "SGN a * \<bar>a\<bar> = a" "SGN (b - a) * (b - a) = \<bar>b - a\<bar>"
  by (simp_all add: SGN_def)

lemma near_flat: "near A 0 k n \<longleftrightarrow> 0 < A \<and> n = 0"
proof -
  have "- A \<le> 2 * (- n * A) \<and> 2 * (- n * A) < A \<Longrightarrow> near A 0 0 n" by (simp add: near_def)
  then show ?thesis using near_0 [of A 0] near_unique [of A 0 0 n 0] by (auto simp: near_def)
qed

lemma vertical_points:
  assumes "y1 \<noteq> y2"
  shows "line_points x1 y1 x1 y2 = area x1 x1 (min y1 y2) (max y1 y2)"
  using assms by (auto simp: line_points_def Let_def rows_from_def area_def near_flat SGN_def)

lemma horizontal_points:
  assumes "x1 < x2"
  shows "line_points x1 y x2 y = area x1 x2 y y"
  using assms by (auto simp: line_points_def Let_def columns_from_def area_def near_flat SGN_def)

lemma draw_clipped_paints:
  assumes x: "0 \<le> x1" "x1 \<le> x2" "x2 < 178" and y: "0 \<le> y1" "y1 < 128" "0 \<le> y2" "y2 < 128"
  shows "paints lcd_ok screen (draw_clipped x1 y1 x2 y2 m) (paint_at m (line_points x1 y1 x2 y2))"
proof -
  consider (point) "x1 = x2" "y1 = y2" | (vertical) "x1 = x2" "y1 \<noteq> y2" | (horizontal) "x1 < x2" "y1 = y2"
    | (slanted) "x1 < x2" "y1 \<noteq> y2"
    using x by fastforce
  then show ?thesis
  proof cases
    case point
    then have "area x1 x2 (min y1 y2) (max y1 y2) = line_points x1 y1 x2 y2"
      by (auto simp: area_def TRANSLATE_Y_def line_points_def)
    then show ?thesis using draw_clipped_straight [of x1 x2 y1 y2 m] point x y by simp
  next
    case vertical
    then show ?thesis using draw_clipped_straight [of x1 x2 y1 y2 m] x y by (simp add: vertical_points)
  next
    case horizontal
    then show ?thesis using draw_clipped_straight [of x1 x2 y1 y2 m] x y by (simp add: horizontal_points)
  next
    case slanted
    define dx dy sy where "dx = x2 - x1" and "dy = \<bar>y2 - y1\<bar>" and "sy = SGN (y2 - y1)"
    have sy: "sy = 1 \<or> sy = - 1" and end_y: "y1 + sy * dy = y2" and start: "sy * (y1 - y1) = 0"
      using SGN_cases by (simp_all add: sy_def dy_def SGN_abs)
    have pos: "0 < dx" "0 < dy" "dx < 178" "dy < 128" using slanted x y by (auto simp: dx_def dy_def)
    have clip: "draw_clipped x1 y1 x2 y2 m s =
      (if dx > dy then line_x_dominant m (2 * dx) (2 * dy) 1 sy x2 x1 y1 (2 * dy - dx) s
       else line_y_dominant m (2 * dx) (2 * dy) 1 sy y2 x1 y1 (2 * dx - dy) s)" for s
    proof -
      have "int32 (x2 - x1) = Some dx" "int32 (2 * \<bar>dx\<bar>) = Some (2 * dx)" "int32 (y2 - y1) = Some (y2 - y1)"
        "int32 (2 * \<bar>y2 - y1\<bar>) = Some (2 * dy)" "SGN dx = 1"
        using pos x y by (simp_all add: int32_def dx_def dy_def SGN_def)
      then show ?thesis using slanted by (simp add: draw_clipped_def sy_def)
    qed
    have set: "line_points x1 y1 x2 y2
      = (if dx > dy then columns_from x1 x1 y1 x2 dx dy sy else rows_from 0 x1 y1 dx dy sy)"
      using pos by (simp add: line_points_def dx_def dy_def sy_def)
    show ?thesis
    proof (cases "dx > dy")
      case True
      have "paints lcd_ok screen (line_x_dominant m (2 * dx) (2 * dy) 1 sy x2 x1 y1 (2 * dy - dx))
          (paint_at m (columns_from x1 x1 y1 x2 dx dy sy))"
        by (rule line_x_dominant_paints) (use True pos x y sy end_y near_0 [of dx dy] in \<open>auto simp: dx_def\<close>)
      then show ?thesis unfolding set if_P [OF True] by (rule paints_if_ok) (simp add: clip True)
    next
      case False
      have "paints lcd_ok screen (line_y_dominant m (2 * dx) (2 * dy) 1 sy y2 x1 y1 (2 * dx - dy))
          (paint_at m (rows_from (sy * (y1 - y1)) x1 y1 dx dy sy))"
        by (rule line_y_dominant_paints) (use False pos x y sy end_y near_0 [of dy dx] in \<open>auto simp: dx_def\<close>)
      then show ?thesis unfolding set if_not_P [OF False] start by (rule paints_if_ok) (simp add: clip False)
    qed
  qed
qed

lemma int32_near: "0 \<le> a \<Longrightarrow> a < 178 \<Longrightarrow> 0 \<le> b \<Longrightarrow> b < 178 \<Longrightarrow> int32 (a - b) = Some (a - b)"
  by (simp add: int32_def)

lemma CmdDrawLine_on_screen:
  assumes "0 \<le> x1" "x1 < 178" "0 \<le> x2" "x2 < 178" "0 \<le> y1" "y1 < 128" "0 \<le> y2" "y2 < 128"
  shows "CmdDrawLine x1 y1 x2 y2 m s =
    (if x1 < x2 \<or> x1 = x2 \<and> y1 \<le> y2 then draw_clipped x1 y1 x2 y2 m s else draw_clipped x2 y2 x1 y1 m s)"
  using assms by (auto simp: CmdDrawLine_def int32_near Let_def)

lemma CmdDrawLine_paints:
  assumes "0 \<le> x1" "x1 < 178" "0 \<le> x2" "x2 < 178" "0 \<le> y1" "y1 < 128" "0 \<le> y2" "y2 < 128"
  shows "paints lcd_ok screen (CmdDrawLine x1 y1 x2 y2 m)
    (paint_at m (if x1 \<le> x2 then line_points x1 y1 x2 y2 else line_points x2 y2 x1 y1))"
proof (cases "x1 < x2 \<or> x1 = x2 \<and> y1 \<le> y2")
  case True
  have "paints lcd_ok screen (draw_clipped x1 y1 x2 y2 m) (paint_at m (line_points x1 y1 x2 y2))"
    by (rule draw_clipped_paints) (use assms True in auto)
  moreover have "x1 \<le> x2" using True by auto
  ultimately show ?thesis by (rule_tac paints_if_ok) (simp_all add: CmdDrawLine_on_screen [OF assms] True)
next
  case False
  have "paints lcd_ok screen (draw_clipped x2 y2 x1 y1 m) (paint_at m (line_points x2 y2 x1 y1))"
    by (rule draw_clipped_paints) (use assms False in auto)
  moreover have "(if x1 \<le> x2 then line_points x1 y1 x2 y2 else line_points x2 y2 x1 y1) = line_points x2 y2 x1 y1"
    using False vertical_points [of y1 y2 x1] vertical_points [of y2 y1 x1] by (auto simp: min.commute max.commute)
  ultimately show ?thesis by (rule_tac paints_if_ok) (simp_all only: CmdDrawLine_on_screen [OF assms] False if_False)
qed

text \<open>
  C15: Between two points on the screen, \<^verbatim>\<open>LineOutEx\<close> paints in every column of the line, or in every row
  if the line is at least as high as wide, the one pixel nearest to the ideal line, and nothing else. The
  loop, which has no bound in the code, ends, and neither an \<^verbatim>\<open>int\<close> nor the buffer overflows. The options resolve to a
  mode of drawing and have none of the bits 0 and 1, which are documented to clear the screen first and
  which the code ignores (\<^verbatim>\<open>clear_options_ignored\<close>).
\<close>

theorem line_painted:
  assumes "lcd_ok s" and "CmdResolveDrawingMode (ucast options) = (True, m, F)"
    and "0 \<le> x1" "x1 < LCD_WIDTH" "0 \<le> x2" "x2 < LCD_WIDTH"
    and "0 \<le> y1" "y1 < LCD_HEIGHT" "0 \<le> y2" "y2 < LCD_HEIGHT"
    and "options AND 3 = 0"
  shows "\<exists>s'. LineOutEx x1 y1 x2 y2 options s = Some (0, s') \<and> lcd_ok s'
    \<and> screen s' = paint_at m (if x1 \<le> x2 then line_points x1 y1 x2 y2 else line_points x2 y2 x1 y1) (screen s)"
  unfolding LineOutEx_def
  by (rule with_mode_paints [OF assms(1,2)], rule CmdDrawLine_paints) (use assms(3-) in simp_all)

theorem line_painted_witness:
  "\<exists>s'. LineOutEx 20 7 10 3 0 blank_lcd = Some (0, s') \<and> screen s' (12, 123) \<and> screen s' (13, 123)
    \<and> \<not> screen s' (12, 124)"
proof -
  have mode: "CmdResolveDrawingMode (ucast (0 :: u32)) = (True, DRAW_PIXELS_SET, DRAW_SHAPE_HOLLOW)"
    by (simp add: CmdResolveDrawingMode_def Let_def)
  obtain s' where "LineOutEx 20 7 10 3 0 blank_lcd = Some (0, s')"
    "screen s' = paint_at DRAW_PIXELS_SET (line_points 10 3 20 7) (\<lambda>_. False)"
    using line_painted [OF lcd_ok_blank mode, of 20 10 7 3] by (auto simp: screen_blank)
  moreover have "line_points 10 3 20 7 = columns_from 10 10 3 20 10 4 1" by (simp add: line_points_def SGN_def)
  ultimately show ?thesis
    by (auto simp: paint_at_def paint_def draw_modes on_screen_def columns_from_def near_def TRANSLATE_Y_def)
qed

end
