(* ===== verification/Ellipse.thy ===== *)
theory Ellipse
  imports Bresenham
begin

text \<open>
  The ellipses of \<^verbatim>\<open>CmdDrawEllipse\<close>. The loop walks along the arc from the top to the right, by single
  steps right, down or both, and keeps the value \<open>t\<close> of the equation of the ellipse up to date with
  additions only. It ends, no \<^verbatim>\<open>int\<close> and no \<^verbatim>\<open>short\<close> overflows, and the points it visits lie on the arc.
\<close>

section \<open>The walk along the arc\<close>

text \<open>The value that \<^verbatim>\<open>t\<close> has at a point, and the parts of the thresholds.\<close>

definition arc_value :: "int \<Rightarrow> int \<Rightarrow> int \<Rightarrow> int \<Rightarrow> int" where
  "arc_value a b x y = b * b * (x * (x + 1)) + a * a * (y * (y - 1)) - a * a * (b * b)"

definition quarter :: "int \<Rightarrow> int" where
  "quarter a = a * a div 4 + a smod 2"

lemma quarter_bounds:
  assumes "1 \<le> a"
  shows "1 \<le> quarter a" and "quarter a \<le> a * a"
proof -
  have m: "a smod 2 = a mod 2" using assms by (simp add: signed_modulo_int_def)
  have "a \<le> a * a" using mult_mono [of 1 a a a] assms by simp
  moreover have "4 \<le> a * a" if "2 \<le> a" using mult_mono [of 2 a 2 a] that by simp
  ultimately show "1 \<le> quarter a" "quarter a \<le> a * a"
    using assms unfolding quarter_def m by (cases "a = 1"; force)+
qed

lemma arc_value_right: "arc_value a b (x + 1) y = arc_value a b x y + 2 * (b * b * x) + 2 * (b * b)"
  by (simp add: arc_value_def algebra_simps)

lemma arc_value_down: "arc_value a b x (y - 1) = arc_value a b x y - 2 * (a * a * y) + 2 * (a * a)"
  by (simp add: arc_value_def algebra_simps)

lemma arc_value_end:
  assumes "0 \<le> y"
  shows "b * b * a \<le> arc_value a b a y" and "b * b * a \<le> arc_value a b a y - a * a * y + a * a"
proof -
  have *: "arc_value a b a y = b * b * a + a * a * (y * (y - 1))" by (simp add: arc_value_def algebra_simps)
  have "0 \<le> a * a * (y * (y - 1))"
    using assms by (cases "y = 0") (auto intro!: mult_nonneg_nonneg)
  then show "b * b * a \<le> arc_value a b a y" using * by simp
  have "arc_value a b a y - a * a * y + a * a = b * b * a + (a * (y - 1)) * (a * (y - 1))"
    by (simp add: * algebra_simps)
  then show "b * b * a \<le> arc_value a b a y - a * a * y + a * a" by simp
qed

text \<open>The invariant of the walk: the three running values, and that the arc is near.\<close>

definition on_arc :: "int \<Rightarrow> int \<Rightarrow> ellipse \<Rightarrow> bool" where
  "on_arc a b e \<longleftrightarrow> 0 \<le> ex e \<and> ex e \<le> a \<and> - 1 \<le> ey e \<and> ey e \<le> b
    \<and> et e = arc_value a b (ex e) (ey e) \<and> edxt e = 2 * (b * b * ex e) \<and> edyt e = - 2 * (a * a * ey e)
    \<and> (0 \<le> ey e \<longrightarrow> et e \<le> 2 * (b * b * ex e))
    \<and> 0 < et e + b * b * ex e + b * b + 2 * (a * a * ey e) + quarter a"

text \<open>The tests of the loop and the two moves.\<close>

definition goes_right :: "int \<Rightarrow> int \<Rightarrow> ellipse \<Rightarrow> bool" where
  "goes_right a b e \<longleftrightarrow> et e + b * b * ex e \<le> - (quarter a + b * b) \<or> et e + a * a * ey e \<le> - quarter b"

definition goes_down :: "int \<Rightarrow> int \<Rightarrow> ellipse \<Rightarrow> bool" where
  "goes_down a b e \<longleftrightarrow> et e - a * a * ey e > - (quarter b + a * a)"

definition move_right :: "int \<Rightarrow> ellipse \<Rightarrow> ellipse" where
  "move_right b e = e\<lparr>ex := ex e + 1, edxt := edxt e + 2 * (b * b), et := et e + edxt e + 2 * (b * b)\<rparr>"

definition move_down :: "int \<Rightarrow> ellipse \<Rightarrow> ellipse" where
  "move_down a e = e\<lparr>ey := ey e - 1, edyt := edyt e + 2 * (a * a), et := et e + edyt e + 2 * (a * a)\<rparr>"

lemma scaled_bounds:
  fixes a y :: int
  assumes "1 \<le> a" "a \<le> 255" "- 1 \<le> y" "y \<le> 256"
  shows "- 65025 \<le> a * a * y" "a * a * y \<le> 16646400" "1 \<le> a * a" "a * a \<le> 65025"
proof -
  show A: "1 \<le> a * a" "a * a \<le> 65025"
    using mult_mono [of 1 a 1 a] mult_mono [of a 255 a 255] assms by simp_all
  show "a * a * y \<le> 16646400"
  proof (cases "0 \<le> y")
    case True
    then show ?thesis using mult_mono [of "a * a" 65025 y 256] A assms by simp
  next
    case False
    then have "a * a * y \<le> 0" by (intro mult_nonneg_nonpos) simp_all
    then show ?thesis by simp
  qed
  have "- (a * a) \<le> a * a * y" using mult_left_mono [of "- 1" y "a * a"] A assms by simp
  then show "- 65025 \<le> a * a * y" using A by simp
qed

lemma on_arcD:
  assumes "on_arc a b e"
  shows "0 \<le> ex e" "ex e \<le> a" "- 1 \<le> ey e" "ey e \<le> b" "et e = arc_value a b (ex e) (ey e)"
    "edxt e = 2 * (b * b * ex e)" "edyt e = - 2 * (a * a * ey e)" "0 \<le> ey e \<Longrightarrow> et e \<le> 2 * (b * b * ex e)"
    "0 < et e + b * b * ex e + b * b + 2 * (a * a * ey e) + quarter a"
  using assms by (simp_all add: on_arc_def)

text \<open>On the right end of the ellipse the walk goes down.\<close>

lemma right_end:
  assumes arc: "on_arc a b e" and "0 \<le> ey e" and "1 \<le> a" "1 \<le> b" and "goes_right a b e \<or> \<not> goes_down a b e"
  shows "ex e < a"
proof (rule ccontr)
  assume "\<not> ex e < a"
  then have x: "ex e = a" using on_arcD(2) [OF arc] by simp
  have y: "0 \<le> a * a * ey e" using assms by simp
  have "0 < b * b * a" "0 < b * b" using assms by simp_all
  then show False
    using assms(5) arc_value_end [OF assms(2), of b a] quarter_bounds [of a] quarter_bounds [of b] assms(3,4) on_arcD(5) [OF arc] y
    unfolding goes_right_def goes_down_def x by linarith
qed

text \<open>On the middle row it does not go down and right at once.\<close>

lemma middle_row:
  assumes "ey e = 0" and "1 \<le> a" "1 \<le> b" and "\<not> goes_right a b e"
  shows "goes_down a b e"
proof -
  have "0 < a * a" using assms by simp
  moreover have "- quarter b < et e" using assms by (simp add: goes_right_def)
  ultimately show ?thesis unfolding goes_down_def assms(1) by simp
qed

lemma right_keeps:
  assumes arc: "on_arc a b e" and y: "0 \<le> ey e" and R: "1 \<le> a" "1 \<le> b" and right: "goes_right a b e"
  shows "on_arc a b (move_right b e)"
proof -
  note D = on_arcD [OF arc] and q = quarter_bounds [OF R(1)] quarter_bounds [OF R(2)]
  have x: "ex e < a" using right_end [OF arc y R] right by simp
  have step: "b * b * (ex e + 1) = b * b * ex e + b * b" by (simp add: algebra_simps)
  have pos: "0 \<le> a * a * ey e" "0 \<le> b * b * ex e" "0 < b * b" using R y D(1) by simp_all
  have "et e \<le> 0"
    using right unfolding goes_right_def by (elim disjE) (use pos q in linarith)+
  moreover have "0 < et e + 3 * (b * b * ex e) + 4 * (b * b) + 2 * (a * a * ey e) + quarter a"
    using D(9) pos by linarith
  ultimately show ?thesis
    using D x y step unfolding on_arc_def move_right_def by (simp add: arc_value_right)
qed

lemma down_keeps:
  assumes arc: "on_arc a b e" and y: "0 \<le> ey e" and R: "1 \<le> a" "1 \<le> b" and not_right: "\<not> goes_right a b e"
  shows "on_arc a b (move_down a e)"
proof -
  note D = on_arcD [OF arc]
  have step: "a * a * (ey e - 1) = a * a * ey e - a * a" by (simp add: algebra_simps)
  have "et e - 2 * (a * a * ey e) + 2 * (a * a) \<le> 2 * (b * b * ex e)" if "1 \<le> ey e"
  proof -
    have "a * a \<le> a * a * ey e" using that R mult_left_mono [of 1 "ey e" "a * a"] by simp
    then show ?thesis using D(8) [OF y] by linarith
  qed
  moreover have "0 < et e + b * b * ex e + b * b + quarter a"
    using not_right by (simp add: goes_right_def)
  ultimately show ?thesis
    using D y step unfolding on_arc_def move_down_def by (simp add: arc_value_down)
qed

lemma both_keeps:
  assumes arc: "on_arc a b e" and y: "0 \<le> ey e" and R: "1 \<le> a" "1 \<le> b"
    and not: "\<not> goes_right a b e" "\<not> goes_down a b e"
  shows "on_arc a b (move_down a (move_right b e))"
proof -
  note D = on_arcD [OF arc]
  have x: "ex e < a" using right_end [OF arc y R] not by simp
  have "ey e \<noteq> 0" using middle_row [of e a b] not R by auto
  then have y1: "1 \<le> ey e" using y by simp
  have step: "a * a * (ey e - 1) = a * a * ey e - a * a" "b * b * (ex e + 1) = b * b * ex e + b * b"
    by (simp_all add: algebra_simps)
  have pos: "a * a \<le> a * a * ey e" "0 \<le> b * b * ex e" "0 < b * b"
    using y1 R D(1) mult_left_mono [of 1 "ey e" "a * a"] by simp_all
  have "et e - 2 * (a * a * ey e) + 2 * (a * a) \<le> 0"
    using not(2) pos quarter_bounds(1) [OF R(2)] unfolding goes_down_def by linarith
  moreover have "0 < et e + 3 * (b * b * ex e) + 4 * (b * b) + quarter a"
    using not(1) pos unfolding goes_right_def by linarith
  ultimately show ?thesis
    using D x y1 step arc_value_down [of a b "ex e + 1" "ey e"] arc_value_right [of a b "ex e" "ey e"]
    unfolding on_arc_def move_down_def move_right_def by simp
qed

section \<open>No overflow\<close>

text \<open>Radii that a caller can pass, apart from 0: they are bytes.\<close>

definition byte_radius :: "int \<Rightarrow> bool" where
  "byte_radius a \<longleftrightarrow> 1 \<le> a \<and> a \<le> 255"

lemma byte_radiusD: "byte_radius a \<Longrightarrow> 1 \<le> a" "byte_radius a \<Longrightarrow> a \<le> 255"
  by (simp_all add: byte_radius_def)

lemma int32_between: "- 2147483648 \<le> v \<Longrightarrow> v \<le> 2147483647 \<Longrightarrow> int32 v = Some v"
  by (simp add: int32_def)

lemma x_step_eq:
  assumes "- 32768 \<le> ex e + 1" "ex e + 1 < 32768"
    and "int32 (edxt e + 2 * (b * b)) = Some (edxt e + 2 * (b * b))"
    and "int32 (et e + (edxt e + 2 * (b * b))) = Some (et e + (edxt e + 2 * (b * b)))"
  shows "x_step (b * b) e = Some (move_right b e)"
  using assms by (simp add: x_step_def move_right_def add.assoc)

lemma y_step_eq:
  assumes "- 32768 \<le> ey e - 1" "ey e - 1 < 32768"
    and "int32 (edyt e + 2 * (a * a)) = Some (edyt e + 2 * (a * a))"
    and "int32 (et e + (edyt e + 2 * (a * a))) = Some (et e + (edyt e + 2 * (a * a)))"
  shows "y_step (a * a) e = Some (move_down a e)"
  using assms by (simp add: y_step_def move_down_def add.assoc)

text \<open>The values of one turn of the loop lie within two hundred million of zero.\<close>

lemma turn_values:
  assumes arc: "on_arc a b e" and y: "0 \<le> ey e" and R: "byte_radius a" "byte_radius b"
  shows "0 \<le> b * b * ex e" "b * b * ex e \<le> 16646400" "0 \<le> a * a * ey e" "a * a * ey e \<le> 16646400"
    "1 \<le> a * a" "a * a \<le> 65025" "1 \<le> b * b" "b * b \<le> 65025" "- 50100000 \<le> et e" "et e \<le> 33292800"
    "quarter a \<le> 65025" "quarter b \<le> 65025"
proof -
  note D = on_arcD [OF arc] and a = byte_radiusD [OF R(1)] and b = byte_radiusD [OF R(2)]
  show Q: "0 \<le> b * b * ex e" and P: "0 \<le> a * a * ey e" using D(1) y by simp_all
  show B: "1 \<le> b * b" "b * b \<le> 65025" and A: "1 \<le> a * a" "a * a \<le> 65025"
    using scaled_bounds(3,4) [OF a, of 0] scaled_bounds(3,4) [OF b, of 0] by simp_all
  show q: "quarter a \<le> 65025" "quarter b \<le> 65025"
    using quarter_bounds(2) [OF a(1)] quarter_bounds(2) [OF b(1)] A B by linarith+
  show Q': "b * b * ex e \<le> 16646400" by (rule scaled_bounds(2) [OF b]) (use D a in linarith)+
  show P': "a * a * ey e \<le> 16646400" by (rule scaled_bounds(2) [OF a]) (use D b in linarith)+
  show "et e \<le> 33292800" using D(8) [OF y] Q' by linarith
  show "- 50100000 \<le> et e" using D(9) Q' P' A B q by linarith
qed

lemma right_step:
  assumes arc: "on_arc a b e" and y: "0 \<le> ey e" and R: "byte_radius a" "byte_radius b"
    and same: "ex e' = ex e" "et e' = et e" "edxt e' = edxt e"
  shows "x_step (b * b) e' = Some (move_right b e')"
proof -
  note D = on_arcD [OF arc] and V = turn_values [OF arc y R] and a = byte_radiusD [OF R(1)]
  have x: "- 32768 \<le> ex e' + 1" "ex e' + 1 < 32768" using D(1,2) a same by simp_all
  show ?thesis
    by (rule x_step_eq [OF x]; rule int32_between; use D(6) V same in linarith)
qed

lemma down_step:
  assumes arc: "on_arc a b e" and y: "0 \<le> ey e" and R: "byte_radius a" "byte_radius b"
    and same: "ey e' = ey e" "et e' = et e" "edyt e' = edyt e"
  shows "y_step (a * a) e' = Some (move_down a e')"
proof -
  note D = on_arcD [OF arc] and V = turn_values [OF arc y R] and b = byte_radiusD [OF R(2)]
  have x: "- 32768 \<le> ey e' - 1" "ey e' - 1 < 32768" using D(3,4) b same by simp_all
  show ?thesis
    by (rule y_step_eq [OF x]; rule int32_between; use D(7) V same in linarith)
qed

lemma down_step_right:
  assumes arc: "on_arc a b e" and y: "0 \<le> ey e" and R: "byte_radius a" "byte_radius b"
    and same: "ex e' = ex e" "ey e' = ey e" "et e' = et e" "edxt e' = edxt e" "edyt e' = edyt e"
  shows "y_step (a * a) (move_right b e') = Some (move_down a (move_right b e'))"
proof -
  note D = on_arcD [OF arc] and V = turn_values [OF arc y R] and b = byte_radiusD [OF R(2)]
  have x: "- 32768 \<le> ey (move_right b e') - 1" "ey (move_right b e') - 1 < 32768"
    using D(3,4) b same by (simp_all add: move_right_def)
  have m: "edyt (move_right b e') = edyt e" "et (move_right b e') = et e + edxt e + 2 * (b * b)"
    using same by (simp_all add: move_right_def)
  show ?thesis
    by (rule y_step_eq [OF x]; unfold m; rule int32_between; use D(6,7) V in linarith)
qed

text \<open>The tests of the loop, which are computed with overflow checks.\<close>

lemma tests_defined:
  assumes arc: "on_arc a b e" and y: "0 \<le> ey e" and R: "byte_radius a" "byte_radius b"
  shows "int32 (b * b * ex e) = Some (b * b * ex e)" "int32 (et e + b * b * ex e) = Some (et e + b * b * ex e)"
    "int32 (a * a * ey e) = Some (a * a * ey e)" "int32 (et e + a * a * ey e) = Some (et e + a * a * ey e)"
    "int32 (et e - a * a * ey e) = Some (et e - a * a * ey e)"
  using turn_values [OF arc y R] by (simp_all add: int32_def)

section \<open>Outlines\<close>

definition next_point :: "int \<Rightarrow> int \<Rightarrow> ellipse \<Rightarrow> ellipse" where
  "next_point a b e =
    (if goes_right a b e then move_right b e
     else if goes_down a b e then move_down a e
     else move_down a (move_right b e))"

lemma hollow_turn:
  assumes arc: "on_arc (ea g) (eb g) e" and y: "0 \<le> ey e" and R: "byte_radius (ea g)" "byte_radius (eb g)"
    and hollow: "efill g \<noteq> DRAW_SHAPE_FILLED"
  shows "ellipse_turn g e s
    = Option.bind (ellipse_plot g (ex e) (ey e) s) (\<lambda>s. Some (next_point (ea g) (eb g) e, s))"
  using hollow
  by (auto simp: ellipse_turn_def Let_def tests_defined [OF arc y R] right_step [OF arc y R] down_step [OF arc y R]
      down_step_right [OF arc y R] next_point_def goes_right_def goes_down_def quarter_def
      intro!: Option.bind_cong [OF refl])

lemma next_point_keeps:
  assumes "on_arc a b e" "0 \<le> ey e" "byte_radius a" "byte_radius b"
  shows "on_arc a b (next_point a b e)"
  using right_keeps [of a b e] down_keeps [of a b e] both_keeps [of a b e] assms byte_radiusD(1) [of a] byte_radiusD(1) [of b]
  by (simp add: next_point_def)

lemma next_point_moves:
  "ex e \<le> ex (next_point a b e)" "ey (next_point a b e) \<le> ey e" "ey e - 1 \<le> ey (next_point a b e)"
  "ex e < ex (next_point a b e) \<or> ey (next_point a b e) < ey e"
  by (simp_all add: next_point_def move_right_def move_down_def)

text \<open>The points near the arc in the first quadrant, and their reflections around the centre.\<close>

definition arc_points :: "int \<Rightarrow> int \<Rightarrow> (int \<times> int) set" where
  "arc_points a b = {(x, y). 0 \<le> x \<and> x \<le> a \<and> 0 \<le> y \<and> y \<le> b
    \<and> b * b * (x * (x - 1)) + a * a * (y * (y - 1)) \<le> a * a * (b * b)
    \<and> a * a * (b * b) \<le> b * b * ((x + 1) * (x + 1)) + a * a * ((y + 1) * (y + 1))}"

definition mirrors :: "int \<Rightarrow> int \<Rightarrow> (int \<times> int) set \<Rightarrow> (int \<times> int) set" where
  "mirrors xc yc V = {p. (\<bar>fst p - xc\<bar>, \<bar>TRANSLATE_Y (snd p) - yc\<bar>) \<in> V}"

lemma mirrors_Un: "mirrors xc yc (V \<union> W) = mirrors xc yc V \<union> mirrors xc yc W"
  by (auto simp: mirrors_def)

lemma on_arc_points:
  assumes arc: "on_arc a b e" and y: "0 \<le> ey e" and R: "1 \<le> a"
  shows "(ex e, ey e) \<in> arc_points a b"
proof -
  note D = on_arcD [OF arc]
  have "0 \<le> a * a * ey e" using y by simp
  moreover have "b * b * (ex e * (ex e - 1)) + a * a * (ey e * (ey e - 1)) - a * a * (b * b) = et e - 2 * (b * b * ex e)"
    "b * b * ((ex e + 1) * (ex e + 1)) + a * a * ((ey e + 1) * (ey e + 1)) - a * a * (b * b)
      = et e + b * b * ex e + b * b + 3 * (a * a * ey e) + a * a"
    unfolding D(5) arc_value_def by (simp_all add: algebra_simps)
  ultimately show ?thesis
    using D(1-4,9) D(8) [OF y] y quarter_bounds(2) [OF R] unfolding arc_points_def mem_Collect_eq split
    by (intro conjI; linarith)
qed

lemma CmdSetPixel_paints:
  assumes "small X" and "small Y"
  shows "paints lcd_ok screen (CmdSetPixel X Y m) (paint_at m {(X, 127 - Y)})"
proof (cases "0 \<le> X \<and> X < 178 \<and> 0 \<le> Y \<and> Y < 128")
  case True
  then have "paints lcd_ok screen (line_pixel m X Y) (paint_at m {(X, 127 - Y)})" by (intro line_pixel_paints) auto
  then show ?thesis
    by (rule paints_if_ok) (use True in \<open>simp add: CmdSetPixel_def line_pixel_def int32_def TRANSLATE_Y_def\<close>)
next
  case False
  then have "{(X, 127 - Y)} \<inter> Collect on_screen = {}" by (auto simp: on_screen_def)
  moreover have "CmdSetPixel X Y m = Some"
    using False assms(2) by (auto simp: fun_eq_iff CmdSetPixel_def int32_def TRANSLATE_Y_def small_def abs_le_iff)
  ultimately show ?thesis by (simp add: paint_at_empty)
qed

lemma ellipse_plot_paints:
  assumes "0 \<le> x" "x \<le> 255" "0 \<le> y" "y \<le> 255" "\<bar>exc g\<bar> \<le> 32768" "\<bar>eyc g\<bar> \<le> 32768"
  shows "paints lcd_ok screen (ellipse_plot g x y) (paint_at (emode g) (mirrors (exc g) (eyc g) {(x, y)}))"
proof -
  let ?m = "emode g" and ?xc = "exc g" and ?yc = "eyc g"
  have pix: "paints lcd_ok screen (CmdSetPixel X Y ?m) (paint_at ?m {(X, 127 - Y)})"
    if "X \<in> {?xc + x, ?xc - x}" "Y \<in> {?yc + y, ?yc - y}" for X Y
    by (rule CmdSetPixel_paints) (use that assms in \<open>auto simp: small_def\<close>)
  have mir: "mirrors ?xc ?yc {(x, y)} = {?xc + x, ?xc - x} \<times> {127 - (?yc + y), 127 - (?yc - y)}"
    using assms(1,3) by (auto simp: mirrors_def TRANSLATE_Y_def)
  consider "x = 0" "y = 0" | "x \<noteq> 0 \<or> y \<noteq> 0" "x = 0 \<or> y = 0" | "x \<noteq> 0" "y \<noteq> 0" by blast
  then show ?thesis
  proof cases
    case 1
    then show ?thesis using pix [of ?xc ?yc] unfolding mir by (simp add: ellipse_plot_def [abs_def])
  next
    case 2
    have "paints lcd_ok screen (\<lambda>s. Option.bind (CmdSetPixel (?xc + x) (?yc + y) ?m s) (CmdSetPixel (?xc - x) (?yc - y) ?m))
        (\<lambda>f. paint_at ?m {(?xc - x, 127 - (?yc - y))} (paint_at ?m {(?xc + x, 127 - (?yc + y))} f))"
      by (intro paints_bind pix) auto
    then have "paints lcd_ok screen (ellipse_plot g x y)
        (\<lambda>f. paint_at ?m {(?xc - x, 127 - (?yc - y))} (paint_at ?m {(?xc + x, 127 - (?yc + y))} f))"
      by (rule paints_if_ok) (use 2 in \<open>auto simp: ellipse_plot_def\<close>)
    then show ?thesis
      by (rule paints_eq) (use 2 in \<open>auto simp: mir paint_at_def fun_eq_iff\<close>)
  next
    case 3
    have "paints lcd_ok screen (\<lambda>s. Option.bind (CmdSetPixel (?xc + x) (?yc + y) ?m s)
          (\<lambda>s. Option.bind (CmdSetPixel (?xc - x) (?yc - y) ?m s)
          (\<lambda>s. Option.bind (CmdSetPixel (?xc + x) (?yc - y) ?m s) (CmdSetPixel (?xc - x) (?yc + y) ?m))))
        (\<lambda>f. paint_at ?m {(?xc - x, 127 - (?yc + y))} (paint_at ?m {(?xc + x, 127 - (?yc - y))}
          (paint_at ?m {(?xc - x, 127 - (?yc - y))} (paint_at ?m {(?xc + x, 127 - (?yc + y))} f))))"
      by (intro paints_bind pix) auto
    then have "paints lcd_ok screen (ellipse_plot g x y)
        (\<lambda>f. paint_at ?m {(?xc - x, 127 - (?yc + y))} (paint_at ?m {(?xc + x, 127 - (?yc - y))}
          (paint_at ?m {(?xc - x, 127 - (?yc - y))} (paint_at ?m {(?xc + x, 127 - (?yc + y))} f))))"
      by (rule paints_if_ok) (use 3 in \<open>auto simp: ellipse_plot_def\<close>)
    then show ?thesis
      by (rule paints_eq) (use 3 in \<open>auto simp: mir paint_at_def fun_eq_iff\<close>)
  qed
qed

lemma hollow_loop:
  assumes R: "byte_radius (ea g)" "byte_radius (eb g)" and hollow: "efill g \<noteq> DRAW_SHAPE_FILLED"
    and centre: "\<bar>exc g\<bar> \<le> 32768" "\<bar>eyc g\<bar> \<le> 32768"
  shows "on_arc (ea g) (eb g) e \<Longrightarrow> \<exists>V.
    paints lcd_ok screen (\<lambda>s. map_option snd (ellipse_loop g e s)) (paint_at (emode g) (mirrors (exc g) (eyc g) V))
    \<and> V \<subseteq> arc_points (ea g) (eb g) \<inter> ({ex e..} \<times> {..ey e}) \<and> (\<forall>y. 0 \<le> y \<and> y \<le> ey e \<longrightarrow> (\<exists>x. (x, y) \<in> V))"
proof (induction "nat (ea g - ex e) + nat (ey e + 1)" arbitrary: e rule: less_induct)
  case less
  note arc = less.prems
  show ?case
  proof (cases "0 \<le> ey e")
    case False
    then have "(\<lambda>s. map_option snd (ellipse_loop g e s)) = Some" by (simp add: ellipse_loop.simps fun_eq_iff)
    then show ?thesis using False by (intro exI [of _ "{}"]) (simp add: paint_at_empty mirrors_def)
  next
    case True
    let ?n = "next_point (ea g) (eb g) e"
    have next_arc: "on_arc (ea g) (eb g) ?n" using arc True R by (rule next_point_keeps)
    have "nat (ea g - ex ?n) + nat (ey ?n + 1) < nat (ea g - ex e) + nat (ey e + 1)"
      using next_point_moves [where e = e and a = "ea g" and b = "eb g"] on_arcD(1-4) [OF next_arc] on_arcD(1-4) [OF arc] True by linarith
    from less.hyps [OF this next_arc] obtain V where
      V: "paints lcd_ok screen (\<lambda>s. map_option snd (ellipse_loop g ?n s)) (paint_at (emode g) (mirrors (exc g) (eyc g) V))"
      and sub: "V \<subseteq> arc_points (ea g) (eb g) \<inter> ({ex ?n..} \<times> {..ey ?n})"
      and rows: "\<forall>y. 0 \<le> y \<and> y \<le> ey ?n \<longrightarrow> (\<exists>x. (x, y) \<in> V)"
      by blast
    let ?W = "V \<union> {(ex e, ey e)}"
    have new: "(ex e, ey e) \<notin> V" using sub next_point_moves(4) [where e = e and a = "ea g" and b = "eb g"] by auto
    have "paints lcd_ok screen (ellipse_plot g (ex e) (ey e)) (paint_at (emode g) (mirrors (exc g) (eyc g) {(ex e, ey e)}))"
      by (rule ellipse_plot_paints) (use centre on_arcD(1-4) [OF arc] True byte_radiusD [OF R(1)] byte_radiusD [OF R(2)] in auto)
    from paints_bind [OF this V] have "paints lcd_ok screen
        (\<lambda>s. Option.bind (ellipse_plot g (ex e) (ey e) s) (\<lambda>s. map_option snd (ellipse_loop g ?n s)))
        (paint_at (emode g) (mirrors (exc g) (eyc g) ?W))"
      by (rule paints_eq) (use new in \<open>auto simp: paint_at_Un mirrors_def fun_eq_iff paint_at_def\<close>)
    moreover have "ellipse_loop g e s = Option.bind (ellipse_plot g (ex e) (ey e) s) (ellipse_loop g ?n)" for s
      using True on_arcD(2) [OF arc] by (subst ellipse_loop.simps) (simp add: hollow_turn [OF arc True R hollow])
    then have "map_option snd (ellipse_loop g e s)
        = Option.bind (ellipse_plot g (ex e) (ey e) s) (\<lambda>s. map_option snd (ellipse_loop g ?n s))" for s
      by (simp add: map_option_bind comp_def)
    ultimately have "paints lcd_ok screen (\<lambda>s. map_option snd (ellipse_loop g e s))
        (paint_at (emode g) (mirrors (exc g) (eyc g) ?W))"
      by simp
    moreover have "?W \<subseteq> arc_points (ea g) (eb g) \<inter> ({ex e..} \<times> {..ey e})"
      using sub next_point_moves [where e = e and a = "ea g" and b = "eb g"] on_arc_points [OF arc True byte_radiusD(1) [OF R(1)]] by auto
    moreover have "\<exists>x. (x, y) \<in> ?W" if "0 \<le> y" "y \<le> ey e" for y
    proof (cases "y = ey e")
      case False
      then have "y \<le> ey ?n" using that next_point_moves(3) [where e = e and a = "ea g" and b = "eb g"] by simp
      then show ?thesis using rows that by blast
    qed blast
    ultimately show ?thesis by (intro exI [of _ ?W]) blast
  qed
qed

lemma start_on_arc:
  assumes "byte_radius a" "byte_radius b"
    and "ex e = 0" "ey e = b" "et e = - (a * a) * b" "edxt e = 0" "edyt e = - 2 * (a * a) * b"
  shows "on_arc a b e"
proof -
  have t: "et e = arc_value a b 0 b" unfolding assms by (simp add: arc_value_def algebra_simps)
  have "0 < a * a * b + b * b + quarter a" "0 < a * a * b"
    using assms(1,2) quarter_bounds(1) [of a] by (auto simp: byte_radius_def intro!: add_pos_pos)
  then show ?thesis using assms t by (simp add: on_arc_def byte_radius_def mult.assoc)
qed

lemma squares_small:
  assumes "byte_radius a" "byte_radius b"
  shows "int32 (- (a * a) * b) = Some (- (a * a) * b)" "int32 (- 2 * (a * a) * b) = Some (- 2 * (a * a) * b)"
    "int32 (2 * (b * b)) = Some (2 * (b * b))" "int32 (2 * (a * a)) = Some (2 * (a * a))"
  using scaled_bounds [of a b] scaled_bounds [of b a] assms by (auto simp: byte_radius_def int32_def)

lemma short_byte: "0 \<le> a \<Longrightarrow> a \<le> 255 \<Longrightarrow> short a = a"
  by simp

text \<open>
  C17: With radii from 1 to 255 and a centre whose coordinates are in the range of a \<^verbatim>\<open>short\<close>, \<^verbatim>\<open>EllipseOutEx\<close> draws a hollow ellipse by painting,
  once each, the four reflections of points that are all next to the arc: in each of its rows at least
  one. The loop ends and nothing overflows, neither the value of the equation nor the buffer. The options resolve to a
  mode of drawing and have none of the bits 0 and 1, which are documented to clear the screen first and
  which the code ignores (\<^verbatim>\<open>clear_options_ignored\<close>).
\<close>

theorem ellipse_outlined:
  assumes "lcd_ok s" and "CmdResolveDrawingMode (ucast options) = (True, m, F)" and "F \<noteq> DRAW_SHAPE_FILLED"
    and "0 < rx" "0 < ry" and "- 32768 \<le> xc" "xc < 32768" "- 32768 \<le> yc" "yc < 32768"
    and "options AND 3 = 0"
  shows "\<exists>s' V. EllipseOutEx xc yc rx ry options s = Some (0, s') \<and> lcd_ok s'
    \<and> screen s' = paint_at m (mirrors xc yc V) (screen s)
    \<and> V \<subseteq> arc_points (uint rx) (uint ry) \<and> (\<forall>y. 0 \<le> y \<and> y \<le> uint ry \<longrightarrow> (\<exists>x. (x, y) \<in> V))"
proof -
  define a b where "a = uint rx" and "b = uint ry"
  let ?g = "\<lparr>exc = xc, eyc = yc, ea = a, eb = b, emode = m, efill = F\<rparr>"
  let ?e = "\<lparr>ex = 0, ey = b, erx = 0, ery = b, ewidth = 1, eheight = 1, et = - (a * a) * b, edxt = 0, edyt = - 2 * (a * a) * b\<rparr>"
  have R: "byte_radius a" "byte_radius b"
    using assms(4,5) uint_lt2p [of rx] uint_lt2p [of ry] by (auto simp: a_def b_def byte_radius_def word_less_def)
  then have arc: "on_arc (ea ?g) (eb ?g) ?e" by (simp add: start_on_arc)
  obtain V where V: "paints lcd_ok screen (\<lambda>s. map_option snd (ellipse_loop ?g ?e s)) (paint_at m (mirrors xc yc V))"
    "V \<subseteq> arc_points a b" "\<forall>y. 0 \<le> y \<and> y \<le> b \<longrightarrow> (\<exists>x. (x, y) \<in> V)"
  proof -
    have "\<bar>xc\<bar> \<le> 32768" "\<bar>yc\<bar> \<le> 32768" using assms(6-9) by simp_all
    then show ?thesis using that hollow_loop [OF _ _ _ _ _ arc] R assms(3) by auto
  qed
  have "CmdDrawEllipse xc yc a b m F s = map_option snd (ellipse_loop ?g ?e s)" for s
    using R assms(3,6-9)
    by (simp add: CmdDrawEllipse_def Let_def squares_small [OF R, simplified] byte_radius_def map_conv_bind_option case_prod_beta' comp_def)
  with V(1) have "paints lcd_ok screen (CmdDrawEllipse xc yc a b m F) (paint_at m (mirrors xc yc V))"
    by (rule paints_if_ok)
  from with_mode_paints [where draw = "CmdDrawEllipse xc yc a b", OF assms(1,2) this] V(2,3) show ?thesis
    unfolding EllipseOutEx_def a_def b_def by blast
qed

theorem ellipse_outlined_witness:
  "\<exists>s'. EllipseOutEx 60 60 40 9 0 blank_lcd = Some (0, s') \<and> (\<exists>x. screen s' (60 + x, 67 - 5)) \<and> \<not> screen s' (60, 67)"
proof -
  have mode: "CmdResolveDrawingMode (ucast (0 :: u32)) = (True, DRAW_PIXELS_SET, DRAW_SHAPE_HOLLOW)"
    by (simp add: CmdResolveDrawingMode_def Let_def)
  obtain s' V where *: "EllipseOutEx 60 60 40 9 0 blank_lcd = Some (0, s')"
    "screen s' = paint_at DRAW_PIXELS_SET (mirrors 60 60 V) (\<lambda>_. False)" "V \<subseteq> arc_points 40 9"
    "\<forall>y. 0 \<le> y \<and> y \<le> 9 \<longrightarrow> (\<exists>x. (x, y) \<in> V)"
    using ellipse_outlined [OF lcd_ok_blank mode, of 40 9 60 60] by (auto simp: screen_blank draw_modes)
  obtain x where x: "(x, 5) \<in> V" using *(4) by fastforce
  then have "0 \<le> x" "x \<le> 40" using *(3) by (auto simp: arc_points_def)
  with x have "screen s' (60 + x, 67 - 5)"
    by (simp add: *(2) paint_at_def paint_def draw_modes on_screen_def mirrors_def TRANSLATE_Y_def)
  moreover have "(0, 0) \<notin> V" using *(3) by (auto simp: arc_points_def)
  then have "\<not> screen s' (60, 67)"
    by (simp add: *(2) paint_at_def on_screen_def mirrors_def TRANSLATE_Y_def)
  ultimately show ?thesis using *(1) by blast
qed

end
