(* ===== verification/EllipseFill.thy ===== *)
theory EllipseFill
  imports Ellipse
begin

text \<open>
  Filled ellipses. The loop collects the rows that are equally wide and paints them, above and below the
  centre, when the ellipse becomes wider; the rest, the band across the centre, is painted at the end. No
  row is painted twice, because after a step down the walk never goes right without going down: that
  follows from the convexity of the ellipse.
\<close>

section \<open>After a step down\<close>

text \<open>The last step to the right ended inside the ellipse, half a pixel below or to the left.\<close>

definition inside :: "int \<Rightarrow> int \<Rightarrow> ellipse \<Rightarrow> bool" where
  "inside a b e \<longleftrightarrow> et e - b * b * ex e \<le> - quarter a \<or> et e - 2 * (b * b * ex e) + a * a * ey e \<le> - quarter b"

lemma quarter_4: "1 \<le> b \<Longrightarrow> 4 * quarter b \<le> b * b + 4"
proof -
  assume "1 \<le> b"
  then have "b smod 2 = b mod 2" by (simp add: signed_modulo_int_def)
  moreover have "4 * (b * b div 4) \<le> b * b" by simp
  moreover have "4 * (b mod 2) \<le> 4" by simp
  ultimately show ?thesis unfolding quarter_def distrib_left by (metis add_mono)
qed

lemma right_inside:
  "goes_right a b e \<Longrightarrow> edxt e = 2 * (b * b * ex e) \<Longrightarrow> inside a b (move_right b e)"
proof -
  assume right: "goes_right a b e" and dx: "edxt e = 2 * (b * b * ex e)"
  have step: "b * b * (ex e + 1) = b * b * ex e + b * b" by (simp add: algebra_simps)
  show ?thesis
    using right unfolding inside_def goes_right_def by (simp add: move_right_def step dx) linarith
qed

lemma both_inside:
  assumes "\<not> goes_down a b e" and "edxt e = 2 * (b * b * ex e)" "edyt e = - 2 * (a * a * ey e)"
  shows "inside a b (move_down a (move_right b e))"
proof -
  have "b * b * (ex e + 1) = b * b * ex e + b * b" "a * a * (ey e - 1) = a * a * ey e - a * a"
    by (simp_all add: algebra_simps)
  then show ?thesis
    using assms unfolding inside_def goes_down_def by (simp add: move_right_def move_down_def)
qed

lemma down_inside:
  assumes "inside a b e" and "1 \<le> ey e" "1 \<le> a" and "edyt e = - 2 * (a * a * ey e)"
  shows "inside a b (move_down a e)"
proof -
  have "a * a * (ey e - 1) = a * a * ey e - a * a" by (simp add: algebra_simps)
  moreover have "a * a \<le> a * a * ey e" "0 < a * a" using assms(2,3) mult_left_mono [of 1 "ey e" "a * a"] by simp_all
  ultimately show ?thesis using assms(1,4) unfolding inside_def by (simp add: move_down_def) linarith
qed

lemma down_not_right:
  assumes "inside a b e" and down: "goes_down a b e" and "1 \<le> a" "1 \<le> b" and dy: "edyt e = - 2 * (a * a * ey e)"
  shows "\<not> goes_right a b (move_down a e)"
proof
  assume right: "goes_right a b (move_down a e)"
  have m: "et (move_down a e) = et e - 2 * (a * a * ey e) + 2 * (a * a)" "ex (move_down a e) = ex e"
    "a * a * ey (move_down a e) = a * a * ey e - a * a"
    using dy by (simp_all add: move_down_def algebra_simps)
  note q = quarter_bounds [OF assms(3)] quarter_bounds [OF assms(4)] quarter_4 [OF assms(4)]
  from right have "et e - 2 * (a * a * ey e) + 2 * (a * a) + b * b * ex e \<le> - (quarter a + b * b)"
    using down unfolding goes_right_def goes_down_def m by linarith
  with assms(1) down q show False
    unfolding inside_def goes_down_def by (elim disjE) linarith+
qed

section \<open>The rows that wait to be painted\<close>

definition filling :: "int \<Rightarrow> int \<Rightarrow> ellipse \<Rightarrow> bool" where
  "filling a b e \<longleftrightarrow> on_arc a b e \<and> erx e = ex e \<and> ewidth e = 2 * ex e + 1 \<and> 1 \<le> eheight e
    \<and> ery e = ey e + eheight e - 1 \<and> 0 \<le> ery e \<and> ery e \<le> b
    \<and> b * b * (ex e * (ex e - 1)) + a * a * (ery e * (ery e - 1)) \<le> a * a * (b * b)
    \<and> (0 \<le> ey e \<longrightarrow> inside a b e \<and> (1 < eheight e \<longrightarrow> \<not> goes_right a b e))"

definition widen :: "ellipse \<Rightarrow> ellipse" where
  "widen e = e\<lparr>erx := erx e + 1, ewidth := ewidth e + 2\<rparr>"

definition fill_next :: "int \<Rightarrow> int \<Rightarrow> ellipse \<Rightarrow> ellipse" where
  "fill_next a b e =
    (if goes_right a b e then move_right b (widen e)
     else if goes_down a b e then (move_down a e)\<lparr>eheight := eheight e + 1\<rparr>
     else move_down a (move_right b (e\<lparr>ewidth := ewidth e + 2, ery := ery e - eheight e, eheight := 1, erx := erx e + 1\<rparr>)))"

definition fill_now :: "int \<Rightarrow> int \<Rightarrow> ellipse \<Rightarrow> bool" where
  "fill_now a b e \<longleftrightarrow> \<not> goes_right a b e \<and> \<not> goes_down a b e"

lemma fillingD:
  assumes "filling a b e"
  shows "on_arc a b e" "erx e = ex e" "ewidth e = 2 * ex e + 1" "1 \<le> eheight e" "ery e = ey e + eheight e - 1"
    "0 \<le> ery e" "ery e \<le> b" "b * b * (ex e * (ex e - 1)) + a * a * (ery e * (ery e - 1)) \<le> a * a * (b * b)"
    "0 \<le> ey e \<Longrightarrow> inside a b e" "0 \<le> ey e \<Longrightarrow> 1 < eheight e \<Longrightarrow> \<not> goes_right a b e"
  using assms unfolding filling_def by blast+

lemma filled_turn:
  assumes fill: "filling (ea g) (eb g) e" and y: "0 \<le> ey e" and R: "byte_radius (ea g)" "byte_radius (eb g)"
    and filled: "efill g = DRAW_SHAPE_FILLED"
  shows "ellipse_turn g e s =
    Option.bind (if fill_now (ea g) (eb g) e then ellipse_caps g e s else Some s)
      (\<lambda>s. Some (fill_next (ea g) (eb g) e, s))"
proof -
  note D = fillingD [OF fill] and arc = fillingD(1) [OF fill]
  note D' = on_arcD [OF arc] and r = byte_radiusD [OF R(1)] byte_radiusD [OF R(2)]
  have ranges: "short (erx e + 1) = erx e + 1" "unsigned_short (ewidth e + 2) = ewidth e + 2"
    "unsigned_short (eheight e + 1) = eheight e + 1" "short (ery e - eheight e) = ery e - eheight e"
    using D(2-7) D'(1-4) r y by (simp_all add: unsigned_short_def)
  consider (right) "goes_right (ea g) (eb g) e" | (down) "\<not> goes_right (ea g) (eb g) e" "goes_down (ea g) (eb g) e"
    | (both) "\<not> goes_right (ea g) (eb g) e" "\<not> goes_down (ea g) (eb g) e" by blast
  then show ?thesis
  proof cases
    case right
    then have h: "eheight e = 1" using D(4,10) y by fastforce
    show ?thesis
      using right h
      by (auto simp: ellipse_turn_def Let_def filled tests_defined [OF arc y R] ranges fill_now_def fill_next_def widen_def
          goes_right_def quarter_def right_step [OF arc y R])
  next
    case down
    then show ?thesis
      by (auto simp: ellipse_turn_def Let_def filled tests_defined [OF arc y R] ranges fill_now_def fill_next_def
          goes_right_def goes_down_def quarter_def down_step [OF arc y R] move_down_def)
  next
    case both
    have "1 \<le> ey e" using middle_row [of e "ea g" "eb g"] both r y by fastforce
    then have "ery e * 2 + 1 > eheight e * 2" using D(5) by simp
    then show ?thesis
      using both
      by (auto simp: ellipse_turn_def Let_def filled tests_defined [OF arc y R] ranges fill_now_def fill_next_def widen_def
          goes_right_def goes_down_def quarter_def right_step [OF arc y R] down_step_right [OF arc y R])
  qed
qed

text \<open>The running values, without the rectangle that waits.\<close>

definition same_arc :: "ellipse \<Rightarrow> ellipse \<Rightarrow> bool" where
  "same_arc e e' \<longleftrightarrow> ex e = ex e' \<and> ey e = ey e' \<and> et e = et e' \<and> edxt e = edxt e' \<and> edyt e = edyt e'"

lemma same_arcD:
  assumes "same_arc e e'"
  shows "on_arc a b e = on_arc a b e'" "inside a b e = inside a b e'" "goes_right a b e = goes_right a b e'"
  using assms by (simp_all add: same_arc_def on_arc_def inside_def goes_right_def)

lemma fill_next_keeps:
  assumes fill: "filling a b e" and y: "0 \<le> ey e" and R: "byte_radius a" "byte_radius b"
  shows "filling a b (fill_next a b e)"
proof -
  note D = fillingD [OF fill] and arc = fillingD(1) [OF fill] and R1 = byte_radiusD(1) [OF R(1)] byte_radiusD(1) [OF R(2)]
  note D' = on_arcD [OF arc]
  have grow: "b * b * (x * (x - 1)) + a * a * (z * (z - 1)) \<le> a * a * (b * b)"
    if "on_arc a b e'" "0 \<le> z" "ey e' = z" "ex e' = x" for e' x z
    using on_arc_points [OF that(1) _ R1(1)] that(2-4) by (auto simp: arc_points_def)
  consider (right) "goes_right a b e" | (down) "\<not> goes_right a b e" "goes_down a b e"
    | (both) "\<not> goes_right a b e" "\<not> goes_down a b e" by blast
  then show ?thesis
  proof cases
    case right
    then have h: "eheight e = 1" using D(4,10) y by fastforce
    have arc': "on_arc a b (move_right b e)" using arc y R1 right by (rule right_keeps)
    have "inside a b (move_right b e)" using right D'(6) by (rule right_inside)
    moreover have same: "ex (fill_next a b e) = ex e + 1" "ey (fill_next a b e) = ey e"
      "same_arc (fill_next a b e) (move_right b e)"
      using right by (simp_all add: fill_next_def widen_def move_right_def same_arc_def)
    ultimately have "on_arc a b (fill_next a b e)" "inside a b (fill_next a b e)"
      using arc' same_arcD(1,2) [OF same(3)] by blast+
    moreover have "b * b * ((ex e + 1) * ex e) + a * a * (ey e * (ey e - 1)) \<le> a * a * (b * b)"
      using grow [OF arc' y, of "ex e + 1"] by (simp add: move_right_def)
    ultimately show ?thesis
      using right h D(2-7) unfolding filling_def by (simp add: same fill_next_def widen_def move_right_def)
  next
    case down
    have arc': "on_arc a b (move_down a e)" using arc y R1 down(1) by (rule down_keeps)
    have "\<not> goes_right a b (move_down a e)" using D(9) [OF y] down(2) R1 D'(7) by (rule down_not_right)
    moreover have "inside a b (move_down a e)" if "1 \<le> ey e"
      using D(9) [OF y] that R1(1) D'(7) by (rule down_inside)
    moreover have same: "ex (fill_next a b e) = ex e" "ey (fill_next a b e) = ey e - 1" "ery (fill_next a b e) = ery e"
      "eheight (fill_next a b e) = eheight e + 1" "erx (fill_next a b e) = erx e" "ewidth (fill_next a b e) = ewidth e"
      "same_arc (fill_next a b e) (move_down a e)"
      using down by (simp_all add: fill_next_def move_down_def same_arc_def)
    moreover have "on_arc a b (fill_next a b e)" using arc' same_arcD(1) [OF same(7)] by blast
    ultimately show ?thesis
      using D y same_arcD(2,3) [OF same(7)] unfolding filling_def by simp
  next
    case both
    have y1: "1 \<le> ey e" using middle_row [of e a b] both R1 y by fastforce
    have arc': "on_arc a b (move_down a (move_right b e))" using arc y R1 both by (rule both_keeps)
    have "inside a b (move_down a (move_right b e))" using both(2) D'(6,7) by (rule both_inside)
    moreover have "b * b * ((ex e + 1) * ex e) + a * a * ((ey e - 1) * (ey e - 2)) \<le> a * a * (b * b)"
      using grow [OF arc', of "ey e - 1" "ex e + 1"] y1 by (simp add: move_down_def move_right_def)
    moreover have same: "ex (fill_next a b e) = ex e + 1" "ey (fill_next a b e) = ey e - 1"
      "ery (fill_next a b e) = ey e - 1" "eheight (fill_next a b e) = 1" "erx (fill_next a b e) = erx e + 1"
      "ewidth (fill_next a b e) = ewidth e + 2" "same_arc (fill_next a b e) (move_down a (move_right b e))"
      using both D(5) by (simp_all add: fill_next_def move_down_def move_right_def same_arc_def)
    moreover have "on_arc a b (fill_next a b e)" using arc' same_arcD(1) [OF same(7)] by blast
    ultimately show ?thesis
      using D y1 same_arcD(2) [OF same(7)] on_arcD(4) [OF arc] unfolding filling_def by simp
  qed
qed

lemma filling_points:
  assumes fill: "filling a b e" and R: "1 \<le> a" and r: "0 \<le> r" "ey e \<le> r" "r \<le> ery e"
  shows "(ex e, r) \<in> arc_points a b"
proof -
  note D = fillingD [OF fill] and D' = on_arcD [OF fillingD(1) [OF fill]]
  have "r * (r - 1) \<le> ery e * (ery e - 1)"
    using r by (cases "r = 0"; cases "ery e = 0") (auto intro!: mult_mono)
  then have "a * a * (r * (r - 1)) \<le> a * a * (ery e * (ery e - 1))" by (simp add: mult_left_mono)
  moreover have "ey e * (ey e + 1) \<le> r * (r + 1)"
    using r D'(3) by (cases "ey e = - 1") (auto intro!: mult_mono)
  then have "a * a * (ey e * (ey e + 1)) \<le> a * a * (r * (r + 1))" by (rule mult_left_mono) simp
  moreover have "et e + b * b * ex e + b * b + 2 * (a * a * ey e)
      = b * b * ((ex e + 1) * (ex e + 1)) + a * a * (ey e * (ey e + 1)) - a * a * (b * b)"
    unfolding D'(5) arc_value_def by (simp add: algebra_simps)
  moreover have "a * a * ((r + 1) * (r + 1)) = a * a * (r * (r + 1)) + a * a * r + a * a" "0 \<le> a * a * r"
    using r by (simp_all add: algebra_simps) (simp add: mult.assoc [symmetric])
  ultimately show ?thesis
    using D(7,8) D'(1,2,9) r quarter_bounds(2) [OF R] unfolding arc_points_def mem_Collect_eq split
    by (intro conjI; linarith)
qed

section \<open>Filled ellipses\<close>

text \<open>The pixels whose distances from the centre are at most \<open>n\<close> rows and, in row \<open>y\<close>, \<open>w y\<close> columns.\<close>

definition fan :: "int \<Rightarrow> int \<Rightarrow> int \<Rightarrow> (int \<Rightarrow> int) \<Rightarrow> (int \<times> int) set" where
  "fan xc yc n w = {p. \<bar>TRANSLATE_Y (snd p) - yc\<bar> \<le> n \<and> \<bar>fst p - xc\<bar> \<le> w \<bar>TRANSLATE_Y (snd p) - yc\<bar>}"

lemma filled_rect_paints:
  assumes "\<bar>left\<bar> < 2 ^ 29" "\<bar>bottom\<bar> < 2 ^ 29" "0 \<le> width" "width < 2 ^ 29" "\<bar>height\<bar> < 2 ^ 29"
  shows "paints lcd_ok screen (CmdDrawRect left bottom width height m DRAW_SHAPE_FILLED)
    (paint_at m (area left (left + width) (min bottom (bottom + height)) (max bottom (bottom + height))))"
  using CmdDrawRect_paints [of left bottom width height m DRAW_SHAPE_FILLED] assms
  by (simp add: rectangle_def min_absorb1 max_absorb2)

lemma band_paints:
  assumes fill: "filling (ea g) (eb g) e" and R: "byte_radius (ea g)" "byte_radius (eb g)" and filled: "efill g = DRAW_SHAPE_FILLED"
    and centre: "\<bar>exc g\<bar> \<le> 32768" "\<bar>eyc g\<bar> \<le> 32768"
  shows "paints lcd_ok screen (ellipse_band g e) (paint_at (emode g) (fan (exc g) (eyc g) (ery e) (\<lambda>_. ex e)))"
proof -
  note D = fillingD [OF fill] and D' = on_arcD [OF fillingD(1) [OF fill]]
  have "paints lcd_ok screen (ellipse_band g e)
    (paint_at (emode g) (area (exc g - ex e) (exc g - ex e + 2 * ex e)
      (min (eyc g - ery e) (eyc g - ery e + ery e * 2)) (max (eyc g - ery e) (eyc g - ery e + ery e * 2))))"
    unfolding ellipse_band_def [abs_def] filled D(2,3) add_diff_cancel_right'
    by (rule filled_rect_paints) (use D(6,7) D'(1,2) R centre in \<open>auto simp: byte_radius_def\<close>)
  moreover have "area (exc g - ex e) (exc g - ex e + 2 * ex e)
      (min (eyc g - ery e) (eyc g - ery e + ery e * 2)) (max (eyc g - ery e) (eyc g - ery e + ery e * 2))
    = fan (exc g) (eyc g) (ery e) (\<lambda>_. ex e)"
    using D(6) by (auto simp: area_def fan_def)
  ultimately show ?thesis by simp
qed

lemma caps_area:
  assumes "1 \<le> y" "y \<le> n"
  shows "area (xc - x) (xc - x + 2 * x) (yc + y) (yc + n) \<union> area (xc - x) (xc - x + 2 * x) (yc - n) (yc - y)
    = {p \<in> fan xc yc n (\<lambda>_. x). y \<le> \<bar>TRANSLATE_Y (snd p) - yc\<bar>}"
    (is "?A \<union> ?B = ?C")
proof -
  have "(yc + y \<le> v \<and> v \<le> yc + n) \<or> (yc - n \<le> v \<and> v \<le> yc - y) \<longleftrightarrow> \<bar>v - yc\<bar> \<le> n \<and> y \<le> \<bar>v - yc\<bar>" for v
    using assms by (cases "v \<ge> yc") auto
  moreover have "xc - x \<le> u \<and> u \<le> xc - x + 2 * x \<longleftrightarrow> \<bar>u - xc\<bar> \<le> x" for u by auto
  ultimately have "p \<in> ?A \<union> ?B \<longleftrightarrow> p \<in> ?C" for p
    unfolding area_def fan_def Un_iff mem_Collect_eq by meson
  then show ?thesis by blast
qed

lemma caps_disjoint:
  "1 \<le> y \<Longrightarrow> area (xc - x) (xc - x + 2 * x) (yc + y) (yc + n) \<inter> area (xc - x) (xc - x + 2 * x) (yc - n) (yc - y) = {}"
  by (auto simp: area_def)

lemma caps_paints:
  assumes fill: "filling (ea g) (eb g) e" and R: "byte_radius (ea g)" "byte_radius (eb g)" and filled: "efill g = DRAW_SHAPE_FILLED"
    and centre: "\<bar>exc g\<bar> \<le> 32768" "\<bar>eyc g\<bar> \<le> 32768" and y: "1 \<le> ey e"
  shows "paints lcd_ok screen (ellipse_caps g e)
    (paint_at (emode g) {p \<in> fan (exc g) (eyc g) (ery e) (\<lambda>_. ex e). ey e \<le> \<bar>TRANSLATE_Y (snd p) - eyc g\<bar>})"
proof -
  note D = fillingD [OF fill] and D' = on_arcD [OF fillingD(1) [OF fill]]
  have w: "exc g - erx e = exc g - ex e" "ewidth e - 1 = 2 * ex e" "eheight e - 1 = ery e - ey e"
    using D(2,3,5) by simp_all
  have "paints lcd_ok screen (ellipse_caps g e)
    (\<lambda>f. paint_at (emode g) (area (exc g - ex e) (exc g - ex e + 2 * ex e)
        (min (eyc g + ery e) (eyc g + ery e + - (ery e - ey e))) (max (eyc g + ery e) (eyc g + ery e + - (ery e - ey e))))
      (paint_at (emode g) (area (exc g - ex e) (exc g - ex e + 2 * ex e)
        (min (eyc g - ery e) (eyc g - ery e + (ery e - ey e))) (max (eyc g - ery e) (eyc g - ery e + (ery e - ey e)))) f))"
    unfolding ellipse_caps_def [abs_def] filled w
    by (intro paints_bind filled_rect_paints) (use D(4-7) D'(1,2) R centre y in \<open>auto simp: byte_radius_def\<close>)
  moreover have "min (eyc g + ery e) (eyc g + ery e + - (ery e - ey e)) = eyc g + ey e"
    "max (eyc g + ery e) (eyc g + ery e + - (ery e - ey e)) = eyc g + ery e"
    "min (eyc g - ery e) (eyc g - ery e + (ery e - ey e)) = eyc g - ery e"
    "max (eyc g - ery e) (eyc g - ery e + (ery e - ey e)) = eyc g - ey e"
    using D(4,5) by simp_all
  ultimately have "paints lcd_ok screen (ellipse_caps g e)
    (\<lambda>f. paint_at (emode g) (area (exc g - ex e) (exc g - ex e + 2 * ex e) (eyc g + ey e) (eyc g + ery e))
      (paint_at (emode g) (area (exc g - ex e) (exc g - ex e + 2 * ex e) (eyc g - ery e) (eyc g - ey e)) f))"
    by (simp only:)
  then have "paints lcd_ok screen (ellipse_caps g e)
    (paint_at (emode g) (area (exc g - ex e) (exc g - ex e + 2 * ex e) (eyc g + ey e) (eyc g + ery e)
      \<union> area (exc g - ex e) (exc g - ex e + 2 * ex e) (eyc g - ery e) (eyc g - ey e)))"
    by (rule paints_eq) (rule ext, rule paint_at_Un, unfold caps_disjoint [OF y], simp)
  moreover have "ey e \<le> ery e" using D(4,5) by simp
  ultimately show ?thesis by (simp only: caps_area [OF y])
qed

text \<open>The loop and what follows it.\<close>

definition fill_rest :: "ellipse_args \<Rightarrow> ellipse \<Rightarrow> LCDGlobals \<Rightarrow> LCDGlobals option" where
  "fill_rest g e s =
    Option.bind (ellipse_loop g e s) (\<lambda>(e, s). if ery e > eheight e then ellipse_caps g e s else ellipse_band g e s)"

lemma fan_split:
  assumes "\<And>y. w' y = (if y < k then w y else x)" and "k - 1 \<le> n" "0 \<le> k"
  shows "paint_at m (fan xc yc (k - 1) w) (paint_at m {p \<in> fan xc yc n (\<lambda>_. x). k \<le> \<bar>TRANSLATE_Y (snd p) - yc\<bar>} f)
    = paint_at m (fan xc yc n w') f"
  by (subst paint_at_Un) (use assms(2,3) in \<open>auto simp: fan_def assms(1) paint_at_def fun_eq_iff\<close>)

lemma fill_rest_paints:
  assumes R: "byte_radius (ea g)" "byte_radius (eb g)" and filled: "efill g = DRAW_SHAPE_FILLED"
    and centre: "\<bar>exc g\<bar> \<le> 32768" "\<bar>eyc g\<bar> \<le> 32768"
  shows "filling (ea g) (eb g) e \<Longrightarrow> \<exists>w.
    paints lcd_ok screen (fill_rest g e) (paint_at (emode g) (fan (exc g) (eyc g) (ery e) w))
    \<and> (\<forall>y. 0 \<le> y \<and> y \<le> ery e \<longrightarrow> (w y, y) \<in> arc_points (ea g) (eb g))"
proof (induction "nat (ea g - ex e) + nat (ey e + 1)" arbitrary: e rule: less_induct)
  case less
  note fill = less.prems and D = fillingD [OF less.prems] and arc = fillingD(1) [OF less.prems]
  have points: "(ex e, y) \<in> arc_points (ea g) (eb g)" if "0 \<le> y" "ey e \<le> y" "y \<le> ery e" for y
    by (rule filling_points [OF fill byte_radiusD(1) [OF R(1)] that])
  show ?case
  proof (cases "0 \<le> ey e")
    case False
    then have "ey e = - 1" using on_arcD(3) [OF arc] by simp
    then have "fill_rest g e s = ellipse_band g e s" for s using D(5) by (simp add: fill_rest_def ellipse_loop.simps)
    then have "paints lcd_ok screen (fill_rest g e) (paint_at (emode g) (fan (exc g) (eyc g) (ery e) (\<lambda>_. ex e)))"
      using paints_if_ok [OF band_paints [OF fill R filled centre]] by blast
    then show ?thesis using points \<open>ey e = - 1\<close> by (intro exI [of _ "\<lambda>_. ex e"]) auto
  next
    case True
    let ?n = "fill_next (ea g) (eb g) e"
    have next_fill: "filling (ea g) (eb g) ?n" using fill True R by (rule fill_next_keeps)
    note next_arc = fillingD(1) [OF next_fill]
    have moves: "ex e \<le> ex ?n" "ey ?n \<le> ey e" "ex e < ex ?n \<or> ey ?n < ey e"
      by (simp_all add: fill_next_def widen_def move_right_def move_down_def)
    have "nat (ea g - ex ?n) + nat (ey ?n + 1) < nat (ea g - ex e) + nat (ey e + 1)"
      using moves on_arcD(1-4) [OF next_arc] on_arcD(1-4) [OF arc] True by linarith
    from less.hyps [OF this next_fill] obtain w where
      w: "paints lcd_ok screen (fill_rest g ?n) (paint_at (emode g) (fan (exc g) (eyc g) (ery ?n) w))"
      and on: "\<forall>y. 0 \<le> y \<and> y \<le> ery ?n \<longrightarrow> (w y, y) \<in> arc_points (ea g) (eb g)"
      by blast
    have step: "fill_rest g e s = Option.bind (if fill_now (ea g) (eb g) e then ellipse_caps g e s else Some s) (fill_rest g ?n)" for s
      unfolding fill_rest_def using True on_arcD(2) [OF arc]
      by (subst ellipse_loop.simps) (simp add: filled_turn [OF fill True R filled] fill_rest_def)
    show ?thesis
    proof (cases "fill_now (ea g) (eb g) e")
      case False
      then have "ery ?n = ery e" by (auto simp: fill_now_def fill_next_def widen_def move_right_def move_down_def)
      moreover have "paints lcd_ok screen (fill_rest g e) (paint_at (emode g) (fan (exc g) (eyc g) (ery ?n) w))"
        using w by (rule paints_if_ok) (simp add: step False)
      ultimately show ?thesis using on by metis
    next
      case now: True
      have y1: "1 \<le> ey e"
        using middle_row [of e "ea g" "eb g"] now True byte_radiusD(1) [OF R(1)] byte_radiusD(1) [OF R(2)]
        by (fastforce simp: fill_now_def)
      have n: "ery ?n = ey e - 1"
        using now D(5) by (simp add: fill_now_def fill_next_def move_right_def move_down_def)
      let ?w = "\<lambda>y. if y < ey e then w y else ex e"
      have "paints lcd_ok screen (\<lambda>s. Option.bind (ellipse_caps g e s) (fill_rest g ?n))
        (paint_at (emode g) (fan (exc g) (eyc g) (ery e) ?w))"
        by (rule paints_eq [OF paints_bind [OF caps_paints [OF fill R filled centre y1] w]])
          (unfold n, rule ext, rule fan_split, use D(4,5) True in simp_all)
      then have "paints lcd_ok screen (fill_rest g e) (paint_at (emode g) (fan (exc g) (eyc g) (ery e) ?w))"
        by (rule paints_if_ok) (simp add: step now)
      moreover have "(?w y, y) \<in> arc_points (ea g) (eb g)" if "0 \<le> y" "y \<le> ery e" for y
        using that on points unfolding n by auto
      ultimately show ?thesis by blast
    qed
  qed
qed

lemma start_filling:
  assumes R: "byte_radius a" "byte_radius b"
  shows "filling a b \<lparr>ex = 0, ey = b, erx = 0, ery = b, ewidth = 1, eheight = 1, et = - (a * a) * b, edxt = 0,
    edyt = - 2 * (a * a) * b\<rparr>"
    (is "filling a b ?e")
proof -
  have "on_arc a b ?e" using R by (intro start_on_arc) simp_all
  moreover have "a * a * 1 \<le> a * a * b" "b * (b - 1) \<le> b * b"
    using byte_radiusD(1) [OF R(2)] by (intro mult_left_mono; simp)+
  moreover from this have "quarter a \<le> a * a * b" using quarter_bounds(2) [OF byte_radiusD(1) [OF R(1)]] by linarith
  moreover have "a * a * (b * (b - 1)) \<le> a * a * (b * b)"
    using \<open>b * (b - 1) \<le> b * b\<close> by (rule mult_left_mono) simp
  ultimately show ?thesis
    using byte_radiusD(1) [OF R(2)] unfolding filling_def inside_def by simp
qed

text \<open>
  C16: With radii from 1 to 255 and a centre whose coordinates are in the range of a \<^verbatim>\<open>short\<close>, \<^verbatim>\<open>EllipseOutEx\<close> fills an ellipse by painting, once
  each, the pixels of all its rows from the lowest to the highest, every row from one point next to the
  arc to its reflection. So a filled ellipse can be inverted, too; the loop ends and nothing overflows. The options resolve to a
  mode of drawing and have none of the bits 0 and 1, which are documented to clear the screen first and
  which the code ignores (\<^verbatim>\<open>clear_options_ignored\<close>).
\<close>

theorem ellipse_filled:
  assumes "lcd_ok s" and "CmdResolveDrawingMode (ucast options) = (True, m, DRAW_SHAPE_FILLED)"
    and "0 < rx" "0 < ry" and "- 32768 \<le> xc" "xc < 32768" "- 32768 \<le> yc" "yc < 32768"
    and "options AND 3 = 0"
  shows "\<exists>s' w. EllipseOutEx xc yc rx ry options s = Some (0, s') \<and> lcd_ok s'
    \<and> screen s' = paint_at m (fan xc yc (uint ry) w) (screen s)
    \<and> (\<forall>y. 0 \<le> y \<and> y \<le> uint ry \<longrightarrow> (w y, y) \<in> arc_points (uint rx) (uint ry))"
proof -
  define a b where "a = uint rx" and "b = uint ry"
  let ?g = "\<lparr>exc = xc, eyc = yc, ea = a, eb = b, emode = m, efill = DRAW_SHAPE_FILLED\<rparr>"
  let ?e = "\<lparr>ex = 0, ey = b, erx = 0, ery = b, ewidth = 1, eheight = 1, et = - (a * a) * b, edxt = 0, edyt = - 2 * (a * a) * b\<rparr>"
  have R: "byte_radius a" "byte_radius b"
    using assms(3,4) uint_lt2p [of rx] uint_lt2p [of ry] by (auto simp: a_def b_def byte_radius_def word_less_def)
  then have fill: "filling (ea ?g) (eb ?g) ?e" using start_filling [OF R] by simp
  have "\<bar>xc\<bar> \<le> 32768" "\<bar>yc\<bar> \<le> 32768" using assms(5-8) by simp_all
  then obtain w where w: "paints lcd_ok screen (fill_rest ?g ?e) (paint_at m (fan xc yc b w))"
    "\<forall>y. 0 \<le> y \<and> y \<le> b \<longrightarrow> (w y, y) \<in> arc_points a b"
    using fill_rest_paints [OF _ _ _ _ _ fill] R by auto
  have "CmdDrawEllipse xc yc a b m DRAW_SHAPE_FILLED s = fill_rest ?g ?e s" for s
    using R assms(5-8)
    by (simp add: CmdDrawEllipse_def Let_def squares_small [OF R, simplified] byte_radius_def fill_rest_def)
  with w(1) have "paints lcd_ok screen (CmdDrawEllipse xc yc a b m DRAW_SHAPE_FILLED) (paint_at m (fan xc yc b w))"
    by (rule paints_if_ok)
  from with_mode_paints [where draw = "CmdDrawEllipse xc yc a b", OF assms(1,2) this] w(2) show ?thesis
    unfolding EllipseOutEx_def a_def b_def by blast
qed

theorem ellipse_filled_witness:
  "\<exists>s'. EllipseOutEx 60 60 40 9 0x38 blank_lcd = Some (0, s') \<and> screen s' (60, 67) \<and> screen s' (60, 76) \<and> \<not> screen s' (60, 77)"
proof -
  have mode: "CmdResolveDrawingMode (ucast (0x38 :: u32)) = (True, DRAW_PIXELS_INVERT, DRAW_SHAPE_FILLED)"
    by (simp add: CmdResolveDrawingMode_def Let_def)
  obtain s' w where *: "EllipseOutEx 60 60 40 9 0x38 blank_lcd = Some (0, s')"
    "screen s' = paint_at DRAW_PIXELS_INVERT (fan 60 60 9 w) (\<lambda>_. False)"
    "\<forall>y. 0 \<le> y \<and> y \<le> 9 \<longrightarrow> (w y, y) \<in> arc_points 40 9"
    using ellipse_filled [OF lcd_ok_blank mode, of 40 9 60 60] by (auto simp: screen_blank)
  have "0 \<le> w 0" "0 \<le> w 9" using *(3) [rule_format, of 0] *(3) [rule_format, of 9] by (auto simp: arc_points_def)
  then show ?thesis
    using *(1) by (intro exI [of _ s']) (simp add: *(2) paint_at_def paint_def on_screen_def fan_def TRANSLATE_Y_def)
qed

end
