(* ===== verification/Devices.thy ===== *)
theory Devices
  imports Prelude
begin

text \<open>
  The contract between the modules of the library on the brick and the devices they write short strings to:
  a string that is taken is the last one in the log of the device, one that is not leaves the log as it is, and
  nothing that was written is lost. The modules for motors, light and sound each provide it.
\<close>

locale device =
  fixes write_dev :: "u8 list \<Rightarrow> 's \<Rightarrow> int \<times> 's"
    and log :: "'s \<Rightarrow> u8 list list"
    and takes :: "'s \<Rightarrow> u8 list \<Rightarrow> bool"
  assumes taken: "takes s bs \<Longrightarrow> log (snd (write_dev bs s)) = log s @ [bs]"
    and refused: "\<not> takes s bs \<Longrightarrow> log (snd (write_dev bs s)) = log s \<and> fst (write_dev bs s) = - 1"
begin

lemma log_grows: "log (snd (write_dev bs s)) = log s @ (if takes s bs then [bs] else [])"
  using taken refused by auto

lemma log_last: "takes s bs \<Longrightarrow> log (snd (write_dev bs s)) \<noteq> [] \<and> last (log (snd (write_dev bs s))) = bs"
  by (simp add: taken)

text \<open>What holds for all strings so far and for the next one holds for all then.\<close>

lemma log_all: "\<forall>f \<in> set (log s). P f \<Longrightarrow> P bs \<Longrightarrow> \<forall>f \<in> set (log (snd (write_dev bs s))). P f"
  by (auto simp: log_grows)

text \<open>Writing several strings logs some of them, in their order, after what was there.\<close>

lemma log_sequence:
  "\<exists>sent. log (fold (\<lambda>bs s. snd (write_dev bs s)) bss s) = log s @ sent \<and> set sent \<subseteq> set bss \<and> length sent \<le> length bss"
proof (induction bss arbitrary: s)
  case (Cons bs bss)
  obtain sent where "log (fold (\<lambda>bs s. snd (write_dev bs s)) bss (snd (write_dev bs s))) = log (snd (write_dev bs s)) @ sent"
    "set sent \<subseteq> set bss" "length sent \<le> length bss"
    using Cons.IH by blast
  then show ?case
    by (intro exI [of _ "(if takes s bs then [bs] else []) @ sent"]) (auto simp: log_grows)
qed simp

end

end
