(* ===== verification/Motors.thy ===== *)
theory Motors
  imports Lcd Devices "HOL-Library.Signed_Division"
begin

text \<open>
  The motor functions of the brick-side library, \<^verbatim>\<open>src/util/cat/ev3_output.c\<close>. Commands are short byte
  strings written to the device \<^verbatim>\<open>/dev/lms_pwm\<close>; the state of the motors is in memory shared with the
  device \<^verbatim>\<open>/dev/lms_motor\<close>. The state records the frames that were written; \<open>write_res\<close> is what \<^verbatim>\<open>write\<close>
  returns for each of them. On the brick \<^verbatim>\<open>char\<close> is unsigned, so characters are bytes.
\<close>

section \<open>The state\<close>

record MOTORDATA =
  TachoCounts :: u32
  MotorSpeed :: u8
  TachoSensor :: u32

text \<open>What \<^verbatim>\<open>pMotor\<close> points to: nothing, the array in the same struct, or the shared memory.\<close>

datatype motor_pointer = NoMotors | OwnMotors | SharedMotors

record OutputGlobals =
  OutputTypes :: "u8 list"
  Owners :: "u8 list"
  PwmFile :: int
  MotorFile :: int
  MotorData :: "MOTORDATA list"
  Shared :: "MOTORDATA list"
  pMotor :: motor_pointer
  frames :: "u8 list list"
  write_res :: "nat \<Rightarrow> int"

definition NUM_OUTPUTS :: nat where [simp]: "NUM_OUTPUTS = 4"
definition OUT_ALL :: u8 where "OUT_ALL = 0x0f"
definition OWNER_NONE :: u8 where "OWNER_NONE = 0"
definition LAYER_MASTER :: u8 where "LAYER_MASTER = 0"

text \<open>The two-motor combinations \<^verbatim>\<open>OUT_AB\<close>, \<^verbatim>\<open>OUT_AC\<close>, \<^verbatim>\<open>OUT_AD\<close>, \<^verbatim>\<open>OUT_BC\<close>, \<^verbatim>\<open>OUT_BD\<close>, \<^verbatim>\<open>OUT_CD\<close>.\<close>

definition two_motors :: "u8 \<Rightarrow> bool" where
  "two_motors Outputs \<longleftrightarrow> Outputs = 0x03 \<or> Outputs = 0x05 \<or> Outputs = 0x09 \<or> Outputs = 0x06 \<or> Outputs = 0x0a \<or> Outputs = 0x0c"

definition OutputToMotorNum :: "u8 \<Rightarrow> nat" where
  "OutputToMotorNum Output =
    (if Output = 0x01 then 0 else if Output = 0x02 then 1 else if Output = 0x04 then 2 else if Output = 0x08 then 3
     else NUM_OUTPUTS)"

definition DecodeOutputs :: "u8 \<Rightarrow> u8 \<times> u8" where
  "DecodeOutputs outputs = (outputs AND 0x0f, outputs AND 0x70)"

definition motors :: "OutputGlobals \<Rightarrow> MOTORDATA list" where
  "motors s = (case pMotor s of SharedMotors \<Rightarrow> Shared s | _ \<Rightarrow> MotorData s)"

definition set_motors :: "MOTORDATA list \<Rightarrow> OutputGlobals \<Rightarrow> OutputGlobals" where
  "set_motors ms s = (case pMotor s of SharedMotors \<Rightarrow> s\<lparr>Shared := ms\<rparr> | _ \<Rightarrow> s\<lparr>MotorData := ms\<rparr>)"

definition OutputInitialized :: "OutputGlobals \<Rightarrow> bool" where
  "OutputInitialized s \<longleftrightarrow> PwmFile s \<noteq> - 1 \<and> pMotor s \<noteq> NoMotors"

section \<open>Commands\<close>

definition WriteToPWMDevice :: "u8 list \<Rightarrow> OutputGlobals \<Rightarrow> int \<times> OutputGlobals" where
  "WriteToPWMDevice bs s =
    (if PwmFile s \<ge> 0 then
       let result = write_res s (length (frames s))
       in (if result \<ge> 0 then int (length bs) else result, s\<lparr>frames := frames s @ [bs]\<rparr>)
     else (- 1, s))"

interpretation pwm: device WriteToPWMDevice frames "\<lambda>s bs. PwmFile s \<ge> 0"
  by unfold_locales (simp_all add: WriteToPWMDevice_def Let_def)

text \<open>
  What the command functions have in common: nothing is sent if the module is not open or for another
  layer, daisy-chained bricks not being supported; \<open>cmd\<close> makes the frame from the motors' bits and
  \<open>after\<close> is done when it was written.
\<close>

definition command ::
    "u8 \<Rightarrow> (u8 \<Rightarrow> u8 list) \<Rightarrow> (u8 \<Rightarrow> OutputGlobals \<Rightarrow> OutputGlobals) \<Rightarrow> OutputGlobals \<Rightarrow> bool \<times> OutputGlobals" where
  "command Outputs cmd after s =
    (if \<not> OutputInitialized s then (False, s)
     else
       let (Outputs, Layer) = DecodeOutputs Outputs
       in if Layer = LAYER_MASTER then
            let (n, s) = WriteToPWMDevice (cmd Outputs) s;
                result = (n = int (length (cmd Outputs)))
            in (result, if result then after Outputs s else s)
          else (False, s))"

definition set_owner :: "u8 \<Rightarrow> u8 \<Rightarrow> OutputGlobals \<Rightarrow> OutputGlobals" where
  "set_owner Owner Outputs s =
    s\<lparr>Owners := map (\<lambda>i. if bit Outputs i then Owner else Owners s ! i) [0..<NUM_OUTPUTS]\<rparr>"

definition no_change :: "u8 \<Rightarrow> OutputGlobals \<Rightarrow> OutputGlobals" where
  "no_change Outputs s = s"

definition OutputStop :: "u8 \<Rightarrow> bool \<Rightarrow> OutputGlobals \<Rightarrow> bool \<times> OutputGlobals" where
  "OutputStop Outputs useBrake = command Outputs (\<lambda>Outputs. [0xA3, Outputs, of_bool useBrake]) no_change"

definition OutputProgramStop :: "OutputGlobals \<Rightarrow> bool \<times> OutputGlobals" where
  "OutputProgramStop s =
    (if \<not> OutputInitialized s then (False, s)
     else let (n, s) = WriteToPWMDevice [0x02] s in (n = 1, s))"

definition OutputSetTypes :: "u8 \<Rightarrow> u8 \<Rightarrow> u8 \<Rightarrow> u8 \<Rightarrow> OutputGlobals \<Rightarrow> bool \<times> OutputGlobals" where
  "OutputSetTypes OutputA OutputB OutputC OutputD s =
    (if \<not> OutputInitialized s then (False, s)
     else
       let (n, s) = WriteToPWMDevice [0xA1, OutputA, OutputB, OutputC, OutputD] s
       in if n = 5 then (True, s\<lparr>OutputTypes := [OutputA, OutputB, OutputC, OutputD]\<rparr>) else (False, s))"

definition OutputSetTypesArray :: "u8 list \<Rightarrow> OutputGlobals \<Rightarrow> bool \<times> OutputGlobals" where
  "OutputSetTypesArray pTypes = OutputSetTypes (pTypes ! 0) (pTypes ! 1) (pTypes ! 2) (pTypes ! 3)"

definition OutputSetType :: "u8 \<Rightarrow> u8 \<Rightarrow> OutputGlobals \<Rightarrow> bool \<times> OutputGlobals" where
  "OutputSetType Output DeviceType s =
    (if \<not> OutputInitialized s then (False, s)
     else
       let (Output, Layer) = DecodeOutputs Output;
           n = OutputToMotorNum Output
       in if Layer = LAYER_MASTER \<and> n < NUM_OUTPUTS \<and> OutputTypes s ! n \<noteq> DeviceType then
            let s = s\<lparr>OutputTypes := (OutputTypes s)[n := DeviceType]\<rparr>
            in OutputSetTypesArray (OutputTypes s) s
          else (False, s))"

definition OutputReset :: "u8 \<Rightarrow> OutputGlobals \<Rightarrow> bool \<times> OutputGlobals" where
  "OutputReset Outputs = command Outputs (\<lambda>Outputs. [0xA2, Outputs]) no_change"

definition OutputSpeed :: "u8 \<Rightarrow> u8 \<Rightarrow> OutputGlobals \<Rightarrow> bool \<times> OutputGlobals" where
  "OutputSpeed Outputs Speed = command Outputs (\<lambda>Outputs. [0xA5, Outputs, Speed]) no_change"

definition OutputPower :: "u8 \<Rightarrow> u8 \<Rightarrow> OutputGlobals \<Rightarrow> bool \<times> OutputGlobals" where
  "OutputPower Outputs Power = command Outputs (\<lambda>Outputs. [0xA4, Outputs, Power]) no_change"

definition OutputStartEx :: "u8 \<Rightarrow> u8 \<Rightarrow> OutputGlobals \<Rightarrow> bool \<times> OutputGlobals" where
  "OutputStartEx Outputs Owner = command Outputs (\<lambda>Outputs. [0xA6, Outputs]) (set_owner Owner)"

definition OutputPolarity :: "u8 \<Rightarrow> u8 \<Rightarrow> OutputGlobals \<Rightarrow> bool \<times> OutputGlobals" where
  "OutputPolarity Outputs Polarity = command Outputs (\<lambda>Outputs. [0xA7, Outputs, Polarity]) no_change"

text \<open>
  The memory of the two structs. The bytes between the fields are sent as well; they are \<open>junk\<close>, what
  was in the memory before.
\<close>

definition StepOrTimePwrOrSpd :: "u8 list \<Rightarrow> u8 \<Rightarrow> u8 \<Rightarrow> u8 \<Rightarrow> u32 \<Rightarrow> u32 \<Rightarrow> u32 \<Rightarrow> bool \<Rightarrow> u8 list" where
  "StepOrTimePwrOrSpd junk Cmd Outputs PwrOrSpd StepOrTime1 StepOrTime2 StepOrTime3 Brake =
    [Cmd, Outputs, PwrOrSpd, junk ! 0] @ le32 StepOrTime1 @ le32 StepOrTime2 @ le32 StepOrTime3
      @ [of_bool Brake, junk ! 1, junk ! 2, junk ! 3]"

definition StepOrTimeSync :: "u8 list \<Rightarrow> u8 \<Rightarrow> u8 \<Rightarrow> u8 \<Rightarrow> u16 \<Rightarrow> u32 \<Rightarrow> bool \<Rightarrow> u8 list" where
  "StepOrTimeSync junk Cmd Outputs Speed Turn StepOrTime Brake =
    [Cmd, Outputs, Speed, junk ! 0] @ le16 Turn @ [junk ! 1, junk ! 2] @ le32 StepOrTime
      @ [of_bool Brake, junk ! 3, junk ! 4, junk ! 5]"

definition OutputStepPowerEx ::
    "u8 list \<Rightarrow> u8 \<Rightarrow> u8 \<Rightarrow> u32 \<Rightarrow> u32 \<Rightarrow> u32 \<Rightarrow> bool \<Rightarrow> u8 \<Rightarrow> OutputGlobals \<Rightarrow> bool \<times> OutputGlobals" where
  "OutputStepPowerEx junk Outputs Power Step1 Step2 Step3 useBrake Owner =
    command Outputs (\<lambda>Outputs. StepOrTimePwrOrSpd junk 0xAC Outputs Power Step1 Step2 Step3 useBrake) (set_owner Owner)"

definition OutputTimePowerEx ::
    "u8 list \<Rightarrow> u8 \<Rightarrow> u8 \<Rightarrow> u32 \<Rightarrow> u32 \<Rightarrow> u32 \<Rightarrow> bool \<Rightarrow> u8 \<Rightarrow> OutputGlobals \<Rightarrow> bool \<times> OutputGlobals" where
  "OutputTimePowerEx junk Outputs Power Time1 Time2 Time3 useBrake Owner =
    command Outputs (\<lambda>Outputs. StepOrTimePwrOrSpd junk 0xAD Outputs Power Time1 Time2 Time3 useBrake) (set_owner Owner)"

definition OutputStepSpeedEx ::
    "u8 list \<Rightarrow> u8 \<Rightarrow> u8 \<Rightarrow> u32 \<Rightarrow> u32 \<Rightarrow> u32 \<Rightarrow> bool \<Rightarrow> u8 \<Rightarrow> OutputGlobals \<Rightarrow> bool \<times> OutputGlobals" where
  "OutputStepSpeedEx junk Outputs Speed Step1 Step2 Step3 useBrake Owner =
    command Outputs (\<lambda>Outputs. StepOrTimePwrOrSpd junk 0xAE Outputs Speed Step1 Step2 Step3 useBrake) (set_owner Owner)"

definition OutputTimeSpeedEx ::
    "u8 list \<Rightarrow> u8 \<Rightarrow> u8 \<Rightarrow> u32 \<Rightarrow> u32 \<Rightarrow> u32 \<Rightarrow> bool \<Rightarrow> u8 \<Rightarrow> OutputGlobals \<Rightarrow> bool \<times> OutputGlobals" where
  "OutputTimeSpeedEx junk Outputs Speed Time1 Time2 Time3 useBrake Owner =
    command Outputs (\<lambda>Outputs. StepOrTimePwrOrSpd junk 0xAF Outputs Speed Time1 Time2 Time3 useBrake) (set_owner Owner)"

definition OutputStepSyncEx ::
    "u8 list \<Rightarrow> u8 \<Rightarrow> u8 \<Rightarrow> u16 \<Rightarrow> u32 \<Rightarrow> bool \<Rightarrow> u8 \<Rightarrow> OutputGlobals \<Rightarrow> bool \<times> OutputGlobals" where
  "OutputStepSyncEx junk Outputs Speed Turn Step useBrake Owner s =
    (if \<not> OutputInitialized s then (False, s)
     else if \<not> two_motors (fst (DecodeOutputs Outputs)) then (False, s)
     else command Outputs (\<lambda>Outputs. StepOrTimeSync junk 0xB0 Outputs Speed Turn Step useBrake) (set_owner Owner) s)"

definition OutputTimeSyncEx ::
    "u8 list \<Rightarrow> u8 \<Rightarrow> u8 \<Rightarrow> u16 \<Rightarrow> u32 \<Rightarrow> bool \<Rightarrow> u8 \<Rightarrow> OutputGlobals \<Rightarrow> bool \<times> OutputGlobals" where
  "OutputTimeSyncEx junk Outputs Speed Turn Time useBrake Owner s =
    (if \<not> OutputInitialized s then (False, s)
     else if \<not> two_motors (fst (DecodeOutputs Outputs)) then (False, s)
     else command Outputs (\<lambda>Outputs. StepOrTimeSync junk 0xB1 Outputs Speed Turn Time useBrake) (set_owner Owner) s)"

definition clear_sensors :: "u8 \<Rightarrow> OutputGlobals \<Rightarrow> OutputGlobals" where
  "clear_sensors Outputs s =
    set_motors (map (\<lambda>i. if bit Outputs i then (motors s ! i)\<lparr>TachoSensor := 0\<rparr> else motors s ! i) [0..<NUM_OUTPUTS]) s"

definition OutputClearCount :: "u8 \<Rightarrow> OutputGlobals \<Rightarrow> bool \<times> OutputGlobals" where
  "OutputClearCount Outputs = command Outputs (\<lambda>Outputs. [0xB2, Outputs]) clear_sensors"

section \<open>Opening and closing\<close>

definition ResetOutputs :: "OutputGlobals \<Rightarrow> bool \<times> OutputGlobals" where
  "ResetOutputs s = OutputStop OUT_ALL False (s\<lparr>Owners := replicate NUM_OUTPUTS OWNER_NONE\<rparr>)"

definition OutputOpen :: "OutputGlobals \<Rightarrow> bool \<times> OutputGlobals" where
  "OutputOpen s =
    (if \<not> OutputInitialized s then (False, s)
     else
       let (result, s) = ResetOutputs s
       in if result then let (n, s) = WriteToPWMDevice [0x03] s in (n = 1, s) else (result, s))"

text \<open>\<open>pwm\<close> and \<open>motor\<close> are the results of the two calls of \<^verbatim>\<open>open\<close>, \<open>map\<close> is the shared memory, if there is.\<close>

definition OutputInit :: "int \<Rightarrow> int \<Rightarrow> MOTORDATA list option \<Rightarrow> OutputGlobals \<Rightarrow> bool \<times> OutputGlobals" where
  "OutputInit pwm motor mapped s =
    (if OutputInitialized s then (True, s)
     else
       let s = s\<lparr>pMotor := OwnMotors, PwmFile := pwm\<rparr>
       in if pwm \<ge> 0 then
            let s = s\<lparr>MotorFile := motor\<rparr>
            in if motor \<ge> 0 then
                 (case mapped of
                    None \<Rightarrow> (False, s\<lparr>MotorFile := - 1, PwmFile := - 1\<rparr>)
                  | Some ms \<Rightarrow> OutputOpen (s\<lparr>pMotor := SharedMotors, Shared := ms\<rparr>))
               else (False, s)
          else (False, s))"

definition OutputClose :: "OutputGlobals \<Rightarrow> bool \<times> OutputGlobals" where
  "OutputClose s = (if \<not> OutputInitialized s then (False, s) else ResetOutputs s)"

definition OutputExit :: "OutputGlobals \<Rightarrow> bool \<times> OutputGlobals" where
  "OutputExit s =
    (if \<not> OutputInitialized s then (True, s)
     else
       let (result, s) = ResetOutputs s;
           s = (if MotorFile s \<ge> 0 then s\<lparr>MotorFile := - 1\<rparr> else s);
           s = (if PwmFile s \<ge> 0 then s\<lparr>PwmFile := - 1\<rparr> else s)
       in (result, s))"

section \<open>Reading\<close>

text \<open>The three results that are stored keep their values if the module is not open.\<close>

definition OutputRead :: "u8 \<Rightarrow> u8 \<times> u32 \<times> u32 \<Rightarrow> OutputGlobals \<Rightarrow> bool \<times> u8 \<times> u32 \<times> u32" where
  "OutputRead Output old s =
    (if \<not> OutputInitialized s then (False, old)
     else
       let (Output, Layer) = DecodeOutputs Output;
           n = OutputToMotorNum Output
       in if Layer = LAYER_MASTER \<and> n < NUM_OUTPUTS
          then let m = motors s ! n in (True, MotorSpeed m, TachoCounts m, TachoSensor m)
          else (False, 0, 0, 0))"

definition OutputGetCount :: "u8 \<Rightarrow> u32 \<Rightarrow> OutputGlobals \<Rightarrow> bool \<times> u32" where
  "OutputGetCount Output Tacho s = (let (r, _, _, t) = OutputRead Output (0, 0, Tacho) s in (r, t))"

definition OutputGetTachoCount :: "u8 \<Rightarrow> u32 \<Rightarrow> OutputGlobals \<Rightarrow> bool \<times> u32" where
  "OutputGetTachoCount Output Tacho s = (let (r, _, t, _) = OutputRead Output (0, Tacho, 0) s in (r, t))"

definition OutputGetActualSpeed :: "u8 \<Rightarrow> u8 \<Rightarrow> OutputGlobals \<Rightarrow> bool \<times> u8" where
  "OutputGetActualSpeed Output Speed s = (let (r, v, _, _) = OutputRead Output (Speed, 0, 0) s in (r, v))"

definition MotorTachoCount :: "u8 \<Rightarrow> OutputGlobals \<Rightarrow> u32" where
  "MotorTachoCount Output s = snd (OutputGetTachoCount Output 0 s)"

definition MotorBlockTachoCount :: "u8 \<Rightarrow> OutputGlobals \<Rightarrow> u32" where
  "MotorBlockTachoCount Output s = snd (OutputGetTachoCount Output 0 s)"

definition MotorPower :: "u8 \<Rightarrow> OutputGlobals \<Rightarrow> u8" where
  "MotorPower Output s = snd (OutputGetActualSpeed Output 0 s)"

definition MotorActualSpeed :: "u8 \<Rightarrow> OutputGlobals \<Rightarrow> u8" where
  "MotorActualSpeed Output s = snd (OutputGetActualSpeed Output 0 s)"

definition MotorRotationCount :: "u8 \<Rightarrow> OutputGlobals \<Rightarrow> u32" where
  "MotorRotationCount Output s = snd (OutputGetCount Output 0 s)"

text \<open>
  What \<^verbatim>\<open>sscanf(busyReturn, "%u %u", &test, &test2)\<close> stores in \<^verbatim>\<open>test2\<close>, which is 0 before, from the bytes
  of \<open>busyReturn\<close>; \<open>None\<close> if it reads beyond them. A number without an end in the buffer does so.
\<close>

definition is_digit :: "u8 \<Rightarrow> bool" where
  "is_digit b \<longleftrightarrow> 48 \<le> b \<and> b \<le> 57"

fun skip_spaces :: "u8 list \<Rightarrow> u8 list option" where
  "skip_spaces [] = None"
| "skip_spaces (b # bs) = (if isspace b then skip_spaces bs else Some (b # bs))"

fun scan_digits :: "nat \<Rightarrow> u8 list \<Rightarrow> (nat \<times> u8 list) option" where
  "scan_digits n [] = None"
| "scan_digits n (b # bs) = (if is_digit b then scan_digits (10 * n + (unat b - 48)) bs else Some (n, b # bs))"

text \<open>One \<^verbatim>\<open>%u\<close>: an optional sign, and digits; a number too large becomes the largest one.\<close>

definition scan_u :: "u8 list \<Rightarrow> (u32 \<times> u8 list) option option" where
  "scan_u bs =
    do {
      bs \<leftarrow> skip_spaces bs;
      let neg = (hd bs = 45);
      let rest = (if neg \<or> hd bs = 43 then tl bs else bs);
      if rest = [] then None
      else if \<not> is_digit (hd rest) then Some None
      else do {
        (n, rest) \<leftarrow> scan_digits 0 rest;
        let v = (if n < 2 ^ 32 then if neg then - of_nat n else of_nat n else - 1);
        Some (Some (v, rest))
      }
    }"

definition scan_busy :: "u8 list \<Rightarrow> u32 option" where
  "scan_busy bs =
    do {
      first \<leftarrow> scan_u bs;
      case first of
        None \<Rightarrow> Some 0
      | Some (_, rest) \<Rightarrow> do {
          second \<leftarrow> scan_u rest;
          case second of None \<Rightarrow> Some 0 | Some (test2, _) \<Rightarrow> Some test2
        }
    }"

text \<open>
  A reading of the device is the result of \<^verbatim>\<open>read\<close> and the 20 bytes of \<^verbatim>\<open>busyReturn\<close> after it. The result is
  stored in a \<^verbatim>\<open>size_t\<close>, so \<open>- 1\<close> is greater than 0. The value is the result and what is stored, if it is.
\<close>

definition OutputTest :: "int \<times> u8 list \<Rightarrow> u8 \<Rightarrow> OutputGlobals \<Rightarrow> (bool \<times> bool option) option" where
  "OutputTest reading Outputs s =
    (if \<not> OutputInitialized s then Some (False, None)
     else
       let (Outputs, Layer) = DecodeOutputs Outputs
       in if Layer = LAYER_MASTER \<and> PwmFile s \<ge> 0
          then do { test2 \<leftarrow> scan_busy (snd reading); Some (fst reading \<noteq> 0, Some (Outputs AND ucast test2 \<noteq> 0)) }
          else Some (False, Some False))"

definition OutputState :: "int \<times> u8 list \<Rightarrow> u8 \<Rightarrow> OutputGlobals \<Rightarrow> (bool \<times> u8 option) option" where
  "OutputState reading Outputs s =
    (if \<not> OutputInitialized s then Some (False, None)
     else
       let (Outputs, Layer) = DecodeOutputs Outputs
       in if Layer = LAYER_MASTER \<and> PwmFile s \<ge> 0
          then do { test2 \<leftarrow> scan_busy (snd reading); Some (fst reading \<noteq> 0, Some (ucast test2)) }
          else Some (False, Some 0))"

definition MotorBusy :: "int \<times> u8 list \<Rightarrow> u8 \<Rightarrow> OutputGlobals \<Rightarrow> bool option" where
  "MotorBusy reading Output s = map_option (\<lambda>(_, busy). busy = Some True) (OutputTest reading Output s)"

section \<open>The interface for programs\<close>

definition ResetTachoCount :: "u8 \<Rightarrow> OutputGlobals \<Rightarrow> OutputGlobals" where
  "ResetTachoCount Outputs s = snd (OutputReset Outputs s)"

definition ResetBlockTachoCount :: "u8 \<Rightarrow> OutputGlobals \<Rightarrow> OutputGlobals" where
  "ResetBlockTachoCount = ResetTachoCount"

definition ResetRotationCount :: "u8 \<Rightarrow> OutputGlobals \<Rightarrow> OutputGlobals" where
  "ResetRotationCount Outputs s = snd (OutputClearCount Outputs s)"

definition ResetAllTachoCounts :: "u8 \<Rightarrow> OutputGlobals \<Rightarrow> OutputGlobals" where
  "ResetAllTachoCounts Outputs s = snd (OutputClearCount Outputs (snd (OutputReset Outputs s)))"

definition ResetBlockAndTachoCount :: "u8 \<Rightarrow> OutputGlobals \<Rightarrow> OutputGlobals" where
  "ResetBlockAndTachoCount = ResetTachoCount"

definition ResetCount :: "u8 \<Rightarrow> u8 \<Rightarrow> OutputGlobals \<Rightarrow> OutputGlobals" where
  "ResetCount Outputs reset s =
    (if reset = 0x08 then ResetTachoCount Outputs s
     else if reset = 0x20 then ResetBlockTachoCount Outputs s
     else if reset = 0x40 then ResetRotationCount Outputs s
     else if reset = 0x28 then ResetBlockAndTachoCount Outputs s
     else if reset = 0x68 then ResetAllTachoCounts Outputs s
     else s)"

definition OUT_FLOAT :: u8 where "OUT_FLOAT = 0x00"
definition OUT_OFF :: u8 where "OUT_OFF = 0x40"
definition OUT_ON :: u8 where "OUT_ON = 0x80"
definition OUT_REV :: u8 where "OUT_REV = 0x00"
definition OUT_TOGGLE :: u8 where "OUT_TOGGLE = 0x40"
definition OUT_FWD :: u8 where "OUT_FWD = 0x80"
definition OUT_POWER_DEFAULT :: int where "OUT_POWER_DEFAULT = - 127"
definition RESET_NONE :: u8 where "RESET_NONE = 0x00"

definition SetOutputEx :: "u8 \<Rightarrow> u8 \<Rightarrow> u8 \<Rightarrow> OutputGlobals \<Rightarrow> OutputGlobals" where
  "SetOutputEx Outputs Mode reset s =
    (if Mode = OUT_FLOAT then ResetCount Outputs reset (snd (OutputStop Outputs False s))
     else if Mode = OUT_OFF then ResetCount Outputs reset (snd (OutputStop Outputs True s))
     else if Mode = OUT_ON then snd (OutputStartEx Outputs OWNER_NONE (ResetCount Outputs reset s))
     else s)"

definition SetDirection :: "u8 \<Rightarrow> u8 \<Rightarrow> OutputGlobals \<Rightarrow> OutputGlobals" where
  "SetDirection Outputs Dir s =
    snd (OutputPolarity Outputs (if Dir = OUT_REV then - 1 else if Dir = OUT_TOGGLE then 0 else 1) s)"

definition SetPower :: "u8 \<Rightarrow> u8 \<Rightarrow> OutputGlobals \<Rightarrow> OutputGlobals" where
  "SetPower Outputs Power s = snd (OutputPower Outputs Power s)"

definition SetSpeed :: "u8 \<Rightarrow> u8 \<Rightarrow> OutputGlobals \<Rightarrow> OutputGlobals" where
  "SetSpeed Outputs Speed s = snd (OutputSpeed Outputs Speed s)"

definition OnEx :: "u8 \<Rightarrow> u8 \<Rightarrow> OutputGlobals \<Rightarrow> OutputGlobals" where
  "OnEx Outputs reset = SetOutputEx Outputs OUT_ON reset"

definition OffEx :: "u8 \<Rightarrow> u8 \<Rightarrow> OutputGlobals \<Rightarrow> OutputGlobals" where
  "OffEx Outputs reset = SetOutputEx Outputs OUT_OFF reset"

definition FloatEx :: "u8 \<Rightarrow> u8 \<Rightarrow> OutputGlobals \<Rightarrow> OutputGlobals" where
  "FloatEx Outputs reset = SetOutputEx Outputs OUT_FLOAT reset"

definition Toggle :: "u8 \<Rightarrow> OutputGlobals \<Rightarrow> OutputGlobals" where "Toggle Outputs = SetDirection Outputs OUT_TOGGLE"
definition Fwd :: "u8 \<Rightarrow> OutputGlobals \<Rightarrow> OutputGlobals" where "Fwd Outputs = SetDirection Outputs OUT_FWD"
definition Rev :: "u8 \<Rightarrow> OutputGlobals \<Rightarrow> OutputGlobals" where "Rev Outputs = SetDirection Outputs OUT_REV"

text \<open>\<^verbatim>\<open>Power != OUT_POWER_DEFAULT\<close> compares an unsigned character with \<open>- 127\<close>.\<close>

definition OnFwdEx :: "u8 \<Rightarrow> u8 \<Rightarrow> u8 \<Rightarrow> OutputGlobals \<Rightarrow> OutputGlobals" where
  "OnFwdEx Outputs Power reset s =
    (let s = Fwd Outputs s;
         s = (if uint Power \<noteq> OUT_POWER_DEFAULT then SetPower Outputs Power s else s)
     in OnEx Outputs reset s)"

definition OnRevEx :: "u8 \<Rightarrow> u8 \<Rightarrow> u8 \<Rightarrow> OutputGlobals \<Rightarrow> OutputGlobals" where
  "OnRevEx Outputs Power reset s =
    (let s = Rev Outputs s;
         s = (if uint Power \<noteq> OUT_POWER_DEFAULT then SetPower Outputs Power s else s)
     in OnEx Outputs reset s)"

definition OnFwd :: "u8 \<Rightarrow> OutputGlobals \<Rightarrow> OutputGlobals" where
  "OnFwd outputs = OnFwdEx outputs (word_of_int OUT_POWER_DEFAULT) RESET_NONE"

definition OnFwdRegEx :: "u8 \<Rightarrow> u8 \<Rightarrow> u8 \<Rightarrow> u8 \<Rightarrow> OutputGlobals \<Rightarrow> OutputGlobals" where
  "OnFwdRegEx Outputs Speed RegMode reset s = OnEx Outputs reset (SetSpeed Outputs Speed (Fwd Outputs s))"

definition OnRevRegEx :: "u8 \<Rightarrow> u8 \<Rightarrow> u8 \<Rightarrow> u8 \<Rightarrow> OutputGlobals \<Rightarrow> OutputGlobals" where
  "OnRevRegEx Outputs Speed RegMode reset s = OnEx Outputs reset (SetSpeed Outputs Speed (Rev Outputs s))"

definition OnFwdSyncEx :: "u8 list \<Rightarrow> u8 \<Rightarrow> u8 \<Rightarrow> u16 \<Rightarrow> u8 \<Rightarrow> OutputGlobals \<Rightarrow> OutputGlobals" where
  "OnFwdSyncEx junk Outputs Speed Turn reset s =
    snd (OutputStepSyncEx junk Outputs Speed Turn 2147483647 False OWNER_NONE (ResetCount Outputs reset s))"

definition OnRevSyncEx :: "u8 list \<Rightarrow> u8 \<Rightarrow> u8 \<Rightarrow> u16 \<Rightarrow> u8 \<Rightarrow> OutputGlobals \<Rightarrow> OutputGlobals" where
  "OnRevSyncEx junk Outputs Speed Turn reset = OnFwdSyncEx junk Outputs (- Speed) Turn reset"

text \<open>The steps to speed up, to run and to slow down: \<^verbatim>\<open>s1\<close>, \<^verbatim>\<open>s2\<close>, \<^verbatim>\<open>s3\<close>, with the values of the static variables.\<close>

definition ramps :: "int \<Rightarrow> (int \<times> int \<times> int) option" where
  "ramps Angle =
    (let s3 = min (Angle sdiv 10) 0; s1 = min (Angle sdiv 10) 0
     in do { d \<leftarrow> int32 (Angle - s3); s2 \<leftarrow> int32 (d - s1); Some (s1, s2, s3) })"

definition RotateMotorNoWaitEx ::
    "u8 list \<Rightarrow> u8 \<Rightarrow> u8 \<Rightarrow> int \<Rightarrow> u16 \<Rightarrow> bool \<Rightarrow> bool \<Rightarrow> OutputGlobals \<Rightarrow> OutputGlobals option" where
  "RotateMotorNoWaitEx junk Outputs Speed Angle Turn Sync Stop s =
    (if Sync \<and> two_motors (fst (DecodeOutputs Outputs))
     then Some (snd (OutputStepSyncEx junk Outputs Speed Turn (word_of_int Angle) Stop OWNER_NONE s))
     else do {
       (s1, s2, s3) \<leftarrow> ramps Angle;
       Some (snd (OutputStepSpeedEx junk Outputs Speed (word_of_int s1) (word_of_int s2) (word_of_int s3) Stop OWNER_NONE s))
     })"

text \<open>The loop that waits until the motors are idle, over the readings of the device one after the other.\<close>

partial_function (option) await_idle ::
    "(nat \<Rightarrow> int \<times> u8 list) \<Rightarrow> u8 \<Rightarrow> nat \<Rightarrow> OutputGlobals \<Rightarrow> OutputGlobals option" where
  "await_idle readings Outputs k s =
    do {
      (_, busy) \<leftarrow> OutputTest (readings k) Outputs s;
      if busy = Some True then await_idle readings Outputs (Suc k) s else Some s
    }"

definition RotateMotorEx ::
    "u8 list \<Rightarrow> (nat \<Rightarrow> int \<times> u8 list) \<Rightarrow> u8 \<Rightarrow> u8 \<Rightarrow> int \<Rightarrow> u16 \<Rightarrow> bool \<Rightarrow> bool \<Rightarrow> OutputGlobals
      \<Rightarrow> OutputGlobals option" where
  "RotateMotorEx junk readings Outputs Speed Angle Turn Sync Stop s =
    do {
      s \<leftarrow> RotateMotorNoWaitEx junk Outputs Speed Angle Turn Sync Stop s;
      await_idle readings Outputs 0 s
    }"

definition OnForSyncEx :: "u8 list \<Rightarrow> u8 \<Rightarrow> u32 \<Rightarrow> u8 \<Rightarrow> u16 \<Rightarrow> bool \<Rightarrow> OutputGlobals \<Rightarrow> OutputGlobals" where
  "OnForSyncEx junk Outputs Time Speed Turn Stop s =
    snd (OutputTimeSyncEx junk Outputs Speed Turn Time Stop OWNER_NONE s)"

definition OnForEx :: "u8 \<Rightarrow> u32 \<Rightarrow> u8 \<Rightarrow> u8 \<Rightarrow> OutputGlobals \<Rightarrow> OutputGlobals" where
  "OnForEx Outputs Time Power reset s =
    (let s = (if uint Power \<noteq> OUT_POWER_DEFAULT then SetPower Outputs Power s else s)
     in OffEx Outputs reset (OnEx Outputs reset s))"

section \<open>What goes to the device\<close>

text \<open>
  The frames of the firmware: the op code, then for most of them the bits of the motors, and the length
  that belongs to the op code; a synchronised movement is for two motors.
\<close>

definition frame_length :: "u8 \<Rightarrow> nat option" where
  "frame_length opc =
    (if opc \<in> {0x02, 0x03} then Some 1
     else if opc = 0xA1 then Some 5
     else if opc \<in> {0xA2, 0xA6, 0xB2} then Some 2
     else if opc \<in> {0xA3, 0xA4, 0xA5, 0xA7} then Some 3
     else if opc \<in> {0xAC, 0xAD, 0xAE, 0xAF} then Some 20
     else if opc \<in> {0xB0, 0xB1} then Some 16
     else None)"

definition device_frame :: "u8 list \<Rightarrow> bool" where
  "device_frame f \<longleftrightarrow> f \<noteq> [] \<and> frame_length (hd f) = Some (length f)
    \<and> (hd f \<notin> {0x02, 0x03, 0xA1} \<longrightarrow> f ! 1 AND 0x0f = f ! 1) \<and> (hd f \<in> {0xB0, 0xB1} \<longrightarrow> two_motors (f ! 1))"

definition motors_ok :: "OutputGlobals \<Rightarrow> bool" where
  "motors_ok s \<longleftrightarrow> (\<forall>f \<in> set (frames s). device_frame f) \<and> length (OutputTypes s) = 4 \<and> length (Owners s) = 4
    \<and> length (MotorData s) = 4 \<and> length (Shared s) = 4"

definition keeps :: "(OutputGlobals \<Rightarrow> bool \<times> OutputGlobals) \<Rightarrow> bool" where
  "keeps m \<longleftrightarrow> (\<forall>s. motors_ok s \<longrightarrow> motors_ok (snd (m s)))"

named_theorems kept

lemma keepsI: "(\<And>s. motors_ok s \<Longrightarrow> motors_ok (snd (m s))) \<Longrightarrow> keeps m"
  by (simp add: keeps_def)

lemma keepsD: "keeps m \<Longrightarrow> motors_ok s \<Longrightarrow> motors_ok (snd (m s))"
  by (simp add: keeps_def)

lemma motors_ok_set_owner: "motors_ok s \<Longrightarrow> motors_ok (set_owner Owner Outputs s)"
  by (simp add: motors_ok_def set_owner_def)

lemma motors_ok_clear: "motors_ok s \<Longrightarrow> motors_ok (clear_sensors Outputs s)"
  by (cases "pMotor s") (simp_all add: motors_ok_def clear_sensors_def set_motors_def)

lemma motors_ok_write: "motors_ok s \<Longrightarrow> device_frame f \<Longrightarrow> motors_ok (snd (WriteToPWMDevice f s))"
  using pwm.log_all [of s device_frame f] by (simp add: motors_ok_def) (simp add: WriteToPWMDevice_def Let_def)

lemma write_cases:
  "(\<exists>n. WriteToPWMDevice f s = (n, s)) \<or> (\<exists>n. WriteToPWMDevice f s = (n, s\<lparr>frames := frames s @ [f]\<rparr>))"
  by (simp add: WriteToPWMDevice_def Let_def)

lemma command_keeps:
  assumes "device_frame (cmd (Outputs AND 0x0f))"
    and "\<And>s. motors_ok s \<Longrightarrow> motors_ok (after (Outputs AND 0x0f) s)"
  shows "keeps (command Outputs cmd after)"
proof (rule keepsI)
  fix s
  assume "motors_ok s"
  with assms(1) have "motors_ok (snd (WriteToPWMDevice (cmd (Outputs AND 0x0f)) s))" by (simp add: motors_ok_write)
  then show "motors_ok (snd (command Outputs cmd after s))"
    using assms(2) \<open>motors_ok s\<close> by (simp add: command_def DecodeOutputs_def Let_def case_prod_beta)
qed

lemma keeps_guard: "keeps m \<Longrightarrow> keeps (\<lambda>s. if b s then (c, s) else m s)"
  by (simp add: keeps_def)

lemmas frame_simps = device_frame_def frame_length_def StepOrTimePwrOrSpd_def StepOrTimeSync_def

lemma commands_keep [kept]:
  "keeps (OutputStop Outputs brake)" "keeps (OutputReset Outputs)" "keeps (OutputSpeed Outputs v)"
  "keeps (OutputPower Outputs v)" "keeps (OutputStartEx Outputs Owner)" "keeps (OutputPolarity Outputs v)"
  "keeps (OutputStepPowerEx junk Outputs v a b c brake Owner)" "keeps (OutputTimePowerEx junk Outputs v a b c brake Owner)"
  "keeps (OutputStepSpeedEx junk Outputs v a b c brake Owner)" "keeps (OutputTimeSpeedEx junk Outputs v a b c brake Owner)"
  "keeps (OutputClearCount Outputs)"
  unfolding OutputStop_def OutputReset_def OutputSpeed_def OutputPower_def OutputStartEx_def OutputPolarity_def
    OutputStepPowerEx_def OutputTimePowerEx_def OutputStepSpeedEx_def OutputTimeSpeedEx_def OutputClearCount_def
  by (rule command_keeps; simp add: frame_simps and.assoc no_change_def motors_ok_set_owner motors_ok_clear)+

lemma sync_keeps [kept]:
  "keeps (OutputStepSyncEx junk Outputs v t a brake Owner)" "keeps (OutputTimeSyncEx junk Outputs v t a brake Owner)"
proof -
  have "keeps (command Outputs (\<lambda>Outputs. StepOrTimeSync junk opc Outputs v t a brake) (set_owner Owner))"
    if "opc = 0xB0 \<or> opc = 0xB1" "two_motors (Outputs AND 0x0f)" for opc
    by (rule command_keeps) (use that in \<open>auto simp: frame_simps and.assoc motors_ok_set_owner\<close>)
  then show "keeps (OutputStepSyncEx junk Outputs v t a brake Owner)" "keeps (OutputTimeSyncEx junk Outputs v t a brake Owner)"
    unfolding OutputStepSyncEx_def [abs_def] OutputTimeSyncEx_def [abs_def]
    by (auto simp: keeps_def DecodeOutputs_def)
qed

lemma ResetOutputs_keeps [kept]: "keeps ResetOutputs"
proof (rule keepsI)
  fix s
  assume "motors_ok s"
  then have "motors_ok (s\<lparr>Owners := replicate NUM_OUTPUTS OWNER_NONE\<rparr>)" by (simp add: motors_ok_def)
  then show "motors_ok (snd (ResetOutputs s))" unfolding ResetOutputs_def by (rule keepsD [OF commands_keep(1)])
qed

lemma OutputOpen_keeps [kept]: "keeps OutputOpen"
proof (rule keepsI)
  fix s
  assume "motors_ok s"
  then have "motors_ok (snd (ResetOutputs s))" by (rule keepsD [OF ResetOutputs_keeps])
  then have "motors_ok (snd (WriteToPWMDevice [0x03] (snd (ResetOutputs s))))"
    by (rule motors_ok_write) (simp add: frame_simps)
  then show "motors_ok (snd (OutputOpen s))"
    using \<open>motors_ok s\<close> \<open>motors_ok (snd (ResetOutputs s))\<close> by (simp add: OutputOpen_def Let_def case_prod_beta)
qed

lemma others_keep [kept]: "keeps OutputClose" "keeps OutputExit" "keeps OutputProgramStop" "keeps (OutputSetTypes a b c d)"
  "keeps (OutputSetType Output t)"
proof -
  have types: "keeps (OutputSetTypes a b c d)" for a b c d
  proof (rule keepsI)
    fix s
    assume "motors_ok s"
    then have "motors_ok (snd (WriteToPWMDevice [0xA1, a, b, c, d] s))" by (rule motors_ok_write) (simp add: frame_simps)
    then show "motors_ok (snd (OutputSetTypes a b c d s))"
      using \<open>motors_ok s\<close> by (simp add: OutputSetTypes_def Let_def motors_ok_def case_prod_beta)
  qed
  then show "keeps (OutputSetTypes a b c d)" .
  show "keeps (OutputSetType Output t)"
  proof (rule keepsI)
    fix s
    assume "motors_ok s"
    then have "motors_ok (s\<lparr>OutputTypes := (OutputTypes s)[OutputToMotorNum (Output AND 0x0f) := t]\<rparr>)" by (simp add: motors_ok_def)
    from keepsD [OF types this] show "motors_ok (snd (OutputSetType Output t s))"
      using \<open>motors_ok s\<close> by (simp add: OutputSetType_def OutputSetTypesArray_def DecodeOutputs_def Let_def)
  qed
  show "keeps OutputClose" using ResetOutputs_keeps by (simp add: keeps_def OutputClose_def)
  show "keeps OutputExit"
    using ResetOutputs_keeps by (simp add: keeps_def OutputExit_def Let_def motors_ok_def case_prod_beta)
  show "keeps OutputProgramStop"
    using motors_ok_write [where f = "[0x02]"] by (simp add: keeps_def OutputProgramStop_def Let_def frame_simps case_prod_beta)
qed

lemma OutputInit_keeps: "(\<And>ms. mapped = Some ms \<Longrightarrow> length ms = 4) \<Longrightarrow> keeps (OutputInit pwm motor mapped)"
proof (rule keepsI)
  fix s
  assume mapped: "\<And>ms. mapped = Some ms \<Longrightarrow> length ms = 4" and s: "motors_ok s"
  have "motors_ok (s\<lparr>PwmFile := pwm, MotorFile := motor, pMotor := SharedMotors, Shared := ms\<rparr>)" if "mapped = Some ms" for ms
    using mapped [OF that] s by (simp add: motors_ok_def)
  then have "motors_ok (snd (OutputOpen (s\<lparr>PwmFile := pwm, MotorFile := motor, pMotor := SharedMotors, Shared := ms\<rparr>)))"
    if "mapped = Some ms" for ms
    using that by (intro keepsD [OF OutputOpen_keeps]) simp
  then show "motors_ok (snd (OutputInit pwm motor mapped s))"
    using s by (simp add: OutputInit_def Let_def motors_ok_def split: option.split)
qed

text \<open>The functions without a result, as compositions of the ones above.\<close>

definition keeps1 :: "(OutputGlobals \<Rightarrow> OutputGlobals) \<Rightarrow> bool" where
  "keeps1 f \<longleftrightarrow> (\<forall>s. motors_ok s \<longrightarrow> motors_ok (f s))"

lemma keeps1_snd: "keeps m \<Longrightarrow> keeps1 (\<lambda>s. snd (m s))"
  by (simp add: keeps_def keeps1_def)

lemma keeps1_simps [simp]:
  assumes "motors_ok s"
  shows "motors_ok (ResetCount Outputs reset s)" "motors_ok (SetDirection Outputs Dir s)"
    "motors_ok (SetPower Outputs v s)" "motors_ok (SetSpeed Outputs v s)" "motors_ok (SetOutputEx Outputs Mode reset s)"
proof -
  have r: "motors_ok (ResetTachoCount Outputs s)" "motors_ok (ResetRotationCount Outputs s)" if "motors_ok s" for s
    using that by (simp_all add: ResetTachoCount_def ResetRotationCount_def keepsD commands_keep)
  have "motors_ok (ResetAllTachoCounts Outputs s)" if "motors_ok s" for s
    using r [OF that] r [of "ResetTachoCount Outputs s"]
    by (simp add: ResetAllTachoCounts_def ResetTachoCount_def ResetRotationCount_def)
  with r have count: "motors_ok (ResetCount Outputs reset s)" if "motors_ok s" for s
    using that by (simp add: ResetCount_def ResetBlockTachoCount_def ResetBlockAndTachoCount_def)
  with assms show "motors_ok (ResetCount Outputs reset s)" by blast
  show "motors_ok (SetDirection Outputs Dir s)" "motors_ok (SetPower Outputs v s)" "motors_ok (SetSpeed Outputs v s)"
    "motors_ok (SetOutputEx Outputs Mode reset s)"
    using assms count by (simp_all add: SetDirection_def SetPower_def SetSpeed_def SetOutputEx_def keepsD commands_keep)
qed

lemma programs_keep:
  assumes "motors_ok s"
  shows "motors_ok (OnFwdEx Outputs v reset s)" "motors_ok (OnRevEx Outputs v reset s)"
    "motors_ok (OnFwdRegEx Outputs v mode reset s)" "motors_ok (OnRevRegEx Outputs v mode reset s)"
    "motors_ok (OnFwdSyncEx junk Outputs v Turn reset s)" "motors_ok (OnForEx Outputs Time v reset s)"
    "motors_ok (OnForSyncEx junk Outputs Time v Turn Stop s)"
  using assms
  by (simp_all add: OnFwdEx_def OnRevEx_def OnFwdRegEx_def OnRevRegEx_def OnFwdSyncEx_def OnForEx_def OnForSyncEx_def
      OnEx_def OffEx_def Fwd_def Rev_def Let_def keepsD sync_keeps)

lemma rotate_keeps:
  "motors_ok s \<Longrightarrow> RotateMotorNoWaitEx junk Outputs v Angle Turn Sync Stop s = Some s' \<Longrightarrow> motors_ok s'"
  by (auto simp: RotateMotorNoWaitEx_def keepsD sync_keeps commands_keep bind_eq_Some_conv split: if_splits)

text \<open>A call of the module by a program.\<close>

inductive motor_call :: "OutputGlobals \<Rightarrow> OutputGlobals \<Rightarrow> bool" where
  "(\<And>ms. mapped = Some ms \<Longrightarrow> length ms = NUM_OUTPUTS) \<Longrightarrow> motor_call s (snd (OutputInit pwm motor mapped s))"
| "motor_call s (snd (OutputOpen s))"
| "motor_call s (snd (OutputClose s))"
| "motor_call s (snd (OutputExit s))"
| "motor_call s (snd (OutputStop Outputs brake s))"
| "motor_call s (snd (OutputProgramStop s))"
| "motor_call s (snd (OutputSetType Output t s))"
| "motor_call s (snd (OutputSetTypes a b c d s))"
| "motor_call s (snd (OutputReset Outputs s))"
| "motor_call s (snd (OutputSpeed Outputs v s))"
| "motor_call s (snd (OutputPower Outputs v s))"
| "motor_call s (snd (OutputStartEx Outputs Owner s))"
| "motor_call s (snd (OutputPolarity Outputs v s))"
| "motor_call s (snd (OutputStepPowerEx junk Outputs v x y z brake Owner s))"
| "motor_call s (snd (OutputTimePowerEx junk Outputs v x y z brake Owner s))"
| "motor_call s (snd (OutputStepSpeedEx junk Outputs v x y z brake Owner s))"
| "motor_call s (snd (OutputTimeSpeedEx junk Outputs v x y z brake Owner s))"
| "motor_call s (snd (OutputStepSyncEx junk Outputs v Turn x brake Owner s))"
| "motor_call s (snd (OutputTimeSyncEx junk Outputs v Turn x brake Owner s))"
| "motor_call s (snd (OutputClearCount Outputs s))"
| "motor_call s (SetOutputEx Outputs Mode reset s)"
| "motor_call s (SetDirection Outputs Dir s)"
| "motor_call s (OnFwdEx Outputs v reset s)"
| "motor_call s (OnRevEx Outputs v reset s)"
| "motor_call s (OnFwdRegEx Outputs v mode reset s)"
| "motor_call s (OnRevRegEx Outputs v mode reset s)"
| "motor_call s (OnFwdSyncEx junk Outputs v Turn reset s)"
| "motor_call s (OnForEx Outputs Time v reset s)"
| "motor_call s (OnForSyncEx junk Outputs Time v Turn Stop s)"
| "RotateMotorNoWaitEx junk Outputs v Angle Turn Sync Stop s = Some s' \<Longrightarrow> motor_call s s'"

lemma motor_call_keeps: "motor_call s s' \<Longrightarrow> motors_ok s \<Longrightarrow> motors_ok s'"
  by (induction rule: motor_call.induct)
    (simp_all add: keepsD kept OutputInit_keeps programs_keep rotate_keeps)

text \<open>The state of the module when the program starts: all zero, so descriptor 0 and no motors.\<close>

definition motors_start :: "(nat \<Rightarrow> int) \<Rightarrow> OutputGlobals" where
  "motors_start res =
    (let m = \<lparr>TachoCounts = 0, MotorSpeed = 0, TachoSensor = 0\<rparr>
     in \<lparr>OutputTypes = [0, 0, 0, 0], Owners = [0, 0, 0, 0], PwmFile = 0, MotorFile = 0, MotorData = [m, m, m, m],
         Shared = [m, m, m, m], pMotor = NoMotors, frames = [], write_res = res\<rparr>)"

text \<open>
  C22: Whatever a program calls in whatever order with whatever arguments, and whatever the device answers,
  every frame that the motor module writes is one of the firmware's: of the length that belongs to its op
  code, for motors of this brick only, and for exactly two motors if it is a synchronised movement.
\<close>

theorem motor_frames_valid:
  assumes "motor_call\<^sup>*\<^sup>* (motors_start res) s" and "f \<in> set (frames s)"
  shows "device_frame f"
proof -
  from assms(1) have "motors_ok s"
  proof (induction rule: rtranclp_induct)
    case base
    show ?case by (simp add: motors_ok_def motors_start_def Let_def)
  qed (rule motor_call_keeps)
  then show ?thesis using assms(2) by (simp add: motors_ok_def)
qed

theorem motor_frames_valid_witness:
  "let s = snd (OutputStartEx 0x03 7 (snd (OutputInit 4 5 (Some (MotorData (motors_start (\<lambda>_. 0)))) (motors_start (\<lambda>_. 0)))))
   in [0xA6, 0x03] \<in> set (frames s) \<and> device_frame [0xA6, 0x03]"
proof -
  let ?s0 = "motors_start (\<lambda>_. 0)"
  let ?s1 = "snd (OutputInit 4 5 (Some (MotorData ?s0)) ?s0)"
  let ?s2 = "snd (OutputStartEx 0x03 7 ?s1)"
  have "motor_call ?s0 ?s1" by (rule motor_call.intros(1)) (simp add: motors_start_def Let_def)
  moreover have "motor_call ?s1 ?s2" by (rule motor_call.intros(12))
  ultimately have "motor_call\<^sup>*\<^sup>* ?s0 ?s2" by simp
  moreover have in_set: "[0xA6, 0x03] \<in> set (frames ?s2)"
    by (simp add: motors_start_def Let_def OutputInit_def OutputInitialized_def OutputOpen_def ResetOutputs_def OutputStop_def
        OutputStartEx_def command_def DecodeOutputs_def WriteToPWMDevice_def LAYER_MASTER_def OUT_ALL_def no_change_def
        set_owner_def)
  ultimately have "device_frame [0xA6, 0x03]" by (rule motor_frames_valid)
  with in_set show ?thesis by simp
qed

section \<open>What the functions do\<close>

text \<open>A command is sent, once, if and only if the module is open and the motors are on this brick.\<close>

lemma command_sends:
  assumes "OutputInitialized s" and "PwmFile s \<ge> 0" and "Outputs AND 0x70 = 0"
  shows "command Outputs cmd after s =
    (let f = cmd (Outputs AND 0x0f); s' = s\<lparr>frames := frames s @ [f]\<rparr>
     in if write_res s (length (frames s)) \<ge> 0 then (True, after (Outputs AND 0x0f) s') else (False, s'))"
  using assms by (auto simp: command_def DecodeOutputs_def WriteToPWMDevice_def LAYER_MASTER_def Let_def)

lemma command_other_layer: "Outputs AND 0x70 \<noteq> 0 \<Longrightarrow> command Outputs cmd after s = (False, s)"
  by (simp add: command_def DecodeOutputs_def LAYER_MASTER_def)

lemma ramps_sum:
  assumes "- 2147483648 \<le> Angle" "Angle \<le> 2147483647"
  shows "ramps Angle = Some (min (Angle sdiv 10) 0, Angle - 2 * min (Angle sdiv 10) 0, min (Angle sdiv 10) 0)"
proof -
  have "Angle sdiv 10 = (if Angle < 0 then - (- Angle div 10) else Angle div 10)"
    by (auto simp: signed_divide_int_def sgn_if)
  then have "- 214748364 \<le> min (Angle sdiv 10) 0" "min (Angle sdiv 10) 0 \<le> 0" "Angle \<le> min (Angle sdiv 10) 0 \<or> 0 \<le> Angle"
    using assms by (auto simp: min_def)
  moreover have "min (Angle sdiv 10) 0 = 0" if "0 \<le> Angle"
    using that by (simp add: signed_divide_int_def sgn_if min_def)
  ultimately show ?thesis
    using assms by (auto simp: ramps_def Let_def int32_def)
qed

text \<open>
  C23: \<^verbatim>\<open>RotateMotorNoWaitEx\<close> without synchronisation divides any angle, positive or negative, without
  overflow into three parts that add up to it, and asks the device once for these steps; if the device
  takes them the motors are free for every program.
\<close>

theorem rotate_asks_for_angle:
  assumes "OutputInitialized s" "PwmFile s \<ge> 0" "write_res s (length (frames s)) \<ge> 0"
    and "Outputs AND 0x70 = 0" and "\<not> (Sync \<and> two_motors (Outputs AND 0x0f))"
    and "- 2147483648 \<le> Angle" "Angle \<le> 2147483647" and "length (Owners s) = 4"
  shows "\<exists>a b c s'. RotateMotorNoWaitEx junk Outputs Speed Angle Turn Sync Stop s = Some s' \<and> a + b + c = Angle
    \<and> frames s' = frames s @ [StepOrTimePwrOrSpd junk 0xAE (Outputs AND 0x0f) Speed (word_of_int a) (word_of_int b) (word_of_int c) Stop]
    \<and> (\<forall>i < 4. Owners s' ! i = (if bit Outputs i then OWNER_NONE else Owners s ! i))"
proof -
  let ?r = "min (Angle sdiv 10) 0"
  have bits: "bit (Outputs AND 0x0f) i \<longleftrightarrow> bit Outputs i" if "i < 4" for i
  proof -
    have "bit (Outputs AND mask 4) i \<longleftrightarrow> bit Outputs i" using that by (simp add: bit_simps)
    moreover have "mask 4 = (0x0f :: u8)" by (simp add: mask_eq_exp_minus_1)
    ultimately show ?thesis by simp
  qed
  show ?thesis
    using assms bits
    by (intro exI [of _ ?r] exI [of _ "Angle - 2 * ?r"])
      (auto simp: RotateMotorNoWaitEx_def ramps_sum DecodeOutputs_def OutputStepSpeedEx_def command_sends Let_def set_owner_def)
qed

theorem rotate_asks_for_angle_witness:
  "let s = snd (OutputInit 4 5 (Some (MotorData (motors_start (\<lambda>_. 0)))) (motors_start (\<lambda>_. 0)))
   in \<exists>a b c s'. RotateMotorNoWaitEx [0, 0, 0, 0] 0x05 50 (- 725) 0 False True s = Some s' \<and> a + b + c = (- 725 :: int)
     \<and> length (frames s') = 3"
proof -
  let ?s = "snd (OutputInit 4 5 (Some (MotorData (motors_start (\<lambda>_. 0)))) (motors_start (\<lambda>_. 0)))"
  note open_simps = motors_start_def Let_def OutputInit_def OutputInitialized_def OutputOpen_def ResetOutputs_def OutputStop_def
    command_def DecodeOutputs_def WriteToPWMDevice_def LAYER_MASTER_def OUT_ALL_def no_change_def
  have s: "OutputInitialized ?s" "PwmFile ?s \<ge> 0" "write_res ?s (length (frames ?s)) \<ge> 0" "length (Owners ?s) = 4"
    "length (frames ?s) = 2"
    by (simp_all add: open_simps)
  have "(0x05 :: u8) AND 0x70 = 0" by simp
  note rotate_asks_for_angle [OF s(1-3) this _ _ _ s(4), of False "- 725" "[0, 0, 0, 0]" 50 0 True]
  then obtain a b c s' where "RotateMotorNoWaitEx [0, 0, 0, 0] 0x05 50 (- 725) 0 False True ?s = Some s'" "a + b + c = (- 725 :: int)"
    "length (frames s') = length (frames ?s) + 1"
    by auto
  then show ?thesis unfolding Let_def s(5) by (intro exI conjI) simp_all
qed

text \<open>
  \<^verbatim>\<open>OnFwd\<close> is meant to leave the power of the motors as it is: it passes \<^verbatim>\<open>OUT_POWER_DEFAULT\<close>, \<open>- 127\<close>. As a
  \<^verbatim>\<open>char\<close>, which has no sign on the brick, that is 129 and differs from \<open>- 127\<close>, so the power 129 is sent.
\<close>

theorem default_power_sent:
  assumes "OutputInitialized s" "PwmFile s \<ge> 0" and "Outputs AND 0x70 = 0"
  shows "frames (OnFwd Outputs s)
    = frames s @ [[0xA7, Outputs AND 0x0f, 1], [0xA4, Outputs AND 0x0f, 129], [0xA6, Outputs AND 0x0f]]"
proof -
  have sent: "frames (snd (command Outputs cmd after s)) = frames s @ [cmd (Outputs AND 0x0f)]"
    "OutputInitialized (snd (command Outputs cmd after s))" "PwmFile (snd (command Outputs cmd after s)) \<ge> 0"
    if "OutputInitialized s" "PwmFile s \<ge> 0" "\<And>s. frames (after (Outputs AND 0x0f) s) = frames s"
      "\<And>s. PwmFile (after (Outputs AND 0x0f) s) = PwmFile s" "\<And>s. pMotor (after (Outputs AND 0x0f) s) = pMotor s"
    for cmd after s
    using command_sends [OF that(1,2) assms(3)] that by (auto simp: Let_def OutputInitialized_def)
  have power: "uint (word_of_int OUT_POWER_DEFAULT :: u8) = 129" by (simp add: OUT_POWER_DEFAULT_def uint_word_of_int take_bit_eq_mod)
  show ?thesis
    using assms power
    by (simp add: OnFwd_def OnFwdEx_def Fwd_def SetDirection_def SetPower_def OnEx_def SetOutputEx_def ResetCount_def
        OutputPolarity_def OutputPower_def OutputStartEx_def OUT_POWER_DEFAULT_def OUT_FWD_def OUT_REV_def OUT_TOGGLE_def
        OUT_FLOAT_def OUT_OFF_def OUT_ON_def RESET_NONE_def Let_def sent no_change_def set_owner_def)
qed

theorem default_power_sent_witness:
  "frames (OnFwd 0x02 (snd (OutputInit 4 5 (Some (MotorData (motors_start (\<lambda>_. 0)))) (motors_start (\<lambda>_. 0)))))
    = [[0xA3, 0x0f, 0], [0x03], [0xA7, 0x02, 1], [0xA4, 0x02, 129], [0xA6, 0x02]]"
proof -
  let ?s = "snd (OutputInit 4 5 (Some (MotorData (motors_start (\<lambda>_. 0)))) (motors_start (\<lambda>_. 0)))"
  note open_simps = motors_start_def Let_def OutputInit_def OutputInitialized_def OutputOpen_def ResetOutputs_def OutputStop_def
    command_def DecodeOutputs_def WriteToPWMDevice_def LAYER_MASTER_def OUT_ALL_def no_change_def
  have "OutputInitialized ?s" "PwmFile ?s \<ge> 0" "frames ?s = [[0xA3, 0x0f, 0], [0x03]]" by (simp_all add: open_simps)
  with default_power_sent [of ?s "0x02"] show ?thesis by simp
qed

text \<open>
  When the second device cannot be opened \<^verbatim>\<open>OutputInit\<close> fails, but the module counts as open afterwards: the
  next call succeeds, and the positions that are read are the zeros of the module's own array.
\<close>

lemma failed_init_counts_as_open:
  assumes "\<not> OutputInitialized s" and "0 \<le> pwm"
  shows "\<exists>s'. OutputInit pwm (- 1) mapped s = (False, s') \<and> OutputInit pwm' motor' mapped' s' = (True, s') \<and> pMotor s' = OwnMotors"
  using assms by (auto simp: OutputInit_def Let_def OutputInitialized_def)

text \<open>A failing read of the device counts as a success with whatever the stack holds.\<close>

lemma failed_read_counts:
  assumes "OutputInitialized s" "PwmFile s \<ge> 0" "Outputs AND 0x70 = 0" and "scan_busy stack = Some v"
  shows "OutputTest (- 1, stack) Outputs s = Some (True, Some ((Outputs AND 0x0f) AND ucast v \<noteq> 0))"
  using assms by (simp add: OutputTest_def DecodeOutputs_def LAYER_MASTER_def)

end
