(* ===== verification/Buttons.thy ===== *)
theory Buttons
  imports World Timers Devices
begin

text \<open>
  The buttons and the light around them, \<^verbatim>\<open>src/util/cat/ev3_button.c\<close>. The buttons are six bytes in memory
  shared with the device \<^verbatim>\<open>/dev/lms_ui\<close>; \<open>look n\<close> is what the \<open>n\<close>-th call of \<^verbatim>\<open>checkButtons\<close> reads there and
  \<open>clock n\<close> what the \<open>n\<close>-th look at the clock gives. The light is set by short strings written to the device;
  \<open>lights\<close> records them and \<open>light_res\<close> is what \<^verbatim>\<open>write\<close> returns.
  A function that waits may not return, which is \<open>None\<close>; the use of a null pointer is \<open>Undef\<close>.
\<close>

section \<open>The state\<close>

definition NUM_BUTTONS :: nat where "NUM_BUTTONS = 6"
definition LED_BLACK :: u8 where "LED_BLACK = 0"
definition LED_ORANGE :: u8 where "LED_ORANGE = 3"
definition LED_ORANGE_FLASH :: u8 where "LED_ORANGE_FLASH = 6"
definition LED_ORANGE_PULSE :: u8 where "LED_ORANGE_PULSE = 9"
definition NUM_LED_PATTERNS :: u8 where "NUM_LED_PATTERNS = 10"
definition WAITFOR_RELEASE_SHIFT :: nat where "WAITFOR_RELEASE_SHIFT = 8"

text \<open>What \<^verbatim>\<open>pButton\<close> points to: nothing, \<^verbatim>\<open>ButtonSafe\<close> in the same struct, or the shared memory.\<close>

datatype button_pointer = NoButtons | ButtonSafe | SharedButtons

record ButtonLedGlobals =
  Safe :: "u8 list"
  pButton :: button_pointer
  ButtonLedFile :: int
  Pattern :: u8
  WarnLight :: bool
  curButtonsS :: u16
  curButtonsE :: u16
  HwVers :: "u8 list"
  lights :: "u8 list list"
  light_res :: "nat \<Rightarrow> int"
  look :: "nat \<Rightarrow> u8 list"
  looks :: nat
  clock :: "nat \<Rightarrow> timeval"
  times :: nat

type_synonym 'a waiting = "('a, ButtonLedGlobals) effect"

definition ButtonLedInitialized :: "ButtonLedGlobals \<Rightarrow> bool" where
  "ButtonLedInitialized s \<longleftrightarrow> ButtonLedFile s \<noteq> - 1 \<and> pButton s \<noteq> NoButtons"

definition WriteToButtonLedDevice :: "u8 list \<Rightarrow> ButtonLedGlobals \<Rightarrow> int \<times> ButtonLedGlobals" where
  "WriteToButtonLedDevice bs s =
    (if ButtonLedFile s \<ge> 0 then
       let result = light_res s (length (lights s))
       in (if result \<ge> 0 then int (length bs) else result, s\<lparr>lights := lights s @ [bs]\<rparr>)
     else (- 1, s))"

interpretation led: device WriteToButtonLedDevice lights "\<lambda>s bs. ButtonLedFile s \<ge> 0"
  by unfold_locales (simp_all add: WriteToButtonLedDevice_def Let_def)

section \<open>Reading the buttons\<close>

definition pressed_mask :: "u8 list \<Rightarrow> u16" where
  "pressed_mask Pressed = foldl (\<lambda>Result i. if Pressed ! i \<noteq> 0 then Result OR push_bit i 1 else Result) 0 [0..<NUM_BUTTONS]"

definition checkButtons :: "ButtonLedGlobals \<Rightarrow> (u16 \<times> ButtonLedGlobals) outcome" where
  "checkButtons s =
    (case pButton s of
       NoButtons \<Rightarrow> Undef
     | ButtonSafe \<Rightarrow> Ret (pressed_mask (Safe s), s)
     | SharedButtons \<Rightarrow> Ret (pressed_mask (look s (looks s)), s\<lparr>looks := looks s + 1\<rparr>))"

partial_function (option) getButtons :: "ButtonLedGlobals \<Rightarrow> u16 waiting" where
  "getButtons s =
    (case checkButtons s of
       Undef \<Rightarrow> Some Undef
     | Ret (state1, s) \<Rightarrow>
         (case checkButtons s of
            Undef \<Rightarrow> Some Undef
          | Ret (state2, s) \<Rightarrow> if state1 \<noteq> state2 then getButtons s else gives state1 s))"

definition buttonClear :: "ButtonLedGlobals \<Rightarrow> unit waiting" where
  "buttonClear s = next_with (getButtons s) (\<lambda>b s. gives () (s\<lparr>curButtonsS := b, curButtonsE := b\<rparr>))"

definition readButtons :: "ButtonLedGlobals \<Rightarrow> u16 waiting" where
  "readButtons s = next_with (getButtons s) (\<lambda>Result s. gives Result (s\<lparr>curButtonsS := Result\<rparr>))"

section \<open>The light\<close>

definition MappedPattern :: "u8 \<Rightarrow> ButtonLedGlobals \<Rightarrow> u8" where
  "MappedPattern P s =
    (if WarnLight s then
       if P = 4 \<or> P = 5 \<or> P = 6 then LED_ORANGE_FLASH
       else if P = 8 \<or> P = 7 \<or> P = 9 then LED_ORANGE_PULSE
       else LED_ORANGE
     else P)"

definition UpdateLed :: "u8 \<Rightarrow> ButtonLedGlobals \<Rightarrow> ButtonLedGlobals" where
  "UpdateLed P s =
    (if \<not> ButtonLedInitialized s then s
     else if P < NUM_LED_PATTERNS then
       let s = s\<lparr>Pattern := P\<rparr> in snd (WriteToButtonLedDevice [48 + MappedPattern P s, 0] s)
     else s)"

definition SetLedWarning :: "bool \<Rightarrow> ButtonLedGlobals \<Rightarrow> ButtonLedGlobals" where
  "SetLedWarning Value s =
    (if \<not> ButtonLedInitialized s then s
     else if Value \<noteq> WarnLight s then let s = s\<lparr>WarnLight := Value\<rparr> in UpdateLed (Pattern s) s
     else s)"

definition LedWarning :: "ButtonLedGlobals \<Rightarrow> bool" where
  "LedWarning s = (if \<not> ButtonLedInitialized s then False else WarnLight s)"

definition SetLedPattern :: "u8 \<Rightarrow> ButtonLedGlobals \<Rightarrow> ButtonLedGlobals" where
  "SetLedPattern P s =
    (if \<not> ButtonLedInitialized s then s else if P \<noteq> Pattern s then UpdateLed P s else s)"

definition LedPattern :: "ButtonLedGlobals \<Rightarrow> u8" where
  "LedPattern s = (if \<not> ButtonLedInitialized s then LED_BLACK else MappedPattern (Pattern s) s)"

section \<open>Opening and closing\<close>

definition ButtonLedCloseDevices :: "ButtonLedGlobals \<Rightarrow> ButtonLedGlobals" where
  "ButtonLedCloseDevices s =
    (if \<not> ButtonLedInitialized s then s
     else
       let s = s\<lparr>WarnLight := False\<rparr>;
           s = (if ButtonLedFile s \<ge> 0 then SetLedPattern LED_BLACK s else s)
       in s\<lparr>ButtonLedFile := - 1, pButton := NoButtons\<rparr>)"

text \<open>\<open>file\<close> is the result of \<^verbatim>\<open>open\<close>, \<open>mapped\<close> says whether \<^verbatim>\<open>mmap\<close> succeeds.\<close>

definition ButtonLedInit :: "int \<Rightarrow> bool \<Rightarrow> ButtonLedGlobals \<Rightarrow> bool waiting" where
  "ButtonLedInit file mapped s =
    (if ButtonLedInitialized s then gives True s
     else
       let s = s\<lparr>pButton := ButtonSafe, ButtonLedFile := file\<rparr>
       in if file < 0 then gives False (ButtonLedCloseDevices s)
          else if \<not> mapped then gives False (ButtonLedCloseDevices s)
          else
            next_with (buttonClear (s\<lparr>pButton := SharedButtons\<rparr>)) (\<lambda>_ s.
              let s = s\<lparr>WarnLight := False, Pattern := NUM_LED_PATTERNS\<rparr>
              in gives True (SetLedPattern LED_BLACK s)))"

definition ButtonLedOpen :: "ButtonLedGlobals \<Rightarrow> bool waiting" where
  "ButtonLedOpen s =
    (if \<not> ButtonLedInitialized s then gives False s else next_with (buttonClear s) (\<lambda>_. gives True))"

definition ButtonLedClose :: "ButtonLedGlobals \<Rightarrow> bool waiting" where
  "ButtonLedClose s =
    (if \<not> ButtonLedInitialized s then gives False s else next_with (buttonClear s) (\<lambda>_. gives True))"

definition ButtonLedExit :: "ButtonLedGlobals \<Rightarrow> bool \<times> ButtonLedGlobals" where
  "ButtonLedExit s = (if \<not> ButtonLedInitialized s then (True, s) else (True, ButtonLedCloseDevices s))"

text \<open>\<open>reading\<close> are the bytes \<^verbatim>\<open>read\<close> stores; the string may lack its end.\<close>

definition HardwareVersionString :: "u8 list \<Rightarrow> ButtonLedGlobals \<Rightarrow> u8 list \<times> ButtonLedGlobals" where
  "HardwareVersionString reading s =
    (if \<not> ButtonLedInitialized s then ([0], s)
     else let s = s\<lparr>HwVers := overlay (HwVers s) reading\<rparr> in (HwVers s, s))"

section \<open>Waiting for the buttons\<close>

definition look_at_clock :: "ButtonLedGlobals \<Rightarrow> u64 \<times> ButtonLedGlobals" where
  "look_at_clock s = (TimerGetMS (clock s (times s)), s\<lparr>times := times s + 1\<rparr>)"

definition deadline :: "u32 \<Rightarrow> ButtonLedGlobals \<Rightarrow> u64 \<times> ButtonLedGlobals" where
  "deadline timeout s =
    (if timeout = 0 then (0x7fffffffffffffff, s)
     else let (t, s) = look_at_clock s in (t + ucast timeout, s))"

partial_function (option) await_event :: "u64 \<Rightarrow> u16 \<Rightarrow> ButtonLedGlobals \<Rightarrow> u16 waiting" where
  "await_event endms oldDown s =
    (let (curTime, s) = look_at_clock s
     in if curTime \<ge> endms then gives 0 s
        else Option.bind (readButtons s) (\<lambda>r. case r of
            Undef \<Rightarrow> Some Undef
          | Ret (newDown, s) \<Rightarrow>
              let s = s\<lparr>curButtonsE := newDown\<rparr>
              in if newDown \<noteq> oldDown
                 then gives (push_bit WAITFOR_RELEASE_SHIFT (oldDown AND NOT newDown) OR (newDown AND NOT oldDown)) s
                 else await_event endms oldDown s))"

definition ButtonWaitForAnyEvent :: "u32 \<Rightarrow> ButtonLedGlobals \<Rightarrow> u16 waiting" where
  "ButtonWaitForAnyEvent timeout s =
    (if \<not> ButtonLedInitialized s then gives 0 s
     else let (endms, s) = deadline timeout s in await_event endms (curButtonsE s) s)"

partial_function (option) await_press :: "u64 \<Rightarrow> u16 \<Rightarrow> ButtonLedGlobals \<Rightarrow> u16 waiting" where
  "await_press endms oldDown s =
    (let (curTime, s) = look_at_clock s
     in if curTime \<ge> endms then gives 0 s
        else Option.bind (readButtons s) (\<lambda>r. case r of
            Undef \<Rightarrow> Some Undef
          | Ret (newDown, s) \<Rightarrow>
              let s = s\<lparr>curButtonsE := newDown\<rparr>; pressed = newDown AND NOT oldDown
              in if pressed \<noteq> 0 then gives pressed s else await_press endms newDown s))"

definition ButtonWaitForAnyPress :: "u32 \<Rightarrow> ButtonLedGlobals \<Rightarrow> u16 waiting" where
  "ButtonWaitForAnyPress timeout s =
    (if \<not> ButtonLedInitialized s then gives 0 s
     else let (endms, s) = deadline timeout s in await_press endms (curButtonsE s) s)"

definition ButtonIsUp :: "u8 \<Rightarrow> ButtonLedGlobals \<Rightarrow> bool waiting" where
  "ButtonIsUp Button s = next_with (readButtons s) (\<lambda>b. gives (b AND ucast Button = 0))"

definition ButtonIsDown :: "u8 \<Rightarrow> ButtonLedGlobals \<Rightarrow> bool waiting" where
  "ButtonIsDown Button s = next_with (ButtonIsUp Button s) (\<lambda>up. gives (\<not> up))"

partial_function (option) ButtonWaitForPress :: "u8 \<Rightarrow> ButtonLedGlobals \<Rightarrow> unit waiting" where
  "ButtonWaitForPress Button s =
    Option.bind (ButtonWaitForAnyPress 0 s) (\<lambda>r. case r of
      Undef \<Rightarrow> Some Undef
    | Ret (p, s) \<Rightarrow> if p AND ucast Button = 0 then ButtonWaitForPress Button s else gives () s)"

partial_function (option) await_release :: "u16 \<Rightarrow> ButtonLedGlobals \<Rightarrow> unit waiting" where
  "await_release tmp s =
    Option.bind (ButtonWaitForAnyEvent 0 s) (\<lambda>r. case r of
      Undef \<Rightarrow> Some Undef
    | Ret (e, s) \<Rightarrow> if e AND tmp = 0 then await_release tmp s else gives () s)"

definition ButtonWaitForPressAndReleae :: "u8 \<Rightarrow> ButtonLedGlobals \<Rightarrow> unit waiting" where
  "ButtonWaitForPressAndReleae Button s =
    next_with (ButtonWaitForPress Button s) (\<lambda>_. await_release (push_bit WAITFOR_RELEASE_SHIFT (ucast Button)))"

definition ButtonPressedEx :: "u8 \<Rightarrow> bool \<Rightarrow> ButtonLedGlobals \<Rightarrow> bool waiting" where
  "ButtonPressedEx btn resetCount = ButtonIsDown btn"

text \<open>The results are the value, \<^verbatim>\<open>*pressed\<close> and \<^verbatim>\<open>*count\<close>.\<close>

definition ReadButtonEx :: "u8 \<Rightarrow> bool \<Rightarrow> ButtonLedGlobals \<Rightarrow> (u8 \<times> bool \<times> u16) waiting" where
  "ReadButtonEx btn reset s = next_with (ButtonIsDown btn s) (\<lambda>down. gives (0, down, 0))"

definition BTNSTATE_PRESSED_EV :: u8 where "BTNSTATE_PRESSED_EV = 0x01"
definition BTNSTATE_PRESSED_STATE :: u8 where "BTNSTATE_PRESSED_STATE = 0x80"
definition BTNSTATE_NONE :: u8 where "BTNSTATE_NONE = 0x10"

definition ButtonState :: "u8 \<Rightarrow> ButtonLedGlobals \<Rightarrow> u8 waiting" where
  "ButtonState btn s =
    next_with (ButtonIsDown btn s)
      (\<lambda>down. gives (if down then BTNSTATE_PRESSED_STATE OR BTNSTATE_PRESSED_EV else BTNSTATE_NONE))"

section \<open>What waiting changes\<close>

text \<open>Waiting changes only what is known of the buttons, and how often buttons and clock were looked at.\<close>

definition waited :: "ButtonLedGlobals \<Rightarrow> ButtonLedGlobals \<Rightarrow> bool" where
  "waited s s' \<longleftrightarrow>
    s' = s\<lparr>curButtonsS := curButtonsS s', curButtonsE := curButtonsE s', looks := looks s', times := times s'\<rparr>
    \<and> looks s \<le> looks s' \<and> times s \<le> times s'"

lemma waited_refl [simp]: "waited s s"
  by (simp add: waited_def)

lemma waited_trans [trans]: "waited s s1 \<Longrightarrow> waited s1 s2 \<Longrightarrow> waited s s2"
  by (cases s; cases s1; cases s2) (simp add: waited_def)

lemma waited_one [simp]:
  "waited s (s\<lparr>curButtonsS := a\<rparr>)" "waited s (s\<lparr>curButtonsE := a\<rparr>)" "looks s \<le> n \<Longrightarrow> waited s (s\<lparr>looks := n\<rparr>)"
  "times s \<le> n \<Longrightarrow> waited s (s\<lparr>times := n\<rparr>)" "waited s (s\<lparr>curButtonsS := a, curButtonsE := b\<rparr>)"
  by (simp_all add: waited_def)

lemma waited_sel:
  assumes "waited s s'"
  shows "ButtonLedFile s' = ButtonLedFile s" "pButton s' = pButton s" "Pattern s' = Pattern s" "WarnLight s' = WarnLight s"
    "lights s' = lights s" "look s' = look s" "clock s' = clock s" "Safe s' = Safe s" "looks s \<le> looks s'" "times s \<le> times s'"
    "ButtonLedInitialized s' \<longleftrightarrow> ButtonLedInitialized s"
  using assms by (cases s; cases s'; simp add: waited_def ButtonLedInitialized_def)+


lemma checkButtons_shared:
  "pButton s = SharedButtons \<Longrightarrow> checkButtons s = Ret (pressed_mask (look s (looks s)), s\<lparr>looks := looks s + 1\<rparr>)"
  by (simp add: checkButtons_def)

text \<open>One turn of the loop that waits until the buttons do not bounce.\<close>

lemma getButtons_shared:
  assumes "pButton s = SharedButtons"
  shows "getButtons s =
    (let n = looks s; b = pressed_mask (look s n); s' = s\<lparr>looks := n + 2\<rparr>
     in if b = pressed_mask (look s (n + 1)) then gives b s' else getButtons s')"
  using assms by (subst getButtons.simps) (simp add: checkButtons_shared Let_def)

text \<open>Two looks in a row agree.\<close>

definition steady :: "ButtonLedGlobals \<Rightarrow> nat \<Rightarrow> bool" where
  "steady s n \<longleftrightarrow> pressed_mask (look s n) = pressed_mask (look s (n + 1))"

text \<open>The readings that do not bounce, of \<open>k\<close> pairs of looks beginning with the look \<open>a\<close>.\<close>

definition readings :: "ButtonLedGlobals \<Rightarrow> nat \<Rightarrow> nat \<Rightarrow> u16 list" where
  "readings s a k = map (\<lambda>n. pressed_mask (look s n)) (filter (steady s) (map (\<lambda>i. a + 2 * i) [0..<k]))"

lemma readings_0 [simp]: "readings s a 0 = []"
  by (simp add: readings_def)

lemma readings_Suc: "readings s a (Suc k) = readings s a 1 @ readings s (a + 2) k"
  by (simp add: readings_def upt_conv_Cons map_Suc_upt [symmetric] comp_def del: upt_Suc)

lemma readings_1: "readings s a (Suc 0) = (if steady s a then [pressed_mask (look s a)] else [])"
  by (simp add: readings_def)

lemma readings_add: "readings s a (k + l) = readings s a k @ readings s (a + 2 * k) l"
proof (induction k arbitrary: a)
  case (Suc k)
  then show ?case by (simp add: readings_Suc [of s a "k + l"] readings_Suc [of s a k])
qed simp

lemma readings_cong: "look s' = look s \<Longrightarrow> readings s' = readings s"
  by (intro ext) (simp add: readings_def steady_def [abs_def])

lemma getButtons_ret:
  assumes "getButtons s = Some r" and "pButton s = SharedButtons"
  obtains k b where "readings s (looks s) k = [b]" "r = Ret (b, s\<lparr>looks := looks s + 2 * k\<rparr>)"
proof -
  define Q where "Q s r \<longleftrightarrow> (pButton s = SharedButtons \<longrightarrow>
      (\<exists>k b. readings s (looks s) k = [b] \<and> r = Ret (b, s\<lparr>looks := looks s + 2 * k\<rparr>)))" for s r
  have "Q s r"
  proof (rule getButtons.raw_induct [where P = Q, OF _ assms(1)])
    fix f s r
    assume IH: "\<And>s r. f s = Some r \<Longrightarrow> Q s r"
      and run: "(case checkButtons s of
         Undef \<Rightarrow> Some Undef
       | Ret (state1, s) \<Rightarrow> (case checkButtons s of Undef \<Rightarrow> Some Undef
           | Ret (state2, s) \<Rightarrow> if state1 \<noteq> state2 then f s else gives state1 s)) = Some r"
    show "Q s r"
      unfolding Q_def
    proof
      assume sh: "pButton s = SharedButtons"
      let ?s = "s\<lparr>looks := looks s + 2\<rparr>"
      show "\<exists>k b. readings s (looks s) k = [b] \<and> r = Ret (b, s\<lparr>looks := looks s + 2 * k\<rparr>)"
      proof (cases "steady s (looks s)")
        case True
        then show ?thesis using run sh
          by (intro exI [of _ 1] exI [of _ "pressed_mask (look s (looks s))"])
            (auto simp: checkButtons_shared readings_1 steady_def)
      next
        case False
        then have "f ?s = Some r" using run sh by (simp add: checkButtons_shared steady_def)
        then obtain k b where k: "readings ?s (looks s + 2) k = [b]" "r = Ret (b, s\<lparr>looks := looks s + 2 + 2 * k\<rparr>)"
          using IH [of ?s r] sh by (auto simp: Q_def)
        have "readings ?s = readings s" by (rule readings_cong) simp
        then have "readings s (looks s) (Suc k) = [b]" using False k(1)
          by (subst readings_Suc) (simp only: readings_1 One_nat_def if_False append_Nil)
        with k show ?thesis by (intro exI [of _ "Suc k"]) simp
      qed
    qed
  qed
  then show thesis using assms(2) that by (auto simp: Q_def)
qed

text \<open>It ends if the buttons are ever steady where it looks.\<close>

lemma getButtons_ends:
  assumes "pButton s = SharedButtons" and "steady s (looks s + 2 * k)"
  shows "\<exists>n. getButtons s = gives (pressed_mask (look s n)) (s\<lparr>looks := n + 2\<rparr>)"
  using assms
proof (induction k arbitrary: s)
  case 0
  then show ?case by (intro exI [of _ "looks s"]) (simp add: getButtons_shared steady_def Let_def)
next
  case (Suc k)
  let ?s = "s\<lparr>looks := looks s + 2\<rparr>"
  show ?case
  proof (cases "steady s (looks s)")
    case True
    then show ?thesis using Suc.prems by (intro exI [of _ "looks s"]) (simp add: getButtons_shared steady_def Let_def)
  next
    case False
    have "\<exists>n. getButtons ?s = gives (pressed_mask (look ?s n)) (?s\<lparr>looks := n + 2\<rparr>)"
      using Suc.prems by (intro Suc.IH) (simp_all add: steady_def)
    moreover have "getButtons s = getButtons ?s"
      using Suc.prems False by (simp add: getButtons_shared [of s] steady_def Let_def)
    ultimately show ?thesis by simp
  qed
qed

lemma getButtons_waited: "getButtons s = gives b s' \<Longrightarrow> waited s s'"
proof (cases "pButton s")
  case NoButtons
  then show "getButtons s = gives b s' \<Longrightarrow> waited s s'" by (subst (asm) getButtons.simps) (simp add: checkButtons_def)
next
  case ButtonSafe
  then show "getButtons s = gives b s' \<Longrightarrow> waited s s'" by (subst (asm) getButtons.simps) (simp add: checkButtons_def)
next
  case SharedButtons
  assume "getButtons s = gives b s'"
  then show "waited s s'" using SharedButtons by (rule getButtons_ret) auto
qed

lemma readButtons_waited: "readButtons s = gives b s' \<Longrightarrow> waited s s'"
  by (auto simp: readButtons_def next_with_Ret intro: waited_trans getButtons_waited)

lemma buttonClear_waited: "buttonClear s = gives b s' \<Longrightarrow> waited s s'"
  by (auto simp: buttonClear_def next_with_Ret intro: waited_trans getButtons_waited)

lemma look_at_clock_waited [simp]: "waited s (snd (look_at_clock s))"
  by (simp add: look_at_clock_def)

lemma deadline_waited [simp]: "waited s (snd (deadline timeout s))"
  by (simp add: deadline_def Let_def look_at_clock_def)

text \<open>A turn of the two loops either ends them or reads the buttons.\<close>

lemma await_event_turn:
  "await_event endms old s =
    (let s1 = s\<lparr>times := times s + 1\<rparr>
     in if TimerGetMS (clock s (times s)) \<ge> endms then gives 0 s1
        else next_with (readButtons s1) (\<lambda>new s. let s = s\<lparr>curButtonsE := new\<rparr> in
          if new \<noteq> old then gives (push_bit WAITFOR_RELEASE_SHIFT (old AND NOT new) OR (new AND NOT old)) s
          else await_event endms old s))"
  by (subst await_event.simps) (simp add: next_with_def look_at_clock_def)

lemma await_press_turn:
  "await_press endms old s =
    (let s1 = s\<lparr>times := times s + 1\<rparr>
     in if TimerGetMS (clock s (times s)) \<ge> endms then gives 0 s1
        else next_with (readButtons s1) (\<lambda>new s. let s = s\<lparr>curButtonsE := new\<rparr> in
          if new AND NOT old \<noteq> 0 then gives (new AND NOT old) s else await_press endms new s))"
  by (subst await_press.simps) (simp add: next_with_def look_at_clock_def Let_def)

text \<open>Induction over the turns of a loop that returned.\<close>

lemma await_event_induct [consumes 1, case_names late change turn]:
  assumes run: "await_event endms old s = gives e s'"
    and late: "\<And>s. TimerGetMS (clock s (times s)) \<ge> endms \<Longrightarrow> P s 0 (s\<lparr>times := times s + 1\<rparr>)"
    and change: "\<And>s s1 new. readButtons (s\<lparr>times := times s + 1\<rparr>) = gives new s1 \<Longrightarrow> new \<noteq> old \<Longrightarrow>
      P s (push_bit WAITFOR_RELEASE_SHIFT (old AND NOT new) OR (new AND NOT old)) (s1\<lparr>curButtonsE := new\<rparr>)"
    and turn: "\<And>s s1 e s'. readButtons (s\<lparr>times := times s + 1\<rparr>) = gives old s1 \<Longrightarrow>
      P (s1\<lparr>curButtonsE := old\<rparr>) e s' \<Longrightarrow> P s e s'"
  shows "P s e s'"
proof -
  define Q where "Q en ol s r \<longleftrightarrow> (\<forall>e s'. en = endms \<longrightarrow> ol = old \<longrightarrow> r = Ret (e, s') \<longrightarrow> P s e s')"
    for en ol s and r :: "(u16 \<times> ButtonLedGlobals) outcome"
  have "Q endms old s (Ret (e, s'))"
  proof (rule await_event.raw_induct [where P = Q, OF _ run])
    fix f en ol s r
    assume IH: "\<And>en ol s r. f en ol s = Some r \<Longrightarrow> Q en ol s r"
      and step: "(let (curTime, s) = look_at_clock s
        in if en \<le> curTime then gives 0 s
           else Option.bind (readButtons s) (\<lambda>r. case r of Undef \<Rightarrow> Some Undef
             | Ret (newDown, s) \<Rightarrow> let s = s\<lparr>curButtonsE := newDown\<rparr>
                in if newDown \<noteq> ol
                   then gives (push_bit WAITFOR_RELEASE_SHIFT (ol AND NOT newDown) OR (newDown AND NOT ol)) s
                   else f en ol s)) = Some r"
    show "Q en ol s r"
      using step late change turn IH
      by (auto simp: Q_def look_at_clock_def Let_def split: if_splits Option.bind_splits outcome.splits)
  qed
  then show ?thesis by (simp add: Q_def)
qed

lemma await_press_induct [consumes 1, case_names late press turn]:
  assumes run: "await_press endms old s = gives p s'"
    and late: "\<And>old s. TimerGetMS (clock s (times s)) \<ge> endms \<Longrightarrow> P old s 0 (s\<lparr>times := times s + 1\<rparr>)"
    and press: "\<And>old s s1 new. readButtons (s\<lparr>times := times s + 1\<rparr>) = gives new s1 \<Longrightarrow> new AND NOT old \<noteq> 0 \<Longrightarrow>
      P old s (new AND NOT old) (s1\<lparr>curButtonsE := new\<rparr>)"
    and turn: "\<And>old s s1 new p s'. readButtons (s\<lparr>times := times s + 1\<rparr>) = gives new s1 \<Longrightarrow> new AND NOT old = 0 \<Longrightarrow>
      P new (s1\<lparr>curButtonsE := new\<rparr>) p s' \<Longrightarrow> P old s p s'"
  shows "P old s p s'"
proof -
  define Q where "Q en ol s r \<longleftrightarrow> (\<forall>p s'. en = endms \<longrightarrow> r = Ret (p, s') \<longrightarrow> P ol s p s')"
    for en ol s and r :: "(u16 \<times> ButtonLedGlobals) outcome"
  have "Q endms old s (Ret (p, s'))"
  proof (rule await_press.raw_induct [where P = Q, OF _ run])
    fix f en ol s r
    assume IH: "\<And>en ol s r. f en ol s = Some r \<Longrightarrow> Q en ol s r"
      and step: "(let (curTime, s) = look_at_clock s
        in if en \<le> curTime then gives 0 s
           else Option.bind (readButtons s) (\<lambda>r. case r of Undef \<Rightarrow> Some Undef
             | Ret (newDown, s) \<Rightarrow> let s = s\<lparr>curButtonsE := newDown\<rparr>; pressed = newDown AND NOT ol
                in if pressed \<noteq> 0 then gives pressed s else f en newDown s)) = Some r"
    show "Q en ol s r"
      using step late press turn IH
      by (auto simp: Q_def look_at_clock_def Let_def split: if_splits Option.bind_splits outcome.splits)
  qed
  then show ?thesis by (simp add: Q_def)
qed

lemma read_waited:
  assumes "readButtons (s\<lparr>times := times s + 1\<rparr>) = gives new s1"
  shows "waited s (s1\<lparr>curButtonsE := new\<rparr>)"
proof -
  have "waited s (s\<lparr>times := times s + 1\<rparr>)" by simp
  also note readButtons_waited [OF assms]
  also have "waited s1 (s1\<lparr>curButtonsE := new\<rparr>)" by simp
  finally show ?thesis .
qed

lemma await_event_waited: "await_event endms old s = gives e s' \<Longrightarrow> waited s s'"
proof (induction rule: await_event_induct)
  case (change s s1 new)
  then show ?case by (intro read_waited)
next
  case (turn s s1 e s')
  then show ?case using read_waited waited_trans by blast
qed simp

lemma await_press_waited: "await_press endms old s = gives e s' \<Longrightarrow> waited s s'"
proof (induction rule: await_press_induct)
  case (press old s s1 new)
  then show ?case by (intro read_waited)
next
  case (turn old s s1 new p s')
  then show ?case using read_waited waited_trans by blast
qed simp

section \<open>What is reported\<close>

text \<open>What a reading of the buttons sees is the last of the readings so far.\<close>

lemma readButtons_readings:
  assumes "readButtons (s\<lparr>times := t\<rparr>) = gives b s1" and "pButton s = SharedButtons"
  obtains k where "readings s (looks s) k = [b]" "looks s1 = looks s + 2 * k"
proof -
  from assms(1) obtain s2 where "getButtons (s\<lparr>times := t\<rparr>) = gives b s2" "s1 = s2\<lparr>curButtonsS := b\<rparr>"
    by (auto simp: readButtons_def next_with_Ret)
  with assms(2) show thesis
    by (elim getButtons_ret) (auto simp: readings_cong [of "s\<lparr>times := t\<rparr>" s] intro: that)
qed

text \<open>The first buttons newly pressed in a sequence of readings.\<close>

fun first_press :: "u16 \<Rightarrow> u16 list \<Rightarrow> u16" where
  "first_press old [] = 0"
| "first_press old (new # rs) = (let p = new AND NOT old in if p \<noteq> 0 then p else first_press new rs)"

lemma await_press_first:
  assumes "await_press endms old s = gives p s'" and "pButton s = SharedButtons"
  shows "\<exists>k. looks s' = looks s + 2 * k \<and> p = first_press old (readings s (looks s) k)
    \<and> (p = 0 \<longrightarrow> TimerGetMS (clock s (times s' - 1)) \<ge> endms)"
  using assms
proof (induction rule: await_press_induct)
  case (late old s)
  then show ?case by (intro exI [of _ 0]) simp
next
  case (press old s s1 new)
  from press(1,3) obtain k where "readings s (looks s) k = [new]" "looks s1 = looks s + 2 * k"
    by (rule readButtons_readings)
  then show ?case using press(2) by (intro exI [of _ k]) (simp add: Let_def)
next
  case (turn old s s1 new p s')
  from turn(1,4) obtain k where k: "readings s (looks s) k = [new]" "looks s1 = looks s + 2 * k"
    by (rule readButtons_readings)
  note w = waited_sel [OF read_waited [OF turn(1)]]
  from turn(3,4) w(2) obtain l where l: "looks s' = looks s1 + 2 * l"
      "p = first_press new (readings (s1\<lparr>curButtonsE := new\<rparr>) (looks s1) l)"
      "p = 0 \<longrightarrow> TimerGetMS (clock (s1\<lparr>curButtonsE := new\<rparr>) (times s' - 1)) \<ge> endms"
    by auto
  moreover have "readings (s1\<lparr>curButtonsE := new\<rparr>) = readings s" using w(6) by (intro readings_cong)
  moreover have "first_press old (readings s (looks s) (k + l)) = first_press new (readings s (looks s1) l)"
    using k turn(2) by (simp add: readings_add Let_def)
  ultimately show ?case using k w(7) by (intro exI [of _ "k + l"]) simp
qed

lemma deadline_sel [simp]:
  "pButton (snd (deadline timeout s)) = pButton s" "looks (snd (deadline timeout s)) = looks s"
  "look (snd (deadline timeout s)) = look s" "curButtonsE (snd (deadline timeout s)) = curButtonsE s"
  "clock (snd (deadline timeout s)) = clock s"
  by (simp_all add: deadline_def look_at_clock_def Let_def)

text \<open>
  C24: \<^verbatim>\<open>ButtonWaitForAnyPress\<close> reports, as a mask of buttons, the first buttons newly pressed in the sequence of
  those readings, among the pairs of looks it makes, that do not bounce, starting from what the last wait saw;
  the result 0 means that none was pressed in them and that the time is over.
\<close>

theorem press_reported:
  assumes "pButton s = SharedButtons" "ButtonLedFile s \<noteq> - 1" and "ButtonWaitForAnyPress timeout s = gives p s'"
  shows "\<exists>k. looks s' = looks s + 2 * k \<and> p = first_press (curButtonsE s) (readings s (looks s) k)
    \<and> (p = 0 \<longrightarrow> TimerGetMS (clock s (times s' - 1)) \<ge> fst (deadline timeout s))"
proof -
  from assms have "await_press (fst (deadline timeout s)) (curButtonsE s) (snd (deadline timeout s)) = gives p s'"
    by (simp add: ButtonWaitForAnyPress_def ButtonLedInitialized_def case_prod_beta)
  from await_press_first [OF this] assms(1) show ?thesis
    by (simp add: readings_cong [of "snd (deadline timeout s)" s])
qed

definition buttons_start :: "(nat \<Rightarrow> int) \<Rightarrow> (nat \<Rightarrow> u8 list) \<Rightarrow> (nat \<Rightarrow> timeval) \<Rightarrow> ButtonLedGlobals" where
  "buttons_start res lk cl = \<lparr>Safe = replicate 6 0, pButton = NoButtons, ButtonLedFile = 0, Pattern = 0, WarnLight = False,
     curButtonsS = 0, curButtonsE = 0, HwVers = replicate 6 0, lights = [], light_res = res, look = lk, looks = 0,
     clock = cl, times = 0\<rparr>"

text \<open>The centre button is held, lets go, bounces, and is pressed again.\<close>

definition held_again :: ButtonLedGlobals where
  "held_again = (buttons_start (\<lambda>_. 0)
     (\<lambda>n. if n < 2 then [0, 1, 0, 0, 0, 0] else if n < 4 then [0, 0, 0, 0, 0, 0]
          else if n = 4 then [0, 1, 0, 0, 0, 0] else if n = 5 then [0, 0, 0, 0, 0, 0] else [0, 1, 0, 0, 0, 0])
     (\<lambda>n. \<lparr>tv_sec = 1000, tv_usec = 50000 * n\<rparr>))\<lparr>pButton := SharedButtons, ButtonLedFile := 3, curButtonsE := 2\<rparr>"

lemma held_again_run: "\<exists>s'. ButtonWaitForAnyPress 1000 held_again = gives 2 s'"
  by (simp add: ButtonWaitForAnyPress_def ButtonLedInitialized_def held_again_def buttons_start_def deadline_def look_at_clock_def
      await_press_turn getButtons_shared readButtons_def next_with_def Let_def pressed_mask_def NUM_BUTTONS_def TimerGetMS_def
      upt_rec)

theorem press_reported_witness:
  "\<exists>k. (2 :: u16) = first_press 2 (readings held_again 0 k)"
proof -
  obtain s' where s': "ButtonWaitForAnyPress 1000 held_again = gives 2 s'" using held_again_run by blast
  have s: "pButton held_again = SharedButtons" "ButtonLedFile held_again \<noteq> - 1" "curButtonsE held_again = 2" "looks held_again = 0"
    by (simp_all add: held_again_def buttons_start_def)
  from press_reported [OF s(1,2) s'] show ?thesis by (auto simp: s)
qed

section \<open>Waiting ends\<close>

lemma readButtons_ends:
  assumes "pButton s = SharedButtons" and "steady s (looks s + 2 * k)"
  shows "\<exists>b s1. readButtons (s\<lparr>times := t\<rparr>) = gives b s1 \<and> s1 = s\<lparr>times := t, curButtonsS := b, looks := looks s1\<rparr>"
proof -
  have "pButton (s\<lparr>times := t\<rparr>) = SharedButtons" "steady (s\<lparr>times := t\<rparr>) (looks (s\<lparr>times := t\<rparr>) + 2 * k)"
    using assms by (simp_all add: steady_def)
  from getButtons_ends [OF this] show ?thesis by (auto simp: readButtons_def next_with_def)
qed

text \<open>One more turn, or the end, if the buttons come to rest again and again.\<close>

definition comes_to_rest :: "ButtonLedGlobals \<Rightarrow> bool" where
  "comes_to_rest s \<longleftrightarrow> pButton s = SharedButtons \<and> (\<forall>n. \<exists>k. steady s (n + 2 * k))"

lemma comes_to_rest_read:
  assumes "comes_to_rest s"
  obtains b s1 where "readButtons (s\<lparr>times := times s + 1\<rparr>) = gives b s1" "comes_to_rest (s1\<lparr>curButtonsE := b\<rparr>)"
    "times s1 = times s + 1" "clock s1 = clock s"
proof -
  obtain k where "steady s (looks s + 2 * k)" using assms by (auto simp: comes_to_rest_def)
  with assms obtain b s1 where r: "readButtons (s\<lparr>times := times s + 1\<rparr>) = gives b s1"
      and s1: "s1 = s\<lparr>times := times s + 1, curButtonsS := b, looks := looks s1\<rparr>"
    using readButtons_ends [of s k "times s + 1"] by (auto simp: comes_to_rest_def)
  have "comes_to_rest (s1\<lparr>curButtonsE := b\<rparr>)"
    using assms by (subst s1) (simp add: comes_to_rest_def steady_def)
  moreover have "times s1 = times s + 1" "clock s1 = clock s" by (subst s1, simp)+
  ultimately show thesis using r that by blast
qed

lemma loops_end:
  assumes "comes_to_rest s" and "TimerGetMS (clock s (times s + m)) \<ge> endms"
  shows "\<exists>p s'. await_press endms old s = gives p s'" and "\<exists>p s'. await_event endms old s = gives p s'"
  using assms
proof (induction m arbitrary: old s)
  case 0
  {
    case 1
    then show ?case by (simp add: await_press_turn Let_def)
  next
    case 2
    then show ?case by (simp add: await_event_turn Let_def)
  }
next
  case (Suc m)
  {
    case 1
    from comes_to_rest_read [OF 1(1)] obtain b s1
      where b: "readButtons (s\<lparr>times := times s + 1\<rparr>) = gives b s1" "comes_to_rest (s1\<lparr>curButtonsE := b\<rparr>)"
        "times s1 = times s + 1" "clock s1 = clock s" .
    have "\<exists>p s'. await_press endms b (s1\<lparr>curButtonsE := b\<rparr>) = gives p s'"
      using b 1(2) by (intro Suc.IH(1)) simp_all
    then show ?case using b(1) by (auto simp: await_press_turn [of endms old s] next_with_def Let_def)
  next
    case 2
    from comes_to_rest_read [OF 2(1)] obtain b s1
      where b: "readButtons (s\<lparr>times := times s + 1\<rparr>) = gives b s1" "comes_to_rest (s1\<lparr>curButtonsE := b\<rparr>)"
        "times s1 = times s + 1" "clock s1 = clock s" .
    have "\<exists>p s'. await_event endms old (s1\<lparr>curButtonsE := b\<rparr>) = gives p s'"
      using b 2(2) by (intro Suc.IH(2)) simp_all
    then show ?case using b(1) by (auto simp: await_event_turn [of endms old s] next_with_def Let_def)
  }
qed

text \<open>
  C25: With a timeout both functions that wait for the buttons return, if the contacts come to rest again and
  again and the clock reaches the deadline at any of the looks at it; neither has to happen soon.
\<close>

theorem button_wait_ends:
  assumes "comes_to_rest s" and "timeout \<noteq> 0" and "times s < n"
    and "TimerGetMS (clock s n) \<ge> TimerGetMS (clock s (times s)) + ucast timeout"
  shows "(\<exists>p s'. ButtonWaitForAnyPress timeout s = gives p s') \<and> (\<exists>e s'. ButtonWaitForAnyEvent timeout s = gives e s')"
proof -
  let ?s = "s\<lparr>times := times s + 1\<rparr>"
  have d: "deadline timeout s = (TimerGetMS (clock s (times s)) + ucast timeout, ?s)"
    using assms(2) by (simp add: deadline_def look_at_clock_def)
  obtain m where "n = times ?s + m" using assms(3) le_Suc_ex [of "times s + 1" n] by auto
  then have "TimerGetMS (clock ?s (times ?s + m)) \<ge> fst (deadline timeout s)" using assms(4) d by simp
  moreover have "comes_to_rest ?s" using assms(1) by (simp add: comes_to_rest_def steady_def)
  ultimately show ?thesis
    using d loops_end by (simp add: ButtonWaitForAnyPress_def ButtonWaitForAnyEvent_def)
qed

theorem button_wait_ends_witness:
  "(\<exists>p s'. ButtonWaitForAnyPress 1000 held_again = gives p s') \<and> (\<exists>e s'. ButtonWaitForAnyEvent 1000 held_again = gives e s')"
proof (rule button_wait_ends [where n = 20])
  have "\<exists>k. steady held_again (n + 2 * k)" for n
    by (intro exI [of _ 3]) (simp add: steady_def held_again_def buttons_start_def)
  then show "comes_to_rest held_again" by (simp add: comes_to_rest_def held_again_def)
qed (simp_all add: held_again_def buttons_start_def TimerGetMS_def)

text \<open>If the module is not open the wait for a press keeps asking for ever, without a pause.\<close>

lemma await_press_uninitialised: "\<not> ButtonLedInitialized s \<Longrightarrow> ButtonWaitForAnyPress timeout s = gives 0 s"
  by (simp add: ButtonWaitForAnyPress_def)

text \<open>
  Before the module is opened, and after it was closed, \<^verbatim>\<open>ButtonWaitForPress\<close> never returns: the wait for
  any press returns 0 at once then, which is taken for the press of another button.
\<close>

theorem press_wait_hangs_closed:
  assumes "\<not> ButtonLedInitialized s"
  shows "ButtonWaitForPress Button s = None"
proof (rule ccontr)
  assume "ButtonWaitForPress Button s \<noteq> None"
  then obtain r where r: "ButtonWaitForPress Button s = Some r" by blast
  have "ButtonLedInitialized s"
  proof (rule ButtonWaitForPress.raw_induct [where P = "\<lambda>b s r. ButtonLedInitialized s", OF _ r])
    fix f b s r
    assume IH: "\<And>b s r. f b s = Some r \<Longrightarrow> ButtonLedInitialized s"
      and run: "Option.bind (ButtonWaitForAnyPress 0 s) (\<lambda>r. case r of Undef \<Rightarrow> Some Undef
        | Ret (p, s) \<Rightarrow> if p AND ucast b = 0 then f b s else gives () s) = Some r"
    show "ButtonLedInitialized s"
    proof (rule ccontr)
      assume "\<not> ButtonLedInitialized s"
      with run have "f b s = Some r" by (simp add: await_press_uninitialised)
      with IH \<open>\<not> ButtonLedInitialized s\<close> show False by blast
    qed
  qed
  with assms show False by blast
qed

theorem press_wait_hangs_closed_witness: "ButtonWaitForPress 2 (buttons_start (\<lambda>_. 0) (\<lambda>_. []) (\<lambda>_. \<lparr>tv_sec = 0, tv_usec = 0\<rparr>)) = None"
  by (rule press_wait_hangs_closed) (simp add: ButtonLedInitialized_def buttons_start_def)

text \<open>The first call that reads the buttons before \<^verbatim>\<open>ButtonLedInit\<close> follows a null pointer.\<close>

lemma is_up_uninitialised: "pButton s = NoButtons \<Longrightarrow> ButtonIsUp b s = Some Undef"
  by (simp add: ButtonIsUp_def readButtons_def next_with_def getButtons.simps checkButtons_def)

section \<open>The light shows the pattern\<close>

lemmas light_ops = UpdateLed_def SetLedWarning_def SetLedPattern_def WriteToButtonLedDevice_def ButtonLedInitialized_def Let_def

text \<open>The module is closed, or open with the last string sent belonging to the pattern.\<close>

definition light_ok :: "ButtonLedGlobals \<Rightarrow> bool" where
  "light_ok s \<longleftrightarrow> (ButtonLedInitialized s \<longrightarrow> ButtonLedFile s \<ge> 0 \<and> pButton s = SharedButtons \<and> Pattern s < NUM_LED_PATTERNS
     \<and> lights s \<noteq> [] \<and> last (lights s) = [48 + MappedPattern (Pattern s) s, 0])"

lemma light_ok_waited: "waited s s' \<Longrightarrow> light_ok s \<Longrightarrow> light_ok s'"
  using waited_sel [of s s'] by (simp add: light_ok_def MappedPattern_def)

lemma UpdateLed_keeps:
  "ButtonLedFile (UpdateLed P s) = ButtonLedFile s" "pButton (UpdateLed P s) = pButton s" "WarnLight (UpdateLed P s) = WarnLight s"
  "Pattern (UpdateLed P s) = (if ButtonLedInitialized s \<and> P < NUM_LED_PATTERNS then P else Pattern s)"
  by (auto simp: light_ops)

text \<open>Setting a pattern makes the light show it, whether it did before or not.\<close>

lemma light_ok_update:
  assumes "ButtonLedFile s \<ge> 0" "pButton s = SharedButtons" and "P < NUM_LED_PATTERNS"
  shows "light_ok (UpdateLed P s)"
proof -
  let ?t = "s\<lparr>Pattern := P\<rparr>"
  have u: "UpdateLed P s = snd (WriteToButtonLedDevice [48 + MappedPattern P ?t, 0] ?t)"
    using assms by (simp add: UpdateLed_def ButtonLedInitialized_def Let_def)
  have "lights (UpdateLed P s) \<noteq> [] \<and> last (lights (UpdateLed P s)) = [48 + MappedPattern P ?t, 0]"
    unfolding u by (rule led.log_last) (use assms(1) in simp)
  then show ?thesis
    using assms by (auto simp: light_ok_def UpdateLed_keeps MappedPattern_def ButtonLedInitialized_def)
qed

lemma light_ok_set:
  assumes "light_ok s"
  shows "light_ok (UpdateLed P s)" "light_ok (SetLedWarning v s)" "light_ok (SetLedPattern P s)"
proof -
  have u: "light_ok (UpdateLed P s)" for P
    using assms light_ok_update [of s P] by (auto simp: light_ok_def UpdateLed_def)
  then show "light_ok (UpdateLed P s)" "light_ok (SetLedPattern P s)"
    using assms by (simp_all add: SetLedPattern_def)
  show "light_ok (SetLedWarning v s)"
    using assms light_ok_update [of "s\<lparr>WarnLight := v\<rparr>" "Pattern s"]
    by (auto simp: SetLedWarning_def light_ok_def ButtonLedInitialized_def)
qed

lemma light_ok_close: "light_ok (ButtonLedCloseDevices s)" if "light_ok s \<or> pButton s = ButtonSafe"
  using that by (auto simp: light_ok_def ButtonLedCloseDevices_def light_ops)

lemma light_ok_init:
  assumes "light_ok s" and "ButtonLedInit file mapped s = gives r s'"
  shows "light_ok s'"
proof (cases "ButtonLedInitialized s \<or> file < 0 \<or> \<not> mapped")
  case True
  then show ?thesis
    using assms by (auto simp: ButtonLedInit_def Let_def light_ok_close split: if_splits)
next
  case False
  with assms(2) obtain s1 where s1: "waited (s\<lparr>ButtonLedFile := file, pButton := SharedButtons\<rparr>) s1"
      and s': "s' = SetLedPattern LED_BLACK (s1\<lparr>WarnLight := False, Pattern := NUM_LED_PATTERNS\<rparr>)"
    by (auto simp: ButtonLedInit_def Let_def next_with_Ret dest!: buttonClear_waited)
  from waited_sel [OF s1] False show ?thesis
    by (simp add: s' light_ok_def light_ops LED_BLACK_def NUM_LED_PATTERNS_def MappedPattern_def)
qed

text \<open>A call of the module by a program.\<close>

inductive button_call :: "ButtonLedGlobals \<Rightarrow> ButtonLedGlobals \<Rightarrow> bool" where
  "ButtonLedInit file mapped s = gives r s' \<Longrightarrow> button_call s s'"
| "ButtonLedOpen s = gives r s' \<Longrightarrow> button_call s s'"
| "ButtonLedClose s = gives r s' \<Longrightarrow> button_call s s'"
| "button_call s (snd (ButtonLedExit s))"
| "button_call s (snd (HardwareVersionString bs s))"
| "button_call s (SetLedWarning v s)"
| "button_call s (SetLedPattern P s)"
| "ButtonIsUp b s = gives up s' \<Longrightarrow> button_call s s'"
| "ButtonIsDown b s = gives down s' \<Longrightarrow> button_call s s'"
| "ButtonWaitForAnyPress t s = gives p s' \<Longrightarrow> button_call s s'"
| "ButtonWaitForAnyEvent t s = gives p s' \<Longrightarrow> button_call s s'"

lemma wait_calls_waited:
  "ButtonLedOpen s = gives r s' \<Longrightarrow> waited s s'" "ButtonLedClose s = gives r s' \<Longrightarrow> waited s s'"
  "ButtonIsUp b s = gives r s' \<Longrightarrow> waited s s'" "ButtonIsDown b s = gives r s' \<Longrightarrow> waited s s'"
  by (auto simp: ButtonLedOpen_def ButtonLedClose_def ButtonIsDown_def ButtonIsUp_def next_with_Ret
      dest!: buttonClear_waited readButtons_waited split: if_splits)

lemma any_waited:
  "ButtonWaitForAnyPress t s = gives p s' \<Longrightarrow> waited s s'" "ButtonWaitForAnyEvent t s = gives p s' \<Longrightarrow> waited s s'"
  by (auto simp: ButtonWaitForAnyPress_def ButtonWaitForAnyEvent_def case_prod_beta split: if_splits
      dest!: await_press_waited await_event_waited intro: waited_trans [OF deadline_waited])

lemma button_call_light_ok: "button_call s s' \<Longrightarrow> light_ok s \<Longrightarrow> light_ok s'"
proof (induction rule: button_call.induct)
  case (4 s)
  then show ?case using light_ok_close by (simp add: ButtonLedExit_def)
next
  case (5 s bs)
  then show ?case by (simp add: HardwareVersionString_def Let_def light_ok_def ButtonLedInitialized_def MappedPattern_def)
qed (blast intro: light_ok_init light_ok_set light_ok_waited wait_calls_waited any_waited)+

text \<open>
  C26: Whatever a program calls in whatever order, and however the warning is switched on and off in between,
  while the module is open the last string written to the device is the digit of the pattern that
  \<^verbatim>\<open>LedPattern\<close> returns, with its end.
\<close>

theorem light_shows_pattern:
  assumes "button_call\<^sup>*\<^sup>* (buttons_start res lk cl) s" and "ButtonLedInitialized s"
  shows "lights s \<noteq> [] \<and> last (lights s) = [48 + LedPattern s, 0]"
proof -
  from assms(1) have "light_ok s"
  proof (induction rule: rtranclp_induct)
    case base
    show ?case by (simp add: light_ok_def ButtonLedInitialized_def buttons_start_def)
  next
    case (step s s')
    then show ?case by (blast intro: button_call_light_ok)
  qed
  then show ?thesis using assms(2) by (simp add: light_ok_def LedPattern_def)
qed

definition lit :: ButtonLedGlobals where
  "lit = buttons_start (\<lambda>_. 0) (\<lambda>_. [0, 0, 0, 0, 0, 0]) (\<lambda>_. \<lparr>tv_sec = 0, tv_usec = 0\<rparr>)"

lemma lit_open:
  "ButtonLedInit 4 True lit
    = gives True (lit\<lparr>pButton := SharedButtons, ButtonLedFile := 4, looks := 2, Pattern := 0, lights := [[48, 0]]\<rparr>)"
  by (simp add: ButtonLedInit_def ButtonLedInitialized_def lit_def buttons_start_def buttonClear_def next_with_def
      getButtons_shared Let_def SetLedPattern_def UpdateLed_def WriteToButtonLedDevice_def LED_BLACK_def NUM_LED_PATTERNS_def
      MappedPattern_def pressed_mask_def NUM_BUTTONS_def upt_rec)

theorem light_shows_pattern_witness:
  "\<exists>s. ButtonLedInit 4 True lit = gives True s \<and> lights (SetLedWarning True (SetLedPattern 7 s)) = [[48, 0], [55, 0], [57, 0]]
    \<and> last (lights (SetLedWarning True (SetLedPattern 7 s))) = [48 + LedPattern (SetLedWarning True (SetLedPattern 7 s)), 0]"
proof -
  obtain s where s: "ButtonLedInit 4 True lit = gives True s" and s4: "ButtonLedFile s = 4" "pButton s = SharedButtons"
      "Pattern s = 0" "\<not> WarnLight s" "lights s = [[48, 0]]"
    by (rule that [OF lit_open]) (simp_all add: lit_def buttons_start_def)
  let ?t = "SetLedWarning True (SetLedPattern 7 s)"
  have t: "ButtonLedInitialized ?t" "lights ?t = [[48, 0], [55, 0], [57, 0]]"
    using s4 by (simp_all add: light_ops NUM_LED_PATTERNS_def MappedPattern_def LED_ORANGE_PULSE_def)
  have "button_call\<^sup>*\<^sup>* lit s" using s by (blast intro: button_call.intros(1))
  also have "button_call s (SetLedPattern 7 s)" by (rule button_call.intros(7))
  also have "button_call (SetLedPattern 7 s) ?t" by (rule button_call.intros(6))
  finally have "button_call\<^sup>*\<^sup>* lit ?t" .
  from light_shows_pattern [OF this [unfolded lit_def] t(1)]
  show ?thesis using s t by (intro exI [of _ s]) simp
qed

end
