(* ===== verification/Sound.thy ===== *)
theory Sound
  imports World Lcd Devices
begin

text \<open>
  Sounds, \<^verbatim>\<open>src/util/cat/ev3_sound.c\<close>. Sounds are made by short strings written to the device
  \<^verbatim>\<open>/dev/lms_sound\<close>, which is opened anew for each; \<open>answer n bs\<close> is the result of writing \<open>bs\<close> in the \<open>n\<close>-th
  attempt, \<open>None\<close> if the device cannot be opened. The events are these strings and the pauses in between, in
  milliseconds. A function that waits or retries may not return, which is \<open>None\<close>; an access outside a buffer
  and the use of a variable into which nothing was stored yet are \<open>Undef\<close>.
\<close>

section \<open>The state\<close>

definition SOUND_CMD_BREAK :: u8 where "SOUND_CMD_BREAK = 0"
definition SOUND_CMD_TONE :: u8 where "SOUND_CMD_TONE = 1"
definition SOUND_CMD_PLAY :: u8 where "SOUND_CMD_PLAY = 2"
definition SOUND_CMD_SERVICE :: u8 where "SOUND_CMD_SERVICE = 4"
definition SOUND_CHUNK :: nat where "SOUND_CHUNK = 250"
definition SOUND_ADPCM_CHUNK :: nat where "SOUND_ADPCM_CHUNK = 125"
definition SOUND_FILE_FORMAT_RAW_SOUND :: u16 where "SOUND_FILE_FORMAT_RAW_SOUND = 0x0100"
definition SOUND_FILE_FORMAT_ADPCM_SOUND :: u16 where "SOUND_FILE_FORMAT_ADPCM_SOUND = 0x0101"
definition FILENAME_SIZE :: nat where "FILENAME_SIZE = 120"

datatype sound_state = SOUND_STATE_IDLE | SOUND_STATE_SETUP_FILE | SOUND_STATE_FILE | SOUND_STATE_FILE_LOOPING
  | SOUND_STATE_TONE | SOUND_STATE_TONE_LOOPING | SOUND_STATE_STOP

datatype sound_event = Write "u8 list" | Pause nat

text \<open>What \<^verbatim>\<open>pSound\<close> points to: nothing, \<^verbatim>\<open>Sound\<close> in the same struct, or the shared memory.\<close>

datatype sound_pointer = NoSound | OwnSound | SharedSound

text \<open>
  \<open>unread\<close> is what is left to read of the open file; \<open>None\<close> if reading it fails, as for a directory. \<open>Busy\<close> is
  what the program has stored in the shared memory last.
\<close>

record SoundGlobals =
  hSoundFile :: int
  unread :: "u8 list option"
  soundState :: sound_state
  pSound :: sound_pointer
  Busy :: bool
  SoundMuted :: bool
  SoundFileFormat :: u16
  SoundDataLength :: int
  SoundSampleRate :: u16
  SoundPlayMode :: u16
  SoundFileLength :: int
  ValPrev :: int
  Index :: int
  Step :: int
  BytesToWrite :: u8
  StopLoop :: u8
  SoundData :: "u8 list"
  events :: "sound_event list"
  attempts :: nat
  answer :: "nat \<Rightarrow> u8 list \<Rightarrow> int option"

type_synonym 'a sounding = "('a, SoundGlobals) effect"

text \<open>A file that can be opened: its size as \<^verbatim>\<open>stat\<close> tells, and its bytes, if they can be read.\<close>

record sound_file =
  st_size :: int
  content :: "u8 list option"

section \<open>The device\<close>

definition WriteToSoundDevice :: "u8 list \<Rightarrow> SoundGlobals \<Rightarrow> int \<times> SoundGlobals" where
  "WriteToSoundDevice bs s =
    (let t = s\<lparr>attempts := attempts s + 1\<rparr>
     in case answer s (attempts s) bs of
       None \<Rightarrow> (- 1, t)
     | Some result \<Rightarrow> (result, t\<lparr>events := events s @ [Write bs]\<rparr>))"

text \<open>The strings among the events.\<close>

definition written :: "SoundGlobals \<Rightarrow> u8 list list" where
  "written s = concat (map (\<lambda>e. case e of Write bs \<Rightarrow> [bs] | Pause ms \<Rightarrow> []) (events s))"

interpretation snd_dev: device WriteToSoundDevice written "\<lambda>s bs. answer s (attempts s) bs \<noteq> None"
  by unfold_locales (auto simp: WriteToSoundDevice_def written_def Let_def split: option.split)

definition pause :: "nat \<Rightarrow> SoundGlobals \<Rightarrow> SoundGlobals" where
  "pause ms s = s\<lparr>events := events s @ [Pause ms]\<rparr>"

definition SoundInitialized :: "SoundGlobals \<Rightarrow> bool" where
  "SoundInitialized s \<longleftrightarrow> pSound s \<noteq> NoSound \<and> pSound s \<noteq> OwnSound"

definition SoundCloseDevices :: "SoundGlobals \<Rightarrow> SoundGlobals" where
  "SoundCloseDevices s = (if \<not> SoundInitialized s then s else s\<lparr>pSound := NoSound\<rparr>)"

text \<open>\<open>sndHandle\<close> is the result of \<^verbatim>\<open>open\<close>, \<open>mapped\<close> says whether \<^verbatim>\<open>mmap\<close> succeeds.\<close>

definition SoundInit :: "int \<Rightarrow> bool \<Rightarrow> SoundGlobals \<Rightarrow> bool \<times> SoundGlobals" where
  "SoundInit sndHandle mapped s =
    (if SoundInitialized s then (True, s)
     else
       let s = s\<lparr>hSoundFile := - 1, pSound := OwnSound\<rparr>
       in if sndHandle \<noteq> - 1 then
            if \<not> mapped then (False, SoundCloseDevices s) else (True, s\<lparr>pSound := SharedSound\<rparr>)
          else (False, s))"

definition StopSound :: "SoundGlobals \<Rightarrow> SoundGlobals" where
  "StopSound s =
    (if \<not> SoundInitialized s then s
     else
       let s = s\<lparr>soundState := SOUND_STATE_IDLE\<rparr>;
           s = (if hSoundFile s \<ge> 0 then s\<lparr>hSoundFile := - 1\<rparr> else s)
       in snd (WriteToSoundDevice [SOUND_CMD_BREAK] s))"

definition SoundOpen :: bool where "SoundOpen = True"

definition SoundClose :: "SoundGlobals \<Rightarrow> bool \<times> SoundGlobals" where
  "SoundClose s = (True, StopSound s)"

definition SoundExit :: "SoundGlobals \<Rightarrow> bool \<times> SoundGlobals" where
  "SoundExit s = (True, SoundCloseDevices (snd (SoundClose s)))"

text \<open>\<open>busy\<close> is what the flag in the shared memory shows, to \<^verbatim>\<open>SoundReady\<close> at each look.\<close>

definition SoundTest :: "u8 \<Rightarrow> SoundGlobals \<Rightarrow> bool" where
  "SoundTest busy s = (if SoundInitialized s then busy = 1 else False)"

partial_function (option) ready_loop :: "(nat \<Rightarrow> u8) \<Rightarrow> nat \<Rightarrow> nat option" where
  "ready_loop busy i = (if busy i \<noteq> 0 then ready_loop busy (i + 1) else Some i)"

definition SoundReady :: "(nat \<Rightarrow> u8) \<Rightarrow> SoundGlobals \<Rightarrow> nat option" where
  "SoundReady busy s = (if \<not> SoundInitialized s then Some 0 else ready_loop busy 0)"

definition SoundState :: "SoundGlobals \<Rightarrow> sound_state" where
  "SoundState s = (if SoundInitialized s then soundState s else SOUND_STATE_IDLE)"

definition MuteSound :: "SoundGlobals \<Rightarrow> SoundGlobals" where
  "MuteSound s = (StopSound s)\<lparr>SoundMuted := True\<rparr>"

definition UnmuteSound :: "SoundGlobals \<Rightarrow> SoundGlobals" where
  "UnmuteSound s = s\<lparr>SoundMuted := False\<rparr>"

definition ClearSound :: "SoundGlobals \<Rightarrow> SoundGlobals" where
  "ClearSound = StopSound"

section \<open>Tones\<close>

definition PlayToneEx :: "u16 \<Rightarrow> u16 \<Rightarrow> u8 \<Rightarrow> SoundGlobals \<Rightarrow> SoundGlobals" where
  "PlayToneEx frequency duration volume s =
    (if \<not> SoundInitialized s then s
     else if SoundMuted s then s
     else
       snd (WriteToSoundDevice
         [SOUND_CMD_TONE, of_nat (unat volume * 13 div 100), ucast frequency, ucast (drop_bit 8 frequency),
          ucast duration, ucast (drop_bit 8 duration)]
         (s\<lparr>Busy := True, soundState := SOUND_STATE_TONE\<rparr>)))"

definition PlayTone :: "u16 \<Rightarrow> u16 \<Rightarrow> SoundGlobals \<Rightarrow> SoundGlobals" where
  "PlayTone f d = PlayToneEx f d 100"

text \<open>\<^verbatim>\<open>TONE_C5 * i / 4\<close> for the given \<^verbatim>\<open>i\<close>, each for \<open>ms\<close> milliseconds.\<close>

definition sweep :: "nat list \<Rightarrow> nat \<Rightarrow> SoundGlobals \<Rightarrow> SoundGlobals" where
  "sweep is ms s = fold (\<lambda>i s. pause ms (PlayTone (of_nat (523 * i div 4)) (of_nat ms) s)) is s"

definition PlaySound :: "u8 \<Rightarrow> SoundGlobals \<Rightarrow> SoundGlobals" where
  "PlaySound aCode s =
    (if \<not> SoundInitialized s then s
     else if SoundMuted s then s
     else if aCode = 0 then PlayTone 600 200 s
     else if aCode = 1 then pause 150 (PlayTone 600 150 (pause 200 (PlayTone 600 150 s)))
     else if aCode = 3 then sweep [4, 5, 6, 7] 100 s
     else if aCode = 2 then sweep [7, 6, 5, 4] 100 s
     else if aCode = 4 then pause 500 (PlayTone 100 500 s)
     else if aCode = 5 then sweep [4, 5, 6, 7] 50 s
     else s)"

text \<open>Frequency and duration.\<close>

type_synonym Tone = "u16 \<times> u16"

fun play_tones :: "Tone list \<Rightarrow> nat \<Rightarrow> SoundGlobals \<Rightarrow> unit sounding" where
  "play_tones tones 0 s = gives () s"
| "play_tones [] (Suc n) s = Some Undef"
| "play_tones ((f, d) # tones) (Suc n) s = play_tones tones n (pause (unat d) (PlayTone f d s))"

definition PlayTonesEx :: "Tone list \<Rightarrow> nat \<Rightarrow> SoundGlobals \<Rightarrow> unit sounding" where
  "PlayTonesEx tones count s =
    (if \<not> SoundInitialized s then gives () s
     else if SoundMuted s then gives () s
     else play_tones tones count s)"

section \<open>ADPCM\<close>

definition StepSizeTable :: "int list" where
  "StepSizeTable = [
    7, 8, 9, 10, 11, 12, 13, 14, 16, 17,
    19, 21, 23, 25, 28, 31, 34, 37, 41, 45,
    50, 55, 60, 66, 73, 80, 88, 97, 107, 118,
    130, 143, 157, 173, 190, 209, 230, 253, 279, 307,
    337, 371, 408, 449, 494, 544, 598, 658, 724, 796,
    876, 963, 1060, 1166, 1282, 1411, 1552, 1707, 1878, 2066,
    2272, 2499, 2749, 3024, 3327, 3660, 4026, 4428, 4871, 5358,
    5894, 6484, 7132, 7845, 8630, 9493, 10442, 11487, 12635, 13899,
    15289, 16818, 18500, 20350, 22385, 24623, 27086, 29794, 32767]"

definition IndexTable :: "int list" where
  "IndexTable = [- 1, - 1, - 1, - 1, 2, 4, 6, 8, - 1, - 1, - 1, - 1, 2, 4, 6, 8]"

definition soundInitAdPcm :: "SoundGlobals \<Rightarrow> SoundGlobals" where
  "soundInitAdPcm s = s\<lparr>ValPrev := 0x7f, Index := 20, Step := StepSizeTable ! 20\<rparr>"

text \<open>
  An access outside of the tables is \<open>Undef\<close>. Every assignment to a \<^verbatim>\<open>short\<close> wraps around.
\<close>

definition soundGetAdPcmValue :: "nat \<Rightarrow> SoundGlobals \<Rightarrow> (u8 \<times> SoundGlobals) outcome" where
  "soundGetAdPcmValue Delta s =
    (if Index s < 0 \<or> 88 < Index s \<or> 16 \<le> Delta then Undef
     else
       let step = StepSizeTable ! nat (Index s);
           index = short (Index s + IndexTable ! Delta);
           index = (if index < 0 then 0 else if index > 88 then 88 else index);
           VpDiff = step div 8;
           VpDiff = (if bit Delta 2 then short (VpDiff + step) else VpDiff);
           VpDiff = (if bit Delta 1 then short (VpDiff + step div 2) else VpDiff);
           VpDiff = (if bit Delta 0 then short (VpDiff + step div 4) else VpDiff);
           val = (if bit Delta 3 then short (ValPrev s - VpDiff) else short (ValPrev s + VpDiff));
           val = (if val > 255 then 255 else if val < 0 then 0 else val)
       in Ret (word_of_int val, s\<lparr>Index := index, ValPrev := val, Step := StepSizeTable ! nat index\<rparr>))"

section \<open>Playing samples\<close>

definition read_file :: "nat \<Rightarrow> SoundGlobals \<Rightarrow> int \<times> u8 list \<times> SoundGlobals" where
  "read_file n s =
    (case unread s of
       None \<Rightarrow> (- 1, [], s)
     | Some bs \<Rightarrow> let got = take n bs in (int (length got), got, s\<lparr>unread := Some (drop n bs)\<rparr>))"

text \<open>The loop that decodes \<^verbatim>\<open>AdPcmData[i]\<close> into two bytes of \<^verbatim>\<open>SoundData\<close>.\<close>

fun decode_bytes :: "nat \<Rightarrow> u8 list \<Rightarrow> SoundGlobals \<Rightarrow> SoundGlobals outcome" where
  "decode_bytes i [] s = Ret s"
| "decode_bytes i (b # bs) s =
    (case soundGetAdPcmValue (unat (drop_bit 4 b AND 0x0f)) s of
       Undef \<Rightarrow> Undef
     | Ret (v, s) \<Rightarrow>
         let s = s\<lparr>SoundData := (SoundData s)[2 * i + 1 := v]\<rparr>
         in case soundGetAdPcmValue (unat (b AND 0x0f)) s of
              Undef \<Rightarrow> Undef
            | Ret (v, s) \<Rightarrow> decode_bytes (i + 1) bs (s\<lparr>SoundData := (SoundData s)[2 * i + 2 := v]\<rparr>))"

text \<open>A failing read of compressed data makes the loop run over 65535 bytes that were not read.\<close>

definition next_chunk :: "SoundGlobals \<Rightarrow> SoundGlobals outcome" where
  "next_chunk s =
    (let s = s\<lparr>SoundData := (SoundData s)[0 := SOUND_CMD_SERVICE]\<rparr>
     in if SoundFileFormat s = SOUND_FILE_FORMAT_ADPCM_SOUND then
          let BytesToRead = (if SoundDataLength s > int SOUND_ADPCM_CHUNK then SOUND_ADPCM_CHUNK else nat (SoundDataLength s));
              (BytesRead, got, s) = read_file BytesToRead s
          in if BytesRead < 0 then Undef
             else case decode_bytes 0 got s of
                    Undef \<Rightarrow> Undef
                  | Ret s \<Rightarrow> Ret (s\<lparr>BytesToWrite := word_of_int (1 + BytesRead * 2)\<rparr>)
        else
          let BytesToRead = (if SoundDataLength s > int SOUND_CHUNK then SOUND_CHUNK else nat (SoundDataLength s));
              (BytesRead, got, s) = read_file BytesToRead s
          in Ret (s\<lparr>SoundData := put_at 1 got (SoundData s), BytesToWrite := word_of_int (BytesRead + 1)\<rparr>))"

text \<open>The result of writing is stored in an \<^verbatim>\<open>unsigned short\<close>; writing is retried while it is 0.\<close>

partial_function (option) write_until :: "u8 list \<Rightarrow> SoundGlobals \<Rightarrow> u16 sounding" where
  "write_until bs s =
    (let (result, s) = WriteToSoundDevice bs s;
         BytesWritten = word_of_int result
     in if BytesWritten = 0 then write_until bs (pause 1 s) else gives BytesWritten s)"

definition samples_turn :: "SoundGlobals \<Rightarrow> unit sounding" where
  "samples_turn s =
    (case next_chunk s of
       Undef \<Rightarrow> Some Undef
     | Ret s \<Rightarrow>
         next_with (write_until (take (unat (BytesToWrite s)) (SoundData s)) s) (\<lambda>BytesWritten s.
           gives () (if BytesWritten > 1 then
             let Delta = (if SoundFileFormat s = SOUND_FILE_FORMAT_ADPCM_SOUND then BytesWritten div 2 else BytesWritten)
             in s\<lparr>SoundDataLength := SoundDataLength s - uint Delta,
                  BytesToWrite := BytesToWrite s - ucast (BytesWritten + 1)\<rparr>
           else s)))"

partial_function (option) playSoundSamplesFromStream :: "SoundGlobals \<Rightarrow> unit sounding" where
  "playSoundSamplesFromStream s =
    (if SoundDataLength s > 0 then
       Option.bind (samples_turn s) (\<lambda>r. case r of
         Undef \<Rightarrow> Some Undef
       | Ret (_, s) \<Rightarrow> playSoundSamplesFromStream s)
     else gives () s)"

section \<open>Playing files\<close>

text \<open>A local variable is \<open>None\<close> until something is stored into it; reading at the end of the file stores nothing.\<close>

definition read_byte :: "u8 option \<Rightarrow> SoundGlobals \<Rightarrow> u8 option \<times> SoundGlobals" where
  "read_byte old s = (let (_, got, s) = read_file 1 s in (if got = [] then old else Some (hd got), s))"

definition read_pair :: "u8 option \<times> u8 option \<Rightarrow> SoundGlobals \<Rightarrow> (u8 option \<times> u8 option) \<times> SoundGlobals" where
  "read_pair old s = (let (msb, s) = read_byte (fst old) s; (lsb, s) = read_byte (snd old) s in ((msb, lsb), s))"

text \<open>\<^verbatim>\<open>(msb * 256) + lsb\<close>, which is also \<^verbatim>\<open>(short)Tmp1 << 8 | (short)Tmp2\<close>.\<close>

fun big_endian :: "u8 option \<times> u8 option \<Rightarrow> u16 option" where
  "big_endian (Some msb, Some lsb) = Some (push_bit 8 (ucast msb) OR ucast lsb)"
| "big_endian _ = None"

fun read_bytes :: "nat \<Rightarrow> SoundGlobals \<Rightarrow> u8 list option \<times> SoundGlobals" where
  "read_bytes 0 s = (Some [], s)"
| "read_bytes (Suc n) s =
    (let (b, s) = read_byte None s; (bs, s) = read_bytes n s
     in (Option.bind b (\<lambda>b. map_option (\<lambda>bs. b # bs) bs), s))"

definition readInt :: "bool \<Rightarrow> SoundGlobals \<Rightarrow> u32 sounding" where
  "readInt lsb s =
    (case read_bytes 4 s of
       (None, s) \<Rightarrow> Some Undef
     | (Some bs, s) \<Rightarrow> gives (get32 (if lsb then bs else rev bs) 0) s)"

definition readShort :: "bool \<Rightarrow> SoundGlobals \<Rightarrow> u16 sounding" where
  "readShort lsb s =
    (case read_bytes 2 s of
       (None, s) \<Rightarrow> Some Undef
     | (Some bs, s) \<Rightarrow> gives (get16 (if lsb then bs else rev bs) 0) s)"

text \<open>How all three players begin; the value says whether the file is open.\<close>

definition start_file :: "string \<Rightarrow> (nat \<times> sound_file) option \<Rightarrow> SoundGlobals \<Rightarrow> bool sounding" where
  "start_file pFileName file s =
    (let s = s\<lparr>soundState := SOUND_STATE_IDLE, Busy := True\<rparr>
     in if FILENAME_SIZE \<le> length pFileName then Some Undef
        else case file of
            None \<Rightarrow> gives False (s\<lparr>hSoundFile := - 1\<rparr>)
          | Some (fd, f) \<Rightarrow> gives True (s\<lparr>hSoundFile := int fd, unread := content f, SoundFileLength := st_size f\<rparr>))"

definition file_state :: "bool \<Rightarrow> sound_state" where
  "file_state looping = (if looping then SOUND_STATE_FILE_LOOPING else SOUND_STATE_FILE)"

definition MELODY_FMT :: u16 where "MELODY_FMT = 0x0600"

function rmd_tones :: "u8 \<Rightarrow> nat \<Rightarrow> u8 option \<times> u8 option \<Rightarrow> SoundGlobals \<Rightarrow> unit sounding" where
  "rmd_tones volume dataBytes old s =
    (if dataBytes = 0 then gives () s
     else
       let (f, s) = read_pair old s;
           (d, s) = read_pair f s
       in case (big_endian f, big_endian d) of
            (Some freq, Some dur) \<Rightarrow> rmd_tones volume (dataBytes - 4) d (pause (unat dur) (PlayToneEx freq dur volume s))
          | _ \<Rightarrow> Some Undef)"
  by pat_completeness auto
termination by (relation "measure (\<lambda>(volume, dataBytes, old, s). dataBytes)") auto

declare rmd_tones.simps [simp del]

definition playRMDFile :: "string \<Rightarrow> u8 \<Rightarrow> bool \<Rightarrow> (nat \<times> sound_file) option \<Rightarrow> SoundGlobals \<Rightarrow> unit sounding" where
  "playRMDFile pFileName volume looping file s =
    next_with (start_file pFileName file s) (\<lambda>opened s.
      if \<not> opened \<or> SoundFileLength s < 8 then gives () s
      else
        let (m, s) = read_pair (None, None) s
        in case big_endian m of
             None \<Rightarrow> Some Undef
           | Some fmt \<Rightarrow>
               if fmt \<noteq> MELODY_FMT then gives () s
               else
                 let (m, s) = read_pair m s
                 in case big_endian m of
                      None \<Rightarrow> Some Undef
                    | Some dataBytes \<Rightarrow>
                        if dataBytes = 0 \<or> dataBytes mod 4 \<noteq> 0 then gives () s
                        else
                          let s = s\<lparr>soundState := file_state looping\<rparr>;
                              (m, s) = read_pair m s;
                              (m, s) = read_pair m s
                          in rmd_tones volume (unat dataBytes) m s)"

definition set_volume :: "u8 \<Rightarrow> SoundGlobals \<Rightarrow> SoundGlobals" where
  "set_volume volume s = snd (WriteToSoundDevice [SOUND_CMD_PLAY, of_nat (unat volume * 8 div 100)] s)"

definition RIFF_HDR_SIZE :: int where "RIFF_HDR_SIZE = 44"
definition RIFF_RIFF_SIG :: u32 where "RIFF_RIFF_SIG = 0x52494646"
definition RIFF_WAVE_SIG :: u32 where "RIFF_WAVE_SIG = 0x57415645"
definition RIFF_FMT_SIG :: u32 where "RIFF_FMT_SIG = 0x666d7420"
definition RIFF_FMT_PCM :: u16 where "RIFF_FMT_PCM = 0x0100"
definition RIFF_FMT_1CHAN :: u16 where "RIFF_FMT_1CHAN = 0x0100"
definition RIFF_FMT_8BITS :: u16 where "RIFF_FMT_8BITS = 0x0800"
definition RIFF_DATA_SIG :: u32 where "RIFF_DATA_SIG = 0x64617461"

text \<open>
  \<^verbatim>\<open>while (n-- > 0) read(...)\<close>: skipping single bytes, at the end of the file without effect. The last
  decrement of the smallest \<^verbatim>\<open>int\<close> overflows.
\<close>

definition skip_bytes :: "int \<Rightarrow> SoundGlobals \<Rightarrow> unit sounding" where
  "skip_bytes n s =
    (case int32 (n - 1) of
       None \<Rightarrow> Some Undef
     | Some _ \<Rightarrow> gives () (s\<lparr>unread := map_option (drop (nat n)) (unread s)\<rparr>))"

partial_function (option) find_data :: "SoundGlobals \<Rightarrow> int sounding" where
  "find_data s =
    Option.bind (readInt False s) (\<lambda>r. case r of Undef \<Rightarrow> Some Undef | Ret (chunk, s) \<Rightarrow>
      Option.bind (readInt True s) (\<lambda>r. case r of Undef \<Rightarrow> Some Undef | Ret (dataLen, s) \<Rightarrow>
        if chunk = RIFF_DATA_SIG then gives (sint dataLen) s
        else Option.bind (skip_bytes (sint dataLen) s) (\<lambda>r. case r of Undef \<Rightarrow> Some Undef | Ret (_, s) \<Rightarrow> find_data s)))"

definition playWAVFile :: "string \<Rightarrow> u8 \<Rightarrow> bool \<Rightarrow> (nat \<times> sound_file) option \<Rightarrow> SoundGlobals \<Rightarrow> unit sounding" where
  "playWAVFile pFileName volume looping file s =
    next_with (start_file pFileName file s) (\<lambda>opened s. if \<not> opened \<or> SoundFileLength s < RIFF_HDR_SIZE then gives () s else
    next_with (readInt False s) (\<lambda>sig s. if sig \<noteq> RIFF_RIFF_SIG then gives () s else
    next_with (readInt True s) (\<lambda>_ s.
    next_with (readInt False s) (\<lambda>sig s. if sig \<noteq> RIFF_WAVE_SIG then gives () s else
    next_with (readInt False s) (\<lambda>sig s. if sig \<noteq> RIFF_FMT_SIG then gives () s else
    next_with (readInt True s) (\<lambda>sz s.
    next_with (readShort False s) (\<lambda>fmt s. if fmt \<noteq> RIFF_FMT_PCM then gives () s else
    next_with (readShort False s) (\<lambda>channels s. if channels \<noteq> RIFF_FMT_1CHAN then gives () s else
    next_with (readInt True s) (\<lambda>sampleRate s.
    next_with (readInt True s) (\<lambda>_ s.
    next_with (readShort True s) (\<lambda>_ s.
    next_with (readShort False s) (\<lambda>bits s. if bits \<noteq> RIFF_FMT_8BITS then gives () s else
    (case int32 (sint sz - 16) of None \<Rightarrow> Some Undef | Some sz \<Rightarrow>
    next_with (skip_bytes sz s) (\<lambda>_ s.
    next_with (find_data s) (\<lambda>dataLen s.
      let s = s\<lparr>SoundDataLength := dataLen, SoundFileFormat := SOUND_FILE_FORMAT_RAW_SOUND,
                soundState := SOUND_STATE_SETUP_FILE\<rparr>
      in playSoundSamplesFromStream ((set_volume volume s)\<lparr>soundState := file_state looping\<rparr>))))))))))))))))"

definition playRSOFile :: "string \<Rightarrow> u8 \<Rightarrow> bool \<Rightarrow> (nat \<times> sound_file) option \<Rightarrow> SoundGlobals \<Rightarrow> unit sounding" where
  "playRSOFile pFileName volume looping file s =
    next_with (start_file pFileName file s) (\<lambda>opened s.
      if \<not> opened then gives () s
      else
        let (f, s) = read_pair (None, None) s;
            (l, s) = read_pair f s;
            (r, s) = read_pair l s;
            (m, s) = read_pair r s
        in case (big_endian f, big_endian l, big_endian r, big_endian m) of
             (Some format, Some dataLength, Some sampleRate, Some playMode) \<Rightarrow>
               let s = s\<lparr>SoundFileFormat := format, SoundDataLength := uint dataLength, SoundSampleRate := sampleRate,
                         SoundPlayMode := playMode, soundState := SOUND_STATE_SETUP_FILE\<rparr>;
                   s = (if format = SOUND_FILE_FORMAT_ADPCM_SOUND then soundInitAdPcm s else s)
               in playSoundSamplesFromStream ((set_volume volume s)\<lparr>soundState := file_state looping\<rparr>)
           | _ \<Rightarrow> Some Undef)"

text \<open>\<^verbatim>\<open>strstr\<close>.\<close>

fun contains :: "string \<Rightarrow> string \<Rightarrow> bool" where
  "contains [] sub = (sub = [])"
| "contains (c # cs) sub = (take (length sub) (c # cs) = sub \<or> contains cs sub)"

definition play_file_once :: "string \<Rightarrow> u8 \<Rightarrow> bool \<Rightarrow> (nat \<times> sound_file) option \<Rightarrow> SoundGlobals \<Rightarrow> unit sounding" where
  "play_file_once pFileName volume looping =
    (if contains pFileName ''.rmd'' then playRMDFile pFileName volume looping
     else if contains pFileName ''.wav'' then playWAVFile pFileName volume looping
     else playRSOFile pFileName volume looping)"

text \<open>\<open>file\<close> is what the name leads to, with the descriptor that \<^verbatim>\<open>open\<close> gives.\<close>

partial_function (option) play_file_loop ::
    "string \<Rightarrow> u8 \<Rightarrow> bool \<Rightarrow> (nat \<times> sound_file) option \<Rightarrow> SoundGlobals \<Rightarrow> unit sounding" where
  "play_file_loop pFileName volume looping file s =
    Option.bind (play_file_once pFileName volume looping file s) (\<lambda>r. case r of
      Undef \<Rightarrow> Some Undef
    | Ret (_, s) \<Rightarrow> if looping \<and> StopLoop s \<noteq> 1 then play_file_loop pFileName volume looping file s else gives () s)"

definition PlayFileEx :: "string \<Rightarrow> u8 \<Rightarrow> bool \<Rightarrow> (nat \<times> sound_file) option \<Rightarrow> SoundGlobals \<Rightarrow> unit sounding" where
  "PlayFileEx pFileName volume looping file s =
    (if \<not> SoundInitialized s then gives () s
     else if SoundMuted s then gives () s
     else play_file_loop pFileName volume looping file s)"

definition PlayFile :: "string \<Rightarrow> (nat \<times> sound_file) option \<Rightarrow> SoundGlobals \<Rightarrow> unit sounding" where
  "PlayFile f = PlayFileEx f 100 False"

end
