(* ===== verification/SoundDecoder.thy ===== *)
theory SoundDecoder
  imports Sound
begin

text \<open>
  The ADPCM decoder of \<^verbatim>\<open>ev3_sound.c\<close> against decoding in ideal arithmetic: it never leaves its tables, and the
  two agree as long as the differences fit into a \<^verbatim>\<open>short\<close>.
\<close>

section \<open>The decoder\<close>

text \<open>ADPCM decoding without limits of the integers in between: a value and an index from a value and an index.\<close>

definition clamp :: "int \<Rightarrow> int \<Rightarrow> int" where
  "clamp hi x = max 0 (min hi x)"

definition adpcm_step :: "nat \<Rightarrow> int \<times> int \<Rightarrow> int \<times> int" where
  "adpcm_step d = (\<lambda>(val, index).
    let step = StepSizeTable ! nat index;
        diff = step div 8 + (if bit d 2 then step else 0) + (if bit d 1 then step div 2 else 0) + (if bit d 0 then step div 4 else 0)
    in (clamp 255 (if bit d 3 then val - diff else val + diff), clamp 88 (index + IndexTable ! d)))"

fun adpcm :: "nat list \<Rightarrow> int \<times> int \<Rightarrow> u8 list \<times> int \<times> int" where
  "adpcm [] k = ([], k)"
| "adpcm (d # ds) k = (let k = adpcm_step d k; (out, k') = adpcm ds k in (word_of_int (fst k) # out, k'))"

definition halves :: "u8 list \<Rightarrow> nat list" where
  "halves bs = concat (map (\<lambda>b. [unat (drop_bit 4 b AND 0x0f), unat (b AND 0x0f)]) bs)"

text \<open>The index stays where the steps are small enough for a \<^verbatim>\<open>short\<close>.\<close>

fun gentle :: "nat list \<Rightarrow> int \<times> int \<Rightarrow> bool" where
  "gentle [] k = True"
| "gentle (d # ds) k = (snd k \<le> 81 \<and> gentle ds (adpcm_step d k))"

lemma halves_simps [simp]:
  "halves [] = []" "halves (b # bs) = unat (drop_bit 4 b AND 0x0f) # unat (b AND 0x0f) # halves bs"
  "halves (xs @ ys) = halves xs @ halves ys" "length (halves bs) = 2 * length bs"
  by (simp_all add: halves_def) (induction bs, simp_all)

lemma half_less [simp]: "unat (b AND 0x0f :: u8) < 16"
proof -
  have "b AND 0x0f = take_bit 4 b" by (simp add: take_bit_eq_mask mask_eq_exp_minus_1)
  then show ?thesis by (simp add: unsigned_take_bit_eq take_bit_nat_less_exp [of 4, simplified])
qed

lemma steps: "0 \<le> i \<Longrightarrow> i \<le> 88 \<Longrightarrow> 7 \<le> StepSizeTable ! nat i \<and> StepSizeTable ! nat i \<le> 32767"
  and small_steps: "0 \<le> i \<Longrightarrow> i \<le> 81 \<Longrightarrow> StepSizeTable ! nat i \<le> 16818"
proof -
  have "list_all (\<lambda>x. 7 \<le> x \<and> x \<le> 32767) StepSizeTable" "list_all (\<lambda>x. x \<le> 16818) (take 82 StepSizeTable)"
    by code_simp+
  moreover have "length StepSizeTable = 89" by code_simp
  ultimately show "0 \<le> i \<Longrightarrow> i \<le> 88 \<Longrightarrow> 7 \<le> StepSizeTable ! nat i \<and> StepSizeTable ! nat i \<le> 32767"
    "0 \<le> i \<Longrightarrow> i \<le> 81 \<Longrightarrow> StepSizeTable ! nat i \<le> 16818"
    by (simp_all add: list_all_length)
qed

lemma index_steps: "d < 16 \<Longrightarrow> - 1 \<le> IndexTable ! d \<and> IndexTable ! d \<le> 8"
proof -
  have "list_all (\<lambda>x. - 1 \<le> x \<and> x \<le> 8) IndexTable" "length IndexTable = 16" by code_simp+
  then show "d < 16 \<Longrightarrow> - 1 \<le> IndexTable ! d \<and> IndexTable ! d \<le> 8" by (simp add: list_all_length)
qed

text \<open>Where the decoder is, is always inside of the tables.\<close>

definition decoding :: "SoundGlobals \<Rightarrow> bool" where
  "decoding s \<longleftrightarrow> 0 \<le> Index s \<and> Index s \<le> 88 \<and> 0 \<le> ValPrev s \<and> ValPrev s \<le> 255"

lemma in_tables: "decoding s \<Longrightarrow> d < 16 \<Longrightarrow> (Index s < 0 \<or> 88 < Index s \<or> 16 \<le> d) = False" for d :: nat
  by (auto simp: decoding_def)

lemma decoder_stays:
  assumes "decoding s" and "d < 16"
  shows "\<exists>v i. soundGetAdPcmValue d s = Ret (word_of_int v, s\<lparr>Index := i, ValPrev := v, Step := StepSizeTable ! nat i\<rparr>)
    \<and> 0 \<le> i \<and> i \<le> 88 \<and> 0 \<le> v \<and> v \<le> 255"
proof -
  define step where "step = StepSizeTable ! nat (Index s)"
  have s: "0 \<le> Index s" "Index s \<le> 88" using assms(1) by (simp_all add: decoding_def)
  define i where "i = (let i = short (Index s + IndexTable ! d) in if i < 0 then 0 else if i > 88 then 88 else i)"
  define w where "w = (let D = step div 8; D = (if bit d 2 then short (D + step) else D);
      D = (if bit d 1 then short (D + step div 2) else D); D = (if bit d 0 then short (D + step div 4) else D)
    in if bit d 3 then short (ValPrev s - D) else short (ValPrev s + D))"
  define v where "v = (if w > 255 then 255 else if w < 0 then 0 else w)"
  have "soundGetAdPcmValue d s = Ret (word_of_int v, s\<lparr>Index := i, ValPrev := v, Step := StepSizeTable ! nat i\<rparr>)"
    by (simp only: soundGetAdPcmValue_def Let_def i_def v_def w_def step_def in_tables [OF assms] if_False)
  moreover have "0 \<le> i \<and> i \<le> 88 \<and> 0 \<le> v \<and> v \<le> 255" by (simp add: i_def v_def Let_def)
  ultimately show ?thesis by blast
qed

lemma decoder_exact:
  assumes "decoding s" and "d < 16" and "Index s \<le> 81"
  shows "soundGetAdPcmValue d s = (let k = adpcm_step d (ValPrev s, Index s)
    in Ret (word_of_int (fst k), s\<lparr>Index := snd k, ValPrev := fst k, Step := StepSizeTable ! nat (snd k)\<rparr>))"
proof -
  define step where "step = StepSizeTable ! nat (Index s)"
  have s: "0 \<le> Index s" "Index s \<le> 88" "0 \<le> ValPrev s" "ValPrev s \<le> 255" using assms(1) by (simp_all add: decoding_def)
  have st: "7 \<le> step" "step \<le> 16818" using steps small_steps s assms(3) by (simp_all add: step_def)
  have idx: "short (Index s + IndexTable ! d) = Index s + IndexTable ! d"
    using index_steps [OF assms(2)] s by (intro short_id) auto
  have d8: "0 \<le> step div 8" "step div 8 \<le> 2102" "0 \<le> step div 2" "step div 2 \<le> 8409" "0 \<le> step div 4" "step div 4 \<le> 4204"
    using st by auto
  define D2 where "D2 = step div 8 + (if bit d 2 then step else 0)"
  define D1 where "D1 = D2 + (if bit d 1 then step div 2 else 0)"
  define D0 where "D0 = D1 + (if bit d 0 then step div 4 else 0)"
  have D2: "(if bit d 2 then short (step div 8 + step) else step div 8) = D2" "0 \<le> D2" "D2 \<le> 18920"
    using st d8 by (simp_all add: D2_def)
  have D1: "(if bit d 1 then short (D2 + step div 2) else D2) = D1" "0 \<le> D1" "D1 \<le> 27329"
    using D2(2,3) d8 by (simp_all add: D1_def)
  have D0: "(if bit d 0 then short (D1 + step div 4) else D1) = D0" "0 \<le> D0" "D0 \<le> 31533"
    using D1(2,3) d8 by (simp_all add: D0_def)
  have val: "short (ValPrev s - D0) = ValPrev s - D0" "short (ValPrev s + D0) = ValPrev s + D0"
    using s D0 by simp_all
  have clamps: "(if v > 255 then 255 else if v < 0 then 0 else v) = clamp 255 v" "(if v < 0 then 0 else if v > 88 then 88 else v) = clamp 88 v"
    for v :: int by (simp_all add: clamp_def)
  have "soundGetAdPcmValue d s =
      (let v = clamp 255 (if bit d 3 then ValPrev s - D0 else ValPrev s + D0); i = clamp 88 (Index s + IndexTable ! d)
       in Ret (word_of_int v, s\<lparr>Index := i, ValPrev := v, Step := StepSizeTable ! nat i\<rparr>))"
    by (simp only: soundGetAdPcmValue_def Let_def step_def [symmetric] D2(1) D1(1) D0(1) idx val clamps
        in_tables [OF assms(1,2)] if_False)
  then show ?thesis
    by (simp only: adpcm_step_def Let_def step_def [symmetric] D0_def D1_def D2_def case_prod_conv fst_conv snd_conv)
qed

lemma clamp_range: "0 \<le> hi \<Longrightarrow> 0 \<le> clamp hi x \<and> clamp hi x \<le> hi"
  by (simp add: clamp_def)

lemma adpcm_step_stays: "k = adpcm_step d (ValPrev s, Index s) \<Longrightarrow> decoding (s\<lparr>Index := snd k, ValPrev := fst k, Step := x\<rparr>)"
  by (simp add: decoding_def adpcm_step_def Let_def clamp_range)

lemma adpcm_append: "adpcm (xs @ ys) k = (let (out, k) = adpcm xs k; (out', k) = adpcm ys k in (out @ out', k))"
  by (induction xs arbitrary: k) (simp_all add: Let_def case_prod_beta)

lemma length_adpcm [simp]: "length (fst (adpcm ds k)) = length ds"
  by (induction ds arbitrary: k) (simp_all add: Let_def case_prod_beta)

lemma gentle_append: "gentle (xs @ ys) k \<longleftrightarrow> gentle xs k \<and> gentle ys (snd (adpcm xs k))"
  by (induction xs arbitrary: k) (simp_all add: Let_def case_prod_beta)

text \<open>Where the decoder stands.\<close>

abbreviation adpcm_state :: "SoundGlobals \<Rightarrow> int \<times> int" where
  "adpcm_state s \<equiv> (ValPrev s, Index s)"

lemma put_two:
  assumes "j + 1 < length m"
  shows "put_at (j + 2) out (m[j := a, j + 1 := b]) = put_at j (a # b # out) m"
proof -
  obtain us x y vs where m: "m = us @ x # y # vs" "length us = j"
  proof
    show "m = take j m @ m ! j # m ! (j + 1) # drop (j + 2) m"
      using assms by (simp add: Cons_nth_drop_Suc)
  qed (use assms in simp)
  then show ?thesis by (simp add: put_at_def list_update_append)
qed

text \<open>Decoding a buffer, compared with decoding in ideal arithmetic.\<close>

lemma decode_bytes_exact:
  assumes "decoding s" and "gentle (halves bs) (adpcm_state s)" and "2 * (i + length bs) < length (SoundData s)"
  shows "\<exists>x. decode_bytes i bs s = (let (out, v, k) = adpcm (halves bs) (adpcm_state s)
    in Ret (s\<lparr>SoundData := put_at (2 * i + 1) out (SoundData s), ValPrev := v, Index := k, Step := x\<rparr>))
    \<and> decoding (s\<lparr>ValPrev := fst (snd (adpcm (halves bs) (adpcm_state s))), Index := snd (snd (adpcm (halves bs) (adpcm_state s)))\<rparr>)"
  using assms
proof (induction bs arbitrary: i s)
  case Nil
  then show ?case by (intro exI [of _ "Step s"]) (simp add: put_at_def)
next
  case (Cons b bs)
  let ?d1 = "unat (drop_bit 4 b AND 0x0f)" and ?d2 = "unat (b AND 0x0f)"
  define k1 where "k1 = adpcm_step ?d1 (adpcm_state s)"
  define s1 where "s1 = s\<lparr>Index := snd k1, ValPrev := fst k1, Step := StepSizeTable ! nat (snd k1),
      SoundData := (SoundData s)[2 * i + 1 := word_of_int (fst k1)]\<rparr>"
  define k2 where "k2 = adpcm_step ?d2 (adpcm_state s1)"
  define s2 where "s2 = s1\<lparr>Index := snd k2, ValPrev := fst k2, Step := StepSizeTable ! nat (snd k2),
      SoundData := (SoundData s1)[2 * i + 2 := word_of_int (fst k2)]\<rparr>"
  have s1: "s\<lparr>Index := snd k1, ValPrev := fst k1, Step := StepSizeTable ! nat (snd k1),
      SoundData := (SoundData s)[Suc (2 * i) := word_of_int (fst k1)]\<rparr> = s1" by (simp add: s1_def)
  have s2: "s1\<lparr>Index := snd k2, ValPrev := fst k2, Step := StepSizeTable ! nat (snd k2),
      SoundData := (SoundData s1)[Suc (Suc (2 * i)) := word_of_int (fst k2)]\<rparr> = s2" by (simp add: s2_def)
  have d1: "decoding s1" using adpcm_step_stays [of k1 ?d1 s] by (simp add: s1_def k1_def decoding_def)
  have d2: "decoding s2" using adpcm_step_stays [of k2 ?d2 s1] by (simp add: s2_def k2_def decoding_def)
  have g: "Index s \<le> 81" "Index s1 \<le> 81" "gentle (halves bs) (adpcm_state s2)"
    using Cons.prems(2) by (simp_all add: s1_def s2_def k1_def k2_def)
  have "decode_bytes i (b # bs) s = decode_bytes (i + 1) bs s2"
    using decoder_exact [OF Cons.prems(1) _ g(1), of ?d1] decoder_exact [OF d1 _ g(2), of ?d2]
    by (simp add: Let_def k1_def [symmetric] k2_def [symmetric] s1 s2)
  moreover have "2 * (i + 1 + length bs) < length (SoundData s2)" using Cons.prems(3) by (simp add: s2_def s1_def)
  moreover obtain out v k where a: "adpcm (halves bs) (adpcm_state s2) = (out, v, k)" by (cases "adpcm (halves bs) (adpcm_state s2)")
  ultimately obtain x where x: "decode_bytes i (b # bs) s
      = Ret (s2\<lparr>SoundData := put_at (2 * (i + 1) + 1) out (SoundData s2), ValPrev := v, Index := k, Step := x\<rparr>)"
      "decoding (s2\<lparr>ValPrev := v, Index := k\<rparr>)"
    using Cons.IH [OF d2 g(3), of "i + 1"] by auto
  have all: "adpcm (halves (b # bs)) (adpcm_state s) = (word_of_int (fst k1) # word_of_int (fst k2) # out, v, k)"
    using a by (simp add: Let_def k1_def k2_def s1_def s2_def)
  have put: "put_at (2 * (i + 1) + 1) out (SoundData s2)
      = put_at (2 * i + 1) (word_of_int (fst k1) # word_of_int (fst k2) # out) (SoundData s)"
    using Cons.prems(3) put_two [of "2 * i + 1" "SoundData s" out] by (simp add: s2_def s1_def)
  show ?case
    using x unfolding all by (intro exI [of _ x]) (simp add: put [unfolded s2_def s1_def, simplified] s2_def s1_def decoding_def)
qed

end
