(* ===== verification/SoundPlay.thy ===== *)
theory SoundPlay
  imports SoundDecoder
begin

text \<open>
  What the sound device gets when samples, whole files and melodies are played, and which of them never stop.
\<close>

section \<open>What the device gets\<close>

text \<open>
  A string can be refused with the answer 0; the program then waits a millisecond and offers it again. How the
  strings \<open>ps\<close> get to a device with the answers \<open>ans\<close>, from the \<open>n\<close>-th attempt on.
\<close>

inductive delivers :: "(nat \<Rightarrow> u8 list \<Rightarrow> int option) \<Rightarrow> nat \<Rightarrow> u8 list list \<Rightarrow> sound_event list \<Rightarrow> bool" for ans where
  delivers_done: "delivers ans n [] []"
| delivers_refused: "ans n p = Some 0 \<Longrightarrow> delivers ans (Suc n) (p # ps) es \<Longrightarrow> delivers ans n (p # ps) (Write p # Pause 1 # es)"
| delivers_taken: "ans n p \<noteq> Some 0 \<Longrightarrow> delivers ans (Suc n) ps es \<Longrightarrow> delivers ans n (p # ps) (Write p # es)"

inductive_simps delivers_Nil: "delivers ans n [] es"
inductive_cases delivers_ConsE: "delivers ans n (p # ps) es"

lemma delivers_Cons:
  "ans n p = Some 0 \<Longrightarrow> delivers ans n (p # ps) es \<longleftrightarrow> (\<exists>es'. es = Write p # Pause 1 # es' \<and> delivers ans (Suc n) (p # ps) es')"
  "ans n p \<noteq> Some 0 \<Longrightarrow> delivers ans n (p # ps) es \<longleftrightarrow> (\<exists>es'. es = Write p # es' \<and> delivers ans (Suc n) ps es')"
  by (auto elim: delivers_ConsE intro: delivers_refused [unfolded One_nat_def] delivers_taken)

text \<open>The device can be opened.\<close>

definition responsive :: "SoundGlobals \<Rightarrow> bool" where
  "responsive s \<longleftrightarrow> (\<forall>n bs. answer s n bs \<noteq> None)"

text \<open>
  What playing samples needs of the device, which is a driver in the kernel of the brick: that it can be opened,
  and that it takes each string of samples, offered often enough, as a whole. It then answers either with the
  number of bytes, as POSIX has it for \<^verbatim>\<open>write\<close> (\<open>counted\<close>), or with one less, for the command not counted, as
  the code assumes when it adds one for the command to the answer.
\<close>

definition takes_samples :: "bool \<Rightarrow> SoundGlobals \<Rightarrow> bool" where
  "takes_samples counted s \<longleftrightarrow> responsive s
    \<and> (\<forall>n p. p \<noteq> [] \<longrightarrow> (\<exists>k. (\<forall>i<k. answer s (n + i) (SOUND_CMD_SERVICE # p) = Some 0)
        \<and> answer s (n + k) (SOUND_CMD_SERVICE # p) = Some (int (length p + of_bool counted))))"

text \<open>From one state to another these strings are delivered.\<close>

definition sends :: "SoundGlobals \<Rightarrow> u8 list list \<Rightarrow> SoundGlobals \<Rightarrow> bool" where
  "sends s ps s' \<longleftrightarrow> (\<exists>es. events s' = events s @ es
    \<and> (\<forall>qs es'. delivers (answer s) (attempts s') qs es' \<longrightarrow> delivers (answer s) (attempts s) (ps @ qs) (es @ es')))"

lemma sends_nothing: "events s' = events s \<Longrightarrow> attempts s' = attempts s \<Longrightarrow> sends s [] s'"
  by (simp add: sends_def)

lemma sends_more: "sends s ps s1 \<Longrightarrow> sends s1 qs s2 \<Longrightarrow> answer s1 = answer s \<Longrightarrow> sends s (ps @ qs) s2"
  by (force simp: sends_def)

lemma sends_delivers: "sends s ps s' \<Longrightarrow> \<exists>es. events s' = events s @ es \<and> delivers (answer s) (attempts s) ps es"
  using delivers_done [of "answer s" "attempts s'"] by (force simp: sends_def)

text \<open>A string that is refused \<open>k\<close> times.\<close>

lemma write_until_taken:
  assumes "\<forall>i<k. answer s (attempts s + i) bs = Some 0" and "answer s (attempts s + k) bs = Some r"
    and "(word_of_int r :: u16) \<noteq> 0"
  shows "\<exists>s'. write_until bs s = gives (word_of_int r) s' \<and> sends s [bs] s' \<and> (\<exists>n es. s' = s\<lparr>attempts := n, events := es\<rparr>)"
  using assms
proof (induction k arbitrary: s)
  case 0
  let ?t = "s\<lparr>attempts := attempts s + 1, events := events s @ [Write bs]\<rparr>"
  from 0 have "answer s (attempts s) bs \<noteq> Some 0" by auto
  then have "sends s [bs] ?t"
    unfolding sends_def by (intro exI [of _ "[Write bs]"]) (simp add: delivers_taken)
  moreover have "write_until bs s = gives (word_of_int r) ?t"
    using 0 by (subst write_until.simps) (simp add: WriteToSoundDevice_def Let_def)
  ultimately show ?case by blast
next
  case (Suc k)
  let ?t = "pause 1 (s\<lparr>attempts := attempts s + 1, events := events s @ [Write bs]\<rparr>)"
  have zero: "answer s (attempts s) bs = Some 0" using Suc.prems(1) [rule_format, of 0] by simp
  then have step: "write_until bs s = write_until bs ?t"
    by (subst write_until.simps) (simp add: WriteToSoundDevice_def Let_def)
  have "answer ?t (attempts ?t + i) bs = Some 0" if "i < k" for i
    using Suc.prems(1) [rule_format, of "Suc i"] that by (simp add: pause_def)
  moreover have "answer ?t (attempts ?t + k) bs = Some r" using Suc.prems(2) by (simp add: pause_def)
  ultimately obtain s' where s': "write_until bs ?t = gives (word_of_int r) s'" "sends ?t [bs] s'"
      "\<exists>n es. s' = ?t\<lparr>attempts := n, events := es\<rparr>"
    using Suc.IH Suc.prems(3) by blast
  from s'(2) obtain es where es: "events s' = events ?t @ es"
      "\<And>qs es'. delivers (answer s) (attempts s') qs es' \<Longrightarrow> delivers (answer s) (Suc (attempts s)) (bs # qs) (es @ es')"
    by (auto simp: sends_def pause_def)
  then have "sends s [bs] s'"
    unfolding sends_def
    using delivers_refused [where ans = "answer s", OF zero]
    by (intro exI [of _ "Write bs # Pause 1 # es"]) (simp add: pause_def)
  moreover from s'(3) obtain n es where "s' = s\<lparr>attempts := n, events := es\<rparr>" by (auto simp: pause_def)
  ultimately show ?case using s'(1) step by metis
qed

text \<open>One turn of the loop, once the buffer is filled with the command and at least one byte.\<close>

lemma turn_sends:
  assumes "next_chunk s = Ret s1" and "takes_samples counted s1" and "length p \<le> 250" and "1 < length p + of_bool counted" "p \<noteq> []"
    and "BytesToWrite s1 = of_nat (Suc (length p))" and "take (Suc (length p)) (SoundData s1) = SOUND_CMD_SERVICE # p"
  shows "\<exists>s'. samples_turn s = gives () s' \<and> sends s1 [SOUND_CMD_SERVICE # p] s'
    \<and> (\<exists>n es b. s' = s1\<lparr>attempts := n, events := es, BytesToWrite := b, SoundDataLength := SoundDataLength s1
        - int (if SoundFileFormat s1 = SOUND_FILE_FORMAT_ADPCM_SOUND then (length p + of_bool counted) div 2 else length p + of_bool counted)\<rparr>)"
proof -
  define r where "r = length p + of_bool counted"
  have n: "unat (of_nat r :: u16) = r" using assms(3) by (intro unat_u16_small) (simp add: r_def)
  then have u: "uint (of_nat r :: u16) = int r" "uint (of_nat r div 2 :: u16) = int (r div 2)"
    by (simp_all add: uint_div flip: unat_eq_nat_uint) (simp_all add: uint_nat)
  have gt: "(1 :: u16) < of_nat r" using assms(4) n by (simp add: word_less_nat_alt r_def)
  then have nz: "(word_of_int (int r) :: u16) \<noteq> 0" by auto
  have b: "unat (BytesToWrite s1) = Suc (length p)"
    using assms(3,6) by (simp add: unat_of_nat take_bit_nat_eq_self del: of_nat_Suc)
  from assms(2,5) obtain k where "\<forall>i<k. answer s1 (attempts s1 + i) (SOUND_CMD_SERVICE # p) = Some 0"
      "answer s1 (attempts s1 + k) (SOUND_CMD_SERVICE # p) = Some (int r)"
    unfolding takes_samples_def r_def by blast
  from write_until_taken [OF this nz] obtain s' n es where w: "write_until (SOUND_CMD_SERVICE # p) s1 = gives (of_nat r) s'"
      "sends s1 [SOUND_CMD_SERVICE # p] s'" "s' = s1\<lparr>attempts := n, events := es\<rparr>"
    by auto
  have "samples_turn s = gives () (s'\<lparr>SoundDataLength := SoundDataLength s1
        - int (if SoundFileFormat s1 = SOUND_FILE_FORMAT_ADPCM_SOUND then r div 2 else r),
      BytesToWrite := BytesToWrite s1 - ucast (of_nat r + 1 :: u16)\<rparr>)" (is "_ = gives () ?t")
    using assms(1) gt u w(1,3) by (simp add: samples_turn_def Let_def b assms(7))
  moreover have "sends s1 [SOUND_CMD_SERVICE # p] ?t" using w(2) by (simp add: sends_def)
  moreover have "?t = s1\<lparr>attempts := n, events := es, BytesToWrite := BytesToWrite s1 - ucast (of_nat r + 1 :: u16),
      SoundDataLength := SoundDataLength s1 - int (if SoundFileFormat s1 = SOUND_FILE_FORMAT_ADPCM_SOUND then r div 2 else r)\<rparr>"
    by (simp add: w(3))
  ultimately show ?thesis unfolding r_def by blast
qed

text \<open>What the turns keep.\<close>

definition streaming :: "SoundGlobals \<Rightarrow> SoundGlobals \<Rightarrow> bool" where
  "streaming s s' \<longleftrightarrow> SoundFileFormat s' = SoundFileFormat s \<and> length (SoundData s') = length (SoundData s)
     \<and> answer s' = answer s \<and> StopLoop s' = StopLoop s \<and> soundState s' = soundState s"

lemma streaming_trans: "streaming s s1 \<Longrightarrow> streaming s1 s2 \<Longrightarrow> streaming s s2"
  by (simp add: streaming_def)

lemma streaming_takes: "streaming s s' \<Longrightarrow> takes_samples counted s' = takes_samples counted s"
  by (simp add: streaming_def takes_samples_def responsive_def)

lemma raw_turn:
  assumes "SoundFileFormat s \<noteq> SOUND_FILE_FORMAT_ADPCM_SOUND" "takes_samples counted s" "length (SoundData s) = 253"
    and "nat (SoundDataLength s) = n" "unread s = Some bs" "n \<le> length bs" and "c = min n 250" "c \<noteq> 0" "1 < c + of_bool counted"
  shows "\<exists>s'. samples_turn s = gives () s' \<and> streaming s s' \<and> sends s [SOUND_CMD_SERVICE # take c bs] s'
    \<and> unread s' = Some (drop c bs) \<and> nat (SoundDataLength s') = n - (c + of_bool counted)"
proof -
  let ?p = "take c bs"
  have c: "length ?p = c" "c \<le> 250" "?p \<noteq> []" using assms(6-8) by auto
  let ?s1 = "s\<lparr>SoundData := put_at 1 ?p ((SoundData s)[0 := SOUND_CMD_SERVICE]), BytesToWrite := of_nat (Suc c),
      unread := Some (drop c bs)\<rparr>"
  have "next_chunk s = Ret ?s1"
    using assms(1,4-7) by (cases "250 < n") (simp_all add: next_chunk_def Let_def read_file_def SOUND_CHUNK_def add.commute)
  moreover have "take (Suc c) (put_at 1 ?p ((SoundData s)[0 := SOUND_CMD_SERVICE])) = SOUND_CMD_SERVICE # ?p"
    using assms(3) c by (cases "SoundData s") (simp_all add: put_at_def)
  ultimately obtain s' n' es b where s': "samples_turn s = gives () s'" "sends ?s1 [SOUND_CMD_SERVICE # ?p] s'"
      "s' = ?s1\<lparr>attempts := n', events := es, BytesToWrite := b, SoundDataLength := SoundDataLength s - int (c + of_bool counted)\<rparr>"
    using turn_sends [of s ?s1 counted ?p] assms(1,2,9) c by (auto simp: takes_samples_def responsive_def)
  have left: "nat (SoundDataLength s - int m) = n - m" for m using assms(4) by linarith
  have "sends s [SOUND_CMD_SERVICE # ?p] s'" using s'(2) by (simp add: sends_def)
  moreover have "streaming s s'" "unread s' = Some (drop c bs)" "nat (SoundDataLength s') = n - (c + of_bool counted)"
    using assms(3) c unfolding s'(3) by (simp_all add: streaming_def left del: of_nat_add)
  ultimately show ?thesis using s'(1) by blast
qed

lemma adpcm_turn:
  assumes "SoundFileFormat s = SOUND_FILE_FORMAT_ADPCM_SOUND" "takes_samples counted s" "length (SoundData s) = 253" "decoding s"
    and "SoundDataLength s = int n" "unread s = Some bs" "n \<le> length bs" and "c = min n 125" "1 \<le> c"
    and "gentle (halves (take c bs)) (adpcm_state s)"
  shows "\<exists>s'. samples_turn s = gives () s' \<and> streaming s s' \<and> decoding s'
    \<and> sends s [SOUND_CMD_SERVICE # fst (adpcm (halves (take c bs)) (adpcm_state s))] s'
    \<and> adpcm_state s' = snd (adpcm (halves (take c bs)) (adpcm_state s))
    \<and> unread s' = Some (drop c bs) \<and> SoundDataLength s' = int (n - c)"
proof -
  let ?a = "adpcm (halves (take c bs)) (adpcm_state s)"
  have c: "length (take c bs) = c" "c \<le> 125" using assms(7,8) by auto
  have p: "length (fst ?a) = 2 * c" using c by simp
  have ne: "fst ?a \<noteq> []"
  proof
    assume "fst ?a = []"
    then have "2 * c = 0" using p by (metis list.size(3))
    then show False using assms(9) by simp
  qed
  let ?s0 = "s\<lparr>SoundData := (SoundData s)[0 := SOUND_CMD_SERVICE], unread := Some (drop c bs)\<rparr>"
  have "decoding ?s0" "gentle (halves (take c bs)) (adpcm_state ?s0)" "2 * (0 + length (take c bs)) < length (SoundData ?s0)"
    using assms(3,4,10) c by (simp_all add: decoding_def)
  from decode_bytes_exact [OF this] obtain x where x:
    "decode_bytes 0 (take c bs) ?s0 = Ret (?s0\<lparr>SoundData := put_at 1 (fst ?a) (SoundData ?s0), ValPrev := fst (snd ?a),
        Index := snd (snd ?a), Step := x\<rparr>)"
    and dec: "decoding (s\<lparr>ValPrev := fst (snd ?a), Index := snd (snd ?a)\<rparr>)"
    by (auto simp: case_prod_beta decoding_def Let_def)
  let ?s1 = "s\<lparr>SoundData := put_at 1 (fst ?a) ((SoundData s)[0 := SOUND_CMD_SERVICE]), unread := Some (drop c bs),
      ValPrev := fst (snd ?a), Index := snd (snd ?a), Step := x, BytesToWrite := of_nat (Suc (2 * c))\<rparr>"
  have "next_chunk s = Ret ?s1"
    using assms(1,5-8) x
    by (cases "125 < n") (simp_all add: next_chunk_def Let_def read_file_def SOUND_ADPCM_CHUNK_def add.commute mult.commute)
  moreover have "take (Suc (2 * c)) (put_at 1 (fst ?a) ((SoundData s)[0 := SOUND_CMD_SERVICE])) = SOUND_CMD_SERVICE # fst ?a"
    using assms(3) p by (cases "SoundData s") (simp_all add: put_at_def)
  moreover have "takes_samples counted ?s1" using assms(2) by (simp add: takes_samples_def responsive_def)
  ultimately obtain s' n' es b where s': "samples_turn s = gives () s'" "sends ?s1 [SOUND_CMD_SERVICE # fst ?a] s'"
      "s' = ?s1\<lparr>attempts := n', events := es, BytesToWrite := b, SoundDataLength := SoundDataLength s - int c\<rparr>"
    using turn_sends [of s ?s1 counted "fst ?a"] assms(1,9) c p ne by (auto simp: div_mult_self4)
  have "sends s [SOUND_CMD_SERVICE # fst ?a] s'" using s'(2) by (simp add: sends_def)
  then show ?thesis using s'(1) assms(3,5,8) c p dec unfolding s'(3) by (auto simp: streaming_def int_ops decoding_def)
qed

text \<open>A turn of the loop.\<close>

lemma play_samples_turn:
  "playSoundSamplesFromStream s =
    (if SoundDataLength s > 0 then next_with (samples_turn s) (\<lambda>_. playSoundSamplesFromStream) else gives () s)"
  by (subst playSoundSamplesFromStream.simps) (simp add: next_with_def)

text \<open>
  Of uncompressed data all is played, unless the device counts the command: then the code takes each string for
  one byte longer than it is, and as many bytes are missing at the end as strings of 250 bytes were sent.
\<close>

definition played :: "bool \<Rightarrow> nat \<Rightarrow> nat" where
  "played counted n = (if counted then n - n div 251 else n)"

lemma played_turn:
  "n \<le> 250 \<Longrightarrow> played counted n = n" "250 < n \<Longrightarrow> played counted n = 250 + played counted (n - (250 + of_bool counted))"
  "played counted n \<le> n"
proof -
  show "250 < n \<Longrightarrow> played counted n = 250 + played counted (n - (250 + of_bool counted))"
    using le_div_geq [of 251 n] div_le_dividend [of "n - 251" 251] by (auto simp: played_def)
qed (auto simp: played_def)

lemma raw_played:
  assumes "SoundFileFormat s \<noteq> SOUND_FILE_FORMAT_ADPCM_SOUND" "takes_samples counted s" "length (SoundData s) = 253"
    and "nat (SoundDataLength s) = n" "unread s = Some bs" "n \<le> length bs" "\<not> counted \<Longrightarrow> n mod 250 \<noteq> 1"
  shows "\<exists>s'. playSoundSamplesFromStream s = gives () s' \<and> streaming s s'
    \<and> sends s (map (Cons SOUND_CMD_SERVICE) (pieces 250 (take (played counted n) bs))) s'"
  using assms
proof (induction n arbitrary: s bs rule: less_induct)
  case (less n)
  show ?case
  proof (cases "n = 0")
    case True
    then show ?thesis using less.prems by (subst play_samples_turn) (simp add: streaming_def played_def sends_nothing)
  next
    case False
    define c where "c = min n 250"
    have "\<not> counted \<Longrightarrow> n \<noteq> 1" using less.prems(7) by auto
    then have c: "c \<noteq> 0" "1 < c + of_bool counted" "c \<le> n" using False by (auto simp: c_def)
    define m where "m = n - (c + of_bool counted)"
    from raw_turn [OF less.prems(1-6) c_def c(1,2)] obtain s1 where s1: "samples_turn s = gives () s1" "streaming s s1"
        "sends s [SOUND_CMD_SERVICE # take c bs] s1" "unread s1 = Some (drop c bs)" "nat (SoundDataLength s1) = m"
      by (auto simp: m_def)
    have "m mod 250 \<noteq> 1" if "\<not> counted"
      using less.prems(7) that by (cases "n \<le> 250") (simp_all add: c_def m_def le_mod_geq [of 250 n, symmetric])
    moreover have "m \<le> length (drop c bs)" "m < n" using less.prems(6) c by (auto simp: m_def)
    moreover have "SoundFileFormat s1 \<noteq> SOUND_FILE_FORMAT_ADPCM_SOUND" "takes_samples counted s1" "length (SoundData s1) = 253"
      using less.prems(1-3) s1(2) streaming_takes [OF s1(2)] by (simp_all add: streaming_def)
    ultimately obtain s2 where s2: "playSoundSamplesFromStream s1 = gives () s2" "streaming s1 s2"
        "sends s1 (map (Cons SOUND_CMD_SERVICE) (pieces 250 (take (played counted m) (drop c bs)))) s2"
      using less.IH [of m s1 "drop c bs"] s1(4,5) by blast
    have len: "played counted n = c + played counted m" "n \<le> 250 \<Longrightarrow> m = 0"
      using played_turn(1) [of n counted] played_turn(2) [of n counted] played_turn(1) [of 0 counted]
      by (auto simp: c_def m_def min_def)
    have "take (played counted n) bs \<noteq> []" using False less.prems(6) c len(1) by auto
    then have "pieces 250 (take (played counted n) bs) = take c bs # pieces 250 (take (played counted m) (drop c bs))"
      using len played_turn(3) [of counted m] by (cases "n \<le> 250") (simp_all add: pieces_step c_def drop_take min_def)
    then have "sends s (map (Cons SOUND_CMD_SERVICE) (pieces 250 (take (played counted n) bs))) s2"
      using sends_more [OF s1(3) s2(3)] s1(2) by (simp add: streaming_def)
    moreover have "0 < SoundDataLength s" using less.prems(4) False by simp
    ultimately show ?thesis
      using s1(1) s2 streaming_trans [OF s1(2) s2(2)] by (subst play_samples_turn) simp
  qed
qed

lemma pieces_adpcm:
  assumes "0 < n" "n \<le> length bs" and "c = min n 125"
  shows "pieces 250 (fst (adpcm (halves (take n bs)) k))
    = fst (adpcm (halves (take c bs)) k)
      # pieces 250 (fst (adpcm (halves (take (n - c) (drop c bs))) (snd (adpcm (halves (take c bs)) k))))"
proof -
  have t: "take n bs = take c bs @ take (n - c) (drop c bs)" using assms(3) by (simp add: min_def flip: take_add)
  define x where "x = fst (adpcm (halves (take c bs)) k)"
  define y where "y = fst (adpcm (halves (take (n - c) (drop c bs))) (snd (adpcm (halves (take c bs)) k)))"
  have len: "length x = 2 * c" "c = 125 \<or> y = []" using assms(2,3) by (simp_all add: x_def y_def min_def)
  have xy: "fst (adpcm (halves (take n bs)) k) = x @ y"
    by (subst t) (simp add: adpcm_append case_prod_beta Let_def x_def y_def)
  have "x \<noteq> []"
  proof
    assume "x = []"
    then have "2 * c = 0" using len(1) by simp
    then show False using assms(1,3) by simp
  qed
  then have "pieces 250 (x @ y) = take 250 (x @ y) # pieces 250 (drop 250 (x @ y))" by (intro pieces_step) simp_all
  moreover have "take 250 (x @ y) = x" "drop 250 (x @ y) = y" using len assms(3) by auto
  ultimately show ?thesis unfolding xy x_def [symmetric] y_def [symmetric] by simp
qed

lemma adpcm_played:
  assumes "SoundFileFormat s = SOUND_FILE_FORMAT_ADPCM_SOUND" "takes_samples counted s" "length (SoundData s) = 253" "decoding s"
    and "SoundDataLength s = int n" "unread s = Some bs" "n \<le> length bs"
    and "gentle (halves (take n bs)) (adpcm_state s)"
  shows "\<exists>s'. playSoundSamplesFromStream s = gives () s' \<and> streaming s s'
    \<and> sends s (map (Cons SOUND_CMD_SERVICE) (pieces 250 (fst (adpcm (halves (take n bs)) (adpcm_state s))))) s'"
  using assms
proof (induction n arbitrary: s bs rule: less_induct)
  case (less n)
  show ?case
  proof (cases "n = 0")
    case True
    then show ?thesis using less.prems by (subst play_samples_turn) (simp add: streaming_def sends_nothing)
  next
    case False
    define c where "c = min n 125"
    have c: "1 \<le> c" "c \<le> n" using False by (simp_all add: c_def)
    have t: "take n bs = take c bs @ take (n - c) (drop c bs)" using c(2) by (simp flip: take_add)
    have g: "gentle (halves (take c bs)) (adpcm_state s)"
      "gentle (halves (take (n - c) (drop c bs))) (snd (adpcm (halves (take c bs)) (adpcm_state s)))"
      using less.prems(8) unfolding t by (simp_all add: gentle_append)
    from adpcm_turn [OF less.prems(1-7) c_def c(1) g(1)] obtain s1 where s1: "samples_turn s = gives () s1" "streaming s s1"
        "decoding s1" "sends s [SOUND_CMD_SERVICE # fst (adpcm (halves (take c bs)) (adpcm_state s))] s1"
        "adpcm_state s1 = snd (adpcm (halves (take c bs)) (adpcm_state s))"
        "unread s1 = Some (drop c bs)" "SoundDataLength s1 = int (n - c)" by blast
    have "n - c \<le> length (drop c bs)" "n - c < n" using less.prems(7) c by simp_all
    moreover have "SoundFileFormat s1 = SOUND_FILE_FORMAT_ADPCM_SOUND" "takes_samples counted s1" "length (SoundData s1) = 253"
      using less.prems(1-3) s1(2) streaming_takes [OF s1(2)] by (simp_all add: streaming_def)
    ultimately obtain s2 where s2: "playSoundSamplesFromStream s1 = gives () s2" "streaming s1 s2"
        "sends s1 (map (Cons SOUND_CMD_SERVICE) (pieces 250 (fst (adpcm (halves (take (n - c) (drop c bs))) (adpcm_state s1))))) s2"
      using less.IH [of "n - c" s1 "drop c bs"] s1(3,5-7) g(2) by auto
    have "sends s (map (Cons SOUND_CMD_SERVICE) (pieces 250 (fst (adpcm (halves (take n bs)) (adpcm_state s))))) s2"
      using sends_more [OF s1(4) s2(3)] s1(2,5) False less.prems(7) pieces_adpcm [of n bs c "adpcm_state s"] c_def
      by (simp add: streaming_def)
    then show ?thesis
      using s1(1) s2(1) less.prems(5) False streaming_trans [OF s1(2) s2(2)] by (subst play_samples_turn) simp
  qed
qed

section \<open>Whole files\<close>

definition be16 :: "u16 \<Rightarrow> u8 list" where
  "be16 x = [ucast (drop_bit 8 x), ucast x]"

text \<open>A sound file: a header of four big-endian numbers, and the data.\<close>

definition rso_file :: "u16 \<Rightarrow> u16 \<Rightarrow> u16 \<Rightarrow> u8 list \<Rightarrow> u8 list" where
  "rso_file format rate mode data = be16 format @ be16 (of_nat (length data)) @ be16 rate @ be16 mode @ data"

lemma read_pair_bytes:
  "unread s = Some (a # b # rest) \<Longrightarrow> read_pair old s = ((Some a, Some b), s\<lparr>unread := Some rest\<rparr>)"
  by (simp add: read_pair_def read_byte_def read_file_def Let_def)

lemma big_endian_be16: "big_endian (Some (ucast (drop_bit 8 x)), Some (ucast x)) = Some x"
  using glue16 [of x] by (simp add: or.commute)

lemma read_be16: "unread s = Some (be16 x @ rest) \<Longrightarrow>
    read_pair old s = ((Some (ucast (drop_bit 8 x)), Some (ucast x)), s\<lparr>unread := Some rest\<rparr>)"
  by (simp add: be16_def read_pair_bytes)

lemma play_file_turn:
  "play_file_loop name volume looping file s =
    next_with (play_file_once name volume looping file s)
      (\<lambda>_ s. if looping \<and> StopLoop s \<noteq> 1 then play_file_loop name volume looping file s else gives () s)"
  by (subst play_file_loop.simps) (simp add: next_with_def)

lemma set_volume_sent:
  "responsive s \<Longrightarrow> set_volume volume s
    = s\<lparr>attempts := attempts s + 1, events := events s @ [Write [SOUND_CMD_PLAY, of_nat (unat volume * 8 div 100)]]\<rparr>"
  by (auto simp: set_volume_def WriteToSoundDevice_def responsive_def Let_def split: option.split)

lemma set_volume_kept [simp]:
  "answer (set_volume volume s) = answer s" "attempts (set_volume volume s) = attempts s + 1"
  "SoundFileFormat (set_volume volume s) = SoundFileFormat s" "SoundData (set_volume volume s) = SoundData s"
  "SoundDataLength (set_volume volume s) = SoundDataLength s" "unread (set_volume volume s) = unread s"
  "ValPrev (set_volume volume s) = ValPrev s" "Index (set_volume volume s) = Index s"
  by (simp_all add: set_volume_def WriteToSoundDevice_def Let_def split: option.split)

text \<open>Playing can start: the module is open and the name of the file not too long.\<close>

definition can_play :: "string \<Rightarrow> SoundGlobals \<Rightarrow> bool" where
  "can_play name s \<longleftrightarrow> SoundInitialized s \<and> \<not> SoundMuted s \<and> length name < FILENAME_SIZE \<and> length (SoundData s) = 253"

text \<open>The state in which the samples are played.\<close>

definition set_up :: "u8 \<Rightarrow> u16 \<Rightarrow> u8 list \<Rightarrow> SoundGlobals \<Rightarrow> SoundGlobals \<Rightarrow> bool" where
  "set_up volume format data s s1 \<longleftrightarrow> SoundFileFormat s1 = format \<and> length (SoundData s1) = 253
    \<and> SoundDataLength s1 = int (length data) \<and> unread s1 = Some data \<and> answer s1 = answer s \<and> attempts s1 = Suc (attempts s)
    \<and> (responsive s \<longrightarrow> events s1 = events s @ [Write [SOUND_CMD_PLAY, of_nat (unat volume * 8 div 100)]])
    \<and> (format = SOUND_FILE_FORMAT_ADPCM_SOUND \<longrightarrow> adpcm_state s1 = (127, 20) \<and> decoding s1)"

lemma playRSOFile_reads:
  assumes "can_play name s" "content f = Some (rso_file format rate mode data)" "length data < 65536"
  shows "\<exists>s1. playRSOFile name volume looping (Some (fd, f)) s = playSoundSamplesFromStream s1 \<and> set_up volume format data s s1"
proof -
  let ?s = "s\<lparr>soundState := SOUND_STATE_IDLE, Busy := True, hSoundFile := int fd, unread := content f, SoundFileLength := st_size f\<rparr>"
  have start: "start_file name (Some (fd, f)) s = gives True ?s"
    using assms(1) by (simp add: start_file_def can_play_def)
  have len: "uint (of_nat (length data) :: u16) = int (length data)" using assms(3) by (simp add: uint_nat)
  let ?t = "?s\<lparr>unread := Some data, SoundFileFormat := format, SoundDataLength := int (length data), SoundSampleRate := rate,
    SoundPlayMode := mode, soundState := SOUND_STATE_SETUP_FILE\<rparr>"
  let ?u = "if format = SOUND_FILE_FORMAT_ADPCM_SOUND then soundInitAdPcm ?t else ?t"
  have "playRSOFile name volume looping (Some (fd, f)) s
      = playSoundSamplesFromStream ((set_volume volume ?u)\<lparr>soundState := file_state looping\<rparr>)"
    by (simp add: playRSOFile_def start assms(2) rso_file_def read_be16 Let_def big_endian_be16 len del: big_endian.simps)
  moreover have "responsive ?u = responsive s" by (simp add: responsive_def soundInitAdPcm_def)
  then have "set_up volume format data s ((set_volume volume ?u)\<lparr>soundState := file_state looping\<rparr>)"
    using assms(1) set_volume_sent [of ?u volume]
    by (auto simp: set_up_def can_play_def soundInitAdPcm_def decoding_def)
  ultimately show ?thesis by blast
qed

text \<open>
  C27: Playing a compressed sound file sends the volume and then delivers, in strings of at most 250 bytes,
  exactly the bytes that ADPCM decoding in ideal arithmetic makes of the data, and returns: as long as the index
  of the decoder does not go beyond 81, that is, no difference beyond what a \<^verbatim>\<open>short\<close> holds (\<open>gentle\<close>), and
  whenever the device takes every string in the end (\<open>takes_samples\<close>): after any number of refusals with the
  answer 0, each followed by a pause of a millisecond and the same string again, it takes all of it and
  answers with its number of bytes, with or without the command.
\<close>

theorem compressed_sound_played:
  assumes "can_play name s" "takes_samples counted s" "\<not> contains name ''.rmd''" "\<not> contains name ''.wav''"
    and "content f = Some (rso_file SOUND_FILE_FORMAT_ADPCM_SOUND rate mode data)" "length data < 65536"
    and "gentle (halves data) (127, 20)"
  shows "\<exists>s' es. PlayFile name (Some (fd, f)) s = gives () s' \<and> events s' = events s @ Write [SOUND_CMD_PLAY, 8] # es
    \<and> delivers (answer s) (Suc (attempts s))
        (map (Cons SOUND_CMD_SERVICE) (pieces 250 (fst (adpcm (halves data) (127, 20))))) es"
proof -
  obtain s1 where s1: "playRSOFile name 100 False (Some (fd, f)) s = playSoundSamplesFromStream s1"
      "set_up 100 SOUND_FILE_FORMAT_ADPCM_SOUND data s s1"
    using playRSOFile_reads [OF assms(1,5,6)] by blast
  have r: "responsive s" using assms(2) by (simp add: takes_samples_def)
  have t: "takes_samples counted s1" using assms(2) s1(2) by (simp add: takes_samples_def responsive_def set_up_def)
  have "gentle (halves (take (length data) data)) (adpcm_state s1)" using assms(7) s1(2) by (simp add: set_up_def)
  from adpcm_played [OF _ t _ _ _ _ le_refl this] s1(2) obtain s' where s': "playSoundSamplesFromStream s1 = gives () s'"
      "sends s1 (map (Cons SOUND_CMD_SERVICE) (pieces 250 (fst (adpcm (halves data) (127, 20))))) s'"
    by (auto simp: set_up_def)
  from sends_delivers [OF s'(2)] show ?thesis
    using s1 s'(1) r assms(1,3,4) by (auto simp: PlayFile_def PlayFileEx_def can_play_def play_file_turn play_file_once_def set_up_def)
qed

definition ready :: "(nat \<Rightarrow> u8 list \<Rightarrow> int option) \<Rightarrow> SoundGlobals" where
  "ready ans = \<lparr>hSoundFile = - 1, unread = None, soundState = SOUND_STATE_IDLE, pSound = SharedSound, Busy = False,
     SoundMuted = False, SoundFileFormat = 0, SoundDataLength = 0, SoundSampleRate = 0, SoundPlayMode = 0, SoundFileLength = 0,
     ValPrev = 0, Index = 0, Step = 0, BytesToWrite = 0, StopLoop = 0, SoundData = replicate 253 0, events = [], attempts = 0,
     answer = ans\<rparr>"

text \<open>A device that takes everything at once, and one that refuses every other string and counts the command.\<close>

definition good_device :: "nat \<Rightarrow> u8 list \<Rightarrow> int option" where
  "good_device n bs = Some (int (length bs) - 1)"

definition busy_device :: "nat \<Rightarrow> u8 list \<Rightarrow> int option" where
  "busy_device n bs = Some (if odd n then 0 else int (length bs))"

lemma device_witness: "takes_samples False (ready good_device)" "takes_samples True (ready busy_device)"
proof -
  show "takes_samples False (ready good_device)"
    by (auto simp: takes_samples_def responsive_def ready_def good_device_def intro!: exI [of _ 0])
  have "\<exists>k. (\<forall>i<k. busy_device (n + i) (SOUND_CMD_SERVICE # p) = Some 0)
      \<and> busy_device (n + k) (SOUND_CMD_SERVICE # p) = Some (int (length p + of_bool True))" for n p
    by (intro exI [of _ "if odd n then 1 else 0"]) (simp add: busy_device_def)
  then show "takes_samples True (ready busy_device)"
    by (simp add: takes_samples_def responsive_def ready_def busy_device_def)
qed

lemma can_play_witness: "can_play ''a.rsf'' (ready ans)" "can_play ''a.wav'' (ready ans)"
  by (simp_all add: can_play_def SoundInitialized_def ready_def FILENAME_SIZE_def)

theorem compressed_sound_played_witness:
  "\<exists>s'. PlayFile ''a.rsf'' (Some (5, \<lparr>st_size = 10, content = Some (rso_file SOUND_FILE_FORMAT_ADPCM_SOUND 8000 0 [0x17, 0x80])\<rparr>))
       (ready busy_device) = gives () s'
     \<and> events s' = [Write [2, 8], Write [4, 145, 228, 216, 227], Pause 1, Write [4, 145, 228, 216, 227]]"
proof -
  have b: "\<not> contains ''a.rsf'' ''.rmd''" "\<not> contains ''a.rsf'' ''.wav''" by simp_all
  have c: "length [0x17, 0x80 :: u8] < 65536" by simp
  have d: "gentle (halves [0x17, 0x80]) (127, 20)" by code_simp
  let ?f = "\<lparr>st_size = 10, content = Some (rso_file SOUND_FILE_FORMAT_ADPCM_SOUND 8000 0 [0x17, 0x80])\<rparr>"
  have "pieces 250 (fst (adpcm (halves [0x17, 0x80]) (127, 20))) = [[145, 228, 216, 227]]" by code_simp
  note pc = this
  have cf: "content ?f = Some (rso_file SOUND_FILE_FORMAT_ADPCM_SOUND 8000 0 [0x17, 0x80])" by (simp only: sound_file.simps)
  note played = compressed_sound_played [OF can_play_witness(1) device_witness(2) b cf c d, of 5, unfolded pc]
  from played obtain s' es where "PlayFile ''a.rsf'' (Some (5, ?f)) (ready busy_device) = gives () s'"
      "events s' = events (ready busy_device) @ Write [SOUND_CMD_PLAY, 8] # es"
      "delivers (answer (ready busy_device)) (Suc (attempts (ready busy_device))) (map (Cons SOUND_CMD_SERVICE) [[145, 228, 216, 227]]) es"
    by blast
  moreover from this(3) have "es = [Write [4, 145, 228, 216, 227], Pause 1, Write [4, 145, 228, 216, 227]]"
    by (simp add: ready_def SOUND_CMD_SERVICE_def delivers_Cons delivers_Nil busy_device_def)
  ultimately show ?thesis by (simp add: ready_def SOUND_CMD_PLAY_def)
qed

section \<open>The limits of the decoder\<close>

text \<open>In this state the decoder agrees with ideal arithmetic on every nibble.\<close>

definition decodes_ideally :: "SoundGlobals \<Rightarrow> bool" where
  "decodes_ideally s \<longleftrightarrow> (\<forall>d<16. soundGetAdPcmValue d s = (let k = adpcm_step d (adpcm_state s)
    in Ret (word_of_int (fst k), s\<lparr>Index := snd k, ValPrev := fst k, Step := StepSizeTable ! nat (snd k)\<rparr>)))"

text \<open>One step of the decoder, to be computed.\<close>

lemma decoder_up:
  assumes "Index s = i" "ValPrev s = v" "i' = clamp 88 (i + 8)" "0 \<le> i" "i \<le> 88"
    and "v' = clamp 255 (short (v + short (short (short (StepSizeTable ! nat i div 8 + StepSizeTable ! nat i)
      + StepSizeTable ! nat i div 2) + StepSizeTable ! nat i div 4)))"
  shows "soundGetAdPcmValue 7 s = Ret (word_of_int v', s\<lparr>Index := i', ValPrev := v', Step := StepSizeTable ! nat i'\<rparr>)"
proof -
  have clamps: "(if x > 255 then 255 else if x < 0 then 0 else x) = clamp 255 x" "(if x < 0 then 0 else if x > 88 then 88 else x) = clamp 88 x"
    for x :: int by (simp_all add: clamp_def)
  have bits: "bit (7 :: nat) 2" "bit (7 :: nat) 1" "bit (7 :: nat) 0" "\<not> bit (7 :: nat) 3" and idx: "IndexTable ! 7 = 8" by code_simp+
  have tab: "(i < 0 \<or> 88 < i \<or> 16 \<le> (7 :: nat)) = False" and sh: "short (i + 8) = i + 8" using assms(4,5) by simp_all
  show ?thesis
    unfolding soundGetAdPcmValue_def Let_def assms(1,2) assms(3) assms(6)
    by (simp only: tab if_False if_True bits idx sh clamps)
qed

lemma short_short: "short (short a + b) = short (a + b)"
  by (simp add: short_def mod_simps) (smt (verit) mod_add_cong mod_mod_trivial)

lemma steep_step:
  assumes "81 < i" "i \<le> 88" "0 \<le> v" "v \<le> 255"
  shows "clamp 255 (short (v + short (short (short (StepSizeTable ! nat i div 8 + StepSizeTable ! nat i)
      + StepSizeTable ! nat i div 2) + StepSizeTable ! nat i div 4))) = 0" (is ?code)
    and "fst (adpcm_step 7 (v, i)) = 255" (is ?ideal)
proof -
  have bits: "bit (7 :: nat) 2" "bit (7 :: nat) 1" "bit (7 :: nat) 0" "\<not> bit (7 :: nat) 3" by code_simp+
  define st where "st = StepSizeTable ! nat i"
  have "list_all (\<lambda>x. 18500 \<le> x \<and> x \<le> 32767) (drop 82 StepSizeTable)" "length StepSizeTable = 89" by code_simp+
  then have st: "18500 \<le> st" "st \<le> 32767"
    using assms(1,2) by (auto simp: st_def list_all_length dest!: spec [of _ "nat i - 82"])
  define D where "D = st div 8 + st + st div 2 + st div 4"
  have D: "32768 \<le> D" "D \<le> 61440" using st by (simp_all add: D_def)
  have "short (short (short (st div 8 + st) + st div 2) + st div 4) = short D"
    by (simp only: short_short D_def add.assoc)
  moreover have "short D = D - 65536"
  proof -
    have "(D + 32768) mod 65536 = (D - 32768 + 65536) mod 65536" by (simp add: add.commute)
    also have "\<dots> = D - 32768" using D by (simp only: mod_add_self2) (simp add: mod_pos_pos_trivial)
    finally show ?thesis unfolding short_def by linarith
  qed
  moreover have "short (v + (D - 65536)) = v + (D - 65536)" using D assms(3,4) by (intro short_id) auto
  moreover have "v + (D - 65536) \<le> 0" using D assms(4) by linarith
  ultimately show ?code unfolding st_def [symmetric] by (simp only: clamp_def)
  have "fst (adpcm_step 7 (v, i)) = clamp 255 (v + D)"
    by (simp only: adpcm_step_def bits Let_def D_def st_def case_prod_conv fst_conv if_True if_False)
  moreover have "255 \<le> v + D" using D assms(3) by linarith
  ultimately show ?ideal by (simp add: clamp_def)
qed

text \<open>
  C31: The decoder never leaves its tables and keeps its index from 0 to 88 and its value from 0 to 255,
  whatever the data is. It agrees with ideal arithmetic on all nibbles exactly where the index is at most 81:
  from 82 on the step is so large that the difference of the nibble 7 wraps around in a \<^verbatim>\<open>short\<close>, and the
  sample becomes 0 instead of 255.
\<close>

theorem decoder_limits:
  assumes "decoding s"
  shows "(\<forall>d<16. \<exists>v t. soundGetAdPcmValue d s = Ret (v, t) \<and> decoding t \<and> v = word_of_int (ValPrev t))
    \<and> (decodes_ideally s \<longleftrightarrow> Index s \<le> 81)"
proof (intro conjI iffI)
  show "\<forall>d<16. \<exists>v t. soundGetAdPcmValue d s = Ret (v, t) \<and> decoding t \<and> v = word_of_int (ValPrev t)"
    using decoder_stays [OF assms] by (fastforce simp: decoding_def)
  show "decodes_ideally s" if "Index s \<le> 81"
    using decoder_exact [OF assms _ that] by (simp add: decodes_ideally_def)
  show "Index s \<le> 81" if "decodes_ideally s"
  proof (rule ccontr)
    assume "\<not> Index s \<le> 81"
    then have i: "81 < Index s" "0 \<le> Index s" "Index s \<le> 88" "0 \<le> ValPrev s" "ValPrev s \<le> 255"
      using assms by (simp_all add: decoding_def)
    have "soundGetAdPcmValue 7 s = Ret (word_of_int 0, s\<lparr>Index := clamp 88 (Index s + 8), ValPrev := 0,
        Step := StepSizeTable ! nat (clamp 88 (Index s + 8))\<rparr>)"
      by (rule decoder_up [OF refl refl refl i(2,3) steep_step(1) [OF i(1,3-5), symmetric]])
    moreover have "\<exists>t. soundGetAdPcmValue 7 s = Ret (word_of_int 255, t)"
      using that steep_step(2) [OF i(1,3-5)] by (auto simp: decodes_ideally_def Let_def dest: spec [of _ 7])
    ultimately show False by auto
  qed
qed

theorem decoder_limits_witness:
  "decodes_ideally (soundInitAdPcm (ready good_device)) \<and> \<not> decodes_ideally ((ready good_device)\<lparr>Index := 82\<rparr>)"
  using decoder_limits [of "soundInitAdPcm (ready good_device)"] decoder_limits [of "(ready good_device)\<lparr>Index := 82\<rparr>"]
  by (simp add: decoding_def soundInitAdPcm_def ready_def)

section \<open>Sounds that do not end\<close>

lemma write_until_refused:
  assumes "\<forall>n\<ge>attempts s. answer s n bs = Some 0"
  shows "write_until bs s = None"
proof (rule ccontr)
  assume "write_until bs s \<noteq> None"
  then obtain r where r: "write_until bs s = Some r" by blast
  have "\<exists>n\<ge>attempts s. answer s n bs \<noteq> Some 0"
  proof (rule write_until.raw_induct [where P = "\<lambda>bs s r. \<exists>n\<ge>attempts s. answer s n bs \<noteq> Some 0", OF _ r])
    fix f bs s r
    assume IH: "\<And>bs s r. f bs s = Some r \<Longrightarrow> \<exists>n\<ge>attempts s. answer s n bs \<noteq> Some 0"
      and run: "(let (result, s) = WriteToSoundDevice bs s; BytesWritten = word_of_int result
        in if BytesWritten = 0 then f bs (pause 1 s) else gives BytesWritten s) = Some r"
    show "\<exists>n\<ge>attempts s. answer s n bs \<noteq> Some 0"
    proof (cases "answer s (attempts s) bs = Some 0")
      case True
      with run obtain t where "f bs t = Some r" "answer t = answer s" "attempts t = Suc (attempts s)"
        by (auto simp: WriteToSoundDevice_def pause_def)
      with IH [of bs t r] show ?thesis using Suc_leD by metis
    qed auto
  qed
  then show False using assms by blast
qed

lemma decode_bytes_keeps:
  assumes "decoding s" "2 * (i + length bs) < length (SoundData s)"
  shows "\<exists>t. decode_bytes i bs s = Ret t \<and> length (SoundData t) = length (SoundData s) \<and> SoundData t ! 0 = SoundData s ! 0
    \<and> answer t = answer s \<and> attempts t = attempts s"
  using assms
proof (induction bs arbitrary: i s)
  case (Cons b bs)
  let ?d1 = "unat (drop_bit 4 b AND 0x0f)" and ?d2 = "unat (b AND 0x0f)"
  obtain v j where 1: "soundGetAdPcmValue ?d1 s = Ret (word_of_int v, s\<lparr>Index := j, ValPrev := v, Step := StepSizeTable ! nat j\<rparr>)"
      "0 \<le> j" "j \<le> 88" "0 \<le> v" "v \<le> 255"
    using decoder_stays [OF Cons.prems(1), of ?d1] by auto
  let ?s = "s\<lparr>Index := j, ValPrev := v, Step := StepSizeTable ! nat j, SoundData := (SoundData s)[2 * i + 1 := word_of_int v]\<rparr>"
  have "decoding ?s" using 1 by (simp add: decoding_def)
  from decoder_stays [OF this, of ?d2] obtain w k where 2: "soundGetAdPcmValue ?d2 ?s
      = Ret (word_of_int w, ?s\<lparr>Index := k, ValPrev := w, Step := StepSizeTable ! nat k\<rparr>)" "0 \<le> k" "k \<le> 88" "0 \<le> w" "w \<le> 255"
    by auto
  let ?t = "?s\<lparr>Index := k, ValPrev := w, Step := StepSizeTable ! nat k, SoundData := (SoundData ?s)[2 * i + 2 := word_of_int w]\<rparr>"
  have "decoding ?t" "2 * (i + 1 + length bs) < length (SoundData ?t)" using 2 Cons.prems(2) by (simp_all add: decoding_def)
  from Cons.IH [OF this] show ?case using 1(1) 2(1) by (simp add: Let_def)
qed simp

lemma samples_refused:
  assumes "\<forall>n p. answer s n (SOUND_CMD_SERVICE # p) = Some 0" "length (SoundData s) = 253"
    and "SoundDataLength s = int n" "0 < n" "unread s = Some bs" "n \<le> length bs"
    and "SoundFileFormat s = SOUND_FILE_FORMAT_ADPCM_SOUND \<longrightarrow> decoding s"
  shows "playSoundSamplesFromStream s = None"
proof -
  have "\<exists>t p. next_chunk s = Ret t \<and> answer t = answer s \<and> take (unat (BytesToWrite t)) (SoundData t) = SOUND_CMD_SERVICE # p"
  proof (cases "SoundFileFormat s = SOUND_FILE_FORMAT_ADPCM_SOUND")
    case True
    define c where "c = min n 125"
    let ?s0 = "s\<lparr>SoundData := (SoundData s)[0 := SOUND_CMD_SERVICE], unread := Some (drop c bs)\<rparr>"
    have "decoding ?s0" "2 * (0 + length (take c bs)) < length (SoundData ?s0)"
      using assms(2,7) True by (simp_all add: c_def decoding_def)
    from decode_bytes_keeps [OF this] obtain t where t: "decode_bytes 0 (take c bs) ?s0 = Ret t" "length (SoundData t) = 253"
        "SoundData t ! 0 = SOUND_CMD_SERVICE" "answer t = answer s"
      using assms(2) by auto
    let ?t = "t\<lparr>BytesToWrite := of_nat (Suc (2 * c))\<rparr>"
    have "next_chunk s = Ret ?t"
      using True assms(3,5,6) t(1)
      by (cases "125 < n") (simp_all add: next_chunk_def Let_def read_file_def SOUND_ADPCM_CHUNK_def c_def add.commute mult.commute)
    moreover have "unat (of_nat (Suc (2 * c)) :: u8) = Suc (2 * c)"
      by (simp add: unat_of_nat take_bit_nat_eq_self c_def del: of_nat_Suc)
    then have "take (unat (BytesToWrite ?t)) (SoundData ?t) = SOUND_CMD_SERVICE # take (2 * c) (tl (SoundData t))"
      using t(2,3) by (cases "SoundData t") simp_all
    ultimately show ?thesis using t(4) by (intro exI [of _ ?t]) auto
  next
    case False
    define c where "c = min n 250"
    let ?t = "s\<lparr>SoundData := put_at 1 (take c bs) ((SoundData s)[0 := SOUND_CMD_SERVICE]), BytesToWrite := of_nat (Suc c),
        unread := Some (drop c bs)\<rparr>"
    have "next_chunk s = Ret ?t"
      using False assms(3,5,6) by (cases "250 < n") (simp_all add: next_chunk_def Let_def read_file_def SOUND_CHUNK_def c_def add.commute)
    moreover have "unat (of_nat (Suc c) :: u8) = Suc c"
      by (simp add: unat_of_nat take_bit_nat_eq_self c_def del: of_nat_Suc)
    then have "\<exists>p. take (unat (BytesToWrite ?t)) (SoundData ?t) = SOUND_CMD_SERVICE # p"
      using assms(2) by (cases "SoundData s") (simp_all add: put_at_def)
    ultimately show ?thesis by force
  qed
  then obtain t p where t: "next_chunk s = Ret t" "answer t = answer s"
      "take (unat (BytesToWrite t)) (SoundData t) = SOUND_CMD_SERVICE # p" by blast
  then have "samples_turn s = None"
    using assms(1) by (simp add: samples_turn_def write_until_refused)
  then show ?thesis using assms(3,4) by (subst play_samples_turn) simp
qed

text \<open>A device that never refuses and does not count the command.\<close>

definition accepting :: "SoundGlobals \<Rightarrow> bool" where
  "accepting s \<longleftrightarrow> (\<forall>n bs. bs \<noteq> [] \<longrightarrow> answer s n bs = Some (int (length bs) - 1)) \<and> responsive s"

lemma accepting_takes: "accepting s \<Longrightarrow> takes_samples False s"
  by (auto simp: accepting_def takes_samples_def intro!: exI [of _ 0])

lemma one_byte_left:
  assumes "SoundFileFormat s \<noteq> SOUND_FILE_FORMAT_ADPCM_SOUND" "accepting s" "length (SoundData s) = 253"
    and "SoundDataLength s = 1" "unread s = Some bs"
  shows "playSoundSamplesFromStream s = None"
  using assms
proof (induction bs arbitrary: s)
  case Nil
  let ?s1 = "s\<lparr>SoundData := put_at 1 [] ((SoundData s)[0 := SOUND_CMD_SERVICE]), unread := Some [], BytesToWrite := 1\<rparr>"
  have "next_chunk s = Ret ?s1" using Nil by (simp add: next_chunk_def Let_def read_file_def SOUND_CHUNK_def)
  moreover have "take (unat (BytesToWrite ?s1)) (SoundData ?s1) = [SOUND_CMD_SERVICE]"
    using Nil.prems(3) by (cases "SoundData s") (simp_all add: put_at_def)
  moreover have "write_until [SOUND_CMD_SERVICE] ?s1 = None"
    using Nil.prems(2) by (intro write_until_refused) (simp add: accepting_def)
  ultimately have "samples_turn s = None" by (simp add: samples_turn_def)
  then show ?case using Nil.prems(4) by (subst play_samples_turn) simp
next
  case (Cons b bs)
  let ?s1 = "s\<lparr>SoundData := put_at 1 [b] ((SoundData s)[0 := SOUND_CMD_SERVICE]), unread := Some bs, BytesToWrite := 2\<rparr>"
  let ?s2 = "?s1\<lparr>attempts := attempts s + 1, events := events s @ [Write [SOUND_CMD_SERVICE, b]]\<rparr>"
  have "next_chunk s = Ret ?s1" using Cons by (simp add: next_chunk_def Let_def read_file_def SOUND_CHUNK_def)
  moreover have "take (unat (BytesToWrite ?s1)) (SoundData ?s1) = [SOUND_CMD_SERVICE, b]"
    using Cons.prems(3) by (cases "SoundData s") (simp_all add: put_at_def)
  moreover have "write_until [SOUND_CMD_SERVICE, b] ?s1 = gives 1 ?s2"
    using Cons.prems(2) by (subst write_until.simps) (simp add: WriteToSoundDevice_def accepting_def Let_def)
  ultimately have "samples_turn s = gives () ?s2" by (simp add: samples_turn_def)
  moreover have "playSoundSamplesFromStream ?s2 = None"
    using Cons.prems by (intro Cons.IH) (simp_all add: accepting_def responsive_def)
  ultimately show ?case using Cons.prems(4) by (subst play_samples_turn) simp
qed

lemma raw_hangs:
  assumes "SoundFileFormat s \<noteq> SOUND_FILE_FORMAT_ADPCM_SOUND" "accepting s" "length (SoundData s) = 253"
    and "SoundDataLength s = int n" "unread s = Some bs" "n \<le> length bs" "n mod 250 = 1"
  shows "playSoundSamplesFromStream s = None"
  using assms
proof (induction n arbitrary: s bs rule: less_induct)
  case (less n)
  show ?case
  proof (cases "n \<le> 250")
    case True
    then have "n = 1" using less.prems(7) by (cases "n = 250") simp_all
    then show ?thesis using less.prems one_byte_left by simp
  next
    case False
    then have "nat (SoundDataLength s) = n" "0 < n - 250" using less.prems(4) by simp_all
    from raw_turn [OF less.prems(1) accepting_takes [OF less.prems(2)] less.prems(3) this(1) less.prems(5,6), of 250] this(2)
    obtain s1 where s1: "samples_turn s = gives () s1" "streaming s s1"
        "unread s1 = Some (drop 250 bs)" "nat (SoundDataLength s1) = n - 250" by auto
    then have "SoundDataLength s1 = int (n - 250)" using \<open>0 < n - 250\<close> by linarith
    moreover have "(n - 250) mod 250 = 1" "n - 250 < n" "n - 250 \<le> length (drop 250 bs)"
      using False less.prems(6,7) le_mod_geq [of 250 n] by simp_all
    moreover have "SoundFileFormat s1 \<noteq> SOUND_FILE_FORMAT_ADPCM_SOUND" "length (SoundData s1) = 253"
      using less.prems(1,3) s1(2) by (simp_all add: streaming_def)
    moreover have "accepting s1" using less.prems(2) s1(2) by (simp add: accepting_def responsive_def streaming_def)
    ultimately have "playSoundSamplesFromStream s1 = None" using less.IH s1(3) by blast
    then show ?thesis using s1(1) less.prems(4) False by (subst play_samples_turn) simp
  qed
qed

text \<open>
  With a device that does not count the command, an uncompressed sound file whose length leaves one byte for the
  last string never stops playing: a string with one byte of data counts as not written, what follows in the
  file is sent after it byte by byte, and at the end of the file the bare command is written again and again.
\<close>

theorem uncompressed_sound_hangs:
  assumes "can_play name s" "accepting s" "\<not> contains name ''.rmd''" "\<not> contains name ''.wav''"
    and "content f = Some (rso_file SOUND_FILE_FORMAT_RAW_SOUND rate mode data)" "length data < 65536" "length data mod 250 = 1"
  shows "PlayFile name (Some (fd, f)) s = None"
proof -
  obtain s1 where s1: "playRSOFile name 100 False (Some (fd, f)) s = playSoundSamplesFromStream s1"
      "set_up 100 SOUND_FILE_FORMAT_RAW_SOUND data s s1"
    using playRSOFile_reads [OF assms(1,5,6)] by blast
  have "SoundFileFormat s1 \<noteq> SOUND_FILE_FORMAT_ADPCM_SOUND" "accepting s1"
    using s1(2) assms(2)
    by (simp_all add: set_up_def accepting_def responsive_def SOUND_FILE_FORMAT_RAW_SOUND_def SOUND_FILE_FORMAT_ADPCM_SOUND_def)
  with raw_hangs [of s1 "length data" data] s1 assms(1,3,4,7) show ?thesis
    by (simp add: PlayFile_def PlayFileEx_def can_play_def play_file_turn play_file_once_def set_up_def)
qed

theorem uncompressed_sound_hangs_witness:
  "PlayFile ''a.rsf'' (Some (5, \<lparr>st_size = 9, content = Some (rso_file SOUND_FILE_FORMAT_RAW_SOUND 8000 0 [0x80])\<rparr>)) (ready good_device)
    = None"
proof (rule uncompressed_sound_hangs [where data = "[0x80]" and rate = 8000 and mode = 0])
  show "accepting (ready good_device)" by (simp add: ready_def accepting_def good_device_def responsive_def)
qed (simp_all add: can_play_witness)

text \<open>Nothing changes \<^verbatim>\<open>StopLoop\<close>: \<open>x\<close> is its value after a run that returns.\<close>

definition stops_at :: "u8 \<Rightarrow> 'a sounding \<Rightarrow> bool" where
  "stops_at x m \<longleftrightarrow> (\<forall>a s'. m = gives a s' \<longrightarrow> StopLoop s' = x)"

lemma stops_at_simps [simp]:
  "stops_at x (gives a s) \<longleftrightarrow> StopLoop s = x" "stops_at x None" "stops_at x (Some Undef)"
  by (simp_all add: stops_at_def)

lemma stops_at_next:
  "stops_at x m \<Longrightarrow> (\<And>a s. StopLoop s = x \<Longrightarrow> stops_at x (k a s)) \<Longrightarrow> stops_at x (next_with m k)"
  by (auto simp: stops_at_def next_with_Ret)

lemma stops_at_if: "(c \<Longrightarrow> stops_at x m) \<Longrightarrow> (\<not> c \<Longrightarrow> stops_at x n) \<Longrightarrow> stops_at x (if c then m else n)"
  by simp

lemma StopLoop_kept [simp]:
  "StopLoop (snd (WriteToSoundDevice bs s)) = StopLoop s" "StopLoop (pause n s) = StopLoop s"
  "StopLoop (set_volume v s) = StopLoop s" "StopLoop (snd (snd (read_file n s))) = StopLoop s"
  "StopLoop (snd (read_byte b s)) = StopLoop s" "StopLoop (snd (read_pair p s)) = StopLoop s"
  "StopLoop (PlayToneEx f d v s) = StopLoop s" "StopLoop (soundInitAdPcm s) = StopLoop s"
  by (simp_all add: WriteToSoundDevice_def pause_def set_volume_def read_file_def read_byte_def read_pair_def PlayToneEx_def
      soundInitAdPcm_def Let_def case_prod_beta split: option.split)

lemma StopLoop_read_bytes [simp]: "StopLoop (snd (read_bytes n s)) = StopLoop s"
  by (induction n arbitrary: s) (simp_all add: Let_def case_prod_beta)

lemma stops_at_reads:
  "StopLoop s = x \<Longrightarrow> stops_at x (readInt b s)" "StopLoop s = x \<Longrightarrow> stops_at x (readShort b s)"
  "StopLoop s = x \<Longrightarrow> stops_at x (skip_bytes n s)" "StopLoop s = x \<Longrightarrow> stops_at x (start_file name file s)"
  using StopLoop_read_bytes [of 4 s] StopLoop_read_bytes [of 2 s]
  by (auto simp: readInt_def readShort_def skip_bytes_def start_file_def Let_def simp del: StopLoop_read_bytes
      split: option.split prod.split if_splits)

lemma StopLoop_decoder: "soundGetAdPcmValue d s = Ret (v, s') \<Longrightarrow> StopLoop s' = StopLoop s"
proof -
  assume run: "soundGetAdPcmValue d s = Ret (v, s')"
  have "(Index s < 0 \<or> 88 < Index s \<or> 16 \<le> d) = False"
    by (rule ccontr) (use run in \<open>simp add: soundGetAdPcmValue_def\<close>)
  from run [unfolded soundGetAdPcmValue_def Let_def this if_False outcome.inject prod.inject] obtain i w x
    where "s\<lparr>Index := i, ValPrev := w, Step := x\<rparr> = s'" by blast
  then show "StopLoop s' = StopLoop s" by (auto simp del: if_split)
qed

lemma StopLoop_decode: "decode_bytes i bs s = Ret s' \<Longrightarrow> StopLoop s' = StopLoop s"
  by (induction bs arbitrary: i s) (auto simp: Let_def split: outcome.splits prod.splits dest!: StopLoop_decoder)

lemma StopLoop_chunk: "next_chunk s = Ret s' \<Longrightarrow> StopLoop s' = StopLoop s"
  using StopLoop_kept(4) by (auto simp: next_chunk_def Let_def read_file_def split: if_splits outcome.splits option.splits dest!: StopLoop_decode)

lemma write_until_turn:
  "write_until bs s =
    (let (result, s) = WriteToSoundDevice bs s; BytesWritten = word_of_int result
     in if BytesWritten = 0 then write_until bs (pause 1 s) else gives BytesWritten s)"
  by (fact write_until.simps)

lemma stops_at_write_until: "StopLoop s = x \<Longrightarrow> stops_at x (write_until bs s)"
proof -
  have "\<forall>a s'. r = Ret (a, s') \<longrightarrow> StopLoop s' = StopLoop s" if "write_until bs s = Some r" for r
  proof (rule write_until.raw_induct [where P = "\<lambda>bs s r. \<forall>a s'. r = Ret (a, s') \<longrightarrow> StopLoop s' = StopLoop s", OF _ that])
    fix f bs s r
    assume IH: "\<And>bs s r. f bs s = Some r \<Longrightarrow> \<forall>a s'. r = Ret (a, s') \<longrightarrow> StopLoop s' = StopLoop s"
      and run: "(let (result, s) = WriteToSoundDevice bs s; BytesWritten = word_of_int result
        in if BytesWritten = 0 then f bs (pause 1 s) else gives BytesWritten s) = Some r"
    from run show "\<forall>a s'. r = Ret (a, s') \<longrightarrow> StopLoop s' = StopLoop s"
      using IH [of bs "pause 1 (snd (WriteToSoundDevice bs s))" r] StopLoop_kept(1) [of bs s]
      by (auto simp: case_prod_beta Let_def split: if_splits)
  qed
  then show "StopLoop s = x \<Longrightarrow> stops_at x (write_until bs s)" by (auto simp: stops_at_def)
qed

lemma stops_at_turn: "StopLoop s = x \<Longrightarrow> stops_at x (samples_turn s)"
  using StopLoop_chunk [of s]
  by (auto simp: samples_turn_def Let_def split: outcome.split intro!: stops_at_next stops_at_write_until)

lemma stops_at_samples: "StopLoop s = x \<Longrightarrow> stops_at x (playSoundSamplesFromStream s)"
proof -
  have "\<forall>a s'. r = Ret (a, s') \<longrightarrow> StopLoop s' = StopLoop s" if "playSoundSamplesFromStream s = Some r" for r
  proof (rule playSoundSamplesFromStream.raw_induct
      [where P = "\<lambda>s r. \<forall>a s'. r = Ret (a, s') \<longrightarrow> StopLoop s' = StopLoop s", OF _ that])
    fix f s r
    assume IH: "\<And>s r. f s = Some r \<Longrightarrow> \<forall>a s'. r = Ret (a, s') \<longrightarrow> StopLoop s' = StopLoop s"
      and run: "(if SoundDataLength s > 0 then Option.bind (samples_turn s) (\<lambda>r. case r of Undef \<Rightarrow> Some Undef | Ret (_, s) \<Rightarrow> f s)
        else gives () s) = Some r"
    from run show "\<forall>a s'. r = Ret (a, s') \<longrightarrow> StopLoop s' = StopLoop s"
      using IH stops_at_turn [of s]
      by (fastforce simp: stops_at_def split: if_splits Option.bind_splits outcome.splits)
  qed
  then show "StopLoop s = x \<Longrightarrow> stops_at x (playSoundSamplesFromStream s)" by (auto simp: stops_at_def)
qed

lemma find_data_turn:
  "find_data s = next_with (readInt False s) (\<lambda>chunk s. next_with (readInt True s) (\<lambda>dataLen s.
    if chunk = RIFF_DATA_SIG then gives (sint dataLen) s
    else next_with (skip_bytes (sint dataLen) s) (\<lambda>_. find_data)))"
  unfolding next_with_def by (rule find_data.simps)

lemma stops_at_find: "StopLoop s = x \<Longrightarrow> stops_at x (find_data s)"
proof -
  have "\<forall>a s'. r = Ret (a, s') \<longrightarrow> StopLoop s' = StopLoop s" if "find_data s = Some r" for r
  proof (rule find_data.raw_induct [where P = "\<lambda>s r. \<forall>a s'. r = Ret (a, s') \<longrightarrow> StopLoop s' = StopLoop s", OF _ that])
    fix f :: "SoundGlobals \<Rightarrow> int sounding" and s r
    assume IH: "\<And>s r. f s = Some r \<Longrightarrow> \<forall>a s'. r = Ret (a, s') \<longrightarrow> StopLoop s' = StopLoop s"
      and run: "Option.bind (readInt False s) (\<lambda>r. case r of Undef \<Rightarrow> Some Undef | Ret (chunk, s) \<Rightarrow>
        Option.bind (readInt True s) (\<lambda>r. case r of Undef \<Rightarrow> Some Undef | Ret (dataLen, s) \<Rightarrow>
          if chunk = RIFF_DATA_SIG then gives (sint dataLen) s
          else Option.bind (skip_bytes (sint dataLen) s) (\<lambda>r. case r of Undef \<Rightarrow> Some Undef | Ret (_, s) \<Rightarrow> f s))) = Some r"
    have f: "stops_at x (f s)" if "StopLoop s = x" for s x using IH that by (auto simp: stops_at_def)
    have "next_with (readInt False s) (\<lambda>chunk s. next_with (readInt True s) (\<lambda>dataLen s.
        if chunk = RIFF_DATA_SIG then gives (sint dataLen) s else next_with (skip_bytes (sint dataLen) s) (\<lambda>_. f))) = Some r"
      using run unfolding next_with_def .
    moreover have "stops_at (StopLoop s) (next_with (readInt False s) (\<lambda>chunk s. next_with (readInt True s) (\<lambda>dataLen s.
        if chunk = RIFF_DATA_SIG then gives (sint dataLen) s else next_with (skip_bytes (sint dataLen) s) (\<lambda>_. f))))"
      by (intro stops_at_next stops_at_if stops_at_reads f) (simp_all)
    ultimately show "\<forall>a s'. r = Ret (a, s') \<longrightarrow> StopLoop s' = StopLoop s" by (simp add: stops_at_def)
  qed
  then show "StopLoop s = x \<Longrightarrow> stops_at x (find_data s)" by (auto simp: stops_at_def)
qed

lemma stops_at_tones: "StopLoop s = x \<Longrightarrow> stops_at x (rmd_tones v n old s)"
proof (induction n arbitrary: old s rule: less_induct)
  case (less n)
  then show ?case
    using less.IH [of "n - 4"] by (subst rmd_tones.simps) (auto simp: Let_def case_prod_beta split: option.split)
qed

lemma stops_at_once: "StopLoop s = x \<Longrightarrow> stops_at x (play_file_once name v looping file s)"
proof -
  assume s: "StopLoop s = x"
  have "stops_at x (playRSOFile name v looping file s)"
    using s unfolding playRSOFile_def
    by (intro stops_at_next stops_at_if stops_at_reads)
      (auto simp: Let_def case_prod_beta split: option.split intro!: stops_at_samples)
  moreover have "stops_at x (playRMDFile name v looping file s)"
    using s unfolding playRMDFile_def
    by (intro stops_at_next stops_at_reads)
      (auto simp: Let_def case_prod_beta split: option.split intro!: stops_at_tones)
  moreover have "stops_at x (playWAVFile name v looping file s)"
    using s unfolding playWAVFile_def Let_def
    by (intro stops_at_next stops_at_if stops_at_reads) (auto simp: Let_def split: option.split
        intro!: stops_at_next stops_at_reads stops_at_find stops_at_samples)
  ultimately show ?thesis by (simp add: play_file_once_def)
qed

text \<open>
  Playing a file in a loop never returns, whatever the file and the device: the loop ends when \<^verbatim>\<open>StopLoop\<close>
  is 1, and nothing in the program sets it.
\<close>

theorem looped_sound_never_returns:
  assumes "SoundInitialized s" "\<not> SoundMuted s" and "StopLoop s \<noteq> 1"
  shows "PlayFileEx name volume True file s \<noteq> gives () s'"
proof
  assume "PlayFileEx name volume True file s = gives () s'"
  then have run: "play_file_loop name volume True file s = gives () s'" using assms(1,2) by (simp add: PlayFileEx_def)
  define P where "P nm v l fl s r \<longleftrightarrow> (l \<longrightarrow> StopLoop s \<noteq> 1 \<longrightarrow> (\<nexists>s'. r = Ret ((), s')))"
    for nm :: string and v :: u8 and l and fl :: "(nat \<times> sound_file) option" and s :: SoundGlobals and r :: "(unit \<times> SoundGlobals) outcome"
  have "P name volume True file s (Ret ((), s'))"
  proof (rule play_file_loop.raw_induct [where P = P, OF _ run])
    fix f nm v l fl s r
    assume IH: "\<And>nm v l fl s r. f nm v l fl s = Some r \<Longrightarrow> P nm v l fl s r"
      and step: "Option.bind (play_file_once nm v l fl s) (\<lambda>r. case r of Undef \<Rightarrow> Some Undef
        | Ret (_, s) \<Rightarrow> if l \<and> StopLoop s \<noteq> 1 then f nm v l fl s else gives () s) = Some r"
    show "P nm v l fl s r"
      using step IH stops_at_once [of s "StopLoop s" nm v l fl]
      by (fastforce simp: P_def stops_at_def split: Option.bind_splits outcome.splits if_splits)
  qed
  then show False using assms(3) by (simp add: P_def)
qed

theorem looped_sound_never_returns_witness: "PlayFileEx ''a.rsf'' 100 True None (ready good_device) \<noteq> gives () s'"
  by (rule looped_sound_never_returns) (simp_all add: ready_def SoundInitialized_def)

section \<open>Melodies\<close>

text \<open>A melody file: the format, the number of bytes, four bytes that are skipped, and the tones.\<close>

definition rmd_file :: "u8 list \<Rightarrow> Tone list \<Rightarrow> u8 list" where
  "rmd_file skipped tones = be16 MELODY_FMT @ be16 (of_nat (4 * length tones)) @ skipped
    @ concat (map (\<lambda>(f, d). be16 f @ be16 d) tones)"

definition tone_events :: "u8 \<Rightarrow> Tone \<Rightarrow> sound_event list" where
  "tone_events volume = (\<lambda>(f, d). [Write ([SOUND_CMD_TONE, of_nat (unat volume * 13 div 100)] @ le16 f @ le16 d), Pause (unat d)])"

lemma tone_played:
  assumes "SoundInitialized s" "\<not> SoundMuted s" "responsive s"
  shows "pause (unat d) (PlayToneEx f d volume s) = s\<lparr>Busy := True, soundState := SOUND_STATE_TONE, attempts := attempts s + 1,
    events := events s @ tone_events volume (f, d)\<rparr>"
proof -
  obtain r where r: "answer s (attempts s) [SOUND_CMD_TONE, of_nat (unat volume * 13 div 100), ucast f, ucast (drop_bit 8 f),
      ucast d, ucast (drop_bit 8 d)] = Some r"
    using assms(3) by (auto simp: responsive_def)
  then show ?thesis
    using assms by (simp add: PlayToneEx_def WriteToSoundDevice_def Let_def pause_def tone_events_def le16_def)
qed

lemma rmd_tones_played:
  assumes "unread s = Some (concat (map (\<lambda>(f, d). be16 f @ be16 d) tones) @ rest)"
    and "SoundInitialized s" "\<not> SoundMuted s" "responsive s"
  shows "\<exists>s'. rmd_tones volume (4 * length tones) old s = gives () s'
    \<and> events s' = events s @ concat (map (tone_events volume) tones) \<and> unread s' = Some rest"
  using assms
proof (induction tones arbitrary: old s)
  case Nil
  then show ?case by (subst rmd_tones.simps) simp
next
  case (Cons t tones)
  obtain f d where t: "t = (f, d)" by (cases t)
  let ?rest = "concat (map (\<lambda>(f, d). be16 f @ be16 d) tones) @ rest"
  let ?s1 = "s\<lparr>unread := Some ?rest\<rparr>"
  let ?s2 = "?s1\<lparr>Busy := True, soundState := SOUND_STATE_TONE, attempts := attempts s + 1, events := events s @ tone_events volume t\<rparr>"
  let ?d = "(Some (ucast (drop_bit 8 d)), Some (ucast d))"
  have "unread s = Some (be16 f @ be16 d @ ?rest)" using Cons.prems(1) t by simp
  then have "rmd_tones volume (4 * length (t # tones)) old s
      = rmd_tones volume (4 * length tones) ?d (pause (unat d) (PlayToneEx f d volume ?s1))"
    by (subst rmd_tones.simps) (simp add: read_be16 [where x = f and rest = "be16 d @ ?rest"] read_be16 [where x = d and rest = ?rest]
        big_endian_be16 Let_def del: big_endian.simps)
  also have "pause (unat d) (PlayToneEx f d volume ?s1) = ?s2"
    using tone_played [of ?s1 d f volume] Cons.prems(2-4) by (simp add: t SoundInitialized_def responsive_def)
  finally have run: "rmd_tones volume (4 * length (t # tones)) old s = rmd_tones volume (4 * length tones) ?d ?s2" .
  have "\<exists>s'. rmd_tones volume (4 * length tones) ?d ?s2 = gives () s'
      \<and> events s' = events ?s2 @ concat (map (tone_events volume) tones) \<and> unread s' = Some rest"
    using Cons.prems(2-4) by (intro Cons.IH) (simp_all add: SoundInitialized_def responsive_def)
  then show ?case using run by simp
qed

text \<open>
  C29: Playing a melody file sends exactly its tones in their order, each with its frequency and its duration and
  followed by a pause of that duration, and then returns.
\<close>

theorem melody_played:
  assumes "can_play name s" "responsive s" "contains name ''.rmd''"
    and "content f = Some (rmd_file skipped tones)" "length skipped = 4" "8 \<le> st_size f"
    and "0 < length tones" "length tones < 16384"
  shows "\<exists>s'. PlayFileEx name volume False (Some (fd, f)) s = gives () s'
    \<and> events s' = events s @ concat (map (tone_events volume) tones)"
proof -
  let ?s = "s\<lparr>soundState := SOUND_STATE_IDLE, Busy := True, hSoundFile := int fd, unread := content f, SoundFileLength := st_size f\<rparr>"
  have start: "start_file name (Some (fd, f)) s = gives True ?s"
    using assms(1) by (simp add: start_file_def can_play_def)
  let ?n = "of_nat (4 * length tones) :: u16"
  have n: "unat ?n = 4 * length tones" using assms(8) by (intro unat_u16_small) simp
  have "?n \<noteq> 0" using n assms(7) by (metis mult_is_0 neq0_conv unsigned_0 zero_neq_numeral)
  moreover have "?n mod 4 = 0" using n by (simp add: unat_mod_distrib flip: unat_eq_zero)
  ultimately have ok: "(?n = 0 \<or> ?n mod 4 \<noteq> 0) = False" by simp
  obtain a b c d where sk: "skipped = [a, b, c, d]" using assms(5) by (auto simp: length_Suc_conv numeral_eq_Suc)
  let ?tones = "concat (map (\<lambda>(f, d). be16 f @ be16 d) tones)"
  let ?t = "?s\<lparr>soundState := SOUND_STATE_FILE, unread := Some ?tones\<rparr>"
  have "playRMDFile name volume False (Some (fd, f)) s = rmd_tones volume (4 * length tones) (Some c, Some d) ?t"
    using assms(4,6) ok
    by (simp add: playRMDFile_def start rmd_file_def read_be16 big_endian_be16 Let_def sk read_pair_bytes n file_state_def
        del: big_endian.simps of_nat_mult)
  moreover obtain s' where "rmd_tones volume (4 * length tones) (Some c, Some d) ?t = gives () s'"
      "events s' = events s @ concat (map (tone_events volume) tones)"
    using rmd_tones_played [of ?t tones "[]" volume "(Some c, Some d)"] assms(1,2)
    by (auto simp: can_play_def SoundInitialized_def responsive_def)
  ultimately show ?thesis
    using assms(1,3) by (simp add: PlayFileEx_def can_play_def play_file_turn play_file_once_def)
qed

theorem melody_played_witness:
  "\<exists>s'. PlayFileEx ''a.rmd'' 50 False (Some (5, \<lparr>st_size = 12, content = Some (rmd_file [0, 0, 0, 0] [(440, 1000)])\<rparr>)) (ready good_device)
    = gives () s' \<and> events s' = [Write [1, 6, 0xb8, 1, 0xe8, 3], Pause 1000]"
proof -
  have "can_play ''a.rmd'' (ready good_device)" "responsive (ready good_device)" "contains ''a.rmd'' ''.rmd''"
    by (simp_all add: can_play_def SoundInitialized_def ready_def FILENAME_SIZE_def responsive_def good_device_def)
  from melody_played [OF this, of "\<lparr>st_size = 12, content = Some (rmd_file [0, 0, 0, 0] [(440, 1000)])\<rparr>" "[0, 0, 0, 0]" "[(440, 1000)]" 50 5]
  moreover have "(440 :: u8) = 0xb8" "(1000 :: u8) = 0xe8" by simp_all
  then have "tone_events 50 (440, 1000) = [Write [1, 6, 0xb8, 1, 0xe8, 3], Pause 1000]"
    by (simp add: tone_events_def SOUND_CMD_TONE_def le16_def)
  ultimately show ?thesis by (simp add: ready_def)
qed

section \<open>Wave files\<close>

text \<open>
  A wave file of 8 bits, one channel, uncompressed, with other chunks before the data. Signatures are compared
  as they read, big-endian; sizes are little-endian.
\<close>

definition sig :: "u32 \<Rightarrow> u8 list" where
  "sig x = rev (le32 x)"

definition riff_chunk :: "u32 \<times> u8 list \<Rightarrow> u8 list" where
  "riff_chunk = (\<lambda>(id, bs). sig id @ le32 (of_nat (length bs)) @ bs)"

definition wav_file :: "u32 \<Rightarrow> (u32 \<times> u8 list) list \<Rightarrow> u8 list \<Rightarrow> u8 list" where
  "wav_file rate others data =
    (let chunks = concat (map riff_chunk others) @ riff_chunk (RIFF_DATA_SIG, data)
     in sig RIFF_RIFF_SIG @ le32 (of_nat (28 + length chunks)) @ sig RIFF_WAVE_SIG @ sig RIFF_FMT_SIG @ le32 16
          @ be16 RIFF_FMT_PCM @ be16 RIFF_FMT_1CHAN @ le32 rate @ le32 rate @ le16 1 @ be16 RIFF_FMT_8BITS @ chunks)"

lemma read_bytes_unread:
  "unread s = Some (xs @ ys) \<Longrightarrow> read_bytes (length xs) s = (Some xs, s\<lparr>unread := Some ys\<rparr>)"
proof (induction xs arbitrary: s)
  case (Cons x xs)
  then show ?case by (simp add: read_byte_def read_file_def Let_def)
qed simp

lemma readInt_bytes:
  "unread s = Some (le32 x @ ys) \<Longrightarrow> readInt True s = gives x (s\<lparr>unread := Some ys\<rparr>)"
  "unread s = Some (sig x @ ys) \<Longrightarrow> readInt False s = gives x (s\<lparr>unread := Some ys\<rparr>)"
  using read_bytes_unread [of s "le32 x" ys] read_bytes_unread [of s "sig x" ys] get32_le32 [of "[]" x "[]"]
  by (simp_all add: readInt_def sig_def)

lemma readShort_bytes:
  "unread s = Some (le16 x @ ys) \<Longrightarrow> readShort True s = gives x (s\<lparr>unread := Some ys\<rparr>)"
  "unread s = Some (be16 x @ ys) \<Longrightarrow> readShort False s = gives x (s\<lparr>unread := Some ys\<rparr>)"
proof -
  have "be16 x = rev (le16 x)" by (simp add: be16_def le16_def)
  then show "unread s = Some (le16 x @ ys) \<Longrightarrow> readShort True s = gives x (s\<lparr>unread := Some ys\<rparr>)"
    "unread s = Some (be16 x @ ys) \<Longrightarrow> readShort False s = gives x (s\<lparr>unread := Some ys\<rparr>)"
    using read_bytes_unread [of s "le16 x" ys] read_bytes_unread [of s "be16 x" ys] get16_le16 [of "[]" x "[]"]
    by (simp_all add: readShort_def)
qed

lemma sint_of_small: "n < 2 ^ 31 \<Longrightarrow> sint (of_nat n :: u32) = int n"
  by (simp add: sint_uint unsigned_of_nat take_bit_nat_eq_self signed_take_bit_int_eq_self)

lemma find_data_chunks:
  assumes "unread s = Some (concat (map riff_chunk others) @ riff_chunk (RIFF_DATA_SIG, data) @ ys)"
    and "\<And>id bs. (id, bs) \<in> set others \<Longrightarrow> id \<noteq> RIFF_DATA_SIG \<and> length bs < 2 ^ 31" and "length data < 2 ^ 31"
  shows "find_data s = gives (int (length data)) (s\<lparr>unread := Some (data @ ys)\<rparr>)"
  using assms(1,2)
proof (induction others arbitrary: s)
  case Nil
  then show ?case
    using sint_of_small [OF assms(3)]
    by (subst find_data_turn) (simp add: riff_chunk_def readInt_bytes [where x = RIFF_DATA_SIG] readInt_bytes)
next
  case (Cons c others)
  obtain id bs where c: "c = (id, bs)" by (cases c)
  let ?rest = "concat (map riff_chunk others) @ riff_chunk (RIFF_DATA_SIG, data) @ ys"
  have c_ok: "id \<noteq> RIFF_DATA_SIG" "length bs < 2 ^ 31" using Cons.prems(2) [of id bs] c by auto
  have others: "\<And>i b. (i, b) \<in> set others \<Longrightarrow> i \<noteq> RIFF_DATA_SIG \<and> length b < 2 ^ 31" using Cons.prems(2) by auto
  have "unread s = Some (sig id @ le32 (of_nat (length bs)) @ bs @ ?rest)"
    using Cons.prems(1) c by (simp add: riff_chunk_def)
  then have "find_data s = find_data (s\<lparr>unread := Some ?rest\<rparr>)"
    using c_ok sint_of_small [OF c_ok(2)]
    by (subst find_data_turn) (simp add: readInt_bytes skip_bytes_def int32_def)
  also have "\<dots> = gives (int (length data)) (s\<lparr>unread := Some (data @ ys)\<rparr>)"
    using Cons.IH [of "s\<lparr>unread := Some ?rest\<rparr>"] others by simp
  finally show ?case .
qed

lemma playWAVFile_reads:
  assumes "can_play name s" "content f = Some (wav_file rate others data)" "44 \<le> st_size f"
    and "\<And>id bs. (id, bs) \<in> set others \<Longrightarrow> id \<noteq> RIFF_DATA_SIG \<and> length bs < 2 ^ 31" and "length data < 2 ^ 31"
  shows "\<exists>s1. playWAVFile name volume looping (Some (fd, f)) s = playSoundSamplesFromStream s1
    \<and> set_up volume SOUND_FILE_FORMAT_RAW_SOUND data s s1"
proof -
  let ?s = "s\<lparr>soundState := SOUND_STATE_IDLE, Busy := True, hSoundFile := int fd, SoundFileLength := st_size f\<rparr>"
  let ?chunks = "concat (map riff_chunk others) @ riff_chunk (RIFF_DATA_SIG, data)"
  have start: "start_file name (Some (fd, f)) s = gives True (?s\<lparr>unread := content f\<rparr>)"
    using assms(1) by (simp add: start_file_def can_play_def)
  have skip: "skip_bytes 0 t = gives () t" if "unread t = Some bs" for t bs
    using that by (simp add: skip_bytes_def int32_def)
  have data: "find_data (?s\<lparr>unread := Some ?chunks\<rparr>) = gives (int (length data)) (?s\<lparr>unread := Some data\<rparr>)"
    using find_data_chunks [of "?s\<lparr>unread := Some ?chunks\<rparr>" others data "[]"] assms(4,5) by simp
  let ?t = "?s\<lparr>unread := Some data, SoundDataLength := int (length data), SoundFileFormat := SOUND_FILE_FORMAT_RAW_SOUND,
      soundState := SOUND_STATE_SETUP_FILE\<rparr>"
  let ?u = "(set_volume volume ?t)\<lparr>soundState := file_state looping\<rparr>"
  have "int32 (sint (16 :: u32) - 16) = Some 0" by (simp add: int32_def)
  then have "playWAVFile name volume looping (Some (fd, f)) s = playSoundSamplesFromStream ?u"
    using assms(2,3) skip
    by (simp add: playWAVFile_def start wav_file_def Let_def readInt_bytes readShort_bytes RIFF_HDR_SIZE_def data)
  moreover have "responsive ?t = responsive s" by (simp add: responsive_def)
  then have "set_up volume SOUND_FILE_FORMAT_RAW_SOUND data s ?u"
    using assms(1) set_volume_sent [of ?t volume]
    by (simp add: set_up_def can_play_def SOUND_FILE_FORMAT_RAW_SOUND_def SOUND_FILE_FORMAT_ADPCM_SOUND_def)
  ultimately show ?thesis by blast
qed

text \<open>
  C28: Playing such a wave file, whatever other chunks are in it, sends the volume, delivers samples in strings
  of at most 250 bytes, and returns, whenever the device takes every string in the end (\<open>takes_samples\<close>: after
  any number of refusals with the answer 0, each followed by a pause of a millisecond and the same string
  again). If the device answers with the number of bytes without the command, as the code assumes, exactly
  all samples are delivered, unless one is left for the last string; if it counts the command, all but as many at
  the end as \<open>length data div 251\<close>.
\<close>

theorem wave_played:
  assumes "can_play name s" "takes_samples counted s" "\<not> contains name ''.rmd''" "contains name ''.wav''"
    and "content f = Some (wav_file rate others data)" "44 \<le> st_size f"
    and "\<And>id bs. (id, bs) \<in> set others \<Longrightarrow> id \<noteq> RIFF_DATA_SIG \<and> length bs < 2 ^ 31"
    and "length data < 2 ^ 31" "counted \<or> length data mod 250 \<noteq> 1"
  shows "\<exists>s' es. PlayFileEx name volume False (Some (fd, f)) s = gives () s'
    \<and> events s' = events s @ Write [SOUND_CMD_PLAY, of_nat (unat volume * 8 div 100)] # es
    \<and> delivers (answer s) (Suc (attempts s)) (map (Cons SOUND_CMD_SERVICE)
        (pieces 250 (if counted then take (length data - length data div 251) data else data))) es"
proof -
  obtain s1 where s1: "playWAVFile name volume False (Some (fd, f)) s = playSoundSamplesFromStream s1"
      "set_up volume SOUND_FILE_FORMAT_RAW_SOUND data s s1"
    using playWAVFile_reads [OF assms(1,5-8)] by blast
  have r: "responsive s" using assms(2) by (simp add: takes_samples_def)
  have "SoundFileFormat s1 \<noteq> SOUND_FILE_FORMAT_ADPCM_SOUND" "takes_samples counted s1" "length (SoundData s1) = 253"
      "nat (SoundDataLength s1) = length data" "unread s1 = Some data"
    using assms(2) s1(2) by (simp_all add: takes_samples_def responsive_def set_up_def SOUND_FILE_FORMAT_RAW_SOUND_def SOUND_FILE_FORMAT_ADPCM_SOUND_def)
  from raw_played [OF this le_refl] assms(9) obtain s' where s': "playSoundSamplesFromStream s1 = gives () s'"
      "sends s1 (map (Cons SOUND_CMD_SERVICE) (pieces 250 (take (played counted (length data)) data))) s'" by blast
  have t: "take (played counted (length data)) data = (if counted then take (length data - length data div 251) data else data)"
    by (simp add: played_def)
  from sends_delivers [OF s'(2)] show ?thesis
    using s1 s'(1) r assms(1,3,4) unfolding t
    by (auto simp: PlayFileEx_def can_play_def play_file_turn play_file_once_def set_up_def)
qed

theorem wave_played_witness:
  "\<exists>s'. PlayFileEx ''a.wav'' 50 False (Some (5, \<lparr>st_size = 60, content = Some (wav_file 8000 [(1, [7, 7])] [1, 2, 3])\<rparr>)) (ready good_device)
    = gives () s' \<and> events s' = [Write [2, 4], Write [4, 1, 2, 3]]"
proof -
  have a: "can_play ''a.wav'' (ready good_device)" "takes_samples False (ready good_device)" "\<not> contains ''a.wav'' ''.rmd''"
      "contains ''a.wav'' ''.wav''"
    by (simp_all add: can_play_witness device_witness)
  let ?f = "\<lparr>st_size = 60, content = Some (wav_file 8000 [(1, [7, 7])] [1, 2, 3])\<rparr>"
  have b: "\<And>id bs. (id, bs) \<in> set [(1 :: u32, [7, 7 :: u8])] \<Longrightarrow> id \<noteq> RIFF_DATA_SIG \<and> length bs < 2 ^ 31"
    by (simp add: RIFF_DATA_SIG_def)
  have "pieces 250 [1, 2, 3 :: u8] = [[1, 2, 3]]" by (simp add: pieces_step)
  with wave_played [OF a _ _ b, where f = ?f and rate = 8000 and others = "[(1, [7, 7])]" and data = "[1, 2, 3]" and volume = 50 and fd = 5]
  obtain s' es where "PlayFileEx ''a.wav'' 50 False (Some (5, ?f)) (ready good_device) = gives () s'"
      "events s' = Write [2, 4] # es" "delivers good_device 1 [[4, 1, 2, 3]] es"
    by (auto simp: ready_def SOUND_CMD_PLAY_def SOUND_CMD_SERVICE_def)
  then show ?thesis by (simp add: delivers_Cons delivers_Nil good_device_def)
qed

text \<open>
  C30: As long as the device refuses all samples with the answer 0, which according to a comment in
  \<^verbatim>\<open>ev3_sound.c\<close> is what it usually answers, playing a wave file or a sound file of any format with at least
  one byte of data never returns: the code has no limit for its attempts.
\<close>

theorem refused_samples_never_end:
  assumes "can_play name s" "\<forall>n p. answer s n (SOUND_CMD_SERVICE # p) = Some 0" "\<not> contains name ''.rmd''" "data \<noteq> []"
    and "if contains name ''.wav''
      then content f = Some (wav_file rate others data) \<and> 44 \<le> st_size f \<and> length data < 2 ^ 31
        \<and> (\<forall>(id, bs) \<in> set others. id \<noteq> RIFF_DATA_SIG \<and> length bs < 2 ^ 31)
      else content f = Some (rso_file format rate' mode data) \<and> length data < 65536"
  shows "PlayFileEx name volume looping (Some (fd, f)) s = None"
proof -
  have "\<exists>s1 format. play_file_once name volume looping (Some (fd, f)) s = playSoundSamplesFromStream s1 \<and> set_up volume format data s s1"
    using playWAVFile_reads [OF assms(1), of f rate others data volume looping fd]
      playRSOFile_reads [OF assms(1), of f format rate' mode data volume looping fd] assms(3,5)
    by (fastforce simp: play_file_once_def split: if_splits)
  then obtain s1 format where s1: "play_file_once name volume looping (Some (fd, f)) s = playSoundSamplesFromStream s1"
      "set_up volume format data s s1" by blast
  have "playSoundSamplesFromStream s1 = None"
    by (rule samples_refused [where n = "length data" and bs = data]) (use s1(2) assms(2,4) in \<open>auto simp: set_up_def\<close>)
  then show ?thesis using s1(1) assms(1) by (simp add: PlayFileEx_def can_play_def play_file_turn)
qed

theorem refused_samples_never_end_witness:
  "PlayFile ''a.rsf'' (Some (5, \<lparr>st_size = 10, content = Some (rso_file SOUND_FILE_FORMAT_ADPCM_SOUND 8000 0 [0x17, 0x80])\<rparr>))
    (ready (\<lambda>_ _. Some 0)) = None"
  unfolding PlayFile_def
  by (rule refused_samples_never_end [OF can_play_witness(1), where data = "[0x17, 0x80]" and format = SOUND_FILE_FORMAT_ADPCM_SOUND
      and rate' = 8000 and mode = 0]) (simp_all add: ready_def)

section \<open>System sounds\<close>

lemma play_tones_events:
  assumes "SoundInitialized s" "\<not> SoundMuted s" "responsive s"
  shows "\<exists>s'. play_tones tones (length tones) s = gives () s' \<and> events s' = events s @ concat (map (tone_events 100) tones)"
  using assms
proof (induction tones arbitrary: s)
  case (Cons t tones)
  obtain f d where t: "t = (f, d)" by (cases t)
  let ?s = "s\<lparr>Busy := True, soundState := SOUND_STATE_TONE, attempts := attempts s + 1, events := events s @ tone_events 100 t\<rparr>"
  have "pause (unat d) (PlayTone f d s) = ?s" using tone_played [OF Cons.prems] t by (simp add: PlayTone_def)
  moreover have "\<exists>s'. play_tones tones (length tones) ?s = gives () s' \<and> events s' = events ?s @ concat (map (tone_events 100) tones)"
    using Cons.prems by (intro Cons.IH) (simp_all add: SoundInitialized_def responsive_def)
  ultimately show ?case by (simp add: t)
qed simp

text \<open>A closed or muted module stays silent.\<close>

lemma muted_silent:
  assumes "\<not> SoundInitialized s \<or> SoundMuted s"
  shows "PlayToneEx f d v s = s" "PlaySound c s = s" "PlayTonesEx tones n s = gives () s" "PlayFileEx name v l file s = gives () s"
  using assms by (auto simp: PlayToneEx_def PlaySound_def PlayTonesEx_def PlayFileEx_def)

text \<open>Stopping ends what plays: the last string tells the device so, and the file is closed.\<close>

lemma stop_breaks:
  assumes "SoundInitialized s" and "responsive s"
  shows "last (written (StopSound s)) = [SOUND_CMD_BREAK] \<and> SoundState (StopSound s) = SOUND_STATE_IDLE \<and> hSoundFile (StopSound s) < 0"
proof -
  define t where "t = (if hSoundFile s \<ge> 0 then s\<lparr>soundState := SOUND_STATE_IDLE, hSoundFile := - 1\<rparr> else s\<lparr>soundState := SOUND_STATE_IDLE\<rparr>)"
  have stop: "StopSound s = snd (WriteToSoundDevice [SOUND_CMD_BREAK] t)" using assms(1) by (simp add: StopSound_def Let_def t_def)
  have "answer t (attempts t) [SOUND_CMD_BREAK] \<noteq> None" using assms(2) by (simp add: t_def responsive_def)
  then have "last (written (StopSound s)) = [SOUND_CMD_BREAK]" by (simp add: stop snd_dev.log_last)
  then show ?thesis
    using assms(1) by (auto simp: stop WriteToSoundDevice_def Let_def SoundState_def SoundInitialized_def t_def split: option.split)
qed

end
