(* ===== verification/Spec2Isabelle.thy ===== *)
theory Spec2Isabelle
  imports Crc32 DirCmds Bootloader Handles Upload Download VmExec Scripted Tunnel Uf2Trip SerialPort Tcp Bridge Program
    LcdText EllipseFill Motors Buttons SoundPlay
begin

text \<open>
  Verification development for \<^verbatim>\<open>ev3duder\<close>, the command line tool that talks to the firmware of a
  LEGO EV3 brick over USB HID, a Bluetooth serial port or TCP, and for the C library in
  \<^verbatim>\<open>src/util/cat\<close> for programs on the brick, with which \<^verbatim>\<open>cat\<close> writes to the brick's display.

  \<^bold>\<open>The host program.\<close> \<^verbatim>\<open>main.c\<close> parses the command line, opens one transport and stores its functions in
  the global function pointers of \<^verbatim>\<open>ev3_io.h\<close>; it then calls one command function. A command builds
  a request in a packed struct of \<^verbatim>\<open>packets.h\<close>, hands its memory to \<^verbatim>\<open>ev3_write\<close>, reads the reply
  into another packed struct with \<^verbatim>\<open>ev3_read_timeout\<close>, and judges the status byte of the reply.
  The transports are the functions of \<^verbatim>\<open>bt-unix.c\<close> and \<^verbatim>\<open>tcp.c\<close> and those of the USB library.

    \<^item> \<^verbatim>\<open>Prelude\<close>: little-endian memory images, buffers, C strings, cutting lists into pieces.
    \<^item> \<^verbatim>\<open>World\<close>: the state every command works on (the transport, \<^verbatim>\<open>errmsg\<close>, \<^verbatim>\<open>errno\<close>, the standard
      streams) and the calls of the transport, with the three ways a run can end: a return value, an
      operation C leaves undefined, or no end at all. It also holds the loop combinator and its
      induction and termination rules, and the contract \<open>emits\<close> on what a run sends.
    \<^item> \<^verbatim>\<open>Packets\<close>: \<^verbatim>\<open>packets.h\<close> and \<^verbatim>\<open>packets.c\<close>, each struct as a record with its memory image.
    \<^item> \<^verbatim>\<open>Exchange\<close>: the contract of commands that send one request and judge one reply, as the
      locales \<open>request_reply\<close>, \<open>judged_request\<close> and \<open>plain_command\<close>.
    \<^item> \<^verbatim>\<open>Scripted\<close>: concrete transports for the witnesses and the assumption that one answers.
    \<^item> \<^verbatim>\<open>Crc32\<close>: \<^verbatim>\<open>crc32.c\<close>; the table against the bit-serial definition, blocks, burst errors.
    \<^item> \<^verbatim>\<open>DirCmds\<close>: \<^verbatim>\<open>mkdir.c\<close>, \<^verbatim>\<open>rm.c\<close>.
    \<^item> \<^verbatim>\<open>Bootloader\<close>: \<^verbatim>\<open>bl_enter.c\<close>, \<^verbatim>\<open>bl_exit.c\<close>, \<^verbatim>\<open>bl_info.c\<close>, \<^verbatim>\<open>bl_install.c\<close>: what a successful
      installation has sent, and that the brick is restarted only after the checksums agreed.
    \<^item> \<^verbatim>\<open>Handles\<close>: \<^verbatim>\<open>closehnd.c\<close>. \<^verbatim>\<open>Upload\<close>: \<^verbatim>\<open>up.c\<close>. \<^verbatim>\<open>Download\<close>: \<^verbatim>\<open>dl.c\<close> and \<^verbatim>\<open>ls.c\<close>: what went over
      the transport when they succeed, which loops end and which need not.
    \<^item> \<^verbatim>\<open>VmExec\<close>: \<^verbatim>\<open>vmexec.c\<close>, \<^verbatim>\<open>mkrbf.c\<close>, \<^verbatim>\<open>run.c\<close>.
    \<^item> \<^verbatim>\<open>Tunnel\<close>: \<^verbatim>\<open>tunnel.c\<close>, \<^verbatim>\<open>send.c\<close>, \<^verbatim>\<open>listen.c\<close>: hexadecimal lines to frames, and back from a dump.
    \<^item> \<^verbatim>\<open>Files\<close>: the directories and files of the host. \<^verbatim>\<open>Uf2\<close> and \<^verbatim>\<open>Uf2Trip\<close>: \<^verbatim>\<open>uf2.h\<close>, \<^verbatim>\<open>uf2_helper.c\<close>,
      \<^verbatim>\<open>uf2_pack.c\<close>, \<^verbatim>\<open>uf2_unpack.c\<close>: the round trip, confinement, and what is lost beyond 64 MiB.
    \<^item> \<^verbatim>\<open>Serial\<close> and \<^verbatim>\<open>SerialPort\<close>: \<^verbatim>\<open>bt-unix.c\<close>; packets over a stream, opening and closing the port.
    \<^item> \<^verbatim>\<open>Tcp\<close>: \<^verbatim>\<open>tcp.c\<close>, finding and meeting a brick. \<^verbatim>\<open>Info\<close>: \<^verbatim>\<open>info.c\<close>.
    \<^item> \<^verbatim>\<open>Bridge\<close>: \<^verbatim>\<open>bridge.c\<close>, the server that makes a brick reachable over the network.
    \<^item> \<^verbatim>\<open>Cmdline\<close> and \<^verbatim>\<open>Program\<close>: \<^verbatim>\<open>main.c\<close> and \<^verbatim>\<open>funcs.h\<close>; the switches, the choice of a transport, the
      commands with the files they open, the exit status.

  \<^bold>\<open>The library on the brick.\<close> \<^verbatim>\<open>ev3_timer.c\<close> has a signal handler that runs callbacks; \<^verbatim>\<open>ev3_lcd.c\<close>
  registers one that copies its display buffer to the mapped frame buffer when it was changed. All
  drawing goes to the display buffer. \<^verbatim>\<open>cat.c\<close> prints its input with \<^verbatim>\<open>LcdPrintf\<close>.

    \<^item> \<^verbatim>\<open>Timers\<close>: \<^verbatim>\<open>ev3_timer.c\<close> and \<^verbatim>\<open>ev3_command.c\<close>: the stop watches (locale \<open>stop_watch\<close>, with the three
      resolutions as interpretations), waiting, and how often each callback is called.
    \<^item> \<^verbatim>\<open>Lcd\<close>: the display buffer, pixels, pictures and bitmaps, and the conversion to and from the three
      pixels per byte of the hardware. The buffer is abstracted to the predicate \<open>canvas\<close> of its dark
      pixels, and \<open>paints\<close> and \<open>confined\<close> are the contracts of operations that draw.
    \<^item> \<^verbatim>\<open>LcdDev\<close>: the state \<open>LCDGlobals\<close>, opening, refreshing, scrolling, filling, the image files.
    \<^item> \<^verbatim>\<open>LcdText\<close>: fonts, characters, \<^verbatim>\<open>LcdPrintf\<close> and its cursor, and \<^verbatim>\<open>cat.c\<close>.
    \<^item> \<^verbatim>\<open>Draw\<close>: the functions \<^verbatim>\<open>Display...\<close>, \<^verbatim>\<open>Cmd...\<close> and \<^verbatim>\<open>...OutEx\<close>. \<^verbatim>\<open>Paint\<close>: which pixels regions, straight
      lines and rectangles are. \<^verbatim>\<open>Bresenham\<close>: slanted lines. \<^verbatim>\<open>Ellipse\<close> and \<^verbatim>\<open>EllipseFill\<close>: outlines of ellipses
      and filled ones, each with the invariant of the loop and its end.
    \<^item> \<^verbatim>\<open>Motors\<close>: \<^verbatim>\<open>ev3_output.c\<close>: the commands as strings for the device, and that every reachable state
      of the module has sent valid ones only.
    \<^item> \<^verbatim>\<open>Buttons\<close>: \<^verbatim>\<open>ev3_button.c\<close>: debouncing, the waits and what they report, the light and its warning.
    \<^item> \<^verbatim>\<open>Sound\<close>, \<^verbatim>\<open>SoundDecoder\<close>, \<^verbatim>\<open>SoundPlay\<close>: \<^verbatim>\<open>ev3_sound.c\<close>: tones, melodies, wave and sound files; the
      ADPCM decoder against decoding in ideal arithmetic, and what the device gets of a file.
    \<^item> \<^verbatim>\<open>Devices\<close>: the contract \<open>device\<close> of writing strings to a device. Its interpretations \<open>pwm\<close>, \<open>led\<close> and
      \<open>snd_dev\<close> are on the write functions of the three modules, whose invariants rest on its facts.

    In these three the device and the file are functions or lists in the state, and the results are the
    \<open>effect\<close>s of \<^verbatim>\<open>World\<close>: a value with the new state, undefined behaviour, or no return.

  \<^bold>\<open>Loops.\<close> Loops whose bound is not in the code are \<open>partial_function\<close>s, so not returning is the
  value \<open>None\<close>; that they return is proved where it is so. No fuel is used.

  \<^bold>\<open>Undefined behaviour.\<close> A load or store outside of a buffer, and in \<^verbatim>\<open>Draw\<close> the overflow of an \<^verbatim>\<open>int\<close>, is a
  value of its own in the result (\<open>None\<close>, or the outcome for it in \<^verbatim>\<open>World\<close>); theorems that a function
  returns therefore also say that it does nothing of the kind.

  \<^bold>\<open>Not modelled.\<close> The USB library \<^verbatim>\<open>hidapi\<close> is a git submodule without its sources here: its functions are
  arguments. \<^verbatim>\<open>bt-win.c\<close> and the Windows branches only wrap calls of the Windows API. \<^verbatim>\<open>src/cat.c\<close> is not
  compiled. \<^verbatim>\<open>bt_error\<close> and \<^verbatim>\<open>tcp_close\<close> format a message and close sockets. Of the library on the brick the
  data of the fonts and icons are arguments; the formatting of \<^verbatim>\<open>vasprintf\<close>, and \<^verbatim>\<open>LcdTextf\<close>, which only
  adds it to \<^verbatim>\<open>LcdText\<close>, are left out, as is \<^verbatim>\<open>run\<close> of \<^verbatim>\<open>cat.c\<close>, which is not called. \<^verbatim>\<open>HardwareVersion\<close>
  parses a floating-point number and is left out; so are the functions of \<^verbatim>\<open>ev3_output.c\<close> that are
  commented out, and \<^verbatim>\<open>lcdcat.c\<close>, a test program that is not in the \<^verbatim>\<open>Makefile\<close>.
\<close>

end
